(* ===== verification/Prelude.thy ===== *)
theory Prelude
  imports Main "HOL-Library.Word"
begin

text \<open>
  What every component of the storage engine shares: machine integers and byte strings,
  Go's error values (sentinels, wrapping and joining), contexts and the script of faults the
  environment injects, byte slices, and the little-endian codec of \<^verbatim>\<open>encoding/binary\<close>.
  A Go slice expression \<^verbatim>\<open>b[i:j]\<close> is \<open>slice i j b\<close>; a buffer that Go allocates zeroed and
  fills by offset is written as the concatenation of its fields, the untouched bytes being
  \<open>replicate n 0\<close>.
\<close>

unbundle bit_operations_syntax

subsection \<open>Machine integers and bytes\<close>

type_synonym u8 = "8 word"
type_synonym u16 = "16 word"
type_synonym u32 = "32 word"
type_synonym u64 = "64 word"
type_synonym bytes = "u8 list"

abbreviation MaxUint64 :: u64 where
  "MaxUint64 \<equiv> - 1"

named_theorems codec_simps \<open>field lengths and field reads of the byte formats\<close>
named_theorems go_simps \<open>facts on Go's error values and environment scripts\<close>

subsection \<open>Errors\<close>

text \<open>
  The sentinel errors of the storage packages. \<open>EOF\<close> stands for \<^verbatim>\<open>io.EOF\<close> and
  \<^verbatim>\<open>io.ErrUnexpectedEOF\<close>, \<open>ErrExist\<close> and \<open>ErrNotExist\<close> for \<^verbatim>\<open>os.ErrExist\<close> and
  \<^verbatim>\<open>os.ErrNotExist\<close>, \<open>ErrFileClosed\<close> for
  \<^verbatim>\<open>os.ErrClosed\<close>.
\<close>

datatype sentinel =
    ErrWALNotFound | ErrWALExists | ErrWALCorrupt | ErrWALClosed | ErrWALReadOnly
  | ErrWALPoisoned | ErrWALRecordTooLarge | ErrUnsupportedFormatVersion
  | ErrSnapshotCorrupt | ErrIDMapCorrupt | ErrSegmentCorrupt | ErrSegmentSealed
  | ErrSegmentFull | ErrSegmentNotFound | ErrDocumentNotFound
  | ErrPrimaryKeyExists | ErrPrimaryKeyNotFound | ErrWriteEnginePoisoned
  | ErrCollectionClosed | ErrCollectionCorrupt | ErrReadOnly
  | ErrManifestNotFound | ErrManifestCorrupt | ErrManifestConflict | ErrManifestExists
  | EOF | ErrExist | ErrNotExist | ErrFileClosed
  | ErrDimensionMismatch | ErrEmptyVector | ErrNonFiniteVector | ErrInvalidSparseOrder | ErrInvalidTopK | ErrInvalidRadius
  | ErrInvalidDimension | ErrDuplicateKey | ErrBuilderClosed | ErrDenseCapacity | ErrQuantizationOverflow
  | ErrInvalidGroupCount | ErrInvalidGroupTopK | ErrNilGroupResolver

text \<open>
  An error value: a sentinel, a fresh \<^verbatim>\<open>errors.New\<close>, a \<^verbatim>\<open>fmt.Errorf\<close> whose \<^verbatim>\<open>%w\<close> verbs wrap a
  list of errors (the format's remaining text is kept, its other arguments are not), or an
  \<^verbatim>\<open>errors.Join\<close>.
\<close>

datatype error =
    Sentinel sentinel
  | ErrMsg string
  | ErrWrap string "error list"
  | ErrJoin "error list"

abbreviation wrapf :: "sentinel \<Rightarrow> string \<Rightarrow> error" where
  "wrapf s msg \<equiv> ErrWrap msg [Sentinel s]"

text \<open>\<^verbatim>\<open>errors.Is\<close> against a sentinel, and \<^verbatim>\<open>errors.Join\<close>, which drops nil errors.\<close>

fun errors_Is :: "error \<Rightarrow> sentinel \<Rightarrow> bool" where
  "errors_Is (Sentinel t) s = (t = s)"
| "errors_Is (ErrMsg m) s = False"
| "errors_Is (ErrWrap m es) s = list_ex (\<lambda>e. errors_Is e s) es"
| "errors_Is (ErrJoin es) s = list_ex (\<lambda>e. errors_Is e s) es"

definition errors_Join :: "error option list \<Rightarrow> error option" where
  "errors_Join es =
     (let ks = List.map_filter id es in if ks = [] then None else Some (ErrJoin ks))"

lemma errors_Join_Some: "errors_Join (Some e # es) = Some (ErrJoin (e # List.map_filter id es))"
  by (simp add: errors_Join_def List.map_filter_def)

lemma errors_Join_None [go_simps]: "errors_Join es = None \<longleftrightarrow> (\<forall>e \<in> set es. e = None)"
  by (auto simp: errors_Join_def List.map_filter_def Let_def filter_empty_conv split: if_splits)

lemma errors_Join_Is:
  "errors_Join es = Some e \<Longrightarrow> Some e' \<in> set es \<Longrightarrow> errors_Is e' s \<Longrightarrow> errors_Is e s"
  by (force simp: errors_Join_def List.map_filter_def Let_def list_ex_iff split: if_splits)

subsection \<open>Contexts and the environment\<close>

text \<open>
  A \<^verbatim>\<open>context.Context\<close> is nil, cancellable, or detached by \<^verbatim>\<open>context.WithoutCancel\<close>. When a
  cancellable context answers, and which writes, syncs and other operating-system calls
  (stat, open, truncate, close, directory sync) fail, is decided by the environment: a script
  with one entry per call, in call order; an exhausted script answers \<open>None\<close> (no cancellation,
  no fault). A failed write reports how many bytes reached the file.
\<close>

datatype ctx = NilCtx | Ctx | DetachedCtx

record env =
  ctxErrs :: "error option list"
  writeFaults :: "(nat \<times> error) option list"
  syncFaults :: "error option list"
  osFaults :: "error option list"

fun pop :: "'a option list \<Rightarrow> 'a option \<times> 'a option list" where
  "pop [] = (None, [])"
| "pop (x # xs) = (x, xs)"

definition ctx_Err :: "ctx \<Rightarrow> env \<Rightarrow> error option \<times> env" where
  "ctx_Err c env =
     (case c of
        Ctx \<Rightarrow> (case pop (ctxErrs env) of (r, rest) \<Rightarrow> (r, env\<lparr>ctxErrs := rest\<rparr>))
      | _ \<Rightarrow> (None, env))"

definition os_call :: "env \<Rightarrow> error option \<times> env" where
  "os_call env = (case pop (osFaults env) of (r, rest) \<Rightarrow> (r, env\<lparr>osFaults := rest\<rparr>))"

definition sync_call :: "env \<Rightarrow> error option \<times> env" where
  "sync_call env = (case pop (syncFaults env) of (r, rest) \<Rightarrow> (r, env\<lparr>syncFaults := rest\<rparr>))"

text \<open>
  \<^verbatim>\<open>WriteFullAt\<close> of \<^verbatim>\<open>internal/ailego/io/file.go\<close> on a file's contents: the bytes land at the offset
  (a gap reads as zeros), or the reported prefix of them does.
\<close>

definition write_at :: "bytes \<Rightarrow> nat \<Rightarrow> bytes \<Rightarrow> bytes" where
  "write_at f off bs = take off f @ replicate (off - length f) 0 @ bs @ drop (off + length bs) f"

definition WriteFullAt :: "bytes \<Rightarrow> bytes \<Rightarrow> nat \<Rightarrow> env \<Rightarrow> error option \<times> bytes \<times> env" where
  "WriteFullAt f src off env =
     (if src = [] then (None, f, env)
      else case pop (writeFaults env) of
        (None, rest) \<Rightarrow> (None, write_at f off src, env\<lparr>writeFaults := rest\<rparr>)
      | (Some (n, err), rest) \<Rightarrow>
          (Some err, write_at f off (take n src), env\<lparr>writeFaults := rest\<rparr>))"

definition WithoutCancel :: "ctx \<Rightarrow> ctx" where
  "WithoutCancel c = DetachedCtx"

definition calm :: env where
  "calm = \<lparr>ctxErrs = [], writeFaults = [], syncFaults = [], osFaults = []\<rparr>"

text \<open>An environment in which no call is cancelled and no write or sync fails.\<close>

definition quiet :: "env \<Rightarrow> bool" where
  "quiet env \<longleftrightarrow> (\<forall>x \<in> set (ctxErrs env). x = None) \<and> (\<forall>x \<in> set (writeFaults env). x = None)
     \<and> (\<forall>x \<in> set (syncFaults env). x = None) \<and> (\<forall>x \<in> set (osFaults env). x = None)"

lemma pop_None: "(\<forall>x \<in> set xs. x = None) \<Longrightarrow> fst (pop xs) = None \<and> (\<forall>x \<in> set (snd (pop xs)). x = None)"
  by (cases xs) auto

lemma ctx_Err_detached [simp]: "ctx_Err DetachedCtx env = (None, env)"
  by (simp add: ctx_Err_def)

lemma ctx_Err_WithoutCancel [simp]: "ctx_Err (WithoutCancel c) env = (None, env)"
  by (simp add: WithoutCancel_def)

lemma WithoutCancel_not_nil [simp]: "WithoutCancel c \<noteq> NilCtx"
  by (simp add: WithoutCancel_def)

lemma quiet_calm [simp]: "quiet calm"
  by (simp add: quiet_def calm_def)

lemma ctx_Err_quiet: "quiet env \<Longrightarrow> fst (ctx_Err c env) = None \<and> quiet (snd (ctx_Err c env))"
  using pop_None [of "ctxErrs env"]
  by (auto simp: ctx_Err_def quiet_def split: ctx.splits prod.splits)

lemma ctx_Err_scripts [go_simps]:
  "ctx_Err c env = (r, env') \<Longrightarrow> writeFaults env' = writeFaults env
     \<and> syncFaults env' = syncFaults env \<and> osFaults env' = osFaults env"
  by (auto simp: ctx_Err_def split: ctx.splits prod.splits)

lemma os_call_quiet: "quiet env \<Longrightarrow> fst (os_call env) = None \<and> quiet (snd (os_call env))"
  using pop_None [of "osFaults env"] by (auto simp: os_call_def quiet_def split: prod.splits)

lemma sync_call_quiet: "quiet env \<Longrightarrow> fst (sync_call env) = None \<and> quiet (snd (sync_call env))"
  using pop_None [of "syncFaults env"] by (auto simp: sync_call_def quiet_def split: prod.splits)

lemma ctx_quietE: "quiet env \<Longrightarrow> (\<And>e. ctx_Err c env = (None, e) \<Longrightarrow> quiet e \<Longrightarrow> P) \<Longrightarrow> P"
  using ctx_Err_quiet by (metis prod.collapse)

lemma os_quietE: "quiet env \<Longrightarrow> (\<And>e. os_call env = (None, e) \<Longrightarrow> quiet e \<Longrightarrow> P) \<Longrightarrow> P"
  using os_call_quiet by (metis prod.collapse)

lemma sync_quietE: "quiet env \<Longrightarrow> (\<And>e. sync_call env = (None, e) \<Longrightarrow> quiet e \<Longrightarrow> P) \<Longrightarrow> P"
  using sync_call_quiet by (metis prod.collapse)

lemma write_at_end [simp]: "off = length f \<Longrightarrow> write_at f off bs = f @ bs"
  by (simp add: write_at_def)

lemma WriteFullAt_quiet:
  "quiet env \<Longrightarrow> src \<noteq> [] \<Longrightarrow>
     \<exists>env'. WriteFullAt f src off env = (None, write_at f off src, env') \<and> quiet env'"
  using pop_None [of "writeFaults env"]
  by (auto simp: WriteFullAt_def quiet_def split: prod.splits option.splits)

subsection \<open>Slices\<close>

definition slice :: "nat \<Rightarrow> nat \<Rightarrow> 'a list \<Rightarrow> 'a list" where
  "slice i j xs = take (j - i) (drop i xs)"

lemma length_slice [simp]: "length (slice i j xs) = min (j - i) (length xs - i)"
  by (simp add: slice_def min.commute)

lemma slice_append [codec_simps]:
  "slice i j (xs @ ys) = slice i j xs @ slice (i - length xs) (j - length xs) ys"
proof (cases "i \<le> length xs")
  case True
  then have "j - (i + (length xs - i)) = j - length xs" by simp
  with True show ?thesis by (simp add: slice_def)
next
  case False
  then have "j - (length xs + (i - length xs)) = j - i" by simp
  with False show ?thesis by (simp add: slice_def)
qed

lemma slice_whole [codec_simps]: "i = 0 \<Longrightarrow> length xs \<le> j \<Longrightarrow> slice i j xs = xs"
  by (simp add: slice_def)

lemma slice_outside [codec_simps]: "length xs \<le> i \<or> j \<le> i \<Longrightarrow> slice i j xs = []"
  by (auto simp: slice_def)

lemma slice_Nil [simp]: "slice i j [] = []"
  by (simp add: slice_def)

lemma slice_take: "j \<le> n \<Longrightarrow> slice i j (take n xs) = slice i j xs"
  by (auto simp: slice_def drop_take min_def)

lemma split_at: "length xs = n \<Longrightarrow> k \<le> n \<Longrightarrow> xs = slice 0 k xs @ slice k n xs"
  by (simp add: slice_def)

lemma slice_split: "i \<le> j \<Longrightarrow> j \<le> k \<Longrightarrow> slice i k xs = slice i j xs @ slice j k xs"
proof -
  assume "i \<le> j" "j \<le> k"
  then have "k - i = (j - i) + (k - j)" "drop j xs = drop (j - i) (drop i xs)" by simp_all
  then show ?thesis by (simp add: slice_def take_add)
qed

lemma slice_mid: "slice (length xs) (length xs + length ys) (xs @ ys @ zs) = ys"
  by (simp add: slice_def)

lemma drop_split: "drop a xs = take n (drop a xs) @ drop (a + n) xs"
proof -
  have "drop a xs = take n (drop a xs) @ drop n (drop a xs)" by (rule append_take_drop_id [symmetric])
  moreover have "drop n (drop a xs) = drop (a + n) xs" by (simp add: add.commute)
  ultimately show ?thesis by metis
qed

lemma drop_split3:
  "drop a xs = take n (drop a xs) @ take m (drop (a + n) xs) @ drop (a + (n + m)) xs"
  using drop_split [of a xs n] drop_split [of "a + n" xs m] by (metis add.assoc)

lemma slice_Cons [codec_simps]:
  "slice i j (x # xs) =
     (if i = 0 then (if j = 0 then [] else x # slice 0 (j - 1) xs) else slice (i - 1) (j - 1) xs)"
  by (cases i; cases j) (auto simp: slice_def)

subsection \<open>Little-endian integers\<close>

text \<open>\<^verbatim>\<open>binary.LittleEndian\<close>: byte \<open>i\<close> of the encoding is byte \<open>i\<close> of the value, low byte first.\<close>

fun le_put :: "nat \<Rightarrow> nat \<Rightarrow> bytes" where
  "le_put 0 v = []"
| "le_put (Suc n) v = word_of_nat (v mod 256) # le_put n (v div 256)"

fun le_get :: "bytes \<Rightarrow> nat" where
  "le_get [] = 0"
| "le_get (b # bs) = unat b + 256 * le_get bs"

definition PutUint16 :: "u16 \<Rightarrow> bytes" where
  "PutUint16 v = le_put 2 (unat v)"

definition PutUint32 :: "u32 \<Rightarrow> bytes" where
  "PutUint32 v = le_put 4 (unat v)"

definition PutUint64 :: "u64 \<Rightarrow> bytes" where
  "PutUint64 v = le_put 8 (unat v)"

definition Uint16 :: "bytes \<Rightarrow> u16" where
  "Uint16 bs = word_of_nat (le_get bs)"

definition Uint32 :: "bytes \<Rightarrow> u32" where
  "Uint32 bs = word_of_nat (le_get bs)"

definition Uint64 :: "bytes \<Rightarrow> u64" where
  "Uint64 bs = word_of_nat (le_get bs)"

lemma unat_lt2p: "unat (x :: 'a::len word) < 2 ^ LENGTH('a)"
  by (rule unsigned_less)

lemma length_le_put [simp]: "length (le_put n v) = n"
  by (induction n arbitrary: v) auto

lemma le_get_le_put: "le_get (le_put n v) = v mod 256 ^ n"
proof (induction n arbitrary: v)
  case 0
  show ?case by simp
next
  case (Suc n)
  have "unat (word_of_nat (v mod 256) :: u8) = v mod 256"
    by (simp add: unat_of_nat)
  then show ?case
    by (simp add: Suc mod_mult2_eq)
qed

lemma le_get_less: "le_get bs < 256 ^ length bs"
proof (induction bs)
  case Nil
  show ?case by simp
next
  case (Cons b bs)
  have "unat b < 256" using unat_lt2p [of b] by simp
  with Cons show ?case by simp
qed

lemma le_put_le_get: "le_put (length bs) (le_get bs) = bs"
proof (induction bs)
  case Nil
  show ?case by simp
next
  case (Cons b bs)
  have "unat b < 256" using unat_lt2p [of b] by simp
  with Cons show ?case by simp
qed

lemma length_PutUint [simp, codec_simps]:
  "length (PutUint16 a) = 2" "length (PutUint32 b) = 4" "length (PutUint64 c) = 8"
  by (simp_all add: PutUint16_def PutUint32_def PutUint64_def)

lemma Uint16_PutUint16 [simp]: "Uint16 (PutUint16 v) = v"
  using unat_lt2p [of v] by (simp add: Uint16_def PutUint16_def le_get_le_put)

lemma Uint32_PutUint32 [simp]: "Uint32 (PutUint32 v) = v"
  using unat_lt2p [of v] by (simp add: Uint32_def PutUint32_def le_get_le_put)

lemma Uint64_PutUint64 [simp]: "Uint64 (PutUint64 v) = v"
  using unat_lt2p [of v] by (simp add: Uint64_def PutUint64_def le_get_le_put)

lemma PutUint32_Uint32: "length bs = 4 \<Longrightarrow> PutUint32 (Uint32 bs) = bs"
  using le_get_less [of bs] le_put_le_get [of bs]
  by (simp add: PutUint32_def Uint32_def unat_of_nat)

lemma PutUint64_Uint64: "length bs = 8 \<Longrightarrow> PutUint64 (Uint64 bs) = bs"
  using le_get_less [of bs] le_put_le_get [of bs]
  by (simp add: PutUint64_def Uint64_def unat_of_nat)

lemma PutUint16_Uint16: "length bs = 2 \<Longrightarrow> PutUint16 (Uint16 bs) = bs"
  using le_get_less [of bs] le_put_le_get [of bs]
  by (simp add: PutUint16_def Uint16_def unat_of_nat)

lemma Uint_eqD:
  "Uint16 bs = a \<Longrightarrow> length bs = 2 \<Longrightarrow> bs = PutUint16 a"
  "Uint32 bs = b \<Longrightarrow> length bs = 4 \<Longrightarrow> bs = PutUint32 b"
  "Uint64 bs = c \<Longrightarrow> length bs = 8 \<Longrightarrow> bs = PutUint64 c"
  using PutUint16_Uint16 PutUint32_Uint32 PutUint64_Uint64 by auto

lemma le_get_replicate_0 [simp]: "le_get (replicate n 0) = 0"
  by (induction n) auto

lemma le_put_0 [simp]: "le_put n 0 = replicate n 0"
  by (induction n) auto

lemma PutUint32_zero: "PutUint32 0 = replicate 4 0"
  by (simp add: PutUint32_def)

lemma Uint_zeros [simp]: "Uint32 (replicate n 0) = 0" "Uint64 (replicate n 0) = 0"
  by (simp_all add: Uint32_def Uint64_def)

subsection \<open>Lists and words\<close>

lemma unat_of_nat_u64: "n < 2 ^ 64 \<Longrightarrow> unat (word_of_nat n :: u64) = n"
  by (simp add: unat_of_nat)

lemma unat_of_nat_u32: "n < 2 ^ 32 \<Longrightarrow> unat (word_of_nat n :: u32) = n"
  by (simp add: unat_of_nat)

lemma unat_u64_less: "unat (x :: u64) < 18446744073709551616"
  using unat_lt2p [of x] by simp

lemma unat_MaxUint64: "unat MaxUint64 = 18446744073709551615"
  by (simp add: unsigned_minus_1_eq_mask mask_eq_exp_minus_1)

lemma unat_Suc_u64: "x \<noteq> MaxUint64 \<Longrightarrow> unat (x + 1 :: u64) = Suc (unat x)"
proof -
  assume "x \<noteq> MaxUint64"
  then have "x + 1 \<noteq> 0"
    by (metis add.right_inverse add_eq_0_iff minus_equation_iff)
  then show ?thesis
    using unatSuc [of x] by (simp add: add.commute)
qed

subsection \<open>Codecs\<close>

text \<open>
  The contract of a checksummed format: every well-formed value is encoded, decoding inverts
  encoding, and decoding accepts nothing but encodings.
\<close>

locale canonical_codec =
  fixes wf :: "'a \<Rightarrow> bool"
    and enc :: "'a \<Rightarrow> error + bytes"
    and dec :: "bytes \<Rightarrow> error + 'a"
  assumes enc_total: "wf x \<Longrightarrow> \<exists>b. enc x = Inr b"
    and dec_enc: "wf x \<Longrightarrow> enc x = Inr b \<Longrightarrow> dec b = Inr x"
    and dec_canonical: "dec b = Inr x \<Longrightarrow> wf x \<and> enc x = Inr b"
begin

lemma dec_iff: "dec b = Inr x \<longleftrightarrow> wf x \<and> enc x = Inr b"
  using dec_enc dec_canonical by blast

lemma enc_inject: "wf x \<Longrightarrow> wf y \<Longrightarrow> enc x = Inr b \<Longrightarrow> enc y = Inr b \<Longrightarrow> x = y"
  using dec_enc by (metis sum.inject(2))

lemma dec_inject: "dec b = Inr x \<Longrightarrow> dec c = Inr x \<Longrightarrow> b = c"
  using dec_canonical by (metis sum.inject(2))

end

end
