(* ===== verification/Crc32c.thy ===== *)
theory Crc32c
  imports Prelude
begin

text \<open>
  The checksum of every disk record: \<^verbatim>\<open>hashutil.CRC32C\<close> and \<^verbatim>\<open>hashutil.UpdateCRC32C\<close>
  (\<^verbatim>\<open>src/internal/ailego/hash/crc32c.go\<close>), which are \<^verbatim>\<open>hash/crc32\<close>'s table-driven update with
  the Castagnoli polynomial. The lemmas show that the update is linear and bijective in its
  state, hence that a checksum can be computed piecewise and that changing any single byte of
  a message always changes its checksum.
\<close>

subsection \<open>Definitions\<close>

definition Castagnoli :: u32 where
  "Castagnoli = 0x82f63b78"

text \<open>One bit of \<^verbatim>\<open>crc32.MakeTable\<close>: shift right, and add the polynomial if a one fell out.\<close>

definition crc_bit :: "u32 \<Rightarrow> u32" where
  "crc_bit c = (if c AND 1 = 1 then drop_bit 1 c XOR Castagnoli else drop_bit 1 c)"

definition castagnoliTable :: "u8 \<Rightarrow> u32" where
  "castagnoliTable b = (crc_bit ^^ 8) (ucast b)"

definition crc_byte :: "u32 \<Rightarrow> u8 \<Rightarrow> u32" where
  "crc_byte crc v = castagnoliTable (ucast crc XOR v) XOR drop_bit 8 crc"

definition UpdateCRC32C :: "u32 \<Rightarrow> bytes \<Rightarrow> u32" where
  "UpdateCRC32C crc p = NOT (foldl crc_byte (NOT crc) p)"

definition CRC32C :: "bytes \<Rightarrow> u32" where
  "CRC32C p = UpdateCRC32C 0 p"

subsection \<open>Composition\<close>

lemma UpdateCRC32C_append: "UpdateCRC32C (UpdateCRC32C crc p) q = UpdateCRC32C crc (p @ q)"
  by (simp add: UpdateCRC32C_def)

lemma UpdateCRC32C_CRC32C [codec_simps]: "UpdateCRC32C (CRC32C p) q = CRC32C (p @ q)"
  by (simp add: CRC32C_def UpdateCRC32C_append)

subsection \<open>Linearity and injectivity\<close>

lemma and_one_eq_one: "c AND 1 = 1 \<longleftrightarrow> bit (c :: u32) 0"
  by (simp add: and_one_eq mod2_eq_if bit_0)

lemma crc_bit_xor: "crc_bit (a XOR b) = crc_bit a XOR crc_bit b"
  by (auto simp: crc_bit_def and_one_eq_one bit_xor_iff drop_bit_xor
        xor.assoc xor.left_commute xor.commute)

lemma crc_bit_zero [simp]: "crc_bit 0 = 0"
  by (simp add: crc_bit_def)

lemma crc_bits_xor: "(crc_bit ^^ n) (a XOR b) = (crc_bit ^^ n) a XOR (crc_bit ^^ n) b"
  by (induction n) (simp_all add: crc_bit_xor)

lemma crc_bit_top: "bit (crc_bit c) 31 \<longleftrightarrow> bit c 0"
proof -
  have "\<not> bit (drop_bit 1 c) 31"
    by (simp add: bit_drop_bit_eq impossible_bit)
  moreover have "bit Castagnoli 31"
    by (simp add: Castagnoli_def bit_numeral_rec)
  ultimately show ?thesis
    by (simp add: crc_bit_def and_one_eq_one bit_xor_iff)
qed

lemma crc_bit_eq_0: "crc_bit c = 0 \<Longrightarrow> c = 0"
proof -
  assume z: "crc_bit c = 0"
  then have no_low: "\<not> bit c 0"
    using crc_bit_top [of c] by simp
  with z have shifted: "drop_bit 1 c = 0"
    by (simp add: crc_bit_def and_one_eq_one)
  show "c = 0"
  proof (rule bit_eqI)
    fix n
    have "\<not> bit (drop_bit 1 c) m" for m
      using shifted by simp
    then show "bit c n \<longleftrightarrow> bit (0 :: u32) n"
      using no_low by (cases n) (auto simp: bit_drop_bit_eq)
  qed
qed

lemma xor_eq_0_iff_u32: "(a :: u32) XOR b = 0 \<longleftrightarrow> a = b"
  by (auto simp: bit_eq_iff bit_xor_iff)

lemma xor_cancel_u32: "(a :: u32) XOR b = a XOR c \<longleftrightarrow> b = c" "b XOR a = c XOR a \<longleftrightarrow> b = c"
  by (auto simp: bit_eq_iff bit_xor_iff)

lemma crc_bit_inj: "crc_bit a = crc_bit b \<Longrightarrow> a = b"
  using crc_bit_eq_0 [of "a XOR b"] by (simp add: crc_bit_xor xor_eq_0_iff_u32)

lemma crc_bits_inj: "(crc_bit ^^ n) a = (crc_bit ^^ n) b \<Longrightarrow> a = b"
  by (induction n) (auto dest: crc_bit_inj)

text \<open>Shifting out zero bits adds no polynomial.\<close>

lemma crc_bits_zeros: "(\<forall>i < n. \<not> bit y i) \<Longrightarrow> (crc_bit ^^ n) y = drop_bit n y"
proof (induction n arbitrary: y)
  case 0
  show ?case by simp
next
  case (Suc n)
  have "crc_bit y = drop_bit 1 y"
    using Suc.prems by (simp add: crc_bit_def and_one_eq_one)
  moreover have "\<forall>i < n. \<not> bit (drop_bit 1 y) i"
    using Suc.prems by (simp add: bit_drop_bit_eq)
  ultimately show ?case
    using Suc.IH [of "drop_bit 1 y"] by (simp add: funpow_swap1 drop_bit_drop_bit)
qed

text \<open>The table step is eight bit steps on the state with the byte added to its low end.\<close>

lemma crc_byte_bits: "crc_byte crc v = (crc_bit ^^ 8) (crc XOR ucast v)"
proof -
  let ?x = "crc XOR ucast v :: u32"
  let ?lo = "ucast (ucast crc XOR v :: u8) :: u32"
  have split_x: "?x = ?lo XOR (push_bit 8 (drop_bit 8 crc))"
    by (rule bit_eqI) (auto simp: bit_simps)
  have "(crc_bit ^^ 8) (push_bit 8 (drop_bit 8 crc)) = drop_bit 8 (push_bit 8 (drop_bit 8 crc))"
    by (rule crc_bits_zeros) (simp add: bit_simps)
  also have "\<dots> = drop_bit 8 crc"
    by (rule bit_eqI) (auto simp: bit_simps dest: bit_imp_le_length)
  finally show ?thesis
    unfolding split_x crc_bits_xor crc_byte_def castagnoliTable_def by simp
qed

lemma crc_byte_inj_state: "crc_byte a v = crc_byte b v \<Longrightarrow> a = b"
  unfolding crc_byte_bits by (drule crc_bits_inj) (simp add: xor_cancel_u32)

lemma crc_byte_inj_byte: "crc_byte a v = crc_byte a w \<Longrightarrow> v = w"
proof -
  assume "crc_byte a v = crc_byte a w"
  then have "a XOR ucast v = a XOR (ucast w :: u32)"
    unfolding crc_byte_bits by (rule crc_bits_inj)
  then have "(ucast v :: u32) = ucast w"
    by (simp add: xor_cancel_u32)
  then have "unat (ucast v :: u32) = unat (ucast w :: u32)"
    by simp
  then have "unat v = unat w"
    using unat_lt2p [of v] unat_lt2p [of w]
    by (simp add: unsigned_ucast_eq take_bit_nat_eq_self)
  then show "v = w"
    by (simp add: word_unat_eq_iff)
qed

lemma foldl_crc_byte_inj: "foldl crc_byte a p = foldl crc_byte b p \<Longrightarrow> a = b"
  by (induction p arbitrary: a b) (auto dest: crc_byte_inj_state)

lemma not_eq_u32: "NOT (a :: u32) = NOT b \<longleftrightarrow> a = b"
  by (metis bit.double_compl)

lemma CRC32C_single_byte:
  assumes "v \<noteq> w"
  shows "CRC32C (p @ v # q) \<noteq> CRC32C (p @ w # q)"
proof
  assume "CRC32C (p @ v # q) = CRC32C (p @ w # q)"
  then have "foldl crc_byte (crc_byte (foldl crc_byte (NOT 0) p) v) q =
             foldl crc_byte (crc_byte (foldl crc_byte (NOT 0) p) w) q"
    by (simp add: CRC32C_def UpdateCRC32C_def not_eq_u32)
  then show False
    using assms by (blast dest: foldl_crc_byte_inj crc_byte_inj_byte)
qed

lemma CRC32C_list_update:
  assumes "i < length p" "v \<noteq> p ! i"
  shows "CRC32C (p[i := v]) \<noteq> CRC32C p"
proof -
  have p: "p = take i p @ p ! i # drop (Suc i) p"
    using assms(1) by (rule id_take_nth_drop)
  have "CRC32C (take i p @ v # drop (Suc i) p) \<noteq> CRC32C (take i p @ p ! i # drop (Suc i) p)"
    using assms(2) by (rule CRC32C_single_byte)
  then show ?thesis
    using p assms(1) by (simp add: upd_conv_take_nth_drop)
qed

end
