(* ===== verification/Paths.thy ===== *)
theory Paths
  imports Prelude
begin

text \<open>
  Slash-separated names: \<^verbatim>\<open>path.Clean\<close>, \<^verbatim>\<open>path.Join\<close>, \<^verbatim>\<open>path.Dir\<close>, \<^verbatim>\<open>path.Base\<close> and \<^verbatim>\<open>path.Ext\<close> of the
  standard library, and \<^verbatim>\<open>ValidatePortableRelativePath\<close> of
  \<^verbatim>\<open>src/internal/db/index/common/snapshot.go\<close>, the check every file name of a manifest passes. The theorem
  says which names pass.
\<close>

fun split_on :: "char \<Rightarrow> string \<Rightarrow> string list" where
  "split_on c [] = [[]]"
| "split_on c (x # xs) =
     (if x = c then [] # split_on c xs
      else case split_on c xs of [] \<Rightarrow> [[x]] | w # ws \<Rightarrow> (x # w) # ws)"

fun join_with :: "char \<Rightarrow> string list \<Rightarrow> string" where
  "join_with c [] = []"
| "join_with c [w] = w"
| "join_with c (w # ws) = w @ c # join_with c ws"

abbreviation slash :: char where "slash \<equiv> CHR ''/''"

definition clean_step :: "bool \<Rightarrow> string list \<Rightarrow> string \<Rightarrow> string list" where
  "clean_step rooted out w =
     (if w = '''' \<or> w = ''.'' then out
      else if w = ''..'' then
        (if out \<noteq> [] \<and> last out \<noteq> ''..'' then butlast out
         else if rooted then out else out @ [w])
      else out @ [w])"

definition path_IsAbs :: "string \<Rightarrow> bool" where
  "path_IsAbs p \<longleftrightarrow> (case p of [] \<Rightarrow> False | c # _ \<Rightarrow> c = slash)"

definition path_Clean :: "string \<Rightarrow> string" where
  "path_Clean p =
     (let rooted = path_IsAbs p;
          out = foldl (clean_step rooted) [] (split_on slash p);
          s = (if rooted then [slash] else []) @ join_with slash out in
      if s = [] then ''.'' else s)"

definition filepath_Join :: "string \<Rightarrow> string \<Rightarrow> string" where
  "filepath_Join dir name =
     (if dir = [] then (if name = [] then [] else path_Clean name)
      else if name = [] then path_Clean dir
      else path_Clean (dir @ slash # name))"

definition path_Base :: "string \<Rightarrow> string" where
  "path_Base p =
     (if p = [] then ''.''
      else let ws = split_on slash p; ne = filter (\<lambda>w. w \<noteq> []) ws in
           if ne = [] then [slash] else last ne)"

definition path_Dir :: "string \<Rightarrow> string" where
  "path_Dir p = path_Clean (let ws = split_on slash p in
     if length ws = 1 then [] else join_with slash (butlast ws) @ [slash])"

definition path_Ext :: "string \<Rightarrow> string" where
  "path_Ext p =
     (let base = last (split_on slash p); ws = split_on (CHR ''.'') base in
      if length ws = 1 then [] else CHR ''.'' # last ws)"

definition strings_HasPrefix :: "string \<Rightarrow> string \<Rightarrow> bool" where
  "strings_HasPrefix s p \<longleftrightarrow> take (length p) s = p"

definition strings_HasSuffix :: "string \<Rightarrow> string \<Rightarrow> bool" where
  "strings_HasSuffix s p \<longleftrightarrow> length p \<le> length s \<and> drop (length s - length p) s = p"

definition ValidatePortableRelativePath :: "string \<Rightarrow> error option" where
  "ValidatePortableRelativePath name =
     (if name = [] \<or> path_IsAbs name \<or> path_Clean name \<noteq> name \<or> name = ''.''
         \<or> strings_HasPrefix name ''../'' \<or> CHR 0x5C \<in> set name
      then Some (ErrMsg ''file %q is not a clean portable relative path'') else None)"

subsection \<open>Which names pass\<close>

lemma split_on_nonempty [simp]: "split_on c s \<noteq> []"
  by (induction s) (auto split: list.splits)

lemma split_on_no_sep: "w \<in> set (split_on c s) \<Longrightarrow> c \<notin> set w"
  by (induction s arbitrary: w) (auto split: if_splits list.splits)

lemma split_on_simple: "c \<notin> set w \<Longrightarrow> split_on c w = [w]"
  by (induction w) auto

lemma split_on_append: "c \<notin> set w \<Longrightarrow> split_on c (w @ c # s) = w # split_on c s"
  by (induction w) (auto split: list.splits)

lemma split_on_join:
  "ws \<noteq> [] \<Longrightarrow> (\<forall>w \<in> set ws. c \<notin> set w) \<Longrightarrow> split_on c (join_with c ws) = ws"
  by (induction c ws rule: join_with.induct) (auto simp: split_on_simple split_on_append)

lemma join_Cons: "join_with c ((x # w) # ws) = x # join_with c (w # ws)"
  by (cases ws) auto

lemma join_split: "join_with c (split_on c s) = s"
proof (induction s)
  case (Cons x s)
  obtain w ws where "split_on c s = w # ws" by (metis list.exhaust split_on_nonempty)
  with Cons show ?case by (auto simp: join_Cons)
qed simp

text \<open>The components left after cleaning a relative name: leading \<open>..\<close> and then proper names.\<close>

definition proper :: "string \<Rightarrow> bool" where
  "proper w \<longleftrightarrow> w \<noteq> [] \<and> w \<noteq> ''.'' \<and> w \<noteq> ''..'' \<and> slash \<notin> set w"

definition cleaned :: "string list \<Rightarrow> bool" where
  "cleaned ws \<longleftrightarrow> (\<exists>n ps. ws = replicate n ''..'' @ ps \<and> (\<forall>p \<in> set ps. proper p))"

lemma cleaned_no_slash: "cleaned ws \<Longrightarrow> \<forall>w \<in> set ws. slash \<notin> set w"
proof
  fix w
  assume "cleaned ws" "w \<in> set ws"
  then consider "w = ''..''" | "proper w" unfolding cleaned_def by (auto simp: set_replicate_conv_if split: if_splits)
  then show "slash \<notin> set w" by cases (simp_all add: proper_def)
qed

lemma cleaned_step: "cleaned out \<Longrightarrow> slash \<notin> set w \<Longrightarrow> cleaned (clean_step False out w)"
proof -
  assume "cleaned out" and w: "slash \<notin> set w"
  then obtain n ps where out: "out = replicate n ''..'' @ ps" and ps: "\<forall>p \<in> set ps. proper p"
    by (auto simp: cleaned_def)
  show ?thesis
  proof (cases "w = ''..''")
    case True
    show ?thesis
    proof (cases "ps = []")
      case True
      then have "clean_step False out w = replicate (Suc n) ''..''"
        using \<open>w = ''..''\<close> out by (auto simp: clean_step_def replicate_append_same last_replicate)
      then show ?thesis unfolding cleaned_def by (metis append_Nil2 empty_iff list.set(1))
    next
      case False
      then have "last out \<noteq> ''..''" using ps out by (metis last_appendR last_in_set proper_def)
      then have "clean_step False out w = replicate n ''..'' @ butlast ps"
        using \<open>w = ''..''\<close> out False by (auto simp: clean_step_def butlast_append)
      then show ?thesis using ps unfolding cleaned_def by (metis in_set_butlastD)
    qed
  next
    case False
    then have "clean_step False out w = out \<or> proper w \<and> clean_step False out w = replicate n ''..'' @ (ps @ [w])"
      using w out by (auto simp: clean_step_def proper_def)
    then show ?thesis using ps out unfolding cleaned_def by (metis \<open>cleaned out\<close> cleaned_def Un_iff empty_iff insert_iff list.set set_append)
  qed
qed

lemma cleaned_fold: "cleaned out \<Longrightarrow> (\<forall>w \<in> set ws. slash \<notin> set w) \<Longrightarrow> cleaned (foldl (clean_step False) out ws)"
  by (induction ws arbitrary: out) (auto simp: cleaned_step)

lemma cleaned_split:
  assumes "\<not> path_IsAbs name" "path_Clean name = name" "name \<noteq> ''.''"
  shows "cleaned (split_on slash name)"
proof -
  define out where "out = foldl (clean_step False) [] (split_on slash name)"
  have c: "cleaned out"
    unfolding out_def by (rule cleaned_fold) (auto simp: cleaned_def dest: split_on_no_sep)
  have eq: "path_Clean name = (if join_with slash out = [] then ''.'' else join_with slash out)"
    using assms(1) by (simp add: path_Clean_def out_def)
  then have "join_with slash out = name" using assms(2,3) by metis
  moreover have "out \<noteq> []"
    using eq assms(2,3) by auto
  moreover have "\<forall>w \<in> set out. slash \<notin> set w"
    using c by (rule cleaned_no_slash)
  ultimately show ?thesis using c split_on_join by metis
qed

lemma portable_components:
  assumes "ValidatePortableRelativePath name = None"
  shows "name = ''..'' \<or> (\<forall>w \<in> set (split_on slash name). proper w)"
proof -
  have v: "\<not> path_IsAbs name" "path_Clean name = name" "name \<noteq> ''.''" "\<not> strings_HasPrefix name ''../''"
    using assms by (auto simp: ValidatePortableRelativePath_def split: if_splits)
  obtain n ps where ws: "split_on slash name = replicate n ''..'' @ ps" "\<forall>p \<in> set ps. proper p"
    using cleaned_split [OF v(1-3)] by (auto simp: cleaned_def)
  have join: "join_with slash (split_on slash name) = name" by (rule join_split)
  show ?thesis
  proof (cases n)
    case 0
    then show ?thesis using ws by simp
  next
    case (Suc k)
    then have n: "name = join_with slash (''..'' # (replicate k ''..'' @ ps))"
      using ws(1) join by simp
    then have "replicate k ''..'' @ ps = []"
      using v(4) by (cases "replicate k ''..'' @ ps") (auto simp: strings_HasPrefix_def)
    with n show ?thesis by simp
  qed
qed

text \<open>
  C8: A manifest file name cannot leave the collection directory. A name that passes
  \<^verbatim>\<open>ValidatePortableRelativePath\<close> consists of proper components only: none is empty, \<open>.\<close> or \<open>..\<close>, and
  there is no leading slash; the one exception is the name \<open>..\<close> itself, which the check accepts.
\<close>

theorem portable_path_stays_inside:
  assumes "ValidatePortableRelativePath name = None"
  shows "name = ''..'' \<or> (\<not> path_IsAbs name \<and>
     (\<forall>w \<in> set (split_on slash name). w \<noteq> [] \<and> w \<noteq> ''.'' \<and> w \<noteq> ''..''))"
  using portable_components [OF assms] assms
  by (auto simp: proper_def ValidatePortableRelativePath_def split: if_splits)

theorem portable_path_stays_inside_witness:
  "ValidatePortableRelativePath ''seg/a.seg'' = None \<and> \<not> path_IsAbs ''seg/a.seg''
     \<and> ''..'' \<notin> set (split_on slash ''seg/a.seg'')"
proof -
  have v: "ValidatePortableRelativePath ''seg/a.seg'' = None" by code_simp
  have "''seg/a.seg'' \<noteq> ''..''" by simp
  with portable_path_stays_inside [OF v] v show ?thesis by blast
qed

text \<open>The parent directory itself passes the check.\<close>

lemma portable_path_accepts_parent: "ValidatePortableRelativePath ''..'' = None"
  by code_simp

end
