(* ===== verification/Decimal.thy ===== *)
theory Decimal
  imports Prelude
begin

text \<open>
  The decimal file numbers of the storage engine: \<^verbatim>\<open>fmt.Sprintf\<close> with \<^verbatim>\<open>%020d\<close>, \<^verbatim>\<open>strconv.ParseUint\<close>
  in base ten, the two directions of \<^verbatim>\<open>[]byte(s)\<close>, and \<^verbatim>\<open>strings.TrimPrefix\<close> and \<^verbatim>\<open>strings.TrimSuffix\<close>.
\<close>

definition digit :: "nat \<Rightarrow> char" where
  "digit n = char_of (48 + n)"

definition digit_value :: "char \<Rightarrow> nat option" where
  "digit_value c = (let n = (of_char c :: nat) in if 48 \<le> n \<and> n \<le> 57 then Some (n - 48) else None)"

fun pad_digits :: "nat \<Rightarrow> nat \<Rightarrow> string" where
  "pad_digits 0 n = []"
| "pad_digits (Suc w) n = pad_digits w (n div 10) @ [digit (n mod 10)]"

text \<open>A 64-bit number never needs more than twenty digits.\<close>

definition format_020d :: "u64 \<Rightarrow> string" where
  "format_020d v = pad_digits 20 (unat v)"

fun parse_digits :: "string \<Rightarrow> nat \<Rightarrow> nat option" where
  "parse_digits [] acc = Some acc"
| "parse_digits (c # cs) acc =
     (case digit_value c of None \<Rightarrow> None | Some d \<Rightarrow> parse_digits cs (acc * 10 + d))"

definition ParseUint :: "string \<Rightarrow> u64 option" where
  "ParseUint s =
     (if s = [] then None
      else case parse_digits s 0 of None \<Rightarrow> None | Some n \<Rightarrow> if n < 2 ^ 64 then Some (word_of_nat n) else None)"

definition string_bytes :: "string \<Rightarrow> bytes" where
  "string_bytes s = map (\<lambda>c. word_of_nat (of_char c)) s"

definition bytes_string :: "bytes \<Rightarrow> string" where
  "bytes_string b = map (\<lambda>w. char_of (unat w)) b"

definition TrimPrefix :: "string \<Rightarrow> string \<Rightarrow> string" where
  "TrimPrefix s p = (if take (length p) s = p then drop (length p) s else s)"

definition TrimSuffix :: "string \<Rightarrow> string \<Rightarrow> string" where
  "TrimSuffix s p =
     (if length p \<le> length s \<and> drop (length s - length p) s = p then take (length s - length p) s else s)"

subsection \<open>Round trips\<close>

lemma digit_value_digit [simp]: "d < 10 \<Longrightarrow> digit_value (digit d) = Some d"
  by (simp add: digit_value_def digit_def)

lemma length_pad_digits [simp]: "length (pad_digits w n) = w"
  by (induction w arbitrary: n) simp_all

lemma length_format_020d [simp]: "length (format_020d v) = 20"
  by (simp add: format_020d_def)

lemma parse_digits_append:
  "parse_digits (xs @ ys) acc = (case parse_digits xs acc of None \<Rightarrow> None | Some a \<Rightarrow> parse_digits ys a)"
  by (induction xs arbitrary: acc) (simp_all split: option.splits)

lemma parse_pad_digits: "n < 10 ^ w \<Longrightarrow> parse_digits (pad_digits w n) acc = Some (acc * 10 ^ w + n)"
proof (induction w arbitrary: n acc)
  case (Suc w)
  have "n div 10 < 10 ^ w" using Suc.prems by (simp add: less_mult_imp_div_less mult.commute)
  then have "parse_digits (pad_digits w (n div 10)) acc = Some (acc * 10 ^ w + n div 10)" by (rule Suc.IH)
  then show ?case by (simp add: parse_digits_append algebra_simps)
qed simp

lemma ParseUint_format [simp]: "ParseUint (format_020d v) = Some v"
proof -
  have lt: "unat v < 2 ^ 64" using unat_u64_less [of v] by simp
  also have "(2 :: nat) ^ 64 < 10 ^ 20" by simp
  finally have "parse_digits (format_020d v) 0 = Some (unat v)"
    using parse_pad_digits [of "unat v" 20 0] by (simp add: format_020d_def)
  moreover have "format_020d v \<noteq> []" using length_format_020d [of v] by fastforce
  ultimately show ?thesis using lt by (simp add: ParseUint_def)
qed

lemma format_020d_inject [simp]: "format_020d v = format_020d w \<longleftrightarrow> v = w"
  using ParseUint_format by (metis option.inject)

lemma char_of_byte [simp]: "char_of (unat (word_of_nat (of_char c) :: u8)) = c"
proof -
  have "(of_char c :: nat) < 256" by (metis char_of_eq_iff of_char_mod_256 mod_less_divisor zero_less_numeral)
  then show ?thesis by (simp add: unat_of_nat)
qed

lemma byte_of_char [simp]: "word_of_nat (of_char (char_of (unat (w :: u8)))) = w"
proof -
  have "unat w < 256" using unat_lt2p [of w] by simp
  then show ?thesis by simp
qed

lemma bytes_string_bytes [simp]: "bytes_string (string_bytes s) = s"
  by (simp add: bytes_string_def string_bytes_def comp_def)

lemma string_bytes_string [simp]: "string_bytes (bytes_string b) = b"
  unfolding bytes_string_def string_bytes_def list.map_comp comp_def byte_of_char by simp

lemma length_string_bytes [simp]: "length (string_bytes s) = length s"
  by (simp add: string_bytes_def)

end
