(* ===== verification/Manifest.thy ===== *)
theory Manifest
  imports Crc32c Paths Decimal
begin

text \<open>
  The metadata of a collection version, \<^verbatim>\<open>src/internal/db/index/common/manifest.go\<close>: the segments, index
  snapshots and files a manifest names, its validation and its file format. The reflection-driven JSON codec of the
  payload is a parameter, a record of the calls the source makes.
\<close>

record SegmentMetadata =
  smID :: u64
  smMinDocID :: u64
  smMaxDocID :: u64
  smDocCount :: u64
  smFiles :: "string list"

fun validate_files :: "string list \<Rightarrow> string set \<Rightarrow> error option" where
  "validate_files [] seen = None"
| "validate_files (name # names) seen =
     (case ValidatePortableRelativePath name of
        Some err \<Rightarrow> Some err
      | None \<Rightarrow>
          if name \<in> seen then Some (ErrMsg ''duplicate file %q'')
          else validate_files names (insert name seen))"

definition ValidateSegment :: "SegmentMetadata \<Rightarrow> error option" where
  "ValidateSegment segment =
     (if smDocCount segment = 0 then
        (if smMinDocID segment \<noteq> 0 \<or> smMaxDocID segment \<noteq> 0
         then Some (ErrMsg ''empty segment has a document range'')
         else validate_files (smFiles segment) {})
      else if smMaxDocID segment < smMinDocID segment
      then Some (ErrMsg ''maximum document ID is below minimum'')
      else if smMaxDocID segment - smMinDocID segment < smDocCount segment - 1
      then Some (ErrMsg ''document count exceeds the document ID range'')
      else validate_files (smFiles segment) {})"

lemma validate_files_None:
  "validate_files names seen = None \<longleftrightarrow>
     (\<forall>n \<in> set names. ValidatePortableRelativePath n = None \<and> n \<notin> seen) \<and> distinct names"
  by (induction names seen rule: validate_files.induct) (auto split: option.splits)

subsection \<open>Package-owned names\<close>

definition IDMapCheckpointName :: "u64 \<Rightarrow> string" where
  "IDMapCheckpointName generation = ''idmap/idmap-'' @ format_020d generation @ ''.pebble''"

definition DeleteSnapshotName :: "u64 \<Rightarrow> string" where
  "DeleteSnapshotName generation = ''snapshots/delete-'' @ format_020d generation @ ''.snap''"

definition IsOwnedIDMapName :: "string \<Rightarrow> bool" where
  "IsOwnedIDMapName name =
     (if strings_HasPrefix name ''idmap-'' \<and> strings_HasSuffix name ''.pebble''
      then let digits = TrimSuffix (TrimPrefix name ''idmap-'') ''.pebble'' in
        if length digits = 20 then (case ParseUint digits of None \<Rightarrow> False | Some generation \<Rightarrow> 0 < generation) else False
      else if \<not> strings_HasPrefix name ''.working-'' \<or> \<not> strings_HasSuffix name ''.pebble'' then False
      else let parts = split_on (CHR ''-'') (TrimSuffix (TrimPrefix name ''.working-'') ''.pebble'') in
        if length parts \<noteq> 2 \<or> parts ! 0 = [] \<or> parts ! 1 = [] then False
        else ParseUint (parts ! 0) \<noteq> None \<and> ParseUint (parts ! 1) \<noteq> None)"

subsection \<open>The manifest\<close>

definition DiskFormatVersion :: u32 where "DiskFormatVersion = 3"
definition manifestHeaderSize :: nat where "manifestHeaderSize = 32"
definition maxManifestSize :: nat where "maxManifestSize = 67108864"

definition manifestMagic :: bytes where
  "manifestMagic = [0x5A, 0x56, 0x45, 0x43, 0x4D, 0x41, 0x4E, 0]"

record IndexArtifactMetadata =
  iaField :: string
  iaKind :: string
  iaFile :: string

record SegmentIndexSnapshotMetadata =
  ixSegmentID :: u64
  ixSchemaSHA256 :: string
  ixDocumentCount :: u64
  ixMinDocumentID :: u64
  ixMaxDocumentID :: u64
  ixArtifacts :: "IndexArtifactMetadata list"

record Manifest =
  mfFormatVersion :: u32
  mfGeneration :: u64
  mfSchema :: bytes
  mfEnableMmap :: bool
  mfSegmentMaxDocuments :: u64
  mfPersistedSegments :: "SegmentMetadata list"
  mfWritingSegment :: "SegmentMetadata option"
  mfWritingSegmentStartDocID :: u64
  mfIDMap :: string
  mfDeleteSnapshotGeneration :: u64
  mfNextSegmentID :: u64
  mfSegmentIndexSnapshots :: "SegmentIndexSnapshotMetadata list"

text \<open>
  The calls into the JSON library: \<^verbatim>\<open>json.Valid\<close>; whether \<^verbatim>\<open>json.Unmarshal\<close> into a map gives a non-nil map;
  \<^verbatim>\<open>json.Marshal\<close>; the top-level fields of a payload (only whether the start document ID is present and
  not null is read); the strict decoding of a payload; and what decoding a second value from it answers.
\<close>

record json_codec =
  jsValid :: "bytes \<Rightarrow> bool"
  jsObject :: "bytes \<Rightarrow> bool"
  jsMarshal :: "Manifest \<Rightarrow> error + bytes"
  jsStartField :: "bytes \<Rightarrow> error + bool"
  jsDecode :: "bytes \<Rightarrow> error + Manifest"
  jsExtra :: "bytes \<Rightarrow> error option"

text \<open>Claiming the files of one owner: a name with an owner already is a conflict.\<close>

fun claim_files :: "string \<Rightarrow> string list \<Rightarrow> string set \<Rightarrow> error + string set" where
  "claim_files msg [] resources = Inr resources"
| "claim_files msg (name # names) resources =
     (if name \<in> resources then Inl (wrapf ErrManifestCorrupt msg)
      else claim_files msg names (insert name resources))"

text \<open>The loop over the persisted segments; \<open>prev\<close> is the segment before.\<close>

fun validate_persisted :: "SegmentMetadata list \<Rightarrow> SegmentMetadata option \<Rightarrow> u64 set \<Rightarrow> string set \<Rightarrow> u64
    \<Rightarrow> error + u64 set \<times> string set \<times> u64" where
  "validate_persisted [] prev ids resources maxSegmentID = Inr (ids, resources, maxSegmentID)"
| "validate_persisted (segment # segments) prev ids resources maxSegmentID =
     (case ValidateSegment segment of
        Some err \<Rightarrow> Inl (wrapf ErrManifestCorrupt ''persisted segment %d: %v'')
      | None \<Rightarrow>
        if smDocCount segment = 0 then Inl (wrapf ErrManifestCorrupt ''persisted segment %d is empty'')
        else if smID segment \<in> ids then Inl (wrapf ErrManifestCorrupt ''duplicate segment ID %d'')
        else if (case prev of None \<Rightarrow> False
                 | Some previous \<Rightarrow> 0 < smDocCount previous \<and> 0 < smDocCount segment
                     \<and> smMinDocID segment \<le> smMaxDocID previous)
        then Inl (wrapf ErrManifestCorrupt ''persisted segments are not sorted into non-overlapping document ranges'')
        else (case claim_files ''persisted segment artifact %q conflicts with %s'' (smFiles segment) resources of
            Inl err \<Rightarrow> Inl err
          | Inr resources \<Rightarrow>
              validate_persisted segments (Some segment) (insert (smID segment) ids) resources
                (max maxSegmentID (smID segment))))"

definition validate_writing :: "SegmentMetadata option \<Rightarrow> u64 set \<Rightarrow> string set \<Rightarrow> u64
    \<Rightarrow> error + string set \<times> u64" where
  "validate_writing writing ids resources maxSegmentID =
     (case writing of
        None \<Rightarrow> Inr (resources, maxSegmentID)
      | Some segment \<Rightarrow>
        (case ValidateSegment segment of
           Some err \<Rightarrow> Inl (wrapf ErrManifestCorrupt ''writing segment: %v'')
         | None \<Rightarrow>
           if smID segment \<in> ids then Inl (wrapf ErrManifestCorrupt ''writing segment ID %d is already persisted'')
           else (case claim_files ''writing segment artifact %q conflicts with %s'' (smFiles segment) resources of
               Inl err \<Rightarrow> Inl err
             | Inr resources \<Rightarrow> Inr (resources, max maxSegmentID (smID segment)))))"

text \<open>The loop over the artifacts of one index snapshot.\<close>

fun validate_artifacts :: "IndexArtifactMetadata list \<Rightarrow> string set \<Rightarrow> string set \<Rightarrow> string set
    \<Rightarrow> error + string set \<times> string set" where
  "validate_artifacts [] seenArtifacts seenFiles resources = Inr (seenFiles, resources)"
| "validate_artifacts (artifact # artifacts) seenArtifacts seenFiles resources =
     (if iaField artifact = [] \<or> iaKind artifact = []
      then Inl (wrapf ErrManifestCorrupt ''segment %d index artifact %d has an empty field or kind'')
      else if ValidatePortableRelativePath (iaFile artifact) \<noteq> None
      then Inl (wrapf ErrManifestCorrupt ''segment %d index artifact %d: %v'')
      else if (iaKind artifact = ''fts'' \<or> iaKind artifact = ''invert'') \<and> path_Ext (iaFile artifact) \<noteq> ''.pebble''
      then Inl (wrapf ErrManifestCorrupt ''segment %d index artifact %d must be a Pebble directory'')
      else
        let key = iaField artifact @ [CHR 0x00] @ iaKind artifact in
        if key \<in> seenArtifacts
        then Inl (wrapf ErrManifestCorrupt ''duplicate segment %d index artifact for field %q kind %q'')
        else if iaFile artifact \<in> seenFiles
        then Inl (wrapf ErrManifestCorrupt ''duplicate segment index artifact file %q'')
        else if iaFile artifact \<in> resources
        then Inl (wrapf ErrManifestCorrupt ''segment index artifact %q conflicts with %s'')
        else validate_artifacts artifacts (insert key seenArtifacts) (insert (iaFile artifact) seenFiles)
               (insert (iaFile artifact) resources))"

definition hex_digit :: "char \<Rightarrow> bool" where
  "hex_digit c \<longleftrightarrow> (let n = (of_char c :: nat) in (48 \<le> n \<and> n \<le> 57) \<or> (97 \<le> n \<and> n \<le> 102) \<or> (65 \<le> n \<and> n \<le> 70))"

text \<open>\<^verbatim>\<open>segmentByID[id]\<close>: the map is filled in order, so a later segment with the same ID wins.\<close>

definition segment_by_id :: "SegmentMetadata list \<Rightarrow> u64 \<Rightarrow> SegmentMetadata option" where
  "segment_by_id segments i = List.find (\<lambda>s. smID s = i) (rev segments)"

fun validate_snapshots :: "SegmentMetadata list \<Rightarrow> SegmentIndexSnapshotMetadata list \<Rightarrow> u64 set \<Rightarrow> string set
    \<Rightarrow> string set \<Rightarrow> error option" where
  "validate_snapshots segments [] seenIndexes seenFiles resources = None"
| "validate_snapshots segments (snapshot # snapshots) seenIndexes seenFiles resources =
     (case segment_by_id segments (ixSegmentID snapshot) of
        None \<Rightarrow> Some (wrapf ErrManifestCorrupt ''segment index snapshot %d references missing segment %d'')
      | Some segment \<Rightarrow>
        if ixSegmentID snapshot \<in> seenIndexes
        then Some (wrapf ErrManifestCorrupt ''duplicate index snapshot for segment %d'')
        else if ixDocumentCount snapshot \<noteq> smDocCount segment \<or> ixMinDocumentID snapshot \<noteq> smMinDocID segment
                \<or> ixMaxDocumentID snapshot \<noteq> smMaxDocID segment
        then Some (wrapf ErrManifestCorrupt ''index snapshot for segment %d has mismatched document bounds'')
        else if length (ixSchemaSHA256 snapshot) \<noteq> 64
        then Some (wrapf ErrManifestCorrupt ''invalid segment index schema hash'')
        else if \<not> list_all hex_digit (ixSchemaSHA256 snapshot)
        then Some (wrapf ErrManifestCorrupt ''invalid segment index schema hash: %v'')
        else (case validate_artifacts (ixArtifacts snapshot) {} seenFiles resources of
            Inl err \<Rightarrow> Some err
          | Inr (seenFiles, resources) \<Rightarrow>
              validate_snapshots segments snapshots (insert (ixSegmentID snapshot) seenIndexes) seenFiles resources))"

definition Manifest_Validate :: "json_codec \<Rightarrow> Manifest \<Rightarrow> error option" where
  "Manifest_Validate js m =
     (if mfFormatVersion m \<noteq> DiskFormatVersion then Some (wrapf ErrUnsupportedFormatVersion ''got %d, support %d'')
      else if mfGeneration m = 0 then Some (wrapf ErrManifestCorrupt ''generation must be positive'')
      else if \<not> jsValid js (mfSchema m) then Some (wrapf ErrManifestCorrupt ''schema is not valid JSON'')
      else if mfSegmentMaxDocuments m = 0 then Some (wrapf ErrManifestCorrupt ''segment capacity must be positive'')
      else if ValidatePortableRelativePath (mfIDMap m) \<noteq> None
      then Some (wrapf ErrManifestCorrupt ''invalid IDMap path: %v'')
      else if path_Dir (mfIDMap m) \<noteq> ''idmap'' \<or> \<not> IsOwnedIDMapName (path_Base (mfIDMap m))
              \<or> strings_HasPrefix (path_Base (mfIDMap m)) ''.working-''
      then Some (wrapf ErrManifestCorrupt ''IDMap must name an immutable package-owned Pebble checkpoint'')
      else if mfDeleteSnapshotGeneration m = 0
      then Some (wrapf ErrManifestCorrupt ''delete snapshot generation must be positive'')
      else if \<not> jsObject js (mfSchema m) then Some (wrapf ErrManifestCorrupt ''schema must be a JSON object'')
      else
        (case validate_persisted (mfPersistedSegments m) None {}
                {mfIDMap m, DeleteSnapshotName (mfDeleteSnapshotGeneration m)} 0 of
           Inl err \<Rightarrow> Some err
         | Inr (ids, resources, maxSegmentID) \<Rightarrow>
           (case validate_writing (mfWritingSegment m) ids resources maxSegmentID of
              Inl err \<Rightarrow> Some err
            | Inr (resources, maxSegmentID) \<Rightarrow>
              if (mfPersistedSegments m \<noteq> [] \<or> mfWritingSegment m \<noteq> None) \<and> mfNextSegmentID m \<le> maxSegmentID
              then Some (wrapf ErrManifestCorrupt ''next segment ID %d must exceed %d'')
              else validate_snapshots (mfPersistedSegments m) (mfSegmentIndexSnapshots m) {} {} resources)))"

subsection \<open>The manifest file\<close>

definition MarshalManifest :: "json_codec \<Rightarrow> Manifest \<Rightarrow> error + bytes" where
  "MarshalManifest js m =
     (case Manifest_Validate js m of
        Some err \<Rightarrow> Inl err
      | None \<Rightarrow>
        (case jsMarshal js m of
           Inl err \<Rightarrow> Inl (ErrWrap ''db: marshal manifest payload'' [err])
         | Inr payload \<Rightarrow>
           if maxManifestSize < length payload then Inl (wrapf ErrManifestCorrupt ''payload is %d bytes'')
           else Inr (manifestMagic @ PutUint16 (ucast DiskFormatVersion) @ PutUint16 (word_of_nat manifestHeaderSize)
                  @ PutUint64 (mfGeneration m) @ PutUint64 (word_of_nat (length payload)) @ PutUint32 (CRC32C payload)
                  @ payload)))"

definition ensureJSONEOF :: "error option \<Rightarrow> error option" where
  "ensureJSONEOF err =
     (case err of
        None \<Rightarrow> Some (ErrMsg ''multiple JSON values'')
      | Some e \<Rightarrow> if errors_Is e EOF then None else Some e)"

definition UnmarshalManifest :: "json_codec \<Rightarrow> bytes \<Rightarrow> error + Manifest" where
  "UnmarshalManifest js encoded =
     (if length encoded < manifestHeaderSize
      then Inl (wrapf ErrManifestCorrupt ''file is shorter than the header'')
      else if slice 0 8 encoded \<noteq> manifestMagic then Inl (wrapf ErrManifestCorrupt ''invalid magic'')
      else if ucast (Uint16 (slice 8 10 encoded)) \<noteq> DiskFormatVersion
      then Inl (wrapf ErrUnsupportedFormatVersion ''got %d, support %d'')
      else if unat (Uint16 (slice 10 12 encoded)) \<noteq> manifestHeaderSize
      then Inl (wrapf ErrManifestCorrupt ''invalid header size %d'')
      else
        let generation = Uint64 (slice 12 20 encoded);
            payloadLength = unat (Uint64 (slice 20 28 encoded)) in
        if maxManifestSize < payloadLength \<or> length encoded - manifestHeaderSize < payloadLength
        then Inl (wrapf ErrManifestCorrupt ''invalid payload length %d'')
        else if length encoded - manifestHeaderSize \<noteq> payloadLength
        then Inl (wrapf ErrManifestCorrupt ''trailing or truncated payload'')
        else
          let payload = drop manifestHeaderSize encoded in
          if CRC32C payload \<noteq> Uint32 (slice 28 32 encoded)
          then Inl (wrapf ErrManifestCorrupt ''checksum got %08x, want %08x'')
          else (case jsStartField js payload of
              Inl err \<Rightarrow> Inl (wrapf ErrManifestCorrupt ''decode payload: %v'')
            | Inr present \<Rightarrow>
              if \<not> present then Inl (wrapf ErrManifestCorrupt ''missing writing_segment_start_doc_id'')
              else (case jsDecode js payload of
                  Inl err \<Rightarrow> Inl (wrapf ErrManifestCorrupt ''decode payload: %v'')
                | Inr manifest \<Rightarrow>
                  if ensureJSONEOF (jsExtra js payload) \<noteq> None
                  then Inl (wrapf ErrManifestCorrupt ''decode payload: %v'')
                  else if mfGeneration manifest \<noteq> generation
                  then Inl (wrapf ErrManifestCorrupt ''header generation %d differs from payload %d'')
                  else (case Manifest_Validate js manifest of
                      Some err \<Rightarrow> Inl err
                    | None \<Rightarrow> Inr manifest))))"

end
