(* ===== verification/Files.thy ===== *)
theory Files
  imports Prelude
begin

text \<open>
  The file operations by which the storage engine publishes a file:
  \<^verbatim>\<open>src/internal/db/index/common/{atomic_unix,snapshot,version_manager}.go\<close>. The files of a
  collection are a map from names to contents. Each operating-system call may be answered with a fault
  by the environment; the name \<^verbatim>\<open>os.CreateTemp\<close> picks is an argument. A directory is created and
  synced by \<^verbatim>\<open>EnsureDirectorySynced\<close> in one call of the environment.
\<close>

type_synonym files = "string \<rightharpoonup> bytes"

definition syncDirectory :: "env \<Rightarrow> error option \<times> env" where
  "syncDirectory env =
     (case os_call env of
        (Some err, env) \<Rightarrow> (Some err, env)
      | (None, env) \<Rightarrow>
        (case sync_call env of
           (syncErr, env) \<Rightarrow>
             (case os_call env of (closeErr, env) \<Rightarrow> (errors_Join [syncErr, closeErr], env))))"

definition EnsureDirectorySynced :: "env \<Rightarrow> error option \<times> env" where
  "EnsureDirectorySynced env = os_call env"

definition os_Remove :: "string \<Rightarrow> files \<Rightarrow> env \<Rightarrow> files \<times> env" where
  "os_Remove name fs env =
     (case os_call env of (None, env) \<Rightarrow> (fs(name := None), env) | (Some err, env) \<Rightarrow> (fs, env))"

definition installFileNoReplace :: "string \<Rightarrow> string \<Rightarrow> files \<Rightarrow> env \<Rightarrow> error option \<times> files \<times> env" where
  "installFileNoReplace source destination fs env =
     (case os_call env of
        (Some err, env) \<Rightarrow> (Some err, fs, env)
      | (None, env) \<Rightarrow>
          if fs destination \<noteq> None then (Some (Sentinel ErrExist), fs, env)
          else (None, fs(destination := fs source), env))"

definition atomicReplaceFile :: "string \<Rightarrow> string \<Rightarrow> files \<Rightarrow> env \<Rightarrow> error option \<times> files \<times> env" where
  "atomicReplaceFile source destination fs env =
     (case os_call env of
        (Some err, env) \<Rightarrow> (Some err, fs, env)
      | (None, env) \<Rightarrow> (None, fs(destination := fs source, source := None), env))"

text \<open>
  Filling a new file: write, sync and close, the first error ending the sequence with the file
  closed. The result carries the step that failed.
\<close>

datatype fill_step = FillWrite | FillSync | FillClose

definition fill_file :: "string \<Rightarrow> bytes \<Rightarrow> files \<Rightarrow> env \<Rightarrow> (fill_step \<times> error) option \<times> files \<times> env" where
  "fill_file name contents fs env =
     (case WriteFullAt [] contents 0 env of
        (Some err, f, env) \<Rightarrow> (case os_call env of (_, env) \<Rightarrow> (Some (FillWrite, err), fs(name \<mapsto> f), env))
      | (None, f, env) \<Rightarrow>
        (case sync_call env of
           (Some err, env) \<Rightarrow> (case os_call env of (_, env) \<Rightarrow> (Some (FillSync, err), fs(name \<mapsto> f), env))
         | (None, env) \<Rightarrow>
           (case os_call env of
              (Some err, env) \<Rightarrow> (Some (FillClose, err), fs(name \<mapsto> f), env)
            | (None, env) \<Rightarrow> (None, fs(name \<mapsto> f), env))))"

definition writeTempSynced :: "ctx \<Rightarrow> string \<Rightarrow> bytes \<Rightarrow> files \<Rightarrow> env \<Rightarrow> error option \<times> files \<times> env" where
  "writeTempSynced ctx temp contents fs env =
     (case ctx_Err ctx env of
        (Some err, env) \<Rightarrow> (Some err, fs, env)
      | (None, env) \<Rightarrow>
        (case os_call env of
           (Some err, env) \<Rightarrow> (Some (ErrWrap ''db: create publication temp file'' [err]), fs, env)
         | (None, env) \<Rightarrow>
           (case fill_file temp contents fs env of
              (Some (step, err), fs, env) \<Rightarrow>
                let msg = (case step of FillWrite \<Rightarrow> ''db: write publication temp file''
                                      | FillSync \<Rightarrow> ''db: sync publication temp file''
                                      | FillClose \<Rightarrow> ''db: close publication temp file'') in
                (case os_Remove temp fs env of (fs, env) \<Rightarrow> (Some (ErrWrap msg [err]), fs, env))
            | (None, fs, env) \<Rightarrow>
              (case ctx_Err ctx env of
                 (Some err, env) \<Rightarrow>
                   (case os_Remove temp fs env of (fs, env) \<Rightarrow> (Some err, fs, env))
               | (None, env) \<Rightarrow> (None, fs, env)))))"

definition writeExclusiveSynced :: "string \<Rightarrow> bytes \<Rightarrow> files \<Rightarrow> env \<Rightarrow> error option \<times> files \<times> env" where
  "writeExclusiveSynced name contents fs env =
     (case os_call env of
        (Some err, env) \<Rightarrow> (Some err, fs, env)
      | (None, env) \<Rightarrow>
          if fs name \<noteq> None then (Some (Sentinel ErrExist), fs, env)
          else (case fill_file name contents fs env of
              (Some (step, err), fs, env) \<Rightarrow>
                (case os_Remove name fs env of (fs, env) \<Rightarrow> (Some err, fs, env))
            | (None, fs, env) \<Rightarrow> (None, fs, env)))"

text \<open>The last steps of a publication: link the temporary file under its name and sync the directory.\<close>

definition install_synced :: "string \<Rightarrow> string \<Rightarrow> string \<Rightarrow> string \<Rightarrow> files \<Rightarrow> env
    \<Rightarrow> error option \<times> files \<times> env" where
  "install_synced installMsg syncMsg temp name fs env =
     (case installFileNoReplace temp name fs env of
        (Some err, fs, env) \<Rightarrow> (Some (ErrWrap installMsg [err]), fs, env)
      | (None, fs, env) \<Rightarrow>
        (case syncDirectory env of
           (Some err, env) \<Rightarrow> (Some (ErrWrap syncMsg [err]), fs, env)
         | (None, env) \<Rightarrow> (None, fs, env)))"

definition WriteImmutableSnapshot :: "ctx \<Rightarrow> string \<Rightarrow> string \<Rightarrow> bytes \<Rightarrow> files \<Rightarrow> env
    \<Rightarrow> error option \<times> files \<times> env" where
  "WriteImmutableSnapshot ctx name temp encoded fs env =
     (if ctx = NilCtx then (Some (ErrMsg ''db: nil snapshot write context''), fs, env)
      else case ctx_Err ctx env of
        (Some err, env) \<Rightarrow> (Some err, fs, env)
      | (None, env) \<Rightarrow>
        (if name = [] then (Some (ErrMsg ''db: empty snapshot path''), fs, env)
         else case EnsureDirectorySynced env of
           (Some err, env) \<Rightarrow> (Some (ErrWrap ''db: create snapshot directory'' [err]), fs, env)
         | (None, env) \<Rightarrow>
           (case writeTempSynced ctx temp encoded fs env of
              (Some err, fs, env) \<Rightarrow> (Some err, fs, env)
            | (None, fs, env) \<Rightarrow>
              (case (case ctx_Err ctx env of
                  (Some err, env) \<Rightarrow> (Some err, fs, env)
                | (None, env) \<Rightarrow>
                    install_synced ''db: install immutable snapshot'' ''db: sync snapshot directory''
                      temp name fs env) of
                 (r, fs, env) \<Rightarrow> (case os_Remove temp fs env of (fs, env) \<Rightarrow> (r, fs, env))))))"

text \<open>
  \<^verbatim>\<open>WriteImmutableFile\<close>: the callback fills the temporary file, here as a function from the
  environment to the bytes it left in the file and its error.
\<close>

definition WriteImmutableFile :: "ctx \<Rightarrow> string \<Rightarrow> string \<Rightarrow> (env \<Rightarrow> error option \<times> bytes \<times> env) \<Rightarrow> files \<Rightarrow> env
    \<Rightarrow> error option \<times> files \<times> env" where
  "WriteImmutableFile ctx name temp write fs env =
     (if ctx = NilCtx then (Some (ErrMsg ''db: nil immutable file context''), fs, env)
      else case ctx_Err ctx env of
        (Some err, env) \<Rightarrow> (Some err, fs, env)
      | (None, env) \<Rightarrow>
        (if name = [] then (Some (ErrMsg ''db: empty immutable file path''), fs, env)
         else case EnsureDirectorySynced env of
           (Some err, env) \<Rightarrow> (Some (ErrWrap ''db: create immutable file directory'' [err]), fs, env)
         | (None, env) \<Rightarrow>
           (case os_call env of
              (Some err, env) \<Rightarrow> (Some (ErrWrap ''db: create immutable temp file'' [err]), fs, env)
            | (None, env) \<Rightarrow>
              (case write env of (werr, contents, env) \<Rightarrow>
                let fs = fs(temp \<mapsto> contents) in
                (case (case werr of
                    Some err \<Rightarrow>
                      (case os_call env of (_, env) \<Rightarrow>
                         (Some (ErrWrap ''db: write immutable temp file'' [err]), fs, env))
                  | None \<Rightarrow>
                    (case ctx_Err ctx env of
                       (Some err, env) \<Rightarrow> (case os_call env of (_, env) \<Rightarrow> (Some err, fs, env))
                     | (None, env) \<Rightarrow>
                       (case sync_call env of
                          (Some err, env) \<Rightarrow>
                            (case os_call env of (_, env) \<Rightarrow>
                               (Some (ErrWrap ''db: sync immutable temp file'' [err]), fs, env))
                        | (None, env) \<Rightarrow>
                          (case os_call env of
                             (Some err, env) \<Rightarrow>
                               (Some (ErrWrap ''db: close immutable temp file'' [err]), fs, env)
                           | (None, env) \<Rightarrow>
                               install_synced ''db: install immutable file''
                                 ''db: sync immutable file directory'' temp name fs env)))) of
                   (r, fs, env) \<Rightarrow> (case os_Remove temp fs env of (fs, env) \<Rightarrow> (r, fs, env)))))))"

subsection \<open>What publication changes\<close>

text \<open>\<open>fs'\<close> differs from \<open>fs\<close> at most at the names in \<open>S\<close>.\<close>

definition same_except :: "string set \<Rightarrow> files \<Rightarrow> files \<Rightarrow> bool" where
  "same_except S fs fs' \<longleftrightarrow> (\<forall>n. n \<notin> S \<longrightarrow> fs' n = fs n)"

lemma same_except_refl [simp]: "same_except S fs fs"
  by (simp add: same_except_def)

lemma same_except_upd [simp]: "n \<in> S \<Longrightarrow> same_except S fs (fs'(n := v)) \<longleftrightarrow> same_except S fs fs'"
  by (auto simp: same_except_def)

lemma os_Remove_same: "os_Remove n fs env = (fs', env') \<Longrightarrow> fs' = fs \<or> fs' = fs(n := None)"
  by (auto simp: os_Remove_def split: prod.splits option.splits)

lemma fill_file_cases:
  "fill_file n c fs env = (r, fs', env') \<Longrightarrow>
     \<exists>f. fs' = fs(n \<mapsto> f) \<and> (r = None \<longrightarrow> f = c)"
  by (auto simp: fill_file_def WriteFullAt_def write_at_def split: prod.splits option.splits if_splits)

lemma writeTempSynced_cases:
  assumes "writeTempSynced ctx temp c fs env = (r, fs', env')"
  shows "same_except {temp} fs fs' \<and> (r = None \<longrightarrow> fs' = fs(temp \<mapsto> c))"
  using assms
  by (auto simp: writeTempSynced_def Let_def split: prod.splits option.splits
      dest!: fill_file_cases os_Remove_same)

lemma writeExclusiveSynced_cases:
  assumes "writeExclusiveSynced name c fs env = (r, fs', env')"
  shows "same_except {name} fs fs' \<and> (fs name \<noteq> None \<longrightarrow> r \<noteq> None \<and> fs' = fs)
    \<and> (r = None \<longrightarrow> fs' = fs(name \<mapsto> c))"
  using assms
  by (auto simp: writeExclusiveSynced_def split: prod.splits option.splits if_splits
      dest!: fill_file_cases os_Remove_same)

lemma installFileNoReplace_cases:
  assumes "installFileNoReplace s d fs env = (r, fs', env')"
  shows "(r = None \<and> fs d = None \<and> fs' = fs(d := fs s)) \<or> (r \<noteq> None \<and> fs' = fs)"
  using assms by (auto simp: installFileNoReplace_def split: prod.splits option.splits if_splits)

text \<open>
  The outcome of publishing \<open>contents\<close> under \<open>name\<close> by way of \<open>temp\<close>: an existing file is never
  replaced, the name holds nothing or all of the contents, no other file changes.
\<close>

definition published :: "string \<Rightarrow> string \<Rightarrow> bytes \<Rightarrow> error option \<Rightarrow> files \<Rightarrow> files \<Rightarrow> bool" where
  "published name temp contents r fs fs' \<longleftrightarrow>
     same_except {name, temp} fs fs' \<and> (fs' name = fs name \<or> fs name = None \<and> fs' name = Some contents)
     \<and> (r = None \<longrightarrow> fs name = None \<and> fs' name = Some contents)"

lemma published_refl: "r \<noteq> None \<Longrightarrow> published name temp c r fs fs"
  by (auto simp: published_def)

lemma published_temp: "temp \<noteq> name \<Longrightarrow> r \<noteq> None \<Longrightarrow> same_except {temp} fs fs' \<Longrightarrow> published name temp c r fs fs'"
  by (auto simp: published_def same_except_def)

lemma published_remove:
  "temp \<noteq> name \<Longrightarrow> published name temp c r fs fs1 \<Longrightarrow> os_Remove temp fs1 env = (fs', env') \<Longrightarrow>
     published name temp c r fs fs'"
  by (auto simp: published_def same_except_def dest!: os_Remove_same)

lemma install_synced_published:
  assumes "temp \<noteq> name" "same_except {temp} fs fs1" "fs1 temp = Some c"
    and "install_synced im sm temp name fs1 env = (r, fs', env')"
  shows "published name temp c r fs fs'"
proof -
  obtain r1 fs2 e2 where i: "installFileNoReplace temp name fs1 env = (r1, fs2, e2)"
    by (metis prod_cases3)
  have "fs' = fs2" "r1 \<noteq> None \<longrightarrow> r \<noteq> None"
    using assms(4) i by (auto simp: install_synced_def split: prod.splits option.splits)
  with installFileNoReplace_cases [OF i] assms(1-3) show ?thesis
    by (auto simp: published_def same_except_def)
qed

lemma WriteImmutableSnapshot_published:
  assumes w: "WriteImmutableSnapshot ctx name temp c fs env = (r, fs', env')" and ne: "temp \<noteq> name"
  shows "published name temp c r fs fs'"
proof -
  have 1: "published name temp c r fs fs'"
    if "writeTempSynced ctx temp c fs e1 = (None, fs1, e2)" "install_synced im sm temp name fs1 e3 = (r, fs2, e4)"
      "os_Remove temp fs2 e4 = (fs', e5)" for e1 fs1 e2 e3 fs2 e4 e5 im sm
    using writeTempSynced_cases [OF that(1)] install_synced_published [OF ne _ _ that(2), of fs c]
      published_remove [OF ne _ that(3)] by auto
  have 2: "published name temp c (Some err) fs fs'"
    if "writeTempSynced ctx temp c fs e1 = (x, fs1, e2)" "os_Remove temp fs1 e4 = (fs', e5) \<or> fs' = fs1"
    for x err e1 fs1 e2 e4 e5
    using writeTempSynced_cases [OF that(1)] published_temp [OF ne, of "Some err" fs fs1 c]
      published_remove [OF ne, of c "Some err" fs fs1] that(2) by auto
  show ?thesis
    using w unfolding WriteImmutableSnapshot_def
    by (auto split: if_splits prod.splits option.splits intro: published_refl 1 2)
qed

lemma WriteImmutableFile_published:
  assumes w: "WriteImmutableFile ctx name temp write fs env = (r, fs', env')" and ne: "temp \<noteq> name"
    and full: "\<And>e f e'. write e = (None, f, e') \<Longrightarrow> f = c"
  shows "published name temp c r fs fs'"
proof -
  have 1: "published name temp c r fs fs'"
    if "write e1 = (None, f, e2)" "install_synced im sm temp name (fs(temp \<mapsto> f)) e3 = (r, fs2, e4)"
      "os_Remove temp fs2 e4 = (fs', e5)" for e1 f e2 e3 fs2 e4 e5 im sm
    using full [OF that(1)] install_synced_published [OF ne _ _ that(2), of fs c]
      published_remove [OF ne _ that(3)] by auto
  have 2: "published name temp c (Some err) fs fs'"
    if "os_Remove temp (fs(temp \<mapsto> f)) e4 = (fs', e5)" for err f e4 e5
    by (rule published_remove [OF ne _ that], rule published_temp [OF ne]) auto
  show ?thesis
    using w unfolding WriteImmutableFile_def Let_def
    by (auto split: if_splits prod.splits option.splits intro: published_refl 1 2)
qed

subsection \<open>Publication succeeds when no call fails\<close>

lemma syncDirectory_quiet: "quiet env \<Longrightarrow> \<exists>e. syncDirectory env = (None, e) \<and> quiet e"
  unfolding syncDirectory_def
  by (erule os_quietE, rule sync_quietE, assumption, rule os_quietE, assumption)
     (simp add: errors_Join_def)

lemma fill_file_quiet: "quiet env \<Longrightarrow> \<exists>e. fill_file n c fs env = (None, fs(n \<mapsto> c), e) \<and> quiet e"
proof -
  assume q: "quiet env"
  have "\<exists>e1. WriteFullAt [] c 0 env = (None, c, e1) \<and> quiet e1"
    using WriteFullAt_quiet [OF q, of c "[]" 0] q
    by (cases "c = []") (auto simp: WriteFullAt_def)
  then obtain e1 where 1: "WriteFullAt [] c 0 env = (None, c, e1)" "quiet e1" by blast
  obtain e2 where 2: "sync_call e1 = (None, e2)" "quiet e2" using 1(2) by (rule sync_quietE)
  obtain e3 where 3: "os_call e2 = (None, e3)" "quiet e3" using 2(2) by (rule os_quietE)
  show ?thesis using 1 2 3 by (simp add: fill_file_def)
qed

lemma writeTempSynced_quiet:
  assumes "quiet env"
  shows "\<exists>e. writeTempSynced ctx temp c fs env = (None, fs(temp \<mapsto> c), e) \<and> quiet e"
proof -
  obtain e1 where 1: "ctx_Err ctx env = (None, e1)" "quiet e1" using assms by (rule ctx_quietE)
  obtain e2 where 2: "os_call e1 = (None, e2)" "quiet e2" using 1(2) by (rule os_quietE)
  obtain e3 where 3: "fill_file temp c fs e2 = (None, fs(temp \<mapsto> c), e3)" "quiet e3"
    using fill_file_quiet [OF 2(2)] by blast
  obtain e4 where 4: "ctx_Err ctx e3 = (None, e4)" "quiet e4" using 3(2) by (rule ctx_quietE)
  show ?thesis using 1 2 3 4 by (simp add: writeTempSynced_def)
qed

lemma install_synced_quiet:
  assumes "quiet env" "fs name = None"
  shows "\<exists>e. install_synced im sm temp name fs env = (None, fs(name := fs temp), e) \<and> quiet e"
proof -
  obtain e1 where 1: "os_call env = (None, e1)" "quiet e1" using assms(1) by (rule os_quietE)
  obtain e2 where 2: "syncDirectory e1 = (None, e2)" "quiet e2"
    using syncDirectory_quiet [OF 1(2)] by blast
  show ?thesis using 1 2 assms(2) by (simp add: install_synced_def installFileNoReplace_def)
qed

lemma WriteImmutableSnapshot_quiet:
  assumes "quiet env" "ctx \<noteq> NilCtx" "name \<noteq> []" "fs name = None" "temp \<noteq> name"
  shows "\<exists>fs' e. WriteImmutableSnapshot ctx name temp c fs env = (None, fs', e) \<and> quiet e"
proof -
  obtain e1 where 1: "ctx_Err ctx env = (None, e1)" "quiet e1" using assms(1) by (rule ctx_quietE)
  obtain e2 where 2: "EnsureDirectorySynced e1 = (None, e2)" "quiet e2"
    unfolding EnsureDirectorySynced_def using 1(2) by (rule os_quietE)
  obtain e3 where 3: "writeTempSynced ctx temp c fs e2 = (None, fs(temp \<mapsto> c), e3)" "quiet e3"
    using writeTempSynced_quiet [OF 2(2)] by blast
  obtain e4 where 4: "ctx_Err ctx e3 = (None, e4)" "quiet e4" using 3(2) by (rule ctx_quietE)
  obtain fs5 e5 where 5: "install_synced ''db: install immutable snapshot'' ''db: sync snapshot directory''
      temp name (fs(temp \<mapsto> c)) e4 = (None, fs5, e5)" "quiet e5"
    using install_synced_quiet [OF 4(2), of "fs(temp \<mapsto> c)" name] assms(4,5) by (metis fun_upd_other)
  obtain e6 where 6: "os_call e5 = (None, e6)" "quiet e6" using 5(2) by (rule os_quietE)
  show ?thesis using assms(2,3) 1 2 3 4 5 6 by (simp add: WriteImmutableSnapshot_def os_Remove_def)
qed

end
