(* ===== verification/Id_Map.thy ===== *)
theory Id_Map
  imports Paths "HOL-Library.AList" "HOL-Library.List_Lexorder"
begin

text \<open>
  The collection IDMap, \<^verbatim>\<open>src/internal/db/index/common/id_map.go\<close>: a point map from primary
  keys to document IDs, either writable (a Pebble database and the set of known keys) or
  read-only (a Pebble checkpoint under an in-memory overlay of replayed changes). Pebble is a
  third-party package: its operations are the argument \<open>ops\<close>, its database an abstract type,
  and what the code relies on is the predicate \<open>pebble_ok\<close>. The test hooks
  \<^verbatim>\<open>setPoint\<close> and \<^verbatim>\<open>deletePoint\<close> are nil in production and left out.
\<close>

subsection \<open>Primary keys\<close>

definition MaxPrimaryKeyBytes :: nat where
  "MaxPrimaryKeyBytes = 65536"

text \<open>\<^verbatim>\<open>utf8.ValidString\<close>: the accepted lead bytes with the range of the byte that follows.\<close>

definition utf8_cont :: "u8 \<Rightarrow> bool" where
  "utf8_cont b \<longleftrightarrow> 0x80 \<le> b \<and> b \<le> 0xBF"

fun utf8_Valid :: "bytes \<Rightarrow> bool" where
  "utf8_Valid [] = True"
| "utf8_Valid (a # s) =
     (if a < 0x80 then utf8_Valid s
      else if 0xC2 \<le> a \<and> a \<le> 0xDF then
        (case s of b # s' \<Rightarrow> utf8_cont b \<and> utf8_Valid s' | _ \<Rightarrow> False)
      else if 0xE0 \<le> a \<and> a \<le> 0xEF then
        (case s of
           b # c # s' \<Rightarrow> (if a = 0xE0 then 0xA0 else 0x80) \<le> b \<and> b \<le> (if a = 0xED then 0x9F else 0xBF)
             \<and> utf8_cont c \<and> utf8_Valid s'
         | _ \<Rightarrow> False)
      else if 0xF0 \<le> a \<and> a \<le> 0xF4 then
        (case s of
           b # c # d # s' \<Rightarrow> (if a = 0xF0 then 0x90 else 0x80) \<le> b \<and> b \<le> (if a = 0xF4 then 0x8F else 0xBF)
             \<and> utf8_cont c \<and> utf8_cont d \<and> utf8_Valid s'
         | _ \<Rightarrow> False)
      else False)"

definition ValidatePrimaryKey :: "bytes \<Rightarrow> error option" where
  "ValidatePrimaryKey key =
     (if key = [] then Some (ErrMsg ''db: primary key is empty'')
      else if MaxPrimaryKeyBytes < length key
      then Some (ErrMsg ''db: primary key is %d bytes, maximum %d'')
      else if \<not> utf8_Valid key then Some (ErrMsg ''db: primary key is not valid UTF-8'')
      else None)"

subsection \<open>Pebble\<close>

text \<open>
  The calls the IDMap makes. \<open>pbGet\<close> returns \<open>None\<close> for \<^verbatim>\<open>pebble.ErrNotFound\<close> and otherwise the
  value with the error of closing it; \<open>pbIter\<close> opens an iterator and yields the entries it visits
  from \<^verbatim>\<open>First\<close>, the iterator's final \<^verbatim>\<open>Error\<close> and the error of its \<^verbatim>\<open>Close\<close>;
  \<open>pbSnapClose\<close> is the error of closing a snapshot of the database.
\<close>

record 'db pebble =
  pbGet :: "'db \<Rightarrow> bytes \<Rightarrow> error + (bytes \<times> error option) option"
  pbSet :: "'db \<Rightarrow> bytes \<Rightarrow> bytes \<Rightarrow> error option \<times> 'db"
  pbDelete :: "'db \<Rightarrow> bytes \<Rightarrow> error option \<times> 'db"
  pbIter :: "'db \<Rightarrow> error + ((bytes \<times> bytes) list \<times> error option \<times> error option)"
  pbSnapClose :: "'db \<Rightarrow> error option"
  pbClose :: "'db \<Rightarrow> error option"

text \<open>
  Documented behaviour of the point operations, over the finite map a database holds: a lookup
  that succeeds returns the entry, a write or deletion that succeeds changes exactly its key,
  and an iterator that ends without error has visited the entries once each in ascending key
  order. A call that reports an error promises nothing.
\<close>

definition pebble_ok :: "'db pebble \<Rightarrow> ('db \<Rightarrow> bytes \<rightharpoonup> bytes) \<Rightarrow> bool" where
  "pebble_ok ops pmap \<longleftrightarrow>
     (\<forall>db. finite (dom (pmap db))) \<and>
     (\<forall>db k r. pbGet ops db k = Inr r \<longrightarrow> map_option fst r = pmap db k) \<and>
     (\<forall>db k v db'. pbSet ops db k v = (None, db') \<longrightarrow> pmap db' = (pmap db)(k \<mapsto> v)) \<and>
     (\<forall>db k db'. pbDelete ops db k = (None, db') \<longrightarrow> pmap db' = (pmap db)(k := None)) \<and>
     (\<forall>db kvs c. pbIter ops db = Inr (kvs, None, c) \<longrightarrow>
        sorted (map fst kvs) \<and> distinct (map fst kvs) \<and> map_of kvs = pmap db)"

text \<open>No call of this database reports an error.\<close>

definition pebble_reliable :: "'db pebble \<Rightarrow> bool" where
  "pebble_reliable ops \<longleftrightarrow>
     (\<forall>db k. \<exists>r. pbGet ops db k = Inr r \<and> (\<forall>v c. r = Some (v, c) \<longrightarrow> c = None)) \<and>
     (\<forall>db k v. fst (pbSet ops db k v) = None) \<and> (\<forall>db k. fst (pbDelete ops db k) = None) \<and>
     (\<forall>db. \<exists>kvs. pbIter ops db = Inr (kvs, None, None)) \<and> (\<forall>db. pbClose ops db = None)"

definition BigEndian_PutUint64 :: "u64 \<Rightarrow> bytes" where
  "BigEndian_PutUint64 v = rev (PutUint64 v)"

definition BigEndian_Uint64 :: "bytes \<Rightarrow> u64" where
  "BigEndian_Uint64 bs = Uint64 (rev bs)"

lemma BigEndian_Uint64_Put [simp]: "BigEndian_Uint64 (BigEndian_PutUint64 v) = v"
  by (simp add: BigEndian_Uint64_def BigEndian_PutUint64_def)

lemma length_BigEndian_PutUint64 [simp]: "length (BigEndian_PutUint64 v) = 8"
  by (simp add: BigEndian_PutUint64_def)

subsection \<open>The map\<close>

record primaryKeyDelta =
  deltaDocID :: u64
  deltaDeleted :: bool

record 'db PrimaryKeyMap =
  pkDb :: "'db option"
  pkCount :: int
  pkKnown :: "bytes set option"
  pkOverlay :: "(bytes \<times> primaryKeyDelta) list option"

definition overlay_lookup :: "'db PrimaryKeyMap \<Rightarrow> bytes \<Rightarrow> primaryKeyDelta option" where
  "overlay_lookup m key = (case pkOverlay m of None \<Rightarrow> None | Some ov \<Rightarrow> map_of ov key)"

definition getPrimaryDocID :: "'db pebble \<Rightarrow> 'db \<Rightarrow> bytes \<Rightarrow> u64 \<times> bool \<times> error option" where
  "getPrimaryDocID ops db key =
     (case pbGet ops db key of
        Inl err \<Rightarrow> (0, False, Some (ErrWrap ''db: read IDMap point'' [err]))
      | Inr None \<Rightarrow> (0, False, None)
      | Inr (Some (val, closeErr)) \<Rightarrow>
          if length val \<noteq> 8
          then (0, False,
                errors_Join [Some (wrapf ErrIDMapCorrupt ''document ID value has %d bytes''), closeErr])
          else (BigEndian_Uint64 val, True, errors_Join [None, closeErr]))"

definition getLocked :: "'db pebble \<Rightarrow> 'db PrimaryKeyMap \<Rightarrow> 'db \<Rightarrow> bytes \<Rightarrow> u64 \<times> bool \<times> error option" where
  "getLocked ops m db key =
     (if (case pkKnown m of None \<Rightarrow> False | Some known \<Rightarrow> key \<notin> known) then (0, False, None)
      else case overlay_lookup m key of
        Some delta \<Rightarrow> (deltaDocID delta, \<not> deltaDeleted delta, None)
      | None \<Rightarrow> getPrimaryDocID ops db key)"

definition PrimaryKeyMap_Get :: "'db pebble \<Rightarrow> 'db PrimaryKeyMap \<Rightarrow> bytes \<Rightarrow> u64 \<times> bool \<times> error option" where
  "PrimaryKeyMap_Get ops m key =
     (case pkDb m of
        None \<Rightarrow> (0, False, Some (ErrMsg ''db: closed IDMap''))
      | Some db \<Rightarrow> getLocked ops m db key)"

text \<open>The guards shared by the three mutators, in the order of the source.\<close>

definition idmap_guard :: "string \<Rightarrow> ctx \<Rightarrow> bytes \<Rightarrow> 'db PrimaryKeyMap \<Rightarrow> env
    \<Rightarrow> (error + 'db) \<times> env" where
  "idmap_guard what ctx key m env =
     (if ctx = NilCtx then (Inl (ErrMsg what), env)
      else case ctx_Err ctx env of
        (Some err, env) \<Rightarrow> (Inl err, env)
      | (None, env) \<Rightarrow>
        (case ValidatePrimaryKey key of
           Some err \<Rightarrow> (Inl err, env)
         | None \<Rightarrow>
           (case pkDb m of
              None \<Rightarrow> (Inl (ErrMsg ''db: closed IDMap''), env)
            | Some db \<Rightarrow> (Inr db, env))))"

definition PrimaryKeyMap_Put :: "'db pebble \<Rightarrow> ctx \<Rightarrow> bytes \<Rightarrow> u64 \<Rightarrow> 'db PrimaryKeyMap \<Rightarrow> env
    \<Rightarrow> (u64 \<times> bool \<times> error option) \<times> 'db PrimaryKeyMap \<times> env" where
  "PrimaryKeyMap_Put ops ctx key docID m env =
     (case idmap_guard ''db: nil IDMap write context'' ctx key m env of
        (Inl err, env) \<Rightarrow> ((0, False, Some err), m, env)
      | (Inr db, env) \<Rightarrow>
        (case getLocked ops m db key of
           (previous, found, Some err) \<Rightarrow> ((0, False, Some err), m, env)
         | (previous, found, None) \<Rightarrow>
           let counted = (\<lambda>m. ((previous, found, None),
                 (if found then m else m\<lparr>pkCount := pkCount m + 1\<rparr>), env)) in
           (case pkOverlay m of
              Some ov \<Rightarrow>
                counted (m\<lparr>pkOverlay :=
                  Some (AList.update key \<lparr>deltaDocID = docID, deltaDeleted = False\<rparr> ov)\<rparr>)
            | None \<Rightarrow>
                (case pbSet ops db key (BigEndian_PutUint64 docID) of
                   (Some err, db) \<Rightarrow>
                     ((0, False, Some (ErrWrap ''db: write IDMap point'' [err])),
                      m\<lparr>pkDb := Some db\<rparr>, env)
                 | (None, db) \<Rightarrow>
                     counted (m\<lparr>pkDb := Some db, pkKnown := map_option (insert key) (pkKnown m)\<rparr>)))))"

definition PrimaryKeyMap_PutNew :: "'db pebble \<Rightarrow> ctx \<Rightarrow> bytes \<Rightarrow> u64 \<Rightarrow> 'db PrimaryKeyMap \<Rightarrow> env
    \<Rightarrow> error option \<times> 'db PrimaryKeyMap \<times> env" where
  "PrimaryKeyMap_PutNew ops ctx key docID m env =
     (case idmap_guard ''db: nil IDMap write context'' ctx key m env of
        (Inl err, env) \<Rightarrow> (Some err, m, env)
      | (Inr db, env) \<Rightarrow>
        (case pkOverlay m of
           Some ov \<Rightarrow>
             (None, m\<lparr>pkOverlay :=
                Some (AList.update key \<lparr>deltaDocID = docID, deltaDeleted = False\<rparr> ov),
                pkCount := pkCount m + 1\<rparr>, env)
         | None \<Rightarrow>
             (case pbSet ops db key (BigEndian_PutUint64 docID) of
                (Some err, db) \<Rightarrow>
                  (Some (ErrWrap ''db: write new IDMap point'' [err]), m\<lparr>pkDb := Some db\<rparr>, env)
              | (None, db) \<Rightarrow>
                  (None, m\<lparr>pkDb := Some db, pkKnown := map_option (insert key) (pkKnown m),
                           pkCount := pkCount m + 1\<rparr>, env))))"

definition PrimaryKeyMap_Delete :: "'db pebble \<Rightarrow> ctx \<Rightarrow> bytes \<Rightarrow> 'db PrimaryKeyMap \<Rightarrow> env
    \<Rightarrow> (u64 \<times> bool \<times> error option) \<times> 'db PrimaryKeyMap \<times> env" where
  "PrimaryKeyMap_Delete ops ctx key m env =
     (case idmap_guard ''db: nil IDMap delete context'' ctx key m env of
        (Inl err, env) \<Rightarrow> ((0, False, Some err), m, env)
      | (Inr db, env) \<Rightarrow>
        (case getLocked ops m db key of
           (previous, found, err) \<Rightarrow>
             if err \<noteq> None \<or> \<not> found then ((previous, found, err), m, env)
             else case pkOverlay m of
               Some ov \<Rightarrow>
                 ((previous, True, None),
                  m\<lparr>pkOverlay := Some (AList.update key \<lparr>deltaDocID = 0, deltaDeleted = True\<rparr> ov),
                    pkCount := pkCount m - 1\<rparr>, env)
             | None \<Rightarrow>
                 (case pbDelete ops db key of
                    (Some err, db) \<Rightarrow>
                      ((0, False, Some (ErrWrap ''db: delete IDMap point'' [err])),
                       m\<lparr>pkDb := Some db\<rparr>, env)
                  | (None, db) \<Rightarrow>
                      ((previous, True, None),
                       m\<lparr>pkDb := Some db, pkKnown := map_option (\<lambda>s. s - {key}) (pkKnown m),
                         pkCount := pkCount m - 1\<rparr>, env))))"

text \<open>\<^verbatim>\<open>MultiGet\<close>: the IDs and found flags in input order, or the first error.\<close>

fun PrimaryKeyMap_MultiGet :: "'db pebble \<Rightarrow> 'db PrimaryKeyMap \<Rightarrow> bytes list
    \<Rightarrow> error + (u64 list \<times> bool list)" where
  "PrimaryKeyMap_MultiGet ops m [] = Inr ([], [])"
| "PrimaryKeyMap_MultiGet ops m (key # keys) =
     (case PrimaryKeyMap_Get ops m key of
        (docID, found, Some err) \<Rightarrow> Inl err
      | (docID, found, None) \<Rightarrow>
          map_sum id (\<lambda>(ds, fs). (docID # ds, found # fs)) (PrimaryKeyMap_MultiGet ops m keys))"

definition PrimaryKeyMap_Count :: "'db PrimaryKeyMap \<Rightarrow> int" where
  "PrimaryKeyMap_Count m = pkCount m"

definition PrimaryKeyMap_Close :: "'db pebble \<Rightarrow> 'db PrimaryKeyMap \<Rightarrow> error option \<times> 'db PrimaryKeyMap" where
  "PrimaryKeyMap_Close ops m =
     (case pkDb m of
        None \<Rightarrow> (None, m)
      | Some db \<Rightarrow> (pbClose ops db, m\<lparr>pkDb := None, pkKnown := None, pkOverlay := None\<rparr>))"

text \<open>
  \<^verbatim>\<open>scanCount\<close>: counts the entries of a freshly opened database and, for a writable map, records
  their keys; an invalid key or a value that is not eight bytes is a corrupt checkpoint.
\<close>

fun scan_entries :: "ctx \<Rightarrow> (bytes \<times> bytes) list \<Rightarrow> bytes set option \<Rightarrow> int \<Rightarrow> env
    \<Rightarrow> (error + int) \<times> bytes set option \<times> env" where
  "scan_entries ctx [] known n env = (Inr n, known, env)"
| "scan_entries ctx ((key, val) # kvs) known n env =
     (case ctx_Err ctx env of
        (Some err, env) \<Rightarrow> (Inl err, known, env)
      | (None, env) \<Rightarrow>
        if ValidatePrimaryKey key \<noteq> None
        then (Inl (wrapf ErrIDMapCorrupt ''invalid primary key: %v''), known, env)
        else if length val \<noteq> 8
        then (Inl (wrapf ErrIDMapCorrupt ''document ID value has %d bytes''), known, env)
        else scan_entries ctx kvs (map_option (insert key) known) (n + 1) env)"

definition scanCount :: "'db pebble \<Rightarrow> ctx \<Rightarrow> 'db \<Rightarrow> bytes set option \<Rightarrow> env
    \<Rightarrow> (int \<times> error option) \<times> bytes set option \<times> env" where
  "scanCount ops ctx db known env =
     (case pbIter ops db of
        Inl err \<Rightarrow> ((0, Some (ErrWrap ''db: scan IDMap'' [err])), known, env)
      | Inr (kvs, iterErr, closeErr) \<Rightarrow>
        (case scan_entries ctx kvs known 0 env of
           (Inl err, known, env) \<Rightarrow> ((0, errors_Join [Some err, closeErr]), known, env)
         | (Inr n, known, env) \<Rightarrow>
           (case iterErr of
              Some err \<Rightarrow>
                ((0, errors_Join [Some (ErrWrap ''db: scan IDMap'' [err]), closeErr]), known, env)
            | None \<Rightarrow> ((n, errors_Join [None, closeErr]), known, env))))"

text \<open>
  \<^verbatim>\<open>ForEach\<close>: visits the entries of the database under the overlay, then the overlay's own. The
  callback is an argument over the caller's state. The order in which Go ranges over the overlay
  is arbitrary: here it is the order of the association list.
\<close>

type_synonym 's visit_fun = "bytes \<Rightarrow> u64 \<Rightarrow> 's \<Rightarrow> error option \<times> 's"

fun forEach_base :: "ctx \<Rightarrow> (bytes \<rightharpoonup> primaryKeyDelta) \<Rightarrow> 's visit_fun \<Rightarrow> (bytes \<times> bytes) list \<Rightarrow> bytes set
    \<Rightarrow> 's \<Rightarrow> env \<Rightarrow> error option \<times> bytes set \<times> 's \<times> env" where
  "forEach_base ctx ov visit [] seen s env = (None, seen, s, env)"
| "forEach_base ctx ov visit ((key, val) # kvs) seen s env =
     (case ctx_Err ctx env of
        (Some err, env) \<Rightarrow> (Some err, seen, s, env)
      | (None, env) \<Rightarrow>
        if ValidatePrimaryKey key \<noteq> None
        then (Some (wrapf ErrIDMapCorrupt ''invalid primary key: %v''), seen, s, env)
        else if length val \<noteq> 8
        then (Some (wrapf ErrIDMapCorrupt ''document ID value has %d bytes''), seen, s, env)
        else case ov key of
          Some delta \<Rightarrow>
            if deltaDeleted delta then forEach_base ctx ov visit kvs (insert key seen) s env
            else (case visit key (deltaDocID delta) s of
                (Some err, s) \<Rightarrow> (Some err, insert key seen, s, env)
              | (None, s) \<Rightarrow> forEach_base ctx ov visit kvs (insert key seen) s env)
        | None \<Rightarrow>
            (case visit key (BigEndian_Uint64 val) s of
               (Some err, s) \<Rightarrow> (Some err, seen, s, env)
             | (None, s) \<Rightarrow> forEach_base ctx ov visit kvs seen s env))"

fun forEach_overlay :: "'s visit_fun \<Rightarrow> bytes set \<Rightarrow> (bytes \<times> primaryKeyDelta) list \<Rightarrow> 's
    \<Rightarrow> error option \<times> 's" where
  "forEach_overlay visit seen [] s = (None, s)"
| "forEach_overlay visit seen ((key, delta) # ds) s =
     (if key \<in> seen \<or> deltaDeleted delta then forEach_overlay visit seen ds s
      else case visit key (deltaDocID delta) s of
        (Some err, s) \<Rightarrow> (Some err, s)
      | (None, s) \<Rightarrow> forEach_overlay visit seen ds s)"

definition PrimaryKeyMap_ForEach :: "'db pebble \<Rightarrow> ctx \<Rightarrow> 's visit_fun \<Rightarrow> 'db PrimaryKeyMap \<Rightarrow> 's \<Rightarrow> env
    \<Rightarrow> error option \<times> 's \<times> env" where
  "PrimaryKeyMap_ForEach ops ctx visit m s env =
     (if ctx = NilCtx then (Some (ErrMsg ''db: nil IDMap iteration context''), s, env)
      else case pkDb m of
        None \<Rightarrow> (Some (ErrMsg ''db: closed IDMap''), s, env)
      | Some db \<Rightarrow>
        (case pbIter ops db of
           Inl err \<Rightarrow> (Some (ErrWrap ''db: iterate IDMap'' [err]), s, env)
         | Inr (kvs, iterErr, closeErr) \<Rightarrow>
           (case forEach_base ctx (overlay_lookup m) visit kvs {} s env of
              (Some err, seen, s, env) \<Rightarrow> (errors_Join [Some err, closeErr], s, env)
            | (None, seen, s, env) \<Rightarrow>
              (case iterErr of
                 Some err \<Rightarrow>
                   (errors_Join [Some (ErrWrap ''db: iterate IDMap'' [err]), closeErr], s, env)
               | None \<Rightarrow>
                 (case forEach_overlay visit seen (case pkOverlay m of None \<Rightarrow> [] | Some ov \<Rightarrow> ov) s of
                    (err, s) \<Rightarrow> (errors_Join [err, closeErr], s, env))))))"

subsection \<open>Opening a map\<close>

text \<open>
  What the file system and Pebble answer while a map is created or opened: \<^verbatim>\<open>os.Lstat\<close> of a
  path, the entries \<^verbatim>\<open>filepath.WalkDir\<close> visits below one (each with what its callback is given),
  \<^verbatim>\<open>EnsureDirectorySynced\<close>, \<^verbatim>\<open>vfs.Clone\<close>, \<^verbatim>\<open>pebble.Open\<close> and the sync of the parent directory.
  The type bits of a file mode are a \<open>file_kind\<close>.
\<close>

datatype file_kind = Symlink | Directory | RegularFile | SpecialFile

record 'db idmap_fs =
  fsLstat :: "string \<Rightarrow> error + file_kind"
  fsWalk :: "string \<Rightarrow> (error + file_kind) list"
  fsEnsureDir :: "error option"
  fsClone :: "error option \<times> bool"
  fsOpen :: "error + 'db"
  fsSyncDir :: "error option"

definition validateIDMapParentDirectory :: "'db idmap_fs \<Rightarrow> string \<Rightarrow> error option" where
  "validateIDMapParentDirectory fs name =
     (case fsLstat fs (path_Dir name) of
        Inl err \<Rightarrow> Some (ErrWrap ''db: inspect IDMap parent directory'' [err])
      | Inr info \<Rightarrow>
        if info = Symlink then Some (ErrMsg ''db: IDMap parent directory is a symlink'')
        else if info \<noteq> Directory then Some (ErrMsg ''db: IDMap parent path is not a directory'')
        else None)"

fun walk_entries :: "(error + file_kind) list \<Rightarrow> error option" where
  "walk_entries [] = None"
| "walk_entries (Inl walkErr # _) = Some walkErr"
| "walk_entries (Inr entry # entries) =
     (if entry = Symlink then Some (ErrMsg ''db: IDMap contains symlink %q'')
      else if entry \<noteq> Directory \<and> entry \<noteq> RegularFile
      then Some (ErrMsg ''db: IDMap contains non-regular entry %q'')
      else walk_entries entries)"

definition validateIDMapDirectory :: "'db idmap_fs \<Rightarrow> string \<Rightarrow> error option" where
  "validateIDMapDirectory fs name =
     (case validateIDMapParentDirectory fs name of
        Some err \<Rightarrow> Some err
      | None \<Rightarrow>
        (case fsLstat fs name of
           Inl err \<Rightarrow> Some (ErrWrap ''db: inspect IDMap directory'' [err])
         | Inr info \<Rightarrow>
           if info = Symlink then Some (ErrMsg ''db: IDMap directory is a symlink'')
           else if info \<noteq> Directory then Some (ErrMsg ''db: IDMap path is not a directory'')
           else walk_entries (fsWalk fs name)))"

definition CreatePrimaryKeyMap :: "'db pebble \<Rightarrow> 'db idmap_fs \<Rightarrow> ctx \<Rightarrow> string \<Rightarrow> env
    \<Rightarrow> (error + 'db PrimaryKeyMap) \<times> env" where
  "CreatePrimaryKeyMap ops fs ctx name env =
     (if ctx = NilCtx then (Inl (ErrMsg ''db: nil IDMap create context''), env)
      else case ctx_Err ctx env of
        (Some err, env) \<Rightarrow> (Inl err, env)
      | (None, env) \<Rightarrow>
        (if name = [] then (Inl (ErrMsg ''db: empty IDMap path''), env)
         else case fsEnsureDir fs of
           Some err \<Rightarrow> (Inl (ErrWrap ''db: create IDMap parent'' [err]), env)
         | None \<Rightarrow>
           (case validateIDMapParentDirectory fs name of
              Some err \<Rightarrow> (Inl err, env)
            | None \<Rightarrow>
              (case fsLstat fs name of
                 Inr _ \<Rightarrow> (Inl (Sentinel ErrExist), env)
               | Inl err \<Rightarrow>
                 if \<not> errors_Is err ErrNotExist then (Inl (ErrWrap ''db: inspect IDMap path'' [err]), env)
                 else
                 (case fsOpen fs of
                    Inl err \<Rightarrow> (Inl (ErrWrap ''db: create IDMap'' [err]), env)
                  | Inr db \<Rightarrow>
                    (case fsSyncDir fs of
                       Some err \<Rightarrow>
                         (Inl (the (errors_Join [Some (ErrWrap ''db: sync IDMap parent'' [err]), pbClose ops db])), env)
                     | None \<Rightarrow>
                         (Inr \<lparr>pkDb = Some db, pkCount = 0, pkKnown = Some {}, pkOverlay = None\<rparr>, env)))))))"

definition OpenPrimaryKeyMap :: "'db pebble \<Rightarrow> 'db idmap_fs \<Rightarrow> ctx \<Rightarrow> string \<Rightarrow> string \<Rightarrow> env
    \<Rightarrow> (error + 'db PrimaryKeyMap) \<times> env" where
  "OpenPrimaryKeyMap ops fs ctx checkpoint working env =
     (if ctx = NilCtx then (Inl (ErrMsg ''db: nil IDMap open context''), env)
      else case ctx_Err ctx env of
        (Some err, env) \<Rightarrow> (Inl err, env)
      | (None, env) \<Rightarrow>
        (if checkpoint = [] \<or> working = []
         then (Inl (ErrMsg ''db: empty IDMap checkpoint or working path''), env)
         else case validateIDMapDirectory fs checkpoint of
           Some err \<Rightarrow> (Inl err, env)
         | None \<Rightarrow>
           (case fsEnsureDir fs of
              Some err \<Rightarrow> (Inl (ErrWrap ''db: create IDMap working parent'' [err]), env)
            | None \<Rightarrow>
              (case validateIDMapParentDirectory fs working of
                 Some err \<Rightarrow> (Inl err, env)
               | None \<Rightarrow>
                 (case fsLstat fs working of
                    Inr _ \<Rightarrow> (Inl (Sentinel ErrExist), env)
                  | Inl err \<Rightarrow>
                    if \<not> errors_Is err ErrNotExist then (Inl (ErrWrap ''db: inspect IDMap working path'' [err]), env)
                    else
                    (case fsClone fs of
                       (Some err, _) \<Rightarrow> (Inl (ErrWrap ''db: copy IDMap checkpoint'' [err]), env)
                     | (None, False) \<Rightarrow>
                         (Inl (ErrWrap ''db: copy IDMap checkpoint'' [Sentinel ErrNotExist]), env)
                     | (None, True) \<Rightarrow>
                       (case fsOpen fs of
                          Inl err \<Rightarrow> (Inl (ErrWrap ''db: open IDMap working copy'' [err]), env)
                        | Inr db \<Rightarrow>
                          (case scanCount ops ctx db (Some {}) env of
                             ((n, Some err), known, env) \<Rightarrow>
                               (Inl (the (errors_Join [Some err, pbClose ops db])), env)
                           | ((n, None), known, env) \<Rightarrow>
                               (Inr \<lparr>pkDb = Some db, pkCount = n, pkKnown = known, pkOverlay = None\<rparr>, env)))))))))"

definition OpenPrimaryKeyMapReadOnly :: "'db pebble \<Rightarrow> 'db idmap_fs \<Rightarrow> ctx \<Rightarrow> string \<Rightarrow> env
    \<Rightarrow> (error + 'db PrimaryKeyMap) \<times> env" where
  "OpenPrimaryKeyMapReadOnly ops fs ctx checkpoint env =
     (if ctx = NilCtx then (Inl (ErrMsg ''db: nil read-only IDMap open context''), env)
      else case ctx_Err ctx env of
        (Some err, env) \<Rightarrow> (Inl err, env)
      | (None, env) \<Rightarrow>
        (if checkpoint = [] then (Inl (ErrMsg ''db: empty IDMap checkpoint path''), env)
         else case validateIDMapDirectory fs checkpoint of
           Some err \<Rightarrow> (Inl err, env)
         | None \<Rightarrow>
           (case fsClone fs of
              (Some err, _) \<Rightarrow> (Inl (ErrWrap ''db: copy read-only IDMap checkpoint'' [err]), env)
            | (None, False) \<Rightarrow>
                (Inl (ErrWrap ''db: copy read-only IDMap checkpoint'' [Sentinel ErrNotExist]), env)
            | (None, True) \<Rightarrow>
              (case fsOpen fs of
                 Inl err \<Rightarrow> (Inl (ErrWrap ''db: open read-only IDMap'' [err]), env)
               | Inr db \<Rightarrow>
                 (case scanCount ops ctx db None env of
                    ((n, Some err), known, env) \<Rightarrow>
                      (Inl (the (errors_Join [Some err, pbClose ops db])), env)
                  | ((n, None), known, env) \<Rightarrow>
                      (Inr \<lparr>pkDb = Some db, pkCount = n, pkKnown = known, pkOverlay = Some []\<rparr>, env))))))"

subsection \<open>Snapshot iterators\<close>

text \<open>
  A snapshot iterator holds the entries its Pebble iterator has not passed (\<open>siBase\<close>, empty
  when \<^verbatim>\<open>baseValid\<close> is false), the error the iterator reports once exhausted, the errors of
  closing iterator and snapshot, and the sorted overlay keys not yet passed (\<open>siKeys\<close>, the suffix of
  \<^verbatim>\<open>overlayKeys\<close> from \<^verbatim>\<open>overlayPos\<close>).
\<close>

record PrimaryKeySnapshotIterator =
  siBase :: "(bytes \<times> bytes) list"
  siErr :: "error option"
  siCloseErrs :: "error option \<times> error option"
  siOverlay :: "(bytes \<times> primaryKeyDelta) list"
  siKeys :: "bytes list"
  siClosed :: bool

definition PrimaryKeyMap_NewSnapshotIterator :: "'db pebble \<Rightarrow> 'db PrimaryKeyMap
    \<Rightarrow> error + PrimaryKeySnapshotIterator" where
  "PrimaryKeyMap_NewSnapshotIterator ops m =
     (case pkDb m of
        None \<Rightarrow> Inl (ErrMsg ''db: closed IDMap'')
      | Some db \<Rightarrow>
        (case pbIter ops db of
           Inl err \<Rightarrow> Inl (ErrWrap ''db: create IDMap snapshot iterator'' [err])
         | Inr (kvs, iterErr, closeErr) \<Rightarrow>
           let ov = (case pkOverlay m of None \<Rightarrow> [] | Some ov \<Rightarrow> ov) in
           (case (kvs, iterErr) of
              ([], Some err) \<Rightarrow> Inl (ErrWrap ''db: position IDMap snapshot iterator'' [err])
            | _ \<Rightarrow> Inr \<lparr>siBase = kvs, siErr = iterErr, siCloseErrs = (closeErr, pbSnapClose ops db),
                siOverlay = ov, siKeys = sort (map fst ov), siClosed = False\<rparr>)))"

definition advanceBase :: "PrimaryKeySnapshotIterator \<Rightarrow> error option \<times> PrimaryKeySnapshotIterator" where
  "advanceBase i =
     (let i' = i\<lparr>siBase := tl (siBase i)\<rparr> in
      (case (siBase i', siErr i') of
         ([], Some err) \<Rightarrow> (Some (ErrWrap ''db: iterate IDMap snapshot'' [err]), i')
       | _ \<Rightarrow> (None, i')))"

lemma advanceBase_keys: "advanceBase i = (r, i') \<Longrightarrow> siKeys i' = siKeys i"
  by (auto simp: advanceBase_def Let_def split: list.splits option.splits)

lemma advanceBase_base: "advanceBase i = (r, i') \<Longrightarrow> siBase i' = tl (siBase i)"
  by (auto simp: advanceBase_def Let_def split: list.splits option.splits)

text \<open>
  The loop of \<^verbatim>\<open>Next\<close>. The empty string stands for an exhausted side, as in the source.
\<close>

function (sequential) snapshot_next :: "PrimaryKeySnapshotIterator
    \<Rightarrow> (bytes \<times> u64 \<times> bool \<times> error option) \<times> PrimaryKeySnapshotIterator" where
  "snapshot_next i =
     (if siBase i = [] \<and> siKeys i = [] then (([], 0, False, None), i)
      else
        let baseValid = (siBase i \<noteq> []);
            baseKey = (case siBase i of [] \<Rightarrow> [] | (k, v) # kvs \<Rightarrow> k);
            overlayKey = (case siKeys i of [] \<Rightarrow> [] | k # ks \<Rightarrow> k);
            useBase = (baseValid \<and> (overlayKey = [] \<or> baseKey < overlayKey));
            useOverlay = (overlayKey \<noteq> [] \<and> (\<not> baseValid \<or> overlayKey < baseKey)) in
        if useBase then
          let value = (case siBase i of [] \<Rightarrow> [] | (k, v) # kvs \<Rightarrow> v) in
          (if ValidatePrimaryKey baseKey \<noteq> None
           then (([], 0, False, Some (wrapf ErrIDMapCorrupt ''invalid primary key: %v'')), i)
           else if length value \<noteq> 8
           then (([], 0, False, Some (wrapf ErrIDMapCorrupt ''document ID value has %d bytes'')), i)
           else case advanceBase i of
             (Some err, i') \<Rightarrow> (([], 0, False, Some err), i')
           | (None, i') \<Rightarrow> ((baseKey, BigEndian_Uint64 value, True, None), i'))
        else
          let delta = (case map_of (siOverlay i) overlayKey of
                         None \<Rightarrow> \<lparr>deltaDocID = 0, deltaDeleted = False\<rparr> | Some d \<Rightarrow> d) in
          (case (if useOverlay then (None, i\<lparr>siKeys := tl (siKeys i)\<rparr>)
                 else advanceBase (i\<lparr>siKeys := tl (siKeys i)\<rparr>)) of
             (Some err, i') \<Rightarrow> (([], 0, False, Some err), i')
           | (None, i') \<Rightarrow>
               if deltaDeleted delta then snapshot_next i'
               else if ValidatePrimaryKey overlayKey \<noteq> None
               then (([], 0, False, Some (wrapf ErrIDMapCorrupt ''invalid primary key: %v'')), i')
               else ((overlayKey, deltaDocID delta, True, None), i')))"
  by pat_completeness auto
termination
  by (relation "measure (\<lambda>i. length (siBase i) + length (siKeys i))")
     (auto split: if_splits list.splits dest!: sym [of "(None, _)"]
       simp: neq_Nil_conv advanceBase_keys advanceBase_base)

declare snapshot_next.simps [simp del]

definition PrimaryKeySnapshotIterator_Next :: "PrimaryKeySnapshotIterator
    \<Rightarrow> (bytes \<times> u64 \<times> bool \<times> error option) \<times> PrimaryKeySnapshotIterator" where
  "PrimaryKeySnapshotIterator_Next i =
     (if siClosed i then (([], 0, False, None), i) else snapshot_next i)"

definition PrimaryKeySnapshotIterator_Close :: "PrimaryKeySnapshotIterator
    \<Rightarrow> error option \<times> PrimaryKeySnapshotIterator" where
  "PrimaryKeySnapshotIterator_Close i =
     (if siClosed i then (None, i)
      else (errors_Join [fst (siCloseErrs i), snd (siCloseErrs i)],
            i\<lparr>siClosed := True, siOverlay := [], siKeys := []\<rparr>))"

subsection \<open>The mapping an IDMap holds\<close>

definition doc_of :: "bytes option \<Rightarrow> u64 option" where
  "doc_of v = map_option BigEndian_Uint64 v"

definition delta_doc :: "primaryKeyDelta \<Rightarrow> u64 option" where
  "delta_doc d = (if deltaDeleted d then None else Some (deltaDocID d))"

definition idmap_view :: "('db \<Rightarrow> bytes \<rightharpoonup> bytes) \<Rightarrow> 'db PrimaryKeyMap \<Rightarrow> bytes \<rightharpoonup> u64" where
  "idmap_view pmap m key =
     (case pkDb m of
        None \<Rightarrow> None
      | Some db \<Rightarrow>
        (case overlay_lookup m key of Some d \<Rightarrow> delta_doc d | None \<Rightarrow> doc_of (pmap db key)))"

text \<open>
  The invariant of an open map: every key is valid and every stored value an eight-byte ID, the
  map is either writable, with the set of known keys exact, or read-only, with each overlay key once,
  and the counter is the number of mapped keys.
\<close>

definition idmap_ok :: "('db \<Rightarrow> bytes \<rightharpoonup> bytes) \<Rightarrow> 'db PrimaryKeyMap \<Rightarrow> bool" where
  "idmap_ok pmap m \<longleftrightarrow>
     (\<exists>db. pkDb m = Some db \<and> finite (dom (pmap db)) \<and>
        (\<forall>k v. pmap db k = Some v \<longrightarrow> ValidatePrimaryKey k = None \<and> length v = 8) \<and>
        ((pkOverlay m = None \<and> pkKnown m = Some (dom (pmap db))) \<or>
         (pkKnown m = None \<and> (\<exists>ov. pkOverlay m = Some ov \<and> distinct (map fst ov) \<and>
            (\<forall>k \<in> fst ` set ov. ValidatePrimaryKey k = None))))) \<and>
     pkCount m = int (card (dom (idmap_view pmap m)))"

lemma idmap_okE:
  assumes "idmap_ok pmap m"
  obtains (writable) db where "pkDb m = Some db" "pkOverlay m = None" "pkKnown m = Some (dom (pmap db))"
      "finite (dom (pmap db))" "\<And>k v. pmap db k = Some v \<Longrightarrow> ValidatePrimaryKey k = None \<and> length v = 8"
      "pkCount m = int (card (dom (idmap_view pmap m)))"
    | (readonly) db ov where "pkDb m = Some db" "pkOverlay m = Some ov" "pkKnown m = None"
      "distinct (map fst ov)" "\<forall>k \<in> fst ` set ov. ValidatePrimaryKey k = None"
      "finite (dom (pmap db))" "\<And>k v. pmap db k = Some v \<Longrightarrow> ValidatePrimaryKey k = None \<and> length v = 8"
      "pkCount m = int (card (dom (idmap_view pmap m)))"
  using assms unfolding idmap_ok_def by blast

lemma idmap_view_writable:
  "pkDb m = Some db \<Longrightarrow> pkOverlay m = None \<Longrightarrow> idmap_view pmap m = doc_of \<circ> pmap db"
  by (auto simp: fun_eq_iff idmap_view_def overlay_lookup_def)

lemma idmap_view_readonly:
  "pkDb m = Some db \<Longrightarrow> pkOverlay m = Some ov \<Longrightarrow>
     idmap_view pmap m = (\<lambda>k. case map_of ov k of Some d \<Rightarrow> delta_doc d | None \<Rightarrow> doc_of (pmap db k))"
  by (auto simp: fun_eq_iff idmap_view_def overlay_lookup_def)

lemma dom_doc_of [simp]: "dom (doc_of \<circ> f) = dom f"
  by (auto simp: doc_of_def dom_def)

lemma idmap_view_finite: "idmap_ok pmap m \<Longrightarrow> finite (dom (idmap_view pmap m))"
proof (erule idmap_okE, goal_cases)
  case (1 db)
  then show ?case by (simp add: idmap_view_writable)
next
  case (2 db ov)
  then have "dom (idmap_view pmap m) \<subseteq> fst ` set ov \<union> dom (pmap db)"
    by (auto simp: idmap_view_readonly doc_of_def dom_map_of_conv_image_fst [symmetric]
        split: option.splits)
  then show ?case using 2 by (meson finite_Un finite_imageI finite_set finite_subset)
qed

lemma idmap_view_valid: "idmap_ok pmap m \<Longrightarrow> idmap_view pmap m k = Some d \<Longrightarrow> ValidatePrimaryKey k = None"
proof (erule idmap_okE, goal_cases)
  case (1 db)
  then show ?case by (auto simp: idmap_view_writable doc_of_def)
next
  case (2 db ov)
  then show ?case
    by (auto simp: idmap_view_readonly doc_of_def dom_map_of_conv_image_fst [symmetric]
        split: option.splits)
qed

lemma pebble_okD:
  assumes "pebble_ok ops pmap"
  shows "pbGet ops db k = Inr r \<Longrightarrow> pmap db k = map_option fst r"
    and "pbSet ops db k v = (None, db') \<Longrightarrow> pmap db' = (pmap db)(k \<mapsto> v)"
    and "pbDelete ops db k = (None, db') \<Longrightarrow> pmap db' = (pmap db)(k := None)"
    and "pbIter ops db = Inr (kvs, None, c) \<Longrightarrow>
           sorted (map fst kvs) \<and> distinct (map fst kvs) \<and> map_of kvs = pmap db"
  using assms unfolding pebble_ok_def by (metis, metis, metis, blast)

lemma getPrimaryDocID_view:
  assumes "pebble_ok ops pmap" "getPrimaryDocID ops db key = (d, f, None)"
  shows "doc_of (pmap db key) = (if f then Some d else None)"
  using assms(2)
  by (auto simp: getPrimaryDocID_def doc_of_def go_simps
      split: sum.splits option.splits if_splits dest: pebble_okD(1) [OF assms(1)])

lemma getLocked_view:
  assumes "pebble_ok ops pmap" "idmap_ok pmap m" "pkDb m = Some db" "getLocked ops m db key = (d, f, None)"
  shows "idmap_view pmap m key = (if f then Some d else None)"
  using assms(2)
proof (cases rule: idmap_okE)
  case (writable db')
  with assms show ?thesis
    by (auto simp: getLocked_def idmap_view_def overlay_lookup_def doc_of_def split: if_splits
        dest!: getPrimaryDocID_view)
next
  case (readonly db' ov)
  with assms show ?thesis
    by (auto simp: getLocked_def idmap_view_def delta_doc_def split: if_splits option.splits
        dest!: getPrimaryDocID_view)
qed

text \<open>
  The contract of an IDMap towards the write path: successful operations act on a finite map.
  \<open>put_all\<close> is the copying loop of \<^verbatim>\<open>CreateDetachedSnapshot\<close>.
\<close>

locale id_map_store =
  fixes ok :: "'m \<Rightarrow> bool"
    and view :: "'m \<Rightarrow> bytes \<rightharpoonup> u64"
    and count :: "'m \<Rightarrow> int"
    and get :: "'m \<Rightarrow> bytes \<Rightarrow> u64 \<times> bool \<times> error option"
    and put :: "ctx \<Rightarrow> bytes \<Rightarrow> u64 \<Rightarrow> 'm \<Rightarrow> env \<Rightarrow> (u64 \<times> bool \<times> error option) \<times> 'm \<times> env"
    and putNew :: "ctx \<Rightarrow> bytes \<Rightarrow> u64 \<Rightarrow> 'm \<Rightarrow> env \<Rightarrow> error option \<times> 'm \<times> env"
    and remove :: "ctx \<Rightarrow> bytes \<Rightarrow> 'm \<Rightarrow> env \<Rightarrow> (u64 \<times> bool \<times> error option) \<times> 'm \<times> env"
  assumes get_view: "ok m \<Longrightarrow> get m k = (d, f, None) \<Longrightarrow> view m k = (if f then Some d else None)"
    and put_view: "ok m \<Longrightarrow> put c k d m e = ((p, f, None), m', e') \<Longrightarrow>
          ok m' \<and> view m' = (view m)(k \<mapsto> d) \<and> view m k = (if f then Some p else None)"
    and putNew_view: "ok m \<Longrightarrow> view m k = None \<Longrightarrow> putNew c k d m e = (None, m', e') \<Longrightarrow>
          ok m' \<and> view m' = (view m)(k \<mapsto> d)"
    and remove_view: "ok m \<Longrightarrow> remove c k m e = ((p, f, None), m', e') \<Longrightarrow>
          ok m' \<and> view m' = (view m)(k := None) \<and> view m k = (if f then Some p else None)"
    and count_view: "ok m \<Longrightarrow> finite (dom (view m)) \<and> count m = int (card (dom (view m)))"
begin

lemma get_put:
  "ok m \<Longrightarrow> put c k d m e = ((p, f, None), m', e') \<Longrightarrow> get m' k' = (d', f', None) \<Longrightarrow>
     (if f' then Some d' else None) = (if k' = k then Some d else view m k')"
  using put_view get_view by (metis fun_upd_apply)

lemma get_remove:
  "ok m \<Longrightarrow> remove c k m e = ((p, f, None), m', e') \<Longrightarrow> get m' k' = (d', f', None) \<Longrightarrow>
     (if f' then Some d' else None) = (if k' = k then None else view m k')"
  using remove_view get_view by (metis fun_upd_apply)

lemma count_put:
  assumes "ok m" "put c k d m e = ((p, f, None), m', e')"
  shows "count m' = count m + (if f then 0 else 1)"
proof -
  note v = put_view [OF assms]
  show ?thesis
    using v count_view [of m] count_view [of m'] assms(1)
    by (auto simp: insert_absorb card_insert_if domIff split: if_splits)
qed

lemma count_remove:
  assumes "ok m" "remove c k m e = ((p, f, None), m', e')"
  shows "count m' = count m - (if f then 1 else 0)"
proof -
  note v = remove_view [OF assms]
  have f: "k \<in> dom (view m) \<longleftrightarrow> f" using v by (auto split: if_splits)
  have dom: "dom (view m') = dom (view m) - {k}" using v by auto
  have n: "count m = int (card (dom (view m)))" "count m' = int (card (dom (view m) - {k}))"
    using count_view [of m] count_view [of m'] assms(1) v dom by auto
  show ?thesis
  proof (cases f)
    case True
    then show ?thesis
      using n f card_Suc_Diff1 [of "dom (view m)" k] count_view [OF assms(1)] by simp
  qed (use n f in simp)
qed

end

definition idmap_inv :: "'db pebble \<Rightarrow> ('db \<Rightarrow> bytes \<rightharpoonup> bytes) \<Rightarrow> 'db PrimaryKeyMap \<Rightarrow> bool" where
  "idmap_inv ops pmap m \<longleftrightarrow> pebble_ok ops pmap \<and> idmap_ok pmap m"

lemma idmap_guard_Inr:
  "idmap_guard what ctx key m env = (Inr db, env') \<Longrightarrow>
     pkDb m = Some db \<and> ValidatePrimaryKey key = None \<and> env' = snd (ctx_Err ctx env)"
  by (auto simp: idmap_guard_def split: if_splits prod.splits option.splits)

lemma view_set_point:
  assumes "pkOverlay m = None" "pmap db' = (pmap db)(key \<mapsto> BigEndian_PutUint64 d)" "pkDb m = Some db"
  shows "idmap_view pmap (m\<lparr>pkDb := Some db', pkKnown := K, pkCount := n\<rparr>) = (idmap_view pmap m)(key \<mapsto> d)"
  using assms by (auto simp: fun_eq_iff idmap_view_def overlay_lookup_def doc_of_def)

lemma view_delete_point:
  assumes "pkOverlay m = None" "pmap db' = (pmap db)(key := None)" "pkDb m = Some db"
  shows "idmap_view pmap (m\<lparr>pkDb := Some db', pkKnown := K, pkCount := n\<rparr>) = (idmap_view pmap m)(key := None)"
  using assms by (auto simp: fun_eq_iff idmap_view_def overlay_lookup_def doc_of_def)

lemma view_overlay_point:
  assumes "pkOverlay m = Some ov" "pkDb m = Some db"
  shows "idmap_view pmap (m\<lparr>pkOverlay := Some (AList.update key delta ov), pkCount := n\<rparr>)
           = (idmap_view pmap m)(key := delta_doc delta)"
  using assms by (auto simp: fun_eq_iff idmap_view_def overlay_lookup_def update_conv' split: option.splits)

lemma ok_point:
  assumes "idmap_ok pmap m" "pkOverlay m = None" "pkDb m = Some db"
    and "pmap db' = (pmap db)(key := v)" "ValidatePrimaryKey key = None" "v \<noteq> None \<longrightarrow> length (the v) = 8"
    and "pkDb m' = Some db'" "pkOverlay m' = None" "pkKnown m' = Some (dom (pmap db'))"
    and "pkCount m' = int (card (dom (idmap_view pmap m')))"
  shows "idmap_ok pmap m'"
  using assms(1)
proof (cases rule: idmap_okE)
  case (writable db0)
  with assms(3) have "db0 = db" by simp
  then have "finite (dom (pmap db'))"
    "\<forall>k w. pmap db' k = Some w \<longrightarrow> ValidatePrimaryKey k = None \<and> length w = 8"
    using writable assms(4-6) by (cases v; auto split: if_splits)+
  then show ?thesis
    using assms(7-) unfolding idmap_ok_def by blast
qed (use assms in simp)

lemma ok_overlay_point:
  assumes "idmap_ok pmap m" "pkOverlay m = Some ov" "ValidatePrimaryKey key = None"
    and "pkDb m' = pkDb m" "pkKnown m' = pkKnown m" "pkOverlay m' = Some (AList.update key delta ov)"
    and "pkCount m' = int (card (dom (idmap_view pmap m')))"
  shows "idmap_ok pmap m'"
  using assms(1)
proof (cases rule: idmap_okE)
  case (readonly db ov')
  have "fst ` set (AList.update key delta ov) = insert key (fst ` set ov)"
    by (simp add: dom_update)
  then have "\<forall>k \<in> fst ` set (AList.update key delta ov). ValidatePrimaryKey k = None"
    using readonly assms(2,3) by (metis insert_iff option.inject)
  moreover have "distinct (map fst (AList.update key delta ov))"
    using readonly assms(2) by (simp add: distinct_update)
  ultimately show ?thesis
    using readonly assms(4-) unfolding idmap_ok_def by metis
qed (use assms in simp)

lemma card_upd:
  "finite (dom f) \<Longrightarrow> int (card (dom (f(k \<mapsto> d)))) = int (card (dom f)) + (if f k = None then 1 else 0)"
  by (auto simp: card_insert_if domIff insert_absorb)

lemma card_del:
  "finite (dom f) \<Longrightarrow> f k \<noteq> None \<Longrightarrow> int (card (dom (f(k := None)))) = int (card (dom f)) - 1"
  using card_Suc_Diff1 [of "dom f" k] by (auto simp: domIff)

lemma put_point:
  assumes inv: "idmap_inv ops pmap m" and ov: "pkOverlay m = None" and db: "pkDb m = Some db"
    and set: "pbSet ops db key (BigEndian_PutUint64 d) = (None, db')" and key: "ValidatePrimaryKey key = None"
    and n: "n = pkCount m + (if idmap_view pmap m key = None then 1 else 0)"
  defines "m' \<equiv> m\<lparr>pkDb := Some db', pkKnown := map_option (insert key) (pkKnown m), pkCount := n\<rparr>"
  shows "idmap_inv ops pmap m' \<and> idmap_view pmap m' = (idmap_view pmap m)(key \<mapsto> d)"
proof -
  from inv have ok: "idmap_ok pmap m" and peb: "pebble_ok ops pmap" by (simp_all add: idmap_inv_def)
  have pm: "pmap db' = (pmap db)(key \<mapsto> BigEndian_PutUint64 d)" by (rule pebble_okD(2) [OF peb set])
  have v: "idmap_view pmap m' = (idmap_view pmap m)(key \<mapsto> d)"
    unfolding m'_def using view_set_point [OF ov pm db] .
  have known: "pkKnown m = Some (dom (pmap db))" "pkCount m = int (card (dom (idmap_view pmap m)))"
    using ok ov db by (auto elim: idmap_okE)
  have "idmap_ok pmap m'"
    by (rule ok_point [OF ok ov db pm key])
       (use known v n card_upd [OF idmap_view_finite [OF ok]] in \<open>auto simp: m'_def pm ov\<close>)
  with v peb show ?thesis by (simp add: idmap_inv_def)
qed

lemma overlay_point:
  assumes inv: "idmap_inv ops pmap m" and ov: "pkOverlay m = Some ov" and key: "ValidatePrimaryKey key = None"
    and n: "n = int (card (dom ((idmap_view pmap m)(key := delta_doc delta))))"
  defines "m' \<equiv> m\<lparr>pkOverlay := Some (AList.update key delta ov), pkCount := n\<rparr>"
  shows "idmap_inv ops pmap m' \<and> idmap_view pmap m' = (idmap_view pmap m)(key := delta_doc delta)"
proof -
  from inv have ok: "idmap_ok pmap m" and peb: "pebble_ok ops pmap" by (simp_all add: idmap_inv_def)
  obtain db where db: "pkDb m = Some db" using ok by (auto simp: idmap_ok_def)
  have v: "idmap_view pmap m' = (idmap_view pmap m)(key := delta_doc delta)"
    unfolding m'_def using view_overlay_point [OF ov db] .
  have "idmap_ok pmap m'"
    by (rule ok_overlay_point [OF ok ov key]) (use v n in \<open>simp_all add: m'_def\<close>)
  with v peb show ?thesis by (simp add: idmap_inv_def)
qed

lemma delete_point:
  assumes inv: "idmap_inv ops pmap m" and ov: "pkOverlay m = None" and db: "pkDb m = Some db"
    and del: "pbDelete ops db key = (None, db')" and key: "ValidatePrimaryKey key = None"
    and live: "idmap_view pmap m key \<noteq> None"
  defines "m' \<equiv> m\<lparr>pkDb := Some db', pkKnown := map_option (\<lambda>s. s - {key}) (pkKnown m), pkCount := pkCount m - 1\<rparr>"
  shows "idmap_inv ops pmap m' \<and> idmap_view pmap m' = (idmap_view pmap m)(key := None)"
proof -
  from inv have ok: "idmap_ok pmap m" and peb: "pebble_ok ops pmap" by (simp_all add: idmap_inv_def)
  have pm: "pmap db' = (pmap db)(key := None)" by (rule pebble_okD(3) [OF peb del])
  have v: "idmap_view pmap m' = (idmap_view pmap m)(key := None)"
    unfolding m'_def using view_delete_point [OF ov pm db] .
  have known: "pkKnown m = Some (dom (pmap db))" "pkCount m = int (card (dom (idmap_view pmap m)))"
    using ok ov db by (auto elim: idmap_okE)
  have "idmap_ok pmap m'"
    by (rule ok_point [OF ok ov db pm key])
       (use known v card_del [OF idmap_view_finite [OF ok] live] in
         \<open>auto simp: m'_def pm ov split: if_splits\<close>)
  with v peb show ?thesis by (simp add: idmap_inv_def)
qed

lemma PrimaryKeyMap_Get_view:
  assumes "idmap_inv ops pmap m" "PrimaryKeyMap_Get ops m k = (d, f, None)"
  shows "idmap_view pmap m k = (if f then Some d else None)"
  using assms getLocked_view [of ops pmap m _ k d f]
  by (auto simp: PrimaryKeyMap_Get_def idmap_inv_def split: option.splits)

lemma PrimaryKeyMap_Put_view:
  assumes inv: "idmap_inv ops pmap m"
    and put: "PrimaryKeyMap_Put ops c k d m e = ((p, f, None), m', e')"
  shows "idmap_inv ops pmap m' \<and> idmap_view pmap m' = (idmap_view pmap m)(k \<mapsto> d)
           \<and> idmap_view pmap m k = (if f then Some p else None)"
proof -
  from put obtain db e1 where g: "idmap_guard ''db: nil IDMap write context'' c k m e = (Inr db, e1)"
    by (auto simp: PrimaryKeyMap_Put_def split: prod.splits sum.splits)
  note gd = idmap_guard_Inr [OF g]
  have ok: "idmap_ok pmap m" "pebble_ok ops pmap" using inv by (simp_all add: idmap_inv_def)
  from put g obtain pr fo where gl: "getLocked ops m db k = (pr, fo, None)"
    by (auto simp: PrimaryKeyMap_Put_def split: prod.splits option.splits)
  have v: "idmap_view pmap m k = (if fo then Some pr else None)"
    using getLocked_view [OF ok(2) ok(1) _ gl] gd by simp
  have n: "pkCount m + (if fo then 0 else 1) = int (card (dom ((idmap_view pmap m)(k \<mapsto> d))))"
    using card_upd [OF idmap_view_finite [OF ok(1)], of k d] v ok(1)
    by (auto simp: idmap_ok_def)
  show ?thesis
  proof (cases "pkOverlay m")
    case None
    obtain r db' where st: "pbSet ops db k (BigEndian_PutUint64 d) = (r, db')" by (meson surj_pair)
    have r: "r = None"
      using put g gl None st by (cases r) (simp_all add: PrimaryKeyMap_Put_def Let_def)
    have m': "m' = m\<lparr>pkDb := Some db', pkKnown := map_option (insert k) (pkKnown m),
                      pkCount := pkCount m + (if fo then 0 else 1)\<rparr>" "p = pr" "f = fo"
      using put g gl None st r by (auto simp: PrimaryKeyMap_Put_def Let_def split: if_splits)
    then show ?thesis
      using put_point [OF inv None _ st [unfolded r]] gd v by (cases fo) simp_all
  next
    case (Some ov)
    with put g gl have m': "m' = m\<lparr>pkOverlay := Some (AList.update k \<lparr>deltaDocID = d, deltaDeleted = False\<rparr> ov),
                      pkCount := pkCount m + (if fo then 0 else 1)\<rparr>" "p = pr" "f = fo"
      by (auto simp: PrimaryKeyMap_Put_def Let_def split: if_splits)
    then show ?thesis
      using overlay_point [OF inv Some _, of k _ "\<lparr>deltaDocID = d, deltaDeleted = False\<rparr>"] gd v n
      by (simp add: delta_doc_def)
  qed
qed

lemma PrimaryKeyMap_PutNew_view:
  assumes inv: "idmap_inv ops pmap m" and new: "idmap_view pmap m k = None"
    and put: "PrimaryKeyMap_PutNew ops c k d m e = (None, m', e')"
  shows "idmap_inv ops pmap m' \<and> idmap_view pmap m' = (idmap_view pmap m)(k \<mapsto> d)"
proof -
  from put obtain db e1 where g: "idmap_guard ''db: nil IDMap write context'' c k m e = (Inr db, e1)"
    by (auto simp: PrimaryKeyMap_PutNew_def split: prod.splits sum.splits)
  note gd = idmap_guard_Inr [OF g]
  have ok: "idmap_ok pmap m" using inv by (simp add: idmap_inv_def)
  have n: "pkCount m + 1 = int (card (dom ((idmap_view pmap m)(k \<mapsto> d))))"
    using card_upd [OF idmap_view_finite [OF ok], of k d] new ok by (auto simp: idmap_ok_def)
  show ?thesis
  proof (cases "pkOverlay m")
    case None
    with put g obtain db' where set: "pbSet ops db k (BigEndian_PutUint64 d) = (None, db')"
      and m': "m' = m\<lparr>pkDb := Some db', pkKnown := map_option (insert k) (pkKnown m), pkCount := pkCount m + 1\<rparr>"
      by (auto simp: PrimaryKeyMap_PutNew_def split: prod.splits option.splits)
    then show ?thesis
      using put_point [OF inv None _ set] gd new by simp
  next
    case (Some ov)
    with put g have "m' = m\<lparr>pkOverlay := Some (AList.update k \<lparr>deltaDocID = d, deltaDeleted = False\<rparr> ov),
                      pkCount := pkCount m + 1\<rparr>"
      by (auto simp: PrimaryKeyMap_PutNew_def split: prod.splits)
    then show ?thesis
      using overlay_point [OF inv Some _, of k _ "\<lparr>deltaDocID = d, deltaDeleted = False\<rparr>"] gd new n
      by (simp add: delta_doc_def)
  qed
qed

lemma PrimaryKeyMap_Delete_view:
  assumes inv: "idmap_inv ops pmap m"
    and del: "PrimaryKeyMap_Delete ops c k m e = ((p, f, None), m', e')"
  shows "idmap_inv ops pmap m' \<and> idmap_view pmap m' = (idmap_view pmap m)(k := None)
           \<and> idmap_view pmap m k = (if f then Some p else None)"
proof -
  from del obtain db e1 where g: "idmap_guard ''db: nil IDMap delete context'' c k m e = (Inr db, e1)"
    by (auto simp: PrimaryKeyMap_Delete_def split: prod.splits sum.splits)
  note gd = idmap_guard_Inr [OF g]
  have ok: "idmap_ok pmap m" "pebble_ok ops pmap" using inv by (simp_all add: idmap_inv_def)
  from del g obtain pr fo where gl: "getLocked ops m db k = (pr, fo, None)"
    by (auto simp: PrimaryKeyMap_Delete_def split: prod.splits if_splits option.splits)
  have v: "idmap_view pmap m k = (if fo then Some pr else None)"
    using getLocked_view [OF ok(2) ok(1) _ gl] gd by simp
  show ?thesis
  proof (cases fo)
    case False
    with del g gl have "m' = m" "\<not> f"
      by (auto simp: PrimaryKeyMap_Delete_def split: prod.splits)
    with inv v False show ?thesis by (simp add: fun_upd_idem)
  next
    case True
    with v have live: "idmap_view pmap m k \<noteq> None" by simp
    have n: "pkCount m - 1 = int (card (dom ((idmap_view pmap m)(k := None))))"
      using card_del [OF idmap_view_finite [OF ok(1)] live] ok(1) by (auto simp: idmap_ok_def)
    show ?thesis
    proof (cases "pkOverlay m")
      case None
      with del g gl True obtain db' where dl: "pbDelete ops db k = (None, db')" and "p = pr" "f"
        and m': "m' = m\<lparr>pkDb := Some db', pkKnown := map_option (\<lambda>s. s - {k}) (pkKnown m), pkCount := pkCount m - 1\<rparr>"
        by (auto simp: PrimaryKeyMap_Delete_def split: prod.splits option.splits)
      then show ?thesis
        using delete_point [OF inv None _ dl _ live] gd v True by simp
    next
      case (Some ov)
      with del g gl True have "m' = m\<lparr>pkOverlay := Some (AList.update k \<lparr>deltaDocID = 0, deltaDeleted = True\<rparr> ov),
                        pkCount := pkCount m - 1\<rparr>" "p = pr" "f"
        by (auto simp: PrimaryKeyMap_Delete_def split: prod.splits)
      then show ?thesis
        using overlay_point [OF inv Some _, of k _ "\<lparr>deltaDocID = 0, deltaDeleted = True\<rparr>"] gd v n True
        by (simp add: delta_doc_def)
    qed
  qed
qed

interpretation idm: id_map_store "idmap_inv ops pmap" "idmap_view pmap" PrimaryKeyMap_Count
    "PrimaryKeyMap_Get ops" "PrimaryKeyMap_Put ops" "PrimaryKeyMap_PutNew ops" "PrimaryKeyMap_Delete ops"
  for ops :: "'db pebble" and pmap
proof (unfold_locales, goal_cases)
  case 1 then show ?case by (rule PrimaryKeyMap_Get_view)
next
  case 2 then show ?case by (rule PrimaryKeyMap_Put_view)
next
  case 3 then show ?case by (rule PrimaryKeyMap_PutNew_view)
next
  case 4 then show ?case by (rule PrimaryKeyMap_Delete_view)
next
  case (5 m) then show ?case
    using idmap_view_finite [of pmap m] by (auto simp: idmap_inv_def idmap_ok_def PrimaryKeyMap_Count_def)
qed

subsection \<open>What a snapshot iterator visits\<close>

text \<open>The entries an iterator still has to deliver.\<close>

definition iter_view :: "PrimaryKeySnapshotIterator \<Rightarrow> bytes \<rightharpoonup> u64" where
  "iter_view i k =
     (if k \<in> set (siKeys i) then Option.bind (map_of (siOverlay i) k) delta_doc
      else doc_of (map_of (siBase i) k))"

definition iter_keys :: "PrimaryKeySnapshotIterator \<Rightarrow> bytes set" where
  "iter_keys i = set (siKeys i) \<union> fst ` set (siBase i)"

definition iter_ok :: "PrimaryKeySnapshotIterator \<Rightarrow> bool" where
  "iter_ok i \<longleftrightarrow> \<not> siClosed i \<and> siErr i = None \<and>
     sorted_wrt (<) (map fst (siBase i)) \<and> sorted_wrt (<) (siKeys i) \<and>
     (\<forall>(k, v) \<in> set (siBase i). ValidatePrimaryKey k = None \<and> length v = 8) \<and>
     (\<forall>k \<in> set (siKeys i). ValidatePrimaryKey k = None \<and> map_of (siOverlay i) k \<noteq> None)"

lemma ValidatePrimaryKey_nonempty: "ValidatePrimaryKey k = None \<Longrightarrow> k \<noteq> []"
  by (auto simp: ValidatePrimaryKey_def)

lemma advanceBase_ok: "siErr i = None \<Longrightarrow> advanceBase i = (None, i\<lparr>siBase := tl (siBase i)\<rparr>)"
  by (cases "tl (siBase i)") (simp_all add: advanceBase_def Let_def)

lemma iter_view_keys: "iter_view i k = Some d \<Longrightarrow> k \<in> iter_keys i"
  by (auto simp: iter_view_def iter_keys_def doc_of_def dom_map_of_conv_image_fst [symmetric]
      split: if_splits)

text \<open>The three ways an iterator advances: past a base entry, past an overlay key, or past both.\<close>

lemma next_base:
  assumes "iter_ok i" "siBase i = (k, v) # kvs" "siKeys i = [] \<or> k < hd (siKeys i)"
  shows "snapshot_next i = ((k, BigEndian_Uint64 v, True, None), i\<lparr>siBase := kvs\<rparr>)"
proof -
  have "ValidatePrimaryKey k = None" "length v = 8" "siErr i = None"
    using assms by (auto simp: iter_ok_def iter_keys_def)
  then show ?thesis
    using assms(2,3) by (subst snapshot_next.simps) (cases "siKeys i"; simp add: advanceBase_ok)
qed

definition overlay_delta :: "PrimaryKeySnapshotIterator \<Rightarrow> bytes \<Rightarrow> primaryKeyDelta" where
  "overlay_delta i k = the (map_of (siOverlay i) k)"

lemma next_overlay:
  assumes "iter_ok i" "siKeys i = k # ks" "siBase i = [] \<or> k < fst (hd (siBase i))"
  shows "snapshot_next i =
     (if deltaDeleted (overlay_delta i k) then snapshot_next (i\<lparr>siKeys := ks\<rparr>)
      else ((k, deltaDocID (overlay_delta i k), True, None), i\<lparr>siKeys := ks\<rparr>))"
proof -
  obtain d where d: "map_of (siOverlay i) k = Some d" and k: "ValidatePrimaryKey k = None"
    using assms(1,2) by (auto simp: iter_ok_def iter_keys_def)
  have use: "siBase i = [] \<or> k < (case siBase i of [] \<Rightarrow> [] | (k, v) # kvs \<Rightarrow> k)"
    using assms(3) by (cases "siBase i") auto
  have nbase: "\<not> (siBase i \<noteq> [] \<and> (case siBase i of [] \<Rightarrow> [] | (k, v) # kvs \<Rightarrow> k) < k)"
    using use by (auto dest: less_asym)
  show ?thesis
    apply (subst snapshot_next.simps)
    using d k use nbase ValidatePrimaryKey_nonempty [OF k] assms(2)
    by (auto simp: Let_def overlay_delta_def)
qed

lemma next_both:
  assumes "iter_ok i" "siKeys i = k # ks" "siBase i = (k, v) # kvs"
  shows "snapshot_next i =
     (if deltaDeleted (overlay_delta i k) then snapshot_next (i\<lparr>siKeys := ks, siBase := kvs\<rparr>)
      else ((k, deltaDocID (overlay_delta i k), True, None), i\<lparr>siKeys := ks, siBase := kvs\<rparr>))"
proof -
  obtain d where d: "map_of (siOverlay i) k = Some d" and k: "ValidatePrimaryKey k = None" "siErr i = None"
    using assms(1,2) by (auto simp: iter_ok_def iter_keys_def)
  show ?thesis
    apply (subst snapshot_next.simps)
    using d k ValidatePrimaryKey_nonempty [OF k(1)] assms(2,3)
    by (auto simp: Let_def overlay_delta_def advanceBase_ok)
qed

text \<open>What one call delivers: the least remaining key with its document, or nothing at the end.\<close>

definition delivers :: "PrimaryKeySnapshotIterator
    \<Rightarrow> (bytes \<times> u64 \<times> bool \<times> error option) \<times> PrimaryKeySnapshotIterator \<Rightarrow> bool" where
  "delivers i res \<longleftrightarrow>
     (case res of
        ((k, d, True, None), i') \<Rightarrow>
          iter_ok i' \<and> length (siBase i') + length (siKeys i') < length (siBase i) + length (siKeys i) \<and>
          iter_view i = (iter_view i')(k \<mapsto> d) \<and> (\<forall>k' \<in> iter_keys i'. k < k')
      | ((k, d, False, None), i') \<Rightarrow> iter_view i = Map.empty
      | _ \<Rightarrow> False)"

lemma delivers_step:
  "iter_view i = iter_view i' \<Longrightarrow>
   length (siBase i') + length (siKeys i') \<le> length (siBase i) + length (siKeys i) \<Longrightarrow>
   delivers i' res \<Longrightarrow> delivers i res"
  by (auto simp: delivers_def split: prod.splits bool.splits option.splits)

lemma view_skip:
  assumes "siKeys i = k # ks" "k \<notin> set ks" "k \<notin> fst ` set bs"
    and "siBase i = bs \<or> (\<exists>v. siBase i = (k, v) # bs)" "map_of (siOverlay i) k = Some d"
  shows "iter_view i = (iter_view (i\<lparr>siKeys := ks, siBase := bs\<rparr>))(k := delta_doc d)"
  using assms by (auto simp: iter_view_def fun_eq_iff)

lemma delivers_overlay:
  assumes ok: "iter_ok i" and keys: "siKeys i = k # ks" and base: "siBase i = bs \<or> (\<exists>v. siBase i = (k, v) # bs)"
    and less: "\<forall>k' \<in> fst ` set bs. k < k'"
    and eq: "snapshot_next i =
       (if deltaDeleted (overlay_delta i k) then snapshot_next (i\<lparr>siKeys := ks, siBase := bs\<rparr>)
        else ((k, deltaDocID (overlay_delta i k), True, None), i\<lparr>siKeys := ks, siBase := bs\<rparr>))"
    and IH: "iter_ok (i\<lparr>siKeys := ks, siBase := bs\<rparr>) \<Longrightarrow>
       delivers (i\<lparr>siKeys := ks, siBase := bs\<rparr>) (snapshot_next (i\<lparr>siKeys := ks, siBase := bs\<rparr>))"
  shows "delivers i (snapshot_next i)"
proof -
  let ?i = "i\<lparr>siKeys := ks, siBase := bs\<rparr>"
  have ok': "iter_ok ?i"
    using ok base keys by (auto simp: iter_ok_def)
  have ksless: "\<forall>k' \<in> set ks. k < k'" using ok keys by (simp add: iter_ok_def)
  obtain d where d: "map_of (siOverlay i) k = Some d" using ok keys by (auto simp: iter_ok_def)
  have v: "iter_view i = (iter_view ?i)(k := delta_doc d)"
    using view_skip [OF keys _ _ base d] ksless less by auto
  have len: "length (siBase ?i) + length (siKeys ?i) < length (siBase i) + length (siKeys i)"
    using base keys by auto
  show ?thesis
  proof (cases "deltaDeleted d")
    case True
    have "iter_view ?i k = None"
      using ksless less iter_view_keys [of ?i k] by (cases "iter_view ?i k") (auto simp: iter_keys_def)
    with v True have "iter_view i = iter_view ?i" by (simp add: delta_doc_def fun_upd_idem)
    then show ?thesis
      using delivers_step [OF _ _ IH [OF ok']] len eq d True by (simp add: overlay_delta_def)
  next
    case False
    then show ?thesis
      using v ok' len ksless less d eq by (auto simp: delivers_def overlay_delta_def delta_doc_def iter_keys_def)
  qed
qed

lemma snapshot_next_delivers: "iter_ok i \<Longrightarrow> delivers i (snapshot_next i)"
proof (induction "length (siBase i) + length (siKeys i)" arbitrary: i rule: less_induct)
  case less
  note ok = less.prems
  consider (empty) "siBase i = []" "siKeys i = []"
    | (base) k v kvs where "siBase i = (k, v) # kvs" "siKeys i = [] \<or> k < hd (siKeys i)"
    | (overlay) k ks where "siKeys i = k # ks" "siBase i = [] \<or> k < fst (hd (siBase i))"
    | (both) k ks v kvs where "siKeys i = k # ks" "siBase i = (k, v) # kvs"
    by (cases "siBase i"; cases "siKeys i") (auto simp: not_less_iff_gr_or_eq, metis neq_iff)
  then show ?case
  proof cases
    case empty
    then show ?thesis by (subst snapshot_next.simps) (auto simp: delivers_def iter_view_def doc_of_def)
  next
    case base
    have "iter_ok (i\<lparr>siBase := kvs\<rparr>)"
      using ok base(1) unfolding iter_ok_def iter_keys_def by auto
    moreover have less: "\<forall>k' \<in> iter_keys (i\<lparr>siBase := kvs\<rparr>). k < k'"
      using ok base by (cases "siKeys i") (auto simp: iter_ok_def iter_keys_def dest: less_trans)
    moreover have "iter_view i = (iter_view (i\<lparr>siBase := kvs\<rparr>))(k \<mapsto> BigEndian_Uint64 v)"
      using less base(1) by (auto simp: iter_view_def fun_eq_iff iter_keys_def doc_of_def)
    ultimately show ?thesis using next_base [OF ok base] base(1) by (simp add: delivers_def)
  next
    case overlay
    show ?thesis
    proof (rule delivers_overlay [OF ok overlay(1), of "siBase i"])
      show "\<forall>k' \<in> fst ` set (siBase i). k < k'"
        using ok overlay(2) by (cases "siBase i") (auto simp: iter_ok_def dest: less_trans)
    qed (use less.hyps [of "i\<lparr>siKeys := ks\<rparr>"] overlay(1) next_overlay [OF ok overlay] in simp_all)
  next
    case both
    show ?thesis
    proof (rule delivers_overlay [OF ok both(1), of kvs])
      show "\<forall>k' \<in> fst ` set kvs. k < k'" using ok both(2) by (simp add: iter_ok_def)
    qed (use less.hyps [of "i\<lparr>siKeys := ks, siBase := kvs\<rparr>"] both next_both [OF ok both] in simp_all)
  qed
qed

text \<open>Calling \<^verbatim>\<open>Next\<close> until it reports exhaustion, within a number of calls.\<close>

fun snapshot_drain :: "nat \<Rightarrow> PrimaryKeySnapshotIterator \<Rightarrow> (bytes \<times> u64) list option" where
  "snapshot_drain 0 i = None"
| "snapshot_drain (Suc n) i =
     (case PrimaryKeySnapshotIterator_Next i of
        ((k, d, found, Some err), i') \<Rightarrow> None
      | ((k, d, found, None), i') \<Rightarrow>
          if found then map_option ((#) (k, d)) (snapshot_drain n i') else Some [])"

lemma snapshot_drain_view:
  assumes "iter_ok i" "length (siBase i) + length (siKeys i) < n"
  shows "\<exists>xs. snapshot_drain n i = Some xs \<and> sorted_wrt (<) (map fst xs) \<and> map_of xs = iter_view i"
  using assms
proof (induction n arbitrary: i)
  case 0
  then show ?case by simp
next
  case (Suc n)
  obtain k d f err i' where nx: "snapshot_next i = ((k, d, f, err), i')" by (metis prod_cases4 surj_pair)
  have del: "delivers i ((k, d, f, err), i')" using snapshot_next_delivers [OF Suc.prems(1)] nx by simp
  have next_eq: "PrimaryKeySnapshotIterator_Next i = ((k, d, f, err), i')"
    using nx Suc.prems(1) by (simp add: PrimaryKeySnapshotIterator_Next_def iter_ok_def)
  show ?case
  proof (cases f)
    case False
    with del next_eq show ?thesis by (cases err) (auto simp: delivers_def)
  next
    case True
    with del have ok: "err = None" "iter_ok i'" "iter_view i = (iter_view i')(k \<mapsto> d)"
      "\<forall>k' \<in> iter_keys i'. k < k'" and len: "length (siBase i') + length (siKeys i') < n"
      using Suc.prems(2) by (auto simp: delivers_def split: option.splits)
    from Suc.IH [OF ok(2) len] obtain xs where xs: "snapshot_drain n i' = Some xs"
      "sorted_wrt (<) (map fst xs)" "map_of xs = iter_view i'"
      by blast
    have "k < k'" if "k' \<in> fst ` set xs" for k'
      using that ok(4) iter_view_keys [of i' k'] xs(3)
      by (metis domIff dom_map_of_conv_image_fst option.exhaust)
    then show ?thesis
      using xs next_eq ok True by auto
  qed
qed

lemma sorted_distinct_strict: "sorted xs \<Longrightarrow> distinct xs \<Longrightarrow> sorted_wrt (<) xs"
  by (simp add: strict_sorted_iff)

lemma NewSnapshotIterator_ok:
  assumes inv: "idmap_inv ops pmap m" and new: "PrimaryKeyMap_NewSnapshotIterator ops m = Inr i"
    and err: "siErr i = None"
  shows "iter_ok i \<and> iter_view i = idmap_view pmap m"
proof -
  from inv have ok: "idmap_ok pmap m" and peb: "pebble_ok ops pmap" by (simp_all add: idmap_inv_def)
  obtain db where db: "pkDb m = Some db" using ok by (auto simp: idmap_ok_def)
  define ov where "ov = (case pkOverlay m of None \<Rightarrow> [] | Some ov \<Rightarrow> ov)"
  obtain kvs c where it: "pbIter ops db = Inr (kvs, None, c)" and
    i: "i = \<lparr>siBase = kvs, siErr = None, siCloseErrs = (c, pbSnapClose ops db),
             siOverlay = ov, siKeys = sort (map fst ov), siClosed = False\<rparr>"
    using new db err
    by (auto simp: PrimaryKeyMap_NewSnapshotIterator_def Let_def ov_def [symmetric]
        split: sum.splits list.splits option.splits prod.splits)
  note kv = pebble_okD(4) [OF peb it]
  have valid: "\<forall>(k, v) \<in> set kvs. ValidatePrimaryKey k = None \<and> length v = 8"
    using ok db kv by (auto simp: idmap_ok_def) (metis map_of_is_SomeI)+
  have o: "distinct (map fst ov)" "\<forall>k \<in> fst ` set ov. ValidatePrimaryKey k = None"
    using ok by (auto simp: ov_def elim!: idmap_okE split: option.splits)
       (metis fst_conv)
  have "iter_ok i"
    using o kv valid by (auto simp: i iter_ok_def sorted_distinct_strict map_of_eq_None_iff)
  moreover have "iter_view i = idmap_view pmap m"
  proof
    fix k
    show "iter_view i k = idmap_view pmap m k"
      using kv db
      by (cases "pkOverlay m"; cases "map_of ov k")
         (auto simp: i iter_view_def idmap_view_def overlay_lookup_def ov_def map_of_eq_None_iff
           dom_map_of_conv_image_fst [symmetric] split: option.splits)
  qed
  ultimately show ?thesis by blast
qed

lemma scan_entries_Inr:
  "scan_entries ctx kvs known n env = (Inr n', known', env') \<Longrightarrow>
     n' = n + int (length kvs) \<and> known' = map_option (\<lambda>K. K \<union> fst ` set kvs) known \<and>
     (\<forall>(k, v) \<in> set kvs. ValidatePrimaryKey k = None \<and> length v = 8)"
  by (induction ctx kvs known n env rule: scan_entries.induct)
     (auto split: prod.splits option.splits if_splits simp: option.map_comp comp_def option.map_id [unfolded id_def])

lemma scanCount_ok:
  assumes peb: "pebble_ok ops pmap" and sc: "scanCount ops ctx db known env = ((n, None), known', env')"
  shows "n = int (card (dom (pmap db))) \<and> known' = map_option (\<lambda>K. K \<union> dom (pmap db)) known \<and>
     (\<forall>k v. pmap db k = Some v \<longrightarrow> ValidatePrimaryKey k = None \<and> length v = 8)"
proof -
  obtain kvs c where it: "pbIter ops db = Inr (kvs, None, c)"
    and se: "scan_entries ctx kvs known 0 env = (Inr n, known', env')"
    using sc by (auto simp: scanCount_def go_simps split: sum.splits prod.splits option.splits)
  note kv = pebble_okD(4) [OF peb it]
  have dom: "dom (pmap db) = fst ` set kvs" using kv by (metis dom_map_of_conv_image_fst)
  have "card (fst ` set kvs) = length kvs"
    using kv by (metis distinct_card length_map list.set_map)
  moreover have "(k, v) \<in> set kvs" if "pmap db k = Some v" for k v
    using that kv by (metis map_of_SomeD)
  ultimately show ?thesis
    using scan_entries_Inr [OF se] dom by fastforce
qed

lemma opened_writable_ok:
  assumes "pebble_ok ops pmap" "scanCount ops ctx db (Some {}) env = ((n, None), known, env')"
  defines "m \<equiv> \<lparr>pkDb = Some db, pkCount = n, pkKnown = known, pkOverlay = None\<rparr>"
  shows "idmap_inv ops pmap m \<and> idmap_view pmap m = doc_of \<circ> pmap db"
proof -
  have v: "idmap_view pmap m = doc_of \<circ> pmap db" by (rule idmap_view_writable) (simp_all add: m_def)
  have "finite (dom (pmap db))" using assms(1) by (simp add: pebble_ok_def)
  with scanCount_ok [OF assms(1,2)] v show ?thesis
    using assms(1) by (auto simp: idmap_inv_def idmap_ok_def m_def)
qed

lemma opened_readonly_ok:
  assumes "pebble_ok ops pmap" "scanCount ops ctx db None env = ((n, None), known, env')"
  defines "m \<equiv> \<lparr>pkDb = Some db, pkCount = n, pkKnown = known, pkOverlay = Some []\<rparr>"
  shows "idmap_inv ops pmap m \<and> idmap_view pmap m = doc_of \<circ> pmap db"
proof -
  have v: "idmap_view pmap m = doc_of \<circ> pmap db"
    by (auto simp: m_def idmap_view_def overlay_lookup_def)
  have "finite (dom (pmap db))" using assms(1) by (simp add: pebble_ok_def)
  with scanCount_ok [OF assms(1,2)] v show ?thesis
    using assms(1) by (auto simp: idmap_inv_def idmap_ok_def m_def)
qed

lemma OpenPrimaryKeyMap_scan:
  "OpenPrimaryKeyMap ops fs ctx cp wk env = (Inr m, env') \<Longrightarrow>
     \<exists>db e n known. fsOpen fs = Inr db \<and> scanCount ops ctx db (Some {}) e = ((n, None), known, env') \<and>
       m = \<lparr>pkDb = Some db, pkCount = n, pkKnown = known, pkOverlay = None\<rparr>"
  unfolding OpenPrimaryKeyMap_def
  by (auto split: if_splits prod.splits option.splits sum.splits bool.splits)

lemma OpenPrimaryKeyMapReadOnly_scan:
  "OpenPrimaryKeyMapReadOnly ops fs ctx cp env = (Inr m, env') \<Longrightarrow>
     \<exists>db e n known. fsOpen fs = Inr db \<and> scanCount ops ctx db None e = ((n, None), known, env') \<and>
       m = \<lparr>pkDb = Some db, pkCount = n, pkKnown = known, pkOverlay = Some []\<rparr>"
  unfolding OpenPrimaryKeyMapReadOnly_def
  by (auto split: if_splits prod.splits option.splits sum.splits bool.splits)

subsection \<open>Progress\<close>

text \<open>On a database whose calls succeed, operations with valid keys succeed.\<close>

lemma getLocked_reliable:
  assumes rel: "pebble_reliable ops" and inv: "idmap_inv ops pmap m" and db: "pkDb m = Some db"
  shows "\<exists>d f. getLocked ops m db k = (d, f, None)"
proof -
  from inv have ok: "idmap_ok pmap m" and peb: "pebble_ok ops pmap" by (simp_all add: idmap_inv_def)
  have len: "length v = 8" if "pmap db k = Some v" for v
    using ok db that by (auto simp: idmap_ok_def)
  obtain r where r: "pbGet ops db k = Inr r" "\<forall>v c. r = Some (v, c) \<longrightarrow> c = None"
    using rel unfolding pebble_reliable_def by metis
  have "\<exists>d f. getPrimaryDocID ops db k = (d, f, None)"
    using r len pebble_okD(1) [OF peb r(1)]
    by (cases r) (auto simp: getPrimaryDocID_def errors_Join_def List.map_filter_def)
  then show ?thesis by (auto simp: getLocked_def split: option.splits)
qed

lemma idmap_inv_db: "idmap_inv ops pmap m \<Longrightarrow> \<exists>db. pkDb m = Some db"
  by (auto simp: idmap_inv_def idmap_ok_def)

lemma Get_reliable:
  assumes "pebble_reliable ops" "idmap_inv ops pmap m"
  shows "\<exists>d f. PrimaryKeyMap_Get ops m k = (d, f, None)"
  using getLocked_reliable [OF assms] idmap_inv_db [OF assms(2)] by (auto simp: PrimaryKeyMap_Get_def)

lemma idmap_guard_detached:
  "ValidatePrimaryKey k = None \<Longrightarrow> pkDb m = Some db \<Longrightarrow> idmap_guard w DetachedCtx k m env = (Inr db, env)"
  by (simp add: idmap_guard_def)

lemma PutNew_reliable:
  assumes "pebble_reliable ops" "idmap_inv ops pmap m" "ValidatePrimaryKey k = None"
  shows "\<exists>m'. PrimaryKeyMap_PutNew ops DetachedCtx k d m env = (None, m', env)"
proof -
  obtain db where db: "pkDb m = Some db" using idmap_inv_db [OF assms(2)] by blast
  have "\<exists>db'. pbSet ops db k (BigEndian_PutUint64 d) = (None, db')"
    using assms(1) by (metis pebble_reliable_def prod.collapse)
  then show ?thesis
    using idmap_guard_detached [OF assms(3) db] by (auto simp: PrimaryKeyMap_PutNew_def split: option.splits)
qed

lemma Put_reliable:
  assumes "pebble_reliable ops" "idmap_inv ops pmap m" "ValidatePrimaryKey k = None"
  shows "\<exists>p f m'. PrimaryKeyMap_Put ops DetachedCtx k d m env = ((p, f, None), m', env)"
proof -
  obtain db where db: "pkDb m = Some db" using idmap_inv_db [OF assms(2)] by blast
  have "\<exists>db'. pbSet ops db k (BigEndian_PutUint64 d) = (None, db')"
    using assms(1) by (metis pebble_reliable_def prod.collapse)
  then show ?thesis
    using idmap_guard_detached [OF assms(3) db] getLocked_reliable [OF assms(1,2) db, of k]
    by (auto simp: PrimaryKeyMap_Put_def Let_def split: option.splits)
qed

lemma Delete_reliable:
  assumes "pebble_reliable ops" "idmap_inv ops pmap m" "ValidatePrimaryKey k = None"
  shows "\<exists>p f m'. PrimaryKeyMap_Delete ops DetachedCtx k m env = ((p, f, None), m', env)"
proof -
  obtain db where db: "pkDb m = Some db" using idmap_inv_db [OF assms(2)] by blast
  have "\<exists>db'. pbDelete ops db k = (None, db')"
    using assms(1) by (metis pebble_reliable_def prod.collapse)
  then show ?thesis
    using idmap_guard_detached [OF assms(3) db] getLocked_reliable [OF assms(1,2) db, of k]
    by (auto simp: PrimaryKeyMap_Delete_def split: option.splits)
qed

subsection \<open>A Pebble instance\<close>

text \<open>An association list with the latest write first satisfies the documented behaviour.\<close>

definition mem_pebble :: "(bytes \<times> bytes) list pebble" where
  "mem_pebble =
     \<lparr>pbGet = (\<lambda>db k. Inr (map_option (\<lambda>v. (v, None)) (map_of db k))),
      pbSet = (\<lambda>db k v. (None, (k, v) # db)),
      pbDelete = (\<lambda>db k. (None, filter (\<lambda>(k', v). k' \<noteq> k) db)),
      pbIter = (\<lambda>db. Inr (map (\<lambda>k. (k, the (map_of db k))) (sort (remdups (map fst db))), None, None)),
      pbSnapClose = (\<lambda>db. None), pbClose = (\<lambda>db. None)\<rparr>"

lemma map_of_graph: "map_of (map (\<lambda>k. (k, f k)) ks) = (\<lambda>k. if k \<in> set ks then Some (f k) else None)"
  by (induction ks) (auto simp: fun_eq_iff)

lemma mem_pebble_ok [simp]: "pebble_ok mem_pebble map_of"
  unfolding pebble_ok_def
proof (intro conjI allI impI, goal_cases)
  case (4 db k db')
  then show ?case
    by (induction db arbitrary: db') (auto simp: mem_pebble_def fun_eq_iff)
next
  case (7 db kvs c)
  then show ?case
    by (auto simp: mem_pebble_def map_of_graph fun_eq_iff dom_map_of_conv_image_fst [symmetric])
       (metis option.exhaust)
qed (auto simp: mem_pebble_def finite_dom_map_of option.map_comp comp_def option.map_id [unfolded id_def])

lemma mem_pebble_reliable [simp]: "pebble_reliable mem_pebble"
  by (auto simp: pebble_reliable_def mem_pebble_def)

subsection \<open>Properties\<close>

text \<open>
  C4: An IDMap is a finite map with an exact counter. When a put of \<open>k\<close> succeeds on a map that
  satisfies the invariant (writable, with the cached set of known keys, or read-only, with the
  replay overlay), the invariant still holds, every later lookup that succeeds returns what a map
  updated at \<open>k\<close> returns, the reported previous ID is the one \<open>k\<close> had, and the count grows exactly when
  the key is new.
\<close>

theorem idmap_put_refines_map_update:
  assumes "idmap_inv ops pmap m" "PrimaryKeyMap_Put ops c k d m e = ((p, f, None), m', e')"
  shows "idmap_inv ops pmap m' \<and> idmap_view pmap m' = (idmap_view pmap m)(k \<mapsto> d)
    \<and> idmap_view pmap m k = (if f then Some p else None)
    \<and> PrimaryKeyMap_Count m' = PrimaryKeyMap_Count m + (if f then 0 else 1)
    \<and> (\<forall>k' d' f'. PrimaryKeyMap_Get ops m' k' = (d', f', None) \<longrightarrow>
         (if f' then Some d' else None) = (if k' = k then Some d else idmap_view pmap m k'))"
  using idm.put_view [OF assms] idm.count_put [OF assms] idm.get_put [OF assms] by blast

definition sample_map :: "(bytes \<times> bytes) list PrimaryKeyMap" where
  "sample_map = \<lparr>pkDb = Some [([0x61], BigEndian_PutUint64 7)], pkCount = 1, pkKnown = None,
     pkOverlay = Some [([0x62], \<lparr>deltaDocID = 9, deltaDeleted = False\<rparr>),
                       ([0x61], \<lparr>deltaDocID = 0, deltaDeleted = True\<rparr>)]\<rparr>"

lemma sample_view: "idmap_view map_of sample_map = [[0x62] \<mapsto> 9]"
  by (auto simp: fun_eq_iff idmap_view_def sample_map_def overlay_lookup_def delta_doc_def doc_of_def)

lemma sample_keys_valid: "ValidatePrimaryKey [0x61] = None" "ValidatePrimaryKey [0x62] = None"
  by (simp_all add: ValidatePrimaryKey_def MaxPrimaryKeyBytes_def)

lemma sample_map_inv: "idmap_inv mem_pebble map_of sample_map"
  unfolding idmap_inv_def idmap_ok_def sample_view
  by (auto simp: sample_map_def sample_keys_valid split: if_splits)

theorem idmap_put_refines_map_update_witness:
  "idmap_view map_of (fst (snd (PrimaryKeyMap_Put mem_pebble Ctx [0x61] 5 sample_map calm)))
     = [[0x62] \<mapsto> 9, [0x61] \<mapsto> 5]"
proof -
  obtain m' e' where p: "PrimaryKeyMap_Put mem_pebble Ctx [0x61] 5 sample_map calm = ((0, False, None), m', e')"
    by (simp add: PrimaryKeyMap_Put_def idmap_guard_def ctx_Err_def calm_def sample_keys_valid
        sample_map_def getLocked_def overlay_lookup_def Let_def)
  show ?thesis
    using idmap_put_refines_map_update [OF sample_map_inv p] sample_view p by simp
qed

text \<open>
  C5: A snapshot iterator merges the base entries with the overlay. On a map that satisfies the
  invariant, an iterator created without a Pebble error and called until it reports exhaustion
  (at most once per base entry and overlay key, plus one) delivers each mapped key exactly once, in
  strictly ascending order, with the ID the map holds for it; deleted keys are skipped.
\<close>

theorem snapshot_iterator_visits_mapping:
  assumes "idmap_inv ops pmap m" "PrimaryKeyMap_NewSnapshotIterator ops m = Inr i" "siErr i = None"
  shows "\<exists>xs. snapshot_drain (length (siBase i) + length (siKeys i) + 1) i = Some xs
    \<and> sorted_wrt (<) (map fst xs) \<and> map_of xs = idmap_view pmap m"
  using snapshot_drain_view [of i "length (siBase i) + length (siKeys i) + 1"]
    NewSnapshotIterator_ok [OF assms] by simp

theorem snapshot_iterator_visits_mapping_witness:
  "\<exists>i xs. PrimaryKeyMap_NewSnapshotIterator mem_pebble sample_map = Inr i
     \<and> snapshot_drain (length (siBase i) + length (siKeys i) + 1) i = Some xs \<and> map_of xs = [[0x62] \<mapsto> 9]"
proof -
  obtain i where i: "PrimaryKeyMap_NewSnapshotIterator mem_pebble sample_map = Inr i" "siErr i = None"
    by (simp add: PrimaryKeyMap_NewSnapshotIterator_def sample_map_def mem_pebble_def)
  show ?thesis
    using snapshot_iterator_visits_mapping [OF sample_map_inv i] i(1) sample_view by auto
qed

text \<open>
  C6: Opening establishes the invariant. A map opened from a checkpoint, writable or read-only,
  holds exactly the decoded entries of the opened database, with its counter equal to their number
  and, if writable, the known-key set exact; a checkpoint with an invalid key or a malformed value is
  never opened.
\<close>

theorem open_establishes_idmap:
  assumes "pebble_ok ops pmap"
    and "OpenPrimaryKeyMap ops fs ctx cp wk env = (Inr m, env') \<or> OpenPrimaryKeyMapReadOnly ops fs ctx cp env = (Inr m, env')"
  shows "\<exists>db. fsOpen fs = Inr db \<and> idmap_inv ops pmap m
    \<and> idmap_view pmap m = (\<lambda>k. map_option BigEndian_Uint64 (pmap db k))
    \<and> (\<forall>k v. pmap db k = Some v \<longrightarrow> ValidatePrimaryKey k = None \<and> length v = 8)"
proof -
  from assms(2) obtain db e n known K where "fsOpen fs = Inr db"
    and sc: "scanCount ops ctx db K e = ((n, None), known, env')"
    and "idmap_inv ops pmap m \<and> idmap_view pmap m = doc_of \<circ> pmap db"
    by (metis OpenPrimaryKeyMap_scan OpenPrimaryKeyMapReadOnly_scan opened_writable_ok [OF assms(1)]
        opened_readonly_ok [OF assms(1)])
  then show ?thesis
    using scanCount_ok [OF assms(1) sc] by (auto simp: comp_def doc_of_def)
qed

definition sample_fs :: "(bytes \<times> bytes) list idmap_fs" where
  "sample_fs = \<lparr>fsLstat = (\<lambda>p. if p = ''wk'' then Inl (Sentinel ErrNotExist) else Inr Directory),
     fsWalk = (\<lambda>_. [Inr Directory, Inr RegularFile]), fsEnsureDir = None,
     fsClone = (None, True), fsOpen = Inr [([0x61], BigEndian_PutUint64 7)], fsSyncDir = None\<rparr>"

theorem open_establishes_idmap_witness:
  "\<exists>m e. OpenPrimaryKeyMap mem_pebble sample_fs Ctx ''cp'' ''wk'' calm = (Inr m, e)
     \<and> idmap_inv mem_pebble map_of m \<and> idmap_view map_of m [0x61] = Some 7"
proof -
  have dir: "path_Dir ''cp'' = ''.''" "path_Dir ''wk'' = ''.''" by code_simp+
  obtain m e where o: "OpenPrimaryKeyMap mem_pebble sample_fs Ctx ''cp'' ''wk'' calm = (Inr m, e)"
    by (simp add: OpenPrimaryKeyMap_def validateIDMapDirectory_def
        validateIDMapParentDirectory_def dir sample_fs_def ctx_Err_def calm_def scanCount_def mem_pebble_def
        sample_keys_valid errors_Join_def)
  then show ?thesis
    using open_establishes_idmap [OF mem_pebble_ok disjI1 [OF o]] by (auto simp: sample_fs_def)
qed

end
