(* ===== verification/Segment.thy ===== *)
theory Segment
  imports Manifest Files Id_Map
begin

text \<open>
  Segments, \<^verbatim>\<open>src/internal/db/index/segment/segment.go\<close>: a write segment that assigns contiguous
  document IDs until it is sealed, the segment file (a 64-byte header and one checksummed record per
  document), and the immutable segment read back from it. Payload slices are values here, so \<^verbatim>\<open>Clone\<close> is
  the identity. A lookup that returns a document and a flag in the source returns an option.
  The buffered writer of \<^verbatim>\<open>writeSegmentSnapshot\<close> is an unbounded buffer written at its flush: when a fault of an early flush surfaces is
  the only difference.
\<close>

subsection \<open>Constants and documents\<close>

definition segmentCodecVersion :: u16 where "segmentCodecVersion = 1"
definition segmentHeaderSize :: nat where "segmentHeaderSize = 64"
definition segmentRecordHeaderSize :: nat where "segmentRecordHeaderSize = 24"
definition MaxDocumentPayloadSize :: nat where "MaxDocumentPayloadSize = 64 * 2 ^ 20"
definition maxSegmentPayloadSize :: nat where "maxSegmentPayloadSize = 4 * 2 ^ 30"

definition segmentMagic :: bytes where
  "segmentMagic = [0x5A, 0x56, 0x45, 0x43, 0x53, 0x45, 0x47, 0]"

record StoredDocument =
  DocID :: u64
  PrimaryKey :: bytes
  Payload :: bytes

definition saturatingAdd :: "u64 \<Rightarrow> u64 \<Rightarrow> u64" where
  "saturatingAdd left right = (if NOT 0 - left < right then NOT 0 else left + right)"

definition saturatingMultiplyByEight :: "u64 \<Rightarrow> u64" where
  "saturatingMultiplyByEight v = (if NOT 0 div 8 < v then NOT 0 else v * 8)"

definition storedDocumentMemoryBytes :: "StoredDocument \<Rightarrow> u64" where
  "storedDocumentMemoryBytes d =
     word_of_nat (segmentRecordHeaderSize + length (PrimaryKey d) + length (Payload d))"

fun memory_loop :: "StoredDocument list \<Rightarrow> u64 \<Rightarrow> u64" where
  "memory_loop [] acc = acc"
| "memory_loop (d # ds) acc =
     (let size = storedDocumentMemoryBytes d in
      if MaxUint64 - acc < size then MaxUint64 else memory_loop ds (acc + size))"

definition storedDocumentsMemoryBytes :: "StoredDocument list \<Rightarrow> u64" where
  "storedDocumentsMemoryBytes ds = memory_loop ds 0"

subsection \<open>Write segments\<close>

record WriteSegment =
  wsID :: u64
  wsMinDocID :: u64
  wsMaxDocs :: u64
  wsDocs :: "StoredDocument list"
  wsSealed :: bool
  wsMemoryBytes :: u64

definition NewWriteSegment :: "u64 \<Rightarrow> u64 \<Rightarrow> u64 \<Rightarrow> error + WriteSegment" where
  "NewWriteSegment segID minDocID maxDocs =
     (if maxDocs = 0 then Inl (ErrMsg ''db: write segment capacity must be positive'')
      else if MaxUint64 - minDocID < maxDocs - 1
      then Inl (ErrMsg ''db: write segment document ID range overflows'')
      else Inr \<lparr>wsID = segID, wsMinDocID = minDocID, wsMaxDocs = maxDocs, wsDocs = [], wsSealed = False,
                wsMemoryBytes = 0\<rparr>)"

definition WriteSegment_ID :: "WriteSegment \<Rightarrow> u64" where
  "WriteSegment_ID s = wsID s"

definition WriteSegment_ReservedRange :: "WriteSegment \<Rightarrow> u64 \<times> u64" where
  "WriteSegment_ReservedRange s = (wsMinDocID s, wsMinDocID s + wsMaxDocs s - 1)"

definition WriteSegment_NextDocumentID :: "WriteSegment \<Rightarrow> error + u64" where
  "WriteSegment_NextDocumentID s =
     (if wsSealed s then Inl (Sentinel ErrSegmentSealed)
      else if unat (wsMaxDocs s) \<le> length (wsDocs s) then Inl (Sentinel ErrSegmentFull)
      else Inr (wsMinDocID s + word_of_nat (length (wsDocs s))))"

definition WriteSegment_append :: "ctx \<Rightarrow> u64 option \<Rightarrow> bytes \<Rightarrow> bytes \<Rightarrow> WriteSegment \<Rightarrow> env
    \<Rightarrow> (error + StoredDocument) \<times> WriteSegment \<times> env" where
  "WriteSegment_append ctx expectedDocID primaryKey payload s env =
     (if ctx = NilCtx then (Inl (ErrMsg ''db: nil segment append context''), s, env)
      else case ctx_Err ctx env of
        (Some err, env) \<Rightarrow> (Inl err, s, env)
      | (None, env) \<Rightarrow>
        (case ValidatePrimaryKey primaryKey of
           Some err \<Rightarrow> (Inl err, s, env)
         | None \<Rightarrow>
           if MaxDocumentPayloadSize < length payload
           then (Inl (ErrMsg ''db: document payload is %d bytes, maximum %d''), s, env)
           else if wsSealed s then (Inl (Sentinel ErrSegmentSealed), s, env)
           else if unat (wsMaxDocs s) \<le> length (wsDocs s) then (Inl (Sentinel ErrSegmentFull), s, env)
           else
             let nextDocID = wsMinDocID s + word_of_nat (length (wsDocs s)) in
             if (case expectedDocID of None \<Rightarrow> False | Some e \<Rightarrow> e \<noteq> nextDocID)
             then (Inl (ErrMsg ''db: next document ID is %d, expected %d''), s, env)
             else
               let doc = \<lparr>DocID = nextDocID, PrimaryKey = primaryKey, Payload = payload\<rparr> in
               (Inr doc,
                s\<lparr>wsDocs := wsDocs s @ [doc],
                  wsMemoryBytes := saturatingAdd (wsMemoryBytes s) (storedDocumentMemoryBytes doc)\<rparr>, env)))"

definition WriteSegment_Append :: "ctx \<Rightarrow> bytes \<Rightarrow> bytes \<Rightarrow> WriteSegment \<Rightarrow> env
    \<Rightarrow> (error + StoredDocument) \<times> WriteSegment \<times> env" where
  "WriteSegment_Append ctx primaryKey payload s env = WriteSegment_append ctx None primaryKey payload s env"

definition WriteSegment_AppendExpected :: "ctx \<Rightarrow> u64 \<Rightarrow> bytes \<Rightarrow> bytes \<Rightarrow> WriteSegment \<Rightarrow> env
    \<Rightarrow> (error + StoredDocument) \<times> WriteSegment \<times> env" where
  "WriteSegment_AppendExpected ctx expectedDocID primaryKey payload s env =
     WriteSegment_append ctx (Some expectedDocID) primaryKey payload s env"

definition WriteSegment_ApplyExpected :: "ctx \<Rightarrow> u64 \<Rightarrow> bytes \<Rightarrow> bytes \<Rightarrow> WriteSegment \<Rightarrow> env
    \<Rightarrow> error option \<times> WriteSegment \<times> env" where
  "WriteSegment_ApplyExpected ctx expectedDocID primaryKey payload s env =
     (case WriteSegment_append ctx (Some expectedDocID) primaryKey payload s env of
        (Inl err, s, env) \<Rightarrow> (Some err, s, env)
      | (Inr doc, s, env) \<Rightarrow> (None, s, env))"

definition WriteSegment_Document :: "WriteSegment \<Rightarrow> u64 \<Rightarrow> StoredDocument option" where
  "WriteSegment_Document s docID =
     (if docID < wsMinDocID s \<or> length (wsDocs s) \<le> unat (docID - wsMinDocID s) then None
      else Some (wsDocs s ! unat (docID - wsMinDocID s)))"

definition WriteSegment_Documents :: "WriteSegment \<Rightarrow> StoredDocument list" where
  "WriteSegment_Documents s = wsDocs s"

definition WriteSegment_VisitDocuments :: "(StoredDocument list \<Rightarrow> 's \<Rightarrow> error option \<times> 's) \<Rightarrow> WriteSegment
    \<Rightarrow> 's \<Rightarrow> error option \<times> 's" where
  "WriteSegment_VisitDocuments visit s st = visit (wsDocs s) st"

definition WriteSegment_MemoryUsageBytes :: "WriteSegment \<Rightarrow> u64" where
  "WriteSegment_MemoryUsageBytes s = wsMemoryBytes s"

definition segmentMetadata :: "u64 \<Rightarrow> StoredDocument list \<Rightarrow> string list \<Rightarrow> SegmentMetadata" where
  "segmentMetadata segID docs files =
     (let m = \<lparr>smID = segID, smMinDocID = 0, smMaxDocID = 0, smDocCount = word_of_nat (length docs), smFiles = files\<rparr> in
      if docs = [] then m else m\<lparr>smMinDocID := DocID (hd docs), smMaxDocID := DocID (last docs)\<rparr>)"

definition segmentMetadataEqual :: "SegmentMetadata \<Rightarrow> SegmentMetadata \<Rightarrow> bool" where
  "segmentMetadataEqual left right \<longleftrightarrow> smID left = smID right \<and> smMinDocID left = smMinDocID right
     \<and> smMaxDocID left = smMaxDocID right \<and> smDocCount left = smDocCount right \<and> smFiles left = smFiles right"

definition WriteSegment_Metadata :: "WriteSegment \<Rightarrow> SegmentMetadata" where
  "WriteSegment_Metadata s = segmentMetadata (wsID s) (wsDocs s) []"

subsection \<open>The segment file\<close>

definition validateStoredDocument :: "StoredDocument \<Rightarrow> u64 \<Rightarrow> error option" where
  "validateStoredDocument doc expectedDocID =
     (if DocID doc \<noteq> expectedDocID then Some (ErrMsg ''db: document ID %d, want %d'')
      else case ValidatePrimaryKey (PrimaryKey doc) of
        Some err \<Rightarrow> Some err
      | None \<Rightarrow>
          if MaxDocumentPayloadSize < length (Payload doc)
          then Some (ErrMsg ''db: document payload is too large'') else None)"

text \<open>The loop of \<^verbatim>\<open>segmentPayloadLength\<close>; the running length is kept as a number, bounded before it can wrap.\<close>

fun payload_length_loop :: "u64 \<Rightarrow> nat \<Rightarrow> StoredDocument list \<Rightarrow> nat \<Rightarrow> error + nat" where
  "payload_length_loop minDocID index [] payloadLength = Inr payloadLength"
| "payload_length_loop minDocID index (doc # docs) payloadLength =
     (case validateStoredDocument doc (minDocID + word_of_nat index) of
        Some err \<Rightarrow> Inl err
      | None \<Rightarrow>
        let payloadLength = payloadLength + segmentRecordHeaderSize + length (PrimaryKey doc) + length (Payload doc) in
        if maxSegmentPayloadSize < payloadLength then Inl (ErrMsg ''db: segment payload is too large'')
        else payload_length_loop minDocID (index + 1) docs payloadLength)"

definition segmentPayloadLength :: "SegmentMetadata \<Rightarrow> StoredDocument list \<Rightarrow> error + nat" where
  "segmentPayloadLength metadata docs =
     (if docs = [] \<or> unat (smDocCount metadata) \<noteq> length docs
      then Inl (ErrMsg ''db: invalid segment document count'')
      else payload_length_loop (smMinDocID metadata) 0 docs 0)"

definition encodeSegmentRecordHeader :: "StoredDocument \<Rightarrow> bytes" where
  "encodeSegmentRecordHeader doc =
     PutUint64 (DocID doc) @ PutUint32 (word_of_nat (length (PrimaryKey doc)))
       @ PutUint32 (word_of_nat (length (Payload doc)))
       @ PutUint32 (UpdateCRC32C (CRC32C (PrimaryKey doc)) (Payload doc)) @ replicate 4 0"

definition encodeSegmentHeader :: "SegmentMetadata \<Rightarrow> u64 \<Rightarrow> u32 \<Rightarrow> bytes" where
  "encodeSegmentHeader metadata payloadLength payloadCRC =
     (let prefix = segmentMagic @ PutUint16 segmentCodecVersion @ PutUint16 (word_of_nat segmentHeaderSize)
            @ replicate 4 0 @ PutUint64 (smID metadata) @ PutUint64 (smMinDocID metadata)
            @ PutUint64 (smMaxDocID metadata) @ PutUint64 (smDocCount metadata)
            @ PutUint64 payloadLength @ PutUint32 payloadCRC in
      prefix @ PutUint32 (CRC32C prefix))"

definition encodeSegment :: "SegmentMetadata \<Rightarrow> StoredDocument list \<Rightarrow> error + bytes" where
  "encodeSegment metadata docs =
     (case segmentPayloadLength metadata docs of
        Inl err \<Rightarrow> Inl err
      | Inr _ \<Rightarrow>
        let payload = concat (map (\<lambda>doc. encodeSegmentRecordHeader doc @ PrimaryKey doc @ Payload doc) docs) in
        Inr (encodeSegmentHeader metadata (word_of_nat (length payload)) (CRC32C payload) @ payload))"

text \<open>
  The record loop of the decoder: \<open>n\<close> records are left, the first at \<open>offset\<close>.
\<close>

fun decode_docs :: "ctx \<Rightarrow> bytes \<Rightarrow> u64 \<Rightarrow> nat \<Rightarrow> nat \<Rightarrow> nat \<Rightarrow> StoredDocument list \<Rightarrow> env
    \<Rightarrow> (error + StoredDocument list) \<times> env" where
  "decode_docs ctx payload minDocID 0 index offset docs env =
     (if offset \<noteq> length payload then (Inl (wrapf ErrSegmentCorrupt ''trailing segment payload''), env)
      else (Inr docs, env))"
| "decode_docs ctx payload minDocID (Suc n) index offset docs env =
     (case ctx_Err ctx env of
        (Some err, env) \<Rightarrow> (Inl err, env)
      | (None, env) \<Rightarrow>
        if length payload - offset < segmentRecordHeaderSize
        then (Inl (wrapf ErrSegmentCorrupt ''truncated record %d''), env)
        else
          let recordHeader = slice offset (offset + segmentRecordHeaderSize) payload;
              docID = Uint64 (slice 0 8 recordHeader);
              keyLength = unat (Uint32 (slice 8 12 recordHeader));
              documentLength = unat (Uint32 (slice 12 16 recordHeader));
              expectedCRC = Uint32 (slice 16 20 recordHeader) in
          if Uint32 (slice 20 24 recordHeader) \<noteq> 0
          then (Inl (wrapf ErrSegmentCorrupt ''record %d reserved bytes''), env)
          else
            let offset = offset + segmentRecordHeaderSize;
                remaining = length payload - offset in
            if keyLength = 0 \<or> MaxPrimaryKeyBytes < keyLength \<or> MaxDocumentPayloadSize < documentLength
               \<or> remaining < keyLength + documentLength
            then (Inl (wrapf ErrSegmentCorrupt ''invalid record %d lengths''), env)
            else
              let key = slice offset (offset + keyLength) payload;
                  offset = offset + keyLength;
                  documentPayload = slice offset (offset + documentLength) payload;
                  offset = offset + documentLength in
              if UpdateCRC32C (CRC32C key) documentPayload \<noteq> expectedCRC
              then (Inl (wrapf ErrSegmentCorrupt ''record %d checksum''), env)
              else
                let doc = \<lparr>DocID = docID, PrimaryKey = key, Payload = documentPayload\<rparr> in
                (case validateStoredDocument doc (minDocID + word_of_nat index) of
                   Some err \<Rightarrow> (Inl (wrapf ErrSegmentCorrupt ''record %d: %v''), env)
                 | None \<Rightarrow> decode_docs ctx payload minDocID n (index + 1) offset (docs @ [doc]) env))"

definition decodeSegment :: "ctx \<Rightarrow> bytes \<Rightarrow> env \<Rightarrow> (error + SegmentMetadata \<times> StoredDocument list) \<times> env" where
  "decodeSegment ctx encoded env =
     (if length encoded < segmentHeaderSize
      then (Inl (wrapf ErrSegmentCorrupt ''file is shorter than header''), env)
      else
        let header = slice 0 segmentHeaderSize encoded in
        if slice 0 8 header \<noteq> segmentMagic then (Inl (wrapf ErrSegmentCorrupt ''invalid magic''), env)
        else if Uint16 (slice 8 10 header) \<noteq> segmentCodecVersion
        then (Inl (wrapf ErrUnsupportedFormatVersion ''segment version %d''), env)
        else if Uint16 (slice 10 12 header) \<noteq> word_of_nat segmentHeaderSize
        then (Inl (wrapf ErrSegmentCorrupt ''invalid header size %d''), env)
        else if Uint32 (slice 12 16 header) \<noteq> 0
        then (Inl (wrapf ErrSegmentCorrupt ''nonzero reserved bytes''), env)
        else if CRC32C (slice 0 60 header) \<noteq> Uint32 (slice 60 64 header)
        then (Inl (wrapf ErrSegmentCorrupt ''header checksum got %08x, want %08x''), env)
        else
          let payloadLength = unat (Uint64 (slice 48 56 header));
              payload = drop segmentHeaderSize encoded in
          if maxSegmentPayloadSize < payloadLength \<or> payloadLength \<noteq> length encoded - segmentHeaderSize
          then (Inl (wrapf ErrSegmentCorrupt ''invalid payload length %d''), env)
          else if CRC32C payload \<noteq> Uint32 (slice 56 60 header)
          then (Inl (wrapf ErrSegmentCorrupt ''payload checksum got %08x, want %08x''), env)
          else
            let metadata = \<lparr>smID = Uint64 (slice 16 24 header), smMinDocID = Uint64 (slice 24 32 header),
                  smMaxDocID = Uint64 (slice 32 40 header), smDocCount = Uint64 (slice 40 48 header),
                  smFiles = []\<rparr> in
            if smDocCount metadata = 0 \<or> 2 ^ 63 - 1 < unat (smDocCount metadata)
               \<or> length payload div (segmentRecordHeaderSize + 1) < unat (smDocCount metadata)
            then (Inl (wrapf ErrSegmentCorrupt ''invalid document count %d''), env)
            else if smMaxDocID metadata < smMinDocID metadata
               \<or> smDocCount metadata - 1 \<noteq> smMaxDocID metadata - smMinDocID metadata
            then (Inl (wrapf ErrSegmentCorrupt ''non-contiguous document range''), env)
            else (case decode_docs ctx payload (smMinDocID metadata) (unat (smDocCount metadata)) 0 0 [] env of
                (Inl err, env) \<Rightarrow> (Inl err, env)
              | (Inr docs, env) \<Rightarrow> (Inr (metadata, docs), env)))"

text \<open>
  The callback of \<^verbatim>\<open>writeSegmentSnapshot\<close>: a zero header, the records through the buffer with a
  context check every 256 documents, then the header over the placeholder.
\<close>

fun write_docs :: "ctx \<Rightarrow> nat \<Rightarrow> StoredDocument list \<Rightarrow> u32 \<Rightarrow> bytes \<Rightarrow> env
    \<Rightarrow> (error + u32 \<times> bytes) \<times> env" where
  "write_docs ctx index [] crc buf env = (Inr (crc, buf), env)"
| "write_docs ctx index (doc # docs) crc buf env =
     (case (if index mod 256 = 0 then ctx_Err ctx env else (None, env)) of
        (Some err, env) \<Rightarrow> (Inl err, env)
      | (None, env) \<Rightarrow>
        let recordHeader = encodeSegmentRecordHeader doc in
        write_docs ctx (index + 1) docs
          (UpdateCRC32C (UpdateCRC32C (UpdateCRC32C crc recordHeader) (PrimaryKey doc)) (Payload doc))
          (buf @ recordHeader @ PrimaryKey doc @ Payload doc) env)"

definition write_segment_file :: "ctx \<Rightarrow> SegmentMetadata \<Rightarrow> StoredDocument list \<Rightarrow> nat \<Rightarrow> env
    \<Rightarrow> error option \<times> bytes \<times> env" where
  "write_segment_file ctx metadata docs payloadLength env =
     (case WriteFullAt [] (replicate segmentHeaderSize 0) 0 env of
        (Some err, f, env) \<Rightarrow> (Some err, f, env)
      | (None, f, env) \<Rightarrow>
        (case write_docs ctx 0 docs 0 [] env of
           (Inl err, env) \<Rightarrow> (Some err, f, env)
         | (Inr (payloadCRC, buf), env) \<Rightarrow>
           (case WriteFullAt f buf segmentHeaderSize env of
              (Some err, f, env) \<Rightarrow> (Some err, f, env)
            | (None, f, env) \<Rightarrow>
              (case ctx_Err ctx env of
                 (Some err, env) \<Rightarrow> (Some err, f, env)
               | (None, env) \<Rightarrow>
                 (case os_call env of
                    (Some err, env) \<Rightarrow> (Some err, f, env)
                  | (None, env) \<Rightarrow>
                      WriteFullAt f (encodeSegmentHeader metadata (word_of_nat payloadLength) payloadCRC) 0 env)))))"

definition writeSegmentSnapshot :: "ctx \<Rightarrow> string \<Rightarrow> string \<Rightarrow> SegmentMetadata \<Rightarrow> StoredDocument list \<Rightarrow> files \<Rightarrow> env
    \<Rightarrow> error option \<times> files \<times> env" where
  "writeSegmentSnapshot ctx name temp metadata docs fs env =
     (case segmentPayloadLength metadata docs of
        Inl err \<Rightarrow> (Some err, fs, env)
      | Inr payloadLength \<Rightarrow>
          WriteImmutableFile ctx name temp (write_segment_file ctx metadata docs payloadLength) fs env)"

subsection \<open>Immutable segments\<close>

record ImmutableSegment =
  isMapped :: bool
  isClosed :: bool
  isMetadata :: SegmentMetadata
  isDocs :: "StoredDocument list"
  isMemoryBytes :: u64

definition newImmutableSegment :: "SegmentMetadata \<Rightarrow> StoredDocument list \<Rightarrow> ImmutableSegment" where
  "newImmutableSegment metadata docs =
     \<lparr>isMapped = False, isClosed = False, isMetadata = metadata, isDocs = docs,
      isMemoryBytes = storedDocumentsMemoryBytes docs\<rparr>"

definition OpenImmutableSegmentWithMmap :: "ctx \<Rightarrow> string \<Rightarrow> SegmentMetadata \<Rightarrow> bool \<Rightarrow> files \<Rightarrow> env
    \<Rightarrow> (error + ImmutableSegment) \<times> env" where
  "OpenImmutableSegmentWithMmap ctx collectionDir metadata useMmap fs env =
     (if ctx = NilCtx then (Inl (ErrMsg ''db: nil segment open context''), env)
      else if collectionDir = [] then (Inl (ErrMsg ''db: empty segment collection directory''), env)
      else case ctx_Err ctx env of
        (Some err, env) \<Rightarrow> (Inl err, env)
      | (None, env) \<Rightarrow>
        (case ValidateSegment metadata of
           Some err \<Rightarrow> (Inl (wrapf ErrSegmentCorrupt ''metadata: %v''), env)
         | None \<Rightarrow>
           if smFiles metadata = [] then (Inl (wrapf ErrSegmentCorrupt ''segment has no data file''), env)
           else (case os_call env of
               (Some err, env) \<Rightarrow> (Inl err, env)
             | (None, env) \<Rightarrow>
               (case fs (filepath_Join collectionDir (hd (smFiles metadata))) of
                  None \<Rightarrow> (Inl (Sentinel ErrNotExist), env)
                | Some f \<Rightarrow>
                  (case os_call env of
                     (Some err, env) \<Rightarrow> (Inl err, env)
                   | (None, env) \<Rightarrow>
                     if length f < segmentHeaderSize \<or> maxSegmentPayloadSize < length f - segmentHeaderSize
                     then (Inl (wrapf ErrSegmentCorrupt ''invalid file size %d''), env)
                     else (case os_call env of
                         (Some err, env) \<Rightarrow>
                           (Inl (if useMmap then err else wrapf ErrSegmentCorrupt ''read file: %v''), env)
                       | (None, env) \<Rightarrow>
                         (case decodeSegment ctx f env of
                            (Inl err, env) \<Rightarrow> (Inl err, env)
                          | (Inr (decodedMetadata, docs), env) \<Rightarrow>
                              if \<not> segmentMetadataEqual (decodedMetadata\<lparr>smFiles := smFiles metadata\<rparr>) metadata
                              then (Inl (wrapf ErrSegmentCorrupt ''manifest metadata differs from data file''), env)
                              else (Inr \<lparr>isMapped = useMmap, isClosed = False, isMetadata = metadata,
                                         isDocs = docs, isMemoryBytes = storedDocumentsMemoryBytes docs\<rparr>, env))))))))"

definition OpenImmutableSegment :: "ctx \<Rightarrow> string \<Rightarrow> SegmentMetadata \<Rightarrow> files \<Rightarrow> env
    \<Rightarrow> (error + ImmutableSegment) \<times> env" where
  "OpenImmutableSegment ctx collectionDir metadata fs env =
     OpenImmutableSegmentWithMmap ctx collectionDir metadata False fs env"

definition WriteSegment_writeImmutable :: "ctx \<Rightarrow> string \<Rightarrow> string \<Rightarrow> string \<Rightarrow> bool \<Rightarrow> bool \<Rightarrow> WriteSegment
    \<Rightarrow> files \<Rightarrow> env \<Rightarrow> (error + ImmutableSegment) \<times> WriteSegment \<times> files \<times> env" where
  "WriteSegment_writeImmutable ctx collectionDir relativeName temp seal useMmap s fs env =
     (if ctx = NilCtx then (Inl (ErrMsg ''db: nil segment seal context''), s, fs, env)
      else if collectionDir = [] then (Inl (ErrMsg ''db: empty segment collection directory''), s, fs, env)
      else case ValidatePortableRelativePath relativeName of
        Some err \<Rightarrow> (Inl err, s, fs, env)
      | None \<Rightarrow>
        (case ctx_Err ctx env of
           (Some err, env) \<Rightarrow> (Inl err, s, fs, env)
         | (None, env) \<Rightarrow>
           if wsSealed s then (Inl (Sentinel ErrSegmentSealed), s, fs, env)
           else if wsDocs s = [] then (Inl (ErrMsg ''db: cannot seal an empty segment''), s, fs, env)
           else
             let metadata = segmentMetadata (wsID s) (wsDocs s) [relativeName] in
             (case writeSegmentSnapshot ctx (filepath_Join collectionDir relativeName) temp metadata (wsDocs s) fs env of
                (Some err, fs, env) \<Rightarrow> (Inl err, s, fs, env)
              | (None, fs, env) \<Rightarrow>
                let s = (if seal then s\<lparr>wsSealed := True\<rparr> else s) in
                if useMmap
                then (case OpenImmutableSegmentWithMmap ctx collectionDir metadata True fs env of
                    (r, env) \<Rightarrow> (r, s, fs, env))
                else (Inr (newImmutableSegment metadata (wsDocs s)), s, fs, env))))"

definition WriteSegment_Seal :: "ctx \<Rightarrow> string \<Rightarrow> string \<Rightarrow> string \<Rightarrow> WriteSegment
    \<Rightarrow> files \<Rightarrow> env \<Rightarrow> (error + ImmutableSegment) \<times> WriteSegment \<times> files \<times> env" where
  "WriteSegment_Seal ctx collectionDir relativeName temp s fs env =
     WriteSegment_writeImmutable ctx collectionDir relativeName temp True False s fs env"

definition WriteSegment_Snapshot :: "ctx \<Rightarrow> string \<Rightarrow> string \<Rightarrow> string \<Rightarrow> WriteSegment
    \<Rightarrow> files \<Rightarrow> env \<Rightarrow> (error + ImmutableSegment) \<times> WriteSegment \<times> files \<times> env" where
  "WriteSegment_Snapshot ctx collectionDir relativeName temp s fs env =
     WriteSegment_writeImmutable ctx collectionDir relativeName temp False False s fs env"

definition WriteSegment_SnapshotWithMmap :: "ctx \<Rightarrow> string \<Rightarrow> string \<Rightarrow> string \<Rightarrow> bool \<Rightarrow> WriteSegment
    \<Rightarrow> files \<Rightarrow> env \<Rightarrow> (error + ImmutableSegment) \<times> WriteSegment \<times> files \<times> env" where
  "WriteSegment_SnapshotWithMmap ctx collectionDir relativeName temp useMmap s fs env =
     WriteSegment_writeImmutable ctx collectionDir relativeName temp False useMmap s fs env"

definition ImmutableSegment_ID :: "ImmutableSegment \<Rightarrow> u64" where
  "ImmutableSegment_ID s = smID (isMetadata s)"

definition ImmutableSegment_Metadata :: "ImmutableSegment \<Rightarrow> SegmentMetadata" where
  "ImmutableSegment_Metadata s = isMetadata s"

definition ImmutableSegment_Document :: "ImmutableSegment \<Rightarrow> u64 \<Rightarrow> StoredDocument option" where
  "ImmutableSegment_Document s docID =
     (if docID < smMinDocID (isMetadata s) \<or> smMaxDocID (isMetadata s) < docID then None
      else
        let index = unat (docID - smMinDocID (isMetadata s)) in
        if length (isDocs s) \<le> index then None
        else if DocID (isDocs s ! index) \<noteq> docID then None
        else Some (isDocs s ! index))"

definition ImmutableSegment_Documents :: "ImmutableSegment \<Rightarrow> StoredDocument list" where
  "ImmutableSegment_Documents s = isDocs s"

definition ImmutableSegment_VisitDocuments :: "(StoredDocument list \<Rightarrow> 's \<Rightarrow> error option \<times> 's) \<Rightarrow> ImmutableSegment
    \<Rightarrow> 's \<Rightarrow> error option \<times> 's" where
  "ImmutableSegment_VisitDocuments visit s st =
     (if isClosed s then (Some (Sentinel ErrFileClosed), st) else visit (isDocs s) st)"

definition ImmutableSegment_Close :: "ImmutableSegment \<Rightarrow> env \<Rightarrow> error option \<times> ImmutableSegment \<times> env" where
  "ImmutableSegment_Close s env =
     (if isClosed s then (None, s, env)
      else case (if isMapped s then os_call env else (None, env)) of
        (Some err, env) \<Rightarrow> (Some err, s, env)
      | (None, env) \<Rightarrow> (None, s\<lparr>isMapped := False, isDocs := [], isClosed := True\<rparr>, env))"

definition ImmutableSegment_MemoryUsageBytes :: "ImmutableSegment \<Rightarrow> u64" where
  "ImmutableSegment_MemoryUsageBytes s = isMemoryBytes s"

end
