(* ===== verification/Segment_Codec.thy ===== *)
theory Segment_Codec
  imports Segment
begin

text \<open>
  The segment file format is a canonical codec: what the decoder accepts is exactly what the encoder
  produces, and a segment published by \<^verbatim>\<open>writeSegmentSnapshot\<close> is read back unchanged by
  \<^verbatim>\<open>OpenImmutableSegment\<close>.
\<close>

subsection \<open>Records\<close>

definition record_bytes :: "StoredDocument \<Rightarrow> bytes" where
  "record_bytes d = encodeSegmentRecordHeader d @ PrimaryKey d @ Payload d"

definition payload_bytes :: "StoredDocument list \<Rightarrow> bytes" where
  "payload_bytes docs = concat (map record_bytes docs)"

definition doc_ok :: "StoredDocument \<Rightarrow> bool" where
  "doc_ok d \<longleftrightarrow> ValidatePrimaryKey (PrimaryKey d) = None \<and> length (Payload d) \<le> MaxDocumentPayloadSize"

text \<open>The documents are valid and numbered contiguously from an ID.\<close>

definition contiguous :: "u64 \<Rightarrow> nat \<Rightarrow> StoredDocument list \<Rightarrow> bool" where
  "contiguous minID i docs \<longleftrightarrow>
     (\<forall>j < length docs. doc_ok (docs ! j) \<and> DocID (docs ! j) = minID + word_of_nat (i + j))"

lemma validateStoredDocument_None:
  "validateStoredDocument d e = None \<longleftrightarrow> doc_ok d \<and> DocID d = e"
  by (auto simp: validateStoredDocument_def doc_ok_def split: option.splits)

lemma contiguous_Nil [simp]: "contiguous m i []"
  by (simp add: contiguous_def)

lemma contiguous_Cons [simp]:
  "contiguous m i (d # ds) \<longleftrightarrow> doc_ok d \<and> DocID d = m + word_of_nat i \<and> contiguous m (Suc i) ds"
  unfolding contiguous_def by (auto simp: less_Suc_eq_0_disj nth_Cons split: nat.splits)

lemma contiguous_append [simp]:
  "contiguous m i (ds @ es) \<longleftrightarrow> contiguous m i ds \<and> contiguous m (i + length ds) es"
  by (induction ds arbitrary: i) auto

lemma doc_ok_lengths:
  assumes "doc_ok d"
  shows "0 < length (PrimaryKey d)" "length (PrimaryKey d) \<le> MaxPrimaryKeyBytes"
    "unat (word_of_nat (length (PrimaryKey d)) :: u32) = length (PrimaryKey d)"
    "unat (word_of_nat (length (Payload d)) :: u32) = length (Payload d)"
proof -
  show k: "0 < length (PrimaryKey d)" "length (PrimaryKey d) \<le> MaxPrimaryKeyBytes"
    using assms by (auto simp: doc_ok_def ValidatePrimaryKey_def split: if_splits)
  have "length (Payload d) \<le> MaxDocumentPayloadSize" using assms by (simp add: doc_ok_def)
  with k show "unat (word_of_nat (length (PrimaryKey d)) :: u32) = length (PrimaryKey d)"
    "unat (word_of_nat (length (Payload d)) :: u32) = length (Payload d)"
    by (simp_all add: unat_of_nat_u32 MaxPrimaryKeyBytes_def MaxDocumentPayloadSize_def)
qed

lemma length_record_header [simp]: "length (encodeSegmentRecordHeader d) = 24"
  by (simp add: encodeSegmentRecordHeader_def)

lemma length_record_bytes: "length (record_bytes d) = 24 + length (PrimaryKey d) + length (Payload d)"
  by (simp add: record_bytes_def)

lemma record_header_fields:
  "Uint64 (slice 0 8 (encodeSegmentRecordHeader d)) = DocID d"
  "Uint32 (slice 8 12 (encodeSegmentRecordHeader d)) = word_of_nat (length (PrimaryKey d))"
  "Uint32 (slice 12 16 (encodeSegmentRecordHeader d)) = word_of_nat (length (Payload d))"
  "Uint32 (slice 16 20 (encodeSegmentRecordHeader d)) = UpdateCRC32C (CRC32C (PrimaryKey d)) (Payload d)"
  "Uint32 (slice 20 24 (encodeSegmentRecordHeader d)) = 0"
  unfolding encodeSegmentRecordHeader_def by (simp_all add: codec_simps)

lemma decode_docs_record:
  assumes ok: "doc_ok d" "DocID d = m + word_of_nat i" and env: "ctx_Err ctx env = (None, env')"
    and off: "off = length pre"
  shows "decode_docs ctx (pre @ record_bytes d @ post) m (Suc n) i off acc env =
     decode_docs ctx (pre @ record_bytes d @ post) m n (Suc i) (off + length (record_bytes d)) (acc @ [d]) env'"
proof -
  let ?p = "pre @ record_bytes d @ post"
  let ?k = "length (PrimaryKey d)" and ?v = "length (Payload d)"
  have h: "slice (length pre) (length pre + 24) ?p = encodeSegmentRecordHeader d"
    using slice_mid [of pre "encodeSegmentRecordHeader d"] by (simp add: record_bytes_def)
  have k: "slice (length pre + 24) (length pre + 24 + ?k) ?p = PrimaryKey d"
    using slice_mid [of "pre @ encodeSegmentRecordHeader d" "PrimaryKey d"] by (simp add: record_bytes_def)
  have v: "slice (length pre + 24 + ?k) (length pre + 24 + ?k + ?v) ?p = Payload d"
    using slice_mid [of "pre @ encodeSegmentRecordHeader d @ PrimaryKey d" "Payload d"]
    by (simp add: record_bytes_def add.assoc)
  have doc: "\<lparr>DocID = DocID d, PrimaryKey = PrimaryKey d, Payload = Payload d\<rparr> = d" by simp
  have len: "length ?p = length pre + 24 + ?k + ?v + length post"
    by (simp add: length_record_bytes)
  note l = doc_ok_lengths [OF ok(1)]
  have mx: "?v \<le> MaxDocumentPayloadSize" using ok(1) by (simp add: doc_ok_def)
  have c: "\<not> length ?p - length pre < 24" "\<not> length ?p - (length pre + 24) < ?k + ?v"
    unfolding len by simp_all
  have va: "validateStoredDocument d (m + word_of_nat i) = None" using ok by (simp add: validateStoredDocument_None)
  show ?thesis
    unfolding off decode_docs.simps env segmentRecordHeaderSize_def Let_def h record_header_fields l(3,4)
      k v doc va
    using l mx c by (simp add: length_record_bytes add.assoc)
qed

lemma decode_docs_payload:
  assumes "contiguous m i docs" "quiet env" "off = length pre"
  shows "\<exists>env'. decode_docs ctx (pre @ payload_bytes docs) m (length docs) i off acc env
     = (Inr (acc @ docs), env') \<and> quiet env'"
  using assms
proof (induction docs arbitrary: i pre off acc env)
  case Nil
  then show ?case by (simp add: payload_bytes_def)
next
  case (Cons d docs)
  obtain e where e: "ctx_Err ctx env = (None, e)" "quiet e" using Cons.prems(2) by (rule ctx_quietE)
  have "decode_docs ctx (pre @ record_bytes d @ payload_bytes docs) m (Suc (length docs)) i off acc env
      = decode_docs ctx (pre @ record_bytes d @ payload_bytes docs) m (length docs) (Suc i)
          (off + length (record_bytes d)) (acc @ [d]) e"
    using Cons.prems e by (intro decode_docs_record) simp_all
  also have "pre @ record_bytes d @ payload_bytes docs = (pre @ record_bytes d) @ payload_bytes docs"
    by simp
  finally show ?case
    using Cons.IH [of "Suc i" e "off + length (record_bytes d)" "pre @ record_bytes d" "acc @ [d]"] Cons.prems e(2)
    by (simp add: payload_bytes_def)
qed

text \<open>The bytes a decoding round consumed are the encoding of the document it returned.\<close>

lemma header_canonical:
  assumes len: "length h = 24" and z: "Uint32 (slice 20 24 h) = 0"
    and kl: "unat (Uint32 (slice 8 12 h)) = length key" and vl: "unat (Uint32 (slice 12 16 h)) = length val"
    and crc: "UpdateCRC32C (CRC32C key) val = Uint32 (slice 16 20 h)"
  shows "h = encodeSegmentRecordHeader \<lparr>DocID = Uint64 (slice 0 8 h), PrimaryKey = key, Payload = val\<rparr>"
proof -
  have u: "Uint32 (slice 8 12 h) = word_of_nat (length key)" "Uint32 (slice 12 16 h) = word_of_nat (length val)"
    using kl vl by (simp_all flip: kl vl)
  have f: "slice 0 8 h = PutUint64 (Uint64 (slice 0 8 h))" "slice 8 12 h = PutUint32 (word_of_nat (length key))"
    "slice 12 16 h = PutUint32 (word_of_nat (length val))"
    "slice 16 20 h = PutUint32 (UpdateCRC32C (CRC32C key) val)" "slice 20 24 h = replicate 4 0"
    using Uint_eqD(2) [OF u(1)] Uint_eqD(2) [OF u(2)] Uint_eqD(2) [OF crc [symmetric]] Uint_eqD(2) [OF z] len
    by (simp_all add: PutUint64_Uint64 PutUint32_zero)
  have "h = slice 0 8 h @ slice 8 12 h @ slice 12 16 h @ slice 16 20 h @ slice 20 24 h"
    using split_at [OF len, of 8] slice_split [of 8 12 24 h] slice_split [of 12 16 24 h] slice_split [of 16 20 24 h]
    by simp
  then show ?thesis
    by (simp add: encodeSegmentRecordHeader_def flip: f)
qed

lemma decode_docs_sound:
  assumes "decode_docs ctx p m n i off acc env = (Inr docs, env')" "off \<le> length p"
  shows "\<exists>ds. docs = acc @ ds \<and> length ds = n \<and> drop off p = payload_bytes ds \<and> contiguous m i ds"
  using assms
proof (induction n arbitrary: i off acc env)
  case 0
  then show ?case by (auto simp: payload_bytes_def split: if_splits)
next
  case (Suc n)
  define h where "h = slice off (off + 24) p"
  define kl where "kl = unat (Uint32 (slice 8 12 h))"
  define vl where "vl = unat (Uint32 (slice 12 16 h))"
  define key where "key = slice (off + 24) (off + 24 + kl) p"
  define val where "val = slice (off + 24 + kl) (off + 24 + kl + vl) p"
  define d where "d = \<lparr>DocID = Uint64 (slice 0 8 h), PrimaryKey = key, Payload = val\<rparr>"
  note simps = segmentRecordHeaderSize_def Let_def h_def [symmetric] kl_def [symmetric] vl_def [symmetric]
    key_def [symmetric] val_def [symmetric] d_def [symmetric]
  have g: "24 \<le> length p - off" "Uint32 (slice 20 24 h) = 0" "kl + vl \<le> length p - (off + 24)"
    "UpdateCRC32C (CRC32C key) val = Uint32 (slice 16 20 h)" "doc_ok d" "DocID d = m + word_of_nat i"
    and "\<exists>e. decode_docs ctx p m n (Suc i) (off + 24 + kl + vl) (acc @ [d]) e = (Inr docs, env')"
    using Suc.prems(1) unfolding decode_docs.simps simps
    by (auto simp: validateStoredDocument_None split: prod.splits option.splits if_splits)
  then obtain e where rec: "decode_docs ctx p m n (Suc i) (off + 24 + kl + vl) (acc @ [d]) e = (Inr docs, env')"
    by blast
  have lens: "length h = 24" "length key = kl" "length val = vl"
    using g(1,3) by (auto simp: h_def key_def val_def)
  have "h = encodeSegmentRecordHeader d"
    unfolding d_def by (rule header_canonical) (use g lens in \<open>simp_all add: kl_def vl_def\<close>)
  then have rb: "record_bytes d = h @ key @ val" by (simp add: record_bytes_def d_def)
  have "off + 24 + kl + vl \<le> length p" using g(1,3) by simp
  from Suc.IH [OF rec this] obtain ds where ds: "docs = (acc @ [d]) @ ds" "length ds = n"
    "drop (off + 24 + kl + vl) p = payload_bytes ds" "contiguous m (Suc i) ds" by blast
  have "drop off p = h @ key @ val @ drop (off + 24 + kl + vl) p"
    using drop_split3 [of off p 24 kl] drop_split [of "off + 24 + kl" p vl]
    by (simp add: h_def key_def val_def slice_def add.assoc)
  then show ?case
    using ds g(5,6) rb by (intro exI [of _ "d # ds"]) (simp add: payload_bytes_def)
qed

subsection \<open>Segments\<close>

lemma payload_length_loop_Inr:
  "payload_length_loop m i docs acc = Inr n \<longleftrightarrow>
     contiguous m i docs \<and> n = acc + length (payload_bytes docs) \<and> (docs \<noteq> [] \<longrightarrow> n \<le> maxSegmentPayloadSize)"
proof (induction docs arbitrary: i acc)
  case Nil
  then show ?case by (auto simp: payload_bytes_def)
next
  case (Cons d docs)
  show ?case
  proof (cases "validateStoredDocument d (m + word_of_nat i)")
    case None
    then have ok: "doc_ok d" "DocID d = m + word_of_nat i" by (simp_all add: validateStoredDocument_None)
    have len: "length (payload_bytes (d # docs)) = length (record_bytes d) + length (payload_bytes docs)"
      by (simp add: payload_bytes_def)
    have "payload_length_loop m i (d # docs) acc =
        (if maxSegmentPayloadSize < acc + length (record_bytes d)
         then Inl (ErrMsg ''db: segment payload is too large'')
         else payload_length_loop m (Suc i) docs (acc + length (record_bytes d)))"
      using None by (simp add: Let_def segmentRecordHeaderSize_def length_record_bytes add.assoc)
    then show ?thesis
      using Cons [of "Suc i" "acc + length (record_bytes d)"] ok len
      by (cases docs) (auto simp: payload_bytes_def)
  next
    case (Some err)
    then have "\<not> (doc_ok d \<and> DocID d = m + word_of_nat i)"
      using validateStoredDocument_None by (metis option.distinct(1))
    with Some show ?thesis by auto
  qed
qed

text \<open>A segment that can be stored: contiguous documents whose range the metadata describes.\<close>

definition segment_wf :: "SegmentMetadata \<times> StoredDocument list \<Rightarrow> bool" where
  "segment_wf x \<longleftrightarrow> (case x of (md, docs) \<Rightarrow>
     docs \<noteq> [] \<and> unat (smDocCount md) = length docs \<and> smMinDocID md \<le> smMaxDocID md
     \<and> smDocCount md - 1 = smMaxDocID md - smMinDocID md \<and> contiguous (smMinDocID md) 0 docs
     \<and> length (payload_bytes docs) \<le> maxSegmentPayloadSize \<and> smFiles md = [])"

definition header_prefix :: "SegmentMetadata \<Rightarrow> u64 \<Rightarrow> u32 \<Rightarrow> bytes" where
  "header_prefix md n crc = segmentMagic @ PutUint16 1 @ PutUint16 64 @ replicate 4 0 @ PutUint64 (smID md)
     @ PutUint64 (smMinDocID md) @ PutUint64 (smMaxDocID md) @ PutUint64 (smDocCount md) @ PutUint64 n @ PutUint32 crc"

lemma encodeSegmentHeader_eq:
  "encodeSegmentHeader md n crc = header_prefix md n crc @ PutUint32 (CRC32C (header_prefix md n crc))"
  by (simp add: encodeSegmentHeader_def header_prefix_def segmentCodecVersion_def segmentHeaderSize_def Let_def)

lemma length_segmentMagic [simp]: "length segmentMagic = 8"
  by (simp add: segmentMagic_def)

lemma length_header [simp]: "length (header_prefix md n crc) = 60" "length (encodeSegmentHeader md n crc) = 64"
  by (simp_all add: encodeSegmentHeader_eq header_prefix_def)

lemma header_fields:
  fixes n :: u64 and md :: SegmentMetadata and crc :: u32
  defines "h \<equiv> encodeSegmentHeader md n crc"
  shows "slice 0 8 h = segmentMagic" "Uint16 (slice 8 10 h) = 1" "Uint16 (slice 10 12 h) = 64"
    "Uint32 (slice 12 16 h) = 0" "Uint64 (slice 16 24 h) = smID md" "Uint64 (slice 24 32 h) = smMinDocID md"
    "Uint64 (slice 32 40 h) = smMaxDocID md" "Uint64 (slice 40 48 h) = smDocCount md" "Uint64 (slice 48 56 h) = n"
    "Uint32 (slice 56 60 h) = crc" "slice 0 60 h = header_prefix md n crc"
    "Uint32 (slice 60 64 h) = CRC32C (header_prefix md n crc)"
proof -
  have pre: "slice i j h = slice i j (header_prefix md n crc)" if "j \<le> 60" for i j
    using that by (simp add: h_def encodeSegmentHeader_eq slice_append slice_outside)
  show "slice 0 8 h = segmentMagic" "Uint16 (slice 8 10 h) = 1" "Uint16 (slice 10 12 h) = 64"
    "Uint32 (slice 12 16 h) = 0" "Uint64 (slice 16 24 h) = smID md" "Uint64 (slice 24 32 h) = smMinDocID md"
    "Uint64 (slice 32 40 h) = smMaxDocID md" "Uint64 (slice 40 48 h) = smDocCount md" "Uint64 (slice 48 56 h) = n"
    "Uint32 (slice 56 60 h) = crc"
    by (simp_all add: pre header_prefix_def codec_simps)
  show "slice 0 60 h = header_prefix md n crc" "Uint32 (slice 60 64 h) = CRC32C (header_prefix md n crc)"
    by (simp_all add: h_def encodeSegmentHeader_eq codec_simps)
qed

lemma payload_min_length: "contiguous m i docs \<Longrightarrow> 25 * length docs \<le> length (payload_bytes docs)"
proof (induction docs arbitrary: i)
  case (Cons d docs)
  then have "25 \<le> length (record_bytes d)"
    using doc_ok_lengths(1) [of d] unfolding length_record_bytes contiguous_Cons by linarith
  with Cons.IH [of "Suc i"] Cons.prems show ?case by (simp add: payload_bytes_def)
qed (simp add: payload_bytes_def)

lemma encodeSegment_wf:
  assumes "segment_wf (md, docs)"
  shows "encodeSegment md docs = Inr (encodeSegmentHeader md (word_of_nat (length (payload_bytes docs)))
     (CRC32C (payload_bytes docs)) @ payload_bytes docs)"
    and "segmentPayloadLength md docs = Inr (length (payload_bytes docs))"
proof -
  have "payload_length_loop (smMinDocID md) 0 docs 0 = Inr (length (payload_bytes docs))"
    using assms by (simp add: payload_length_loop_Inr segment_wf_def)
  then show l: "segmentPayloadLength md docs = Inr (length (payload_bytes docs))"
    using assms by (simp add: segmentPayloadLength_def segment_wf_def)
  show "encodeSegment md docs = Inr (encodeSegmentHeader md (word_of_nat (length (payload_bytes docs)))
     (CRC32C (payload_bytes docs)) @ payload_bytes docs)"
    using l by (simp add: encodeSegment_def Let_def payload_bytes_def record_bytes_def [abs_def])
qed

lemma decodeSegment_encode:
  assumes wf: "segment_wf (md, docs)" and enc: "encodeSegment md docs = Inr b" and q: "quiet env"
  shows "\<exists>env'. decodeSegment ctx b env = (Inr (md, docs), env') \<and> quiet env'"
proof -
  define p where "p = payload_bytes docs"
  define h where "h = encodeSegmentHeader md (word_of_nat (length p)) (CRC32C p)"
  have b: "b = h @ p" using encodeSegment_wf(1) [OF wf] enc by (simp add: h_def p_def)
  have w: "docs \<noteq> []" "unat (smDocCount md) = length docs" "smMinDocID md \<le> smMaxDocID md"
    "smDocCount md - 1 = smMaxDocID md - smMinDocID md" "contiguous (smMinDocID md) 0 docs"
    "length p \<le> maxSegmentPayloadSize" "smFiles md = []"
    using wf by (simp_all add: segment_wf_def p_def)
  have lp: "unat (word_of_nat (length p) :: u64) = length p"
    using w(6) by (intro unat_of_nat_u64) (simp add: maxSegmentPayloadSize_def)
  have n: "length docs \<le> length p div 25" using payload_min_length [OF w(5)] by (simp add: p_def)
  moreover have "length p div 25 \<le> 2 ^ 63 - 1" using w(6) by (simp add: maxSegmentPayloadSize_def)
  ultimately have n2: "length docs \<le> 2 ^ 63 - 1" by linarith
  have nz: "smDocCount md \<noteq> 0" using w(1,2) by auto
  have hd: "slice 0 64 b = h" "drop 64 b = p" "length b = 64 + length p"
    by (simp_all add: b h_def codec_simps)
  have md: "\<lparr>smID = smID md, smMinDocID = smMinDocID md, smMaxDocID = smMaxDocID md,
      smDocCount = smDocCount md, smFiles = []\<rparr> = md" using w(7) by (cases md) simp
  obtain e' where e': "decode_docs ctx p (smMinDocID md) (length docs) 0 0 [] env = (Inr docs, e')" "quiet e'"
    using decode_docs_payload [OF w(5) q, of 0 "[]" ctx "[]"] by (auto simp: p_def)
  note f = header_fields [of md "word_of_nat (length p)" "CRC32C p", folded h_def]
  show ?thesis
    unfolding decodeSegment_def segmentHeaderSize_def segmentCodecVersion_def segmentRecordHeaderSize_def Let_def
      hd f lp md
    using w n n2 nz e' by (simp add: not_less)
qed

lemma decodeSegment_fields:
  assumes "decodeSegment ctx b env = (Inr (md, docs), env')"
  defines "h \<equiv> slice 0 64 b" and "p \<equiv> drop 64 b"
  shows "64 \<le> length b" "slice 0 8 h = segmentMagic" "Uint16 (slice 8 10 h) = 1" "Uint16 (slice 10 12 h) = 64"
    "Uint32 (slice 12 16 h) = 0" "Uint32 (slice 60 64 h) = CRC32C (slice 0 60 h)"
    "unat (Uint64 (slice 48 56 h)) = length p" "length p \<le> maxSegmentPayloadSize"
    "Uint32 (slice 56 60 h) = CRC32C p"
    "md = \<lparr>smID = Uint64 (slice 16 24 h), smMinDocID = Uint64 (slice 24 32 h),
           smMaxDocID = Uint64 (slice 32 40 h), smDocCount = Uint64 (slice 40 48 h), smFiles = []\<rparr>"
    "smDocCount md \<noteq> 0" "smMinDocID md \<le> smMaxDocID md" "smDocCount md - 1 = smMaxDocID md - smMinDocID md"
    "\<exists>e. decode_docs ctx p (smMinDocID md) (unat (smDocCount md)) 0 0 [] e = (Inr docs, env')"
  using assms(1)
  unfolding decodeSegment_def segmentHeaderSize_def segmentCodecVersion_def Let_def h_def [symmetric] p_def [symmetric]
  by (auto simp: p_def split: if_splits sum.splits prod.splits)

lemma segment_header_canonical:
  assumes len: "length h = 64" and m: "slice 0 8 h = segmentMagic" and v: "Uint16 (slice 8 10 h) = 1"
    and sz: "Uint16 (slice 10 12 h) = 64" and z: "Uint32 (slice 12 16 h) = 0"
    and hc: "Uint32 (slice 60 64 h) = CRC32C (slice 0 60 h)"
    and md: "md = \<lparr>smID = Uint64 (slice 16 24 h), smMinDocID = Uint64 (slice 24 32 h),
           smMaxDocID = Uint64 (slice 32 40 h), smDocCount = Uint64 (slice 40 48 h), smFiles = []\<rparr>"
  shows "h = encodeSegmentHeader md (Uint64 (slice 48 56 h)) (Uint32 (slice 56 60 h))"
proof -
  have f1: "slice 8 10 h = PutUint16 1" "slice 10 12 h = PutUint16 64"
    using Uint_eqD(1) [OF v] Uint_eqD(1) [OF sz] len by simp_all
  have f2: "slice 12 16 h = replicate 4 0" "slice 60 64 h = PutUint32 (CRC32C (slice 0 60 h))"
    using Uint_eqD(2) [OF z] Uint_eqD(2) [OF hc] len by (simp_all add: PutUint32_zero)
  have f3: "PutUint64 (Uint64 (slice i (i + 8) h)) = slice i (i + 8) h" if "i \<le> 56" for i
    using that len by (simp add: PutUint64_Uint64)
  have f4: "PutUint64 (smID md) = slice 16 24 h" "PutUint64 (smMinDocID md) = slice 24 32 h"
    "PutUint64 (smMaxDocID md) = slice 32 40 h" "PutUint64 (smDocCount md) = slice 40 48 h"
    "PutUint64 (Uint64 (slice 48 56 h)) = slice 48 56 h" "PutUint32 (Uint32 (slice 56 60 h)) = slice 56 60 h"
    using f3 [of 16] f3 [of 24] f3 [of 32] f3 [of 40] f3 [of 48] len by (simp_all add: md PutUint32_Uint32)
  have pre: "slice 0 60 h = header_prefix md (Uint64 (slice 48 56 h)) (Uint32 (slice 56 60 h))"
    unfolding header_prefix_def f4 f1 [symmetric] f2(1) [symmetric] m [symmetric]
    by (simp add: slice_split [of 0 8 60 h] slice_split [of 8 10 60 h] slice_split [of 10 12 60 h]
        slice_split [of 12 16 60 h] slice_split [of 16 24 60 h] slice_split [of 24 32 60 h]
        slice_split [of 32 40 60 h] slice_split [of 40 48 60 h] slice_split [of 48 56 60 h])
  have "h = slice 0 60 h @ slice 60 64 h" using split_at [OF len, of 60] by simp
  then show ?thesis unfolding encodeSegmentHeader_eq pre [symmetric] f2(2) [symmetric] .
qed

lemma decodeSegment_canonical:
  assumes "decodeSegment ctx b env = (Inr (md, docs), env')"
  shows "segment_wf (md, docs)" "encodeSegment md docs = Inr b"
proof -
  note f = decodeSegment_fields [OF assms]
  define h where "h = slice 0 64 b"
  define p where "p = drop 64 b"
  note f = decodeSegment_fields [OF assms, folded h_def p_def]
  obtain e where "decode_docs ctx p (smMinDocID md) (unat (smDocCount md)) 0 0 [] e = (Inr docs, env')"
    using f(14) by blast
  from decode_docs_sound [OF this] have ds: "length docs = unat (smDocCount md)" "p = payload_bytes docs"
    "contiguous (smMinDocID md) 0 docs" by auto
  have "docs \<noteq> []" using f(11) ds(1) by (auto simp: unat_eq_zero)
  then show wf: "segment_wf (md, docs)"
    using ds f by (simp add: segment_wf_def)
  have hl: "length h = 64" using f(1) by (simp add: h_def)
  have "Uint64 (slice 48 56 h) = word_of_nat (length p)" using f(7) by (simp flip: f(7))
  then have "h = encodeSegmentHeader md (word_of_nat (length p)) (CRC32C p)"
    using segment_header_canonical [OF hl f(2-6) f(10)] f(9) by simp
  moreover have "b = h @ p" by (simp add: h_def p_def slice_def)
  ultimately show "encodeSegment md docs = Inr b"
    using encodeSegment_wf(1) [OF wf] ds(2) by simp
qed

interpretation seg: canonical_codec segment_wf "\<lambda>(md, docs). encodeSegment md docs"
    "\<lambda>b. fst (decodeSegment DetachedCtx b calm)"
proof (unfold_locales, goal_cases)
  case (1 x) then show ?case by (cases x) (simp add: encodeSegment_wf)
next
  case (2 x b) then show ?case
    using decodeSegment_encode [of "fst x" "snd x" b calm DetachedCtx] by (cases x) auto
next
  case (3 b x) then show ?case
    using decodeSegment_canonical [of DetachedCtx b calm "fst x" "snd x"]
    by (cases x, cases "decodeSegment DetachedCtx b calm") auto
qed

subsection \<open>Write segments\<close>

definition ws_ok :: "WriteSegment \<Rightarrow> bool" where
  "ws_ok s \<longleftrightarrow> wsMaxDocs s \<noteq> 0 \<and> unat (wsMinDocID s) + unat (wsMaxDocs s) \<le> 2 ^ 64
     \<and> length (wsDocs s) \<le> unat (wsMaxDocs s) \<and> contiguous (wsMinDocID s) 0 (wsDocs s)
     \<and> wsMemoryBytes s = storedDocumentsMemoryBytes (wsDocs s)"

lemma NewWriteSegment_ok: "NewWriteSegment i m n = Inr s \<Longrightarrow> ws_ok s \<and> wsDocs s = [] \<and> \<not> wsSealed s"
proof -
  assume new: "NewWriteSegment i m n = Inr s"
  then have n: "n \<noteq> 0" "n - 1 \<le> MaxUint64 - m"
    by (auto simp: NewWriteSegment_def split: if_splits)
  have "unat (n - 1) = unat n - 1" using n(1) by (simp add: unat_minus_one)
  moreover have "unat (MaxUint64 - m) = unat MaxUint64 - unat m"
    by (rule unat_sub) simp
  ultimately have "unat n - 1 \<le> 2 ^ 64 - 1 - unat m"
    using n(2) by (simp add: word_le_nat_alt unat_MaxUint64)
  moreover have "unat m < 2 ^ 64" "0 < unat n"
    using unat_u64_less [of m] n(1) by (simp_all add: unat_gt_0)
  ultimately have "unat m + unat n \<le> 2 ^ 64" by linarith
  then show ?thesis
    using new by (auto simp: NewWriteSegment_def ws_ok_def storedDocumentsMemoryBytes_def split: if_splits)
qed

lemma memory_loop_append: "memory_loop (ds @ [d]) acc = saturatingAdd (memory_loop ds acc) (storedDocumentMemoryBytes d)"
proof (induction ds arbitrary: acc)
  case Nil
  then show ?case by (auto simp: saturatingAdd_def Let_def)
next
  case (Cons x ds)
  then show ?case by (auto simp: saturatingAdd_def Let_def word_gt_0)
qed

lemma append_ok:
  assumes "ws_ok s" "WriteSegment_append ctx exp key val s env = (Inr d, s', env')"
  shows "ws_ok s'" "wsDocs s' = wsDocs s @ [d]" "d = \<lparr>DocID = wsMinDocID s + word_of_nat (length (wsDocs s)),
      PrimaryKey = key, Payload = val\<rparr>" "doc_ok d" "exp \<noteq> None \<Longrightarrow> exp = Some (DocID d)"
    "wsMinDocID s' = wsMinDocID s" "wsMaxDocs s' = wsMaxDocs s" "wsID s' = wsID s" "\<not> wsSealed s'"
    "length (wsDocs s) < unat (wsMaxDocs s)"
  using assms
  by (auto simp: WriteSegment_append_def ws_ok_def doc_ok_def storedDocumentsMemoryBytes_def memory_loop_append
      Let_def split: if_splits prod.splits option.splits)

subsection \<open>Lookup by document ID\<close>

text \<open>
  The contract of a segment towards the manager: documents in strictly ascending ID order, and a
  lookup that finds exactly them.
\<close>

locale document_source =
  fixes ok :: "'s \<Rightarrow> bool"
    and docs :: "'s \<Rightarrow> StoredDocument list"
    and lookup :: "'s \<Rightarrow> u64 \<Rightarrow> StoredDocument option"
  assumes docs_sorted: "ok s \<Longrightarrow> sorted_wrt (<) (map DocID (docs s))"
    and lookup_iff: "ok s \<Longrightarrow> lookup s i = Some d \<longleftrightarrow> d \<in> set (docs s) \<and> DocID d = i"
begin

lemma docs_distinct: "ok s \<Longrightarrow> distinct (map DocID (docs s))"
  using docs_sorted strict_sorted_iff by blast

lemma docs_unique: "ok s \<Longrightarrow> d \<in> set (docs s) \<Longrightarrow> d' \<in> set (docs s) \<Longrightarrow> DocID d = DocID d' \<Longrightarrow> d = d'"
  using lookup_iff [of s "DocID d" d] lookup_iff [of s "DocID d" d'] by simp

lemma lookup_None: "ok s \<Longrightarrow> lookup s i = None \<longleftrightarrow> i \<notin> DocID ` set (docs s)"
  using lookup_iff [of s i] by (metis imageE image_eqI option.exhaust option.distinct(1))

end

definition numbered :: "u64 \<Rightarrow> StoredDocument list \<Rightarrow> bool" where
  "numbered m docs \<longleftrightarrow> contiguous m 0 docs \<and> unat m + length docs \<le> 2 ^ 64"

lemma unat_offset: "unat (m :: u64) + i < 2 ^ 64 \<Longrightarrow> unat (m + word_of_nat i) = unat m + i"
  by (simp add: unat_word_ariths unat_of_nat)

lemma numbered_nth:
  assumes "numbered m docs" "i < length docs"
  shows "DocID (docs ! i) = m + word_of_nat i" "unat (DocID (docs ! i)) = unat m + i"
    "m \<le> DocID (docs ! i)" "unat (DocID (docs ! i) - m) = i"
proof -
  show d: "DocID (docs ! i) = m + word_of_nat i"
    using assms by (simp add: numbered_def contiguous_def)
  have lt: "unat m + i < 2 ^ 64" using assms by (simp add: numbered_def)
  show u: "unat (DocID (docs ! i)) = unat m + i" unfolding d by (rule unat_offset [OF lt])
  then show "m \<le> DocID (docs ! i)" by (simp add: word_le_nat_alt)
  show "unat (DocID (docs ! i) - m) = i" unfolding d using lt by (simp add: unat_of_nat_u64)
qed

lemma numbered_sorted: "numbered m docs \<Longrightarrow> sorted_wrt (<) (map DocID docs)"
  unfolding sorted_wrt_iff_nth_less by (auto simp: word_less_nat_alt numbered_nth(2))

lemma numbered_mem:
  assumes "numbered m docs"
  shows "(\<exists>i < length docs. d = docs ! i \<and> unat (x - m) = i \<and> m \<le> x) \<longleftrightarrow> d \<in> set docs \<and> DocID d = x"
proof safe
  assume lt: "unat (x - m) < length docs" and le: "m \<le> x"
  show "docs ! unat (x - m) \<in> set docs" using lt by simp
  show "DocID (docs ! unat (x - m)) = x"
    unfolding numbered_nth(1) [OF assms lt] by simp
next
  assume "d \<in> set docs"
  then obtain i where i: "i < length docs" "d = docs ! i" by (metis in_set_conv_nth)
  then show "\<exists>i < length docs. d = docs ! i \<and> unat (DocID d - m) = i \<and> m \<le> DocID d"
    using numbered_nth(3,4) [OF assms i(1)] by auto
qed

lemma ws_numbered: "ws_ok s \<Longrightarrow> numbered (wsMinDocID s) (wsDocs s)"
  by (auto simp: ws_ok_def numbered_def)

lemma segment_wf_numbered:
  assumes "segment_wf (md, docs)"
  shows "numbered (smMinDocID md) docs" "unat (smMaxDocID md) = unat (smMinDocID md) + length docs - 1"
proof -
  have w: "docs \<noteq> []" "unat (smDocCount md) = length docs" "smMinDocID md \<le> smMaxDocID md"
    "smDocCount md - 1 = smMaxDocID md - smMinDocID md" "contiguous (smMinDocID md) 0 docs"
    using assms by (simp_all add: segment_wf_def)
  have "smDocCount md \<noteq> 0" using w(1,2) by auto
  then have "unat (smDocCount md - 1) = length docs - 1" using w(2) by (simp add: unat_minus_one)
  moreover have "unat (smMaxDocID md - smMinDocID md) = unat (smMaxDocID md) - unat (smMinDocID md)"
    using w(3) by (rule unat_sub)
  moreover have "unat (smMinDocID md) \<le> unat (smMaxDocID md)" using w(3) by (simp add: word_le_nat_alt)
  ultimately show mx: "unat (smMaxDocID md) = unat (smMinDocID md) + length docs - 1"
    using w(1,4) by (cases docs) auto
  have "0 < length docs" using w(1) by simp
  then have "unat (smMinDocID md) + length docs \<le> 2 ^ 64"
    using unat_u64_less [of "smMaxDocID md"] mx by simp
  with w(5) show "numbered (smMinDocID md) docs" by (simp add: numbered_def)
qed

definition im_ok :: "ImmutableSegment \<Rightarrow> bool" where
  "im_ok s \<longleftrightarrow> segment_wf ((isMetadata s)\<lparr>smFiles := []\<rparr>, isDocs s)"

lemma im_ok_range:
  assumes "im_ok s"
  shows "numbered (smMinDocID (isMetadata s)) (isDocs s)" "isDocs s \<noteq> []"
    "unat (smMaxDocID (isMetadata s)) = unat (smMinDocID (isMetadata s)) + length (isDocs s) - 1"
    "smMinDocID (isMetadata s) \<le> smMaxDocID (isMetadata s)" "smDocCount (isMetadata s) \<noteq> 0"
  using segment_wf_numbered [OF assms [unfolded im_ok_def]] assms
  by (auto simp: im_ok_def segment_wf_def)

interpretation wseg: document_source ws_ok wsDocs WriteSegment_Document
proof (unfold_locales, goal_cases)
  case (1 s) then show ?case using ws_numbered numbered_sorted by blast
next
  case (2 s i d)
  then show ?case
    using numbered_mem [OF ws_numbered [OF 2], of d i]
    by (auto simp: WriteSegment_Document_def not_le not_less)
qed

interpretation iseg: document_source im_ok isDocs ImmutableSegment_Document
proof (unfold_locales, goal_cases)
  case (1 s) then show ?case using im_ok_range(1) numbered_sorted by blast
next
  case (2 s i d)
  note r = im_ok_range [OF 2]
  have "i \<le> smMaxDocID (isMetadata s)" if "d \<in> set (isDocs s)" "DocID d = i"
    using that numbered_nth(2) [OF r(1)] r(2,3) by (auto simp: word_le_nat_alt in_set_conv_nth)
  then show ?case
    using numbered_mem [OF r(1), of d i] numbered_nth(1) [OF r(1)]
    by (auto simp: ImmutableSegment_Document_def Let_def not_le not_less split: if_splits)
qed

subsection \<open>Publishing a segment\<close>

lemma write_docs_payload:
  "write_docs ctx i docs crc buf env = (Inr (crc', buf'), env') \<Longrightarrow>
     crc' = UpdateCRC32C crc (payload_bytes docs) \<and> buf' = buf @ payload_bytes docs"
proof (induction docs arbitrary: i crc buf env)
  case Nil
  then show ?case by (simp add: payload_bytes_def UpdateCRC32C_def)
next
  case (Cons d docs)
  then show ?case
    by (auto simp: Let_def payload_bytes_def record_bytes_def UpdateCRC32C_append split: prod.splits option.splits if_splits
        dest!: Cons.IH)
qed

lemma UpdateCRC32C_0: "UpdateCRC32C 0 p = CRC32C p"
  by (simp add: CRC32C_def)

lemma WriteFullAt_None: "WriteFullAt f src off env = (None, f', env') \<Longrightarrow> f' = (if src = [] then f else write_at f off src)"
  by (auto simp: WriteFullAt_def split: if_splits prod.splits option.splits)

lemma write_segment_file_contents:
  assumes "write_segment_file ctx md docs n env = (None, f, env')"
  shows "f = encodeSegmentHeader md (word_of_nat n) (CRC32C (payload_bytes docs)) @ payload_bytes docs"
proof -
  obtain f1 e1 e2 crc buf f2 e3 e4 where
    1: "WriteFullAt [] (replicate 64 0) 0 env = (None, f1, e1)"
    and 2: "write_docs ctx 0 docs 0 [] e1 = (Inr (crc, buf), e2)"
    and 3: "WriteFullAt f1 buf 64 e2 = (None, f2, e3)"
    and 4: "WriteFullAt f2 (encodeSegmentHeader md (word_of_nat n) crc) 0 e4 = (None, f, env')"
    using assms unfolding write_segment_file_def segmentHeaderSize_def
    by (auto split: prod.splits option.splits sum.splits)
  have b: "crc = CRC32C (payload_bytes docs)" "buf = payload_bytes docs"
    using write_docs_payload [OF 2] by (simp_all add: UpdateCRC32C_0)
  have f1: "f1 = replicate 64 0" using WriteFullAt_None [OF 1] by (simp add: write_at_def)
  have f2: "f2 = replicate 64 0 @ payload_bytes docs"
    using WriteFullAt_None [OF 3] f1 b(2) by (auto split: if_splits)
  have "encodeSegmentHeader md (word_of_nat n) crc \<noteq> []"
    using length_header(2) by (metis length_0_conv zero_neq_numeral)
  then show ?thesis using WriteFullAt_None [OF 4] f2 b(1) by (simp add: write_at_def)
qed

lemma ws_segment_wf:
  assumes "ws_ok s" "wsDocs s \<noteq> []" "length (payload_bytes (wsDocs s)) \<le> maxSegmentPayloadSize"
  shows "segment_wf (segmentMetadata (wsID s) (wsDocs s) [], wsDocs s)"
proof -
  note nb = ws_numbered [OF assms(1)]
  let ?d = "wsDocs s" and ?m = "wsMinDocID s"
  have len: "length ?d < 2 ^ 64 \<or> length ?d = 2 ^ 64" using nb by (auto simp: numbered_def)
  have small: "length ?d < 2 ^ 64"
    using payload_min_length [of ?m 0 ?d] assms(3) nb by (simp add: numbered_def maxSegmentPayloadSize_def)
  have hd: "DocID (hd ?d) = ?m" using numbered_nth(1) [OF nb, of 0] assms(2) by (simp add: hd_conv_nth)
  have la: "DocID (last ?d) = ?m + word_of_nat (length ?d - 1)" "?m \<le> DocID (last ?d)"
    using numbered_nth [OF nb, of "length ?d - 1"] assms(2) by (simp_all add: last_conv_nth)
  have "word_of_nat (length ?d) - 1 = (word_of_nat (length ?d - 1) :: u64)"
    using assms(2) by (cases ?d) simp_all
  then show ?thesis
    using small hd la assms(2,3) nb unat_of_nat_u64 [OF small]
    by (simp add: segment_wf_def segmentMetadata_def Let_def numbered_def)
qed

lemma segmentPayloadLength_Inr:
  "segmentPayloadLength md docs = Inr n \<Longrightarrow>
     docs \<noteq> [] \<and> n = length (payload_bytes docs) \<and> n \<le> maxSegmentPayloadSize"
  by (auto simp: segmentPayloadLength_def payload_length_loop_Inr split: if_splits)

lemma writeSegmentSnapshot_file:
  assumes "writeSegmentSnapshot ctx name temp md docs fs env = (None, fs', env')" "temp \<noteq> name"
  shows "fs' name = Some (encodeSegmentHeader md (word_of_nat (length (payload_bytes docs)))
      (CRC32C (payload_bytes docs)) @ payload_bytes docs)"
    "length (payload_bytes docs) \<le> maxSegmentPayloadSize"
proof -
  obtain n where n: "segmentPayloadLength md docs = Inr n"
    and w: "WriteImmutableFile ctx name temp (write_segment_file ctx md docs n) fs env = (None, fs', env')"
    using assms(1) by (auto simp: writeSegmentSnapshot_def split: sum.splits)
  note l = segmentPayloadLength_Inr [OF n]
  show "length (payload_bytes docs) \<le> maxSegmentPayloadSize" using l by simp
  show "fs' name = Some (encodeSegmentHeader md (word_of_nat (length (payload_bytes docs)))
      (CRC32C (payload_bytes docs)) @ payload_bytes docs)"
    using WriteImmutableFile_published [OF w assms(2), of "encodeSegmentHeader md (word_of_nat n)
      (CRC32C (payload_bytes docs)) @ payload_bytes docs"] write_segment_file_contents l
    by (auto simp: published_def)
qed

lemma ValidateSegment_wf:
  assumes "segment_wf (md, docs)" "ValidatePortableRelativePath name = None"
  shows "ValidateSegment (md\<lparr>smFiles := [name]\<rparr>) = None"
  using assms by (auto simp: ValidateSegment_def segment_wf_def)

lemma OpenImmutableSegment_quiet:
  assumes "ctx \<noteq> NilCtx" "dir \<noteq> []" "quiet env" "ValidatePortableRelativePath name = None"
    and wf: "segment_wf (md, docs)" and enc: "encodeSegment md docs = Inr b"
    and f: "fs (filepath_Join dir name) = Some b"
  shows "\<exists>env'. OpenImmutableSegmentWithMmap ctx dir (md\<lparr>smFiles := [name]\<rparr>) mm fs env =
    (Inr \<lparr>isMapped = mm, isClosed = False, isMetadata = md\<lparr>smFiles := [name]\<rparr>, isDocs = docs,
         isMemoryBytes = storedDocumentsMemoryBytes docs\<rparr>, env') \<and> quiet env'"
proof -
  obtain e1 where 1: "ctx_Err ctx env = (None, e1)" "quiet e1" using assms(3) by (rule ctx_quietE)
  obtain e2 where 2: "os_call e1 = (None, e2)" "quiet e2" using 1(2) by (rule os_quietE)
  obtain e3 where 3: "os_call e2 = (None, e3)" "quiet e3" using 2(2) by (rule os_quietE)
  obtain e4 where 4: "os_call e3 = (None, e4)" "quiet e4" using 3(2) by (rule os_quietE)
  obtain e5 where 5: "decodeSegment ctx b e4 = (Inr (md, docs), e5)" "quiet e5"
    using decodeSegment_encode [OF wf enc 4(2)] by blast
  have len: "64 \<le> length b" "length b - 64 \<le> maxSegmentPayloadSize"
    using encodeSegment_wf(1) [OF wf] enc wf by (auto simp: segment_wf_def)
  have v: "ValidateSegment (md\<lparr>smFiles := [name]\<rparr>) = None"
    by (rule ValidateSegment_wf [OF wf assms(4)])
  show ?thesis
    using assms(1,2) 1 2 3 4 5 len f v
    by (simp add: OpenImmutableSegmentWithMmap_def segmentHeaderSize_def segmentMetadataEqual_def not_less)
qed

lemma writeImmutable_cases:
  assumes ok: "ws_ok s" and ne: "temp \<noteq> filepath_Join dir name"
    and w: "WriteSegment_writeImmutable ctx dir name temp seal False s fs env = (Inr im, s', fs', env')"
  shows "dir \<noteq> []" "ValidatePortableRelativePath name = None"
    "im = newImmutableSegment ((segmentMetadata (wsID s) (wsDocs s) [])\<lparr>smFiles := [name]\<rparr>) (wsDocs s)"
    "segment_wf (segmentMetadata (wsID s) (wsDocs s) [], wsDocs s)"
    "\<exists>b. encodeSegment (segmentMetadata (wsID s) (wsDocs s) []) (wsDocs s) = Inr b
       \<and> fs' (filepath_Join dir name) = Some b"
    "s' = (if seal then s\<lparr>wsSealed := True\<rparr> else s)"
proof -
  define md where "md = segmentMetadata (wsID s) (wsDocs s) []"
  have md: "segmentMetadata (wsID s) (wsDocs s) [name] = md\<lparr>smFiles := [name]\<rparr>"
    by (simp add: md_def segmentMetadata_def Let_def)
  obtain e0 where g: "dir \<noteq> []" "ValidatePortableRelativePath name = None" "wsDocs s \<noteq> []"
      "ctx \<noteq> NilCtx" "ctx_Err ctx env = (None, e0)" "\<not> wsSealed s"
    using w by (auto simp: WriteSegment_writeImmutable_def split: if_splits prod.splits option.splits)
  obtain r fs1 e1 where ws0: "writeSegmentSnapshot ctx (filepath_Join dir name) temp
      (segmentMetadata (wsID s) (wsDocs s) [name]) (wsDocs s) fs e0 = (r, fs1, e1)"
    by (metis prod_cases3)
  have res: "r = None" "fs1 = fs'" "s' = (if seal then s\<lparr>wsSealed := True\<rparr> else s)"
    "im = newImmutableSegment (segmentMetadata (wsID s) (wsDocs s) [name]) (wsDocs s)"
    using w g ws0 by (cases r; simp add: WriteSegment_writeImmutable_def Let_def split: if_splits)+
  note d = g(3) and ws = ws0 [unfolded md res(1,2)] and rest = g(1,2) res(4) [unfolded md] res(3)
  note f = writeSegmentSnapshot_file [OF ws ne]
  show wf: "segment_wf (segmentMetadata (wsID s) (wsDocs s) [], wsDocs s)"
    by (rule ws_segment_wf [OF ok d f(2)])
  show "\<exists>b. encodeSegment (segmentMetadata (wsID s) (wsDocs s) []) (wsDocs s) = Inr b
       \<and> fs' (filepath_Join dir name) = Some b"
    using encodeSegment_wf(1) [OF wf] f(1) by (simp add: md_def encodeSegmentHeader_def)
  show "dir \<noteq> []" "ValidatePortableRelativePath name = None"
    "im = newImmutableSegment ((segmentMetadata (wsID s) (wsDocs s) [])\<lparr>smFiles := [name]\<rparr>) (wsDocs s)"
    "s' = (if seal then s\<lparr>wsSealed := True\<rparr> else s)"
    using rest by (simp_all add: md_def)
qed

subsection \<open>Properties\<close>

text \<open>
  C9: A sealed segment is read back unchanged. When sealing or snapshotting a write segment reports
  success, opening the published file with the returned metadata, by a caller whose own calls do not
  fail, yields the same immutable segment: the same documents, in order, with their IDs, keys and payloads.
  Sealing also leaves the write segment rejecting appends, a snapshot leaves it as it was.
\<close>

theorem sealed_segment_reopens:
  assumes "ws_ok s" "temp \<noteq> filepath_Join dir name"
    and "WriteSegment_writeImmutable ctx dir name temp seal False s fs env = (Inr im, s', fs', env')"
    and "c \<noteq> NilCtx" "quiet e"
  shows "\<exists>e'. OpenImmutableSegment c dir (ImmutableSegment_Metadata im) fs' e = (Inr im, e')
    \<and> ImmutableSegment_Documents im = WriteSegment_Documents s \<and> im_ok im
    \<and> s' = (if seal then s\<lparr>wsSealed := True\<rparr> else s)"
proof -
  note w = writeImmutable_cases [OF assms(1-3)]
  obtain b where b: "encodeSegment (segmentMetadata (wsID s) (wsDocs s) []) (wsDocs s) = Inr b"
    "fs' (filepath_Join dir name) = Some b" using w(5) by blast
  show ?thesis
    using OpenImmutableSegment_quiet [OF assms(4) w(1) assms(5) w(2) w(4) b(1), of fs' False] b(2) w(4,6)
    by (auto simp: w(3) OpenImmutableSegment_def newImmutableSegment_def ImmutableSegment_Metadata_def im_ok_def
        ImmutableSegment_Documents_def WriteSegment_Documents_def segmentMetadata_def Let_def)
qed

definition sample_segment :: WriteSegment where
  "sample_segment = \<lparr>wsID = 1, wsMinDocID = 5, wsMaxDocs = 10,
     wsDocs = [\<lparr>DocID = 5, PrimaryKey = [0x61], Payload = [1, 2]\<rparr>], wsSealed = False, wsMemoryBytes = 27\<rparr>"

lemma sample_segment_ok: "ws_ok sample_segment"
  by (simp add: ws_ok_def sample_segment_def doc_ok_def sample_keys_valid MaxDocumentPayloadSize_def
      storedDocumentsMemoryBytes_def storedDocumentMemoryBytes_def segmentRecordHeaderSize_def Let_def)

lemma sample_file_name:
  "ValidatePortableRelativePath ''s'' = None" "filepath_Join ''c'' ''s'' = ''c/s''"
  by code_simp+

lemma sample_seal:
  "\<exists>im s' fs' env'. WriteSegment_writeImmutable Ctx ''c'' ''s'' ''t'' True False sample_segment Map.empty calm
     = (Inr im, s', fs', env')"
proof -
  have "payload_bytes (wsDocs sample_segment) \<noteq> []" "length (payload_bytes (wsDocs sample_segment)) = 27"
    by (simp_all add: payload_bytes_def record_bytes_def sample_segment_def encodeSegmentRecordHeader_def)
  have pl: "segmentPayloadLength (segmentMetadata 1 (wsDocs sample_segment) [''s'']) (wsDocs sample_segment) = Inr 27"
    by (simp add: segmentPayloadLength_def segmentMetadata_def sample_segment_def validateStoredDocument_def
        sample_keys_valid MaxDocumentPayloadSize_def maxSegmentPayloadSize_def segmentRecordHeaderSize_def)
  have hz: "encodeSegmentHeader md n c \<noteq> []" for md n c
    using length_header(2) [of md n c] by (metis list.size(3) zero_neq_numeral)
  have rz: "encodeSegmentRecordHeader d \<noteq> []" for d
    using length_record_header [of d] by (metis list.size(3) zero_neq_numeral)
  show ?thesis
    using pl
    by (auto simp: WriteSegment_writeImmutable_def sample_segment_def writeSegmentSnapshot_def WriteImmutableFile_def
        write_segment_file_def sample_file_name ctx_Err_def calm_def os_call_def sync_call_def EnsureDirectorySynced_def
        WriteFullAt_def segmentHeaderSize_def install_synced_def installFileNoReplace_def syncDirectory_def
        errors_Join_def os_Remove_def Let_def hz rz List.map_filter_def)
qed

theorem sealed_segment_reopens_witness:
  "\<exists>im fs' e'. OpenImmutableSegment Ctx ''c'' (ImmutableSegment_Metadata im) fs' calm = (Inr im, e')
     \<and> ImmutableSegment_Documents im = [\<lparr>DocID = 5, PrimaryKey = [0x61], Payload = [1, 2]\<rparr>]"
proof -
  obtain im s' fs' env' where w: "WriteSegment_writeImmutable Ctx ''c'' ''s'' ''t'' True False sample_segment Map.empty calm
     = (Inr im, s', fs', env')" using sample_seal by blast
  have ne: "''t'' \<noteq> filepath_Join ''c'' ''s''" by (simp add: sample_file_name)
  show ?thesis
    using sealed_segment_reopens [OF sample_segment_ok ne w, of Ctx calm]
    by (auto simp: WriteSegment_Documents_def sample_segment_def)
qed

text \<open>
  C10: The segment format has one encoding per segment and no other accepted file. The decoder returns
  metadata and documents for a byte string exactly when they form a well-formed segment (contiguous
  document IDs over the stated range, valid keys, bounded payloads) and the string is their encoding, so
  every accepted file re-encodes to itself and no two files decode to the same segment.
\<close>

theorem segment_decoder_exact:
  "fst (decodeSegment DetachedCtx b calm) = Inr (md, docs) \<longleftrightarrow>
     segment_wf (md, docs) \<and> encodeSegment md docs = Inr b"
  using seg.dec_iff [of b "(md, docs)"] by simp

text \<open>
  C11: Appending assigns contiguous IDs. A successful append to a write segment that satisfies its
  invariant keeps the invariant (contiguous valid documents within the reserved range, the cached memory
  figure equal to the recomputed one), gives the document the ID announced by
  \<^verbatim>\<open>NextDocumentID\<close>, equal to the expected one if one was given, and afterwards a lookup finds the new
  document under that ID and every other document as before.
\<close>

theorem append_assigns_next_id:
  assumes "ws_ok s" "WriteSegment_append ctx expected key payload s env = (Inr d, s', env')"
  shows "ws_ok s' \<and> WriteSegment_NextDocumentID s = Inr (DocID d) \<and> (expected \<noteq> None \<longrightarrow> expected = Some (DocID d))
    \<and> PrimaryKey d = key \<and> Payload d = payload
    \<and> (\<forall>i. WriteSegment_Document s' i = (if i = DocID d then Some d else WriteSegment_Document s i))"
proof -
  note a = append_ok [OF assms]
  have new: "DocID d \<notin> DocID ` set (wsDocs s)"
    using wseg.docs_distinct [OF a(1)] a(2) by auto
  have "WriteSegment_Document s' i = (if i = DocID d then Some d else WriteSegment_Document s i)" for i
  proof (cases "WriteSegment_Document s' i")
    case None
    then show ?thesis
      using wseg.lookup_None [OF a(1), of i] wseg.lookup_None [OF assms(1), of i] a(2) by auto
  next
    case (Some x)
    then show ?thesis
      using wseg.lookup_iff [OF a(1), of i x] wseg.lookup_iff [OF assms(1), of i x] a(2) new
      by (auto simp: image_iff)
  qed
  moreover have "\<not> wsSealed s"
    using assms(2) by (auto simp: WriteSegment_append_def split: if_splits prod.splits option.splits)
  ultimately show ?thesis
    using a by (auto simp: WriteSegment_NextDocumentID_def not_le)
qed

theorem append_assigns_next_id_witness:
  "\<exists>d s' e. WriteSegment_append Ctx (Some 6) [0x62] [7] sample_segment calm = (Inr d, s', e) \<and> DocID d = 6
     \<and> WriteSegment_Document s' 6 = Some d"
proof -
  obtain d s' e where a: "WriteSegment_append Ctx (Some 6) [0x62] [7] sample_segment calm = (Inr d, s', e)"
    by (simp add: WriteSegment_append_def ctx_Err_def calm_def sample_segment_def sample_keys_valid
        MaxDocumentPayloadSize_def Let_def)
  then show ?thesis
    using append_assigns_next_id [OF sample_segment_ok a] by auto
qed

end
