(* ===== verification/Snapshot.thy ===== *)
theory Snapshot
  imports Crc32c Files
begin

text \<open>
  Immutable snapshot files, \<^verbatim>\<open>src/internal/db/index/common/snapshot.go\<close>: a 40-byte header with two
  checksums over a counted payload, and reading such a file. The length of a Go slice is below
  \<open>2 ^ 63\<close>, so a conversion \<^verbatim>\<open>uint64(len(b))\<close> that is only compared is written as the number itself.
\<close>

subsection \<open>The codec\<close>

definition snapshotCodecVersion :: u16 where "snapshotCodecVersion = 1"
definition snapshotHeaderSize :: nat where "snapshotHeaderSize = 40"
definition maxSnapshotPayload :: nat where "maxSnapshotPayload = 256 * 2 ^ 20"

definition encodeSnapshot :: "bytes \<Rightarrow> u64 \<Rightarrow> bytes \<Rightarrow> error + bytes" where
  "encodeSnapshot magic count payload =
     (if maxSnapshotPayload < length payload
      then Inl (ErrMsg ''db: snapshot payload is %d bytes, maximum %d'')
      else
        let prefix = magic @ PutUint16 snapshotCodecVersion @ PutUint16 (word_of_nat snapshotHeaderSize)
              @ replicate 4 0 @ PutUint64 count @ PutUint64 (word_of_nat (length payload))
              @ PutUint32 (CRC32C payload) in
        Inr (prefix @ PutUint32 (CRC32C prefix) @ payload))"

definition decodeSnapshot :: "bytes \<Rightarrow> bytes \<Rightarrow> error + (u64 \<times> bytes)" where
  "decodeSnapshot encoded magic =
     (if length encoded < snapshotHeaderSize
      then Inl (wrapf ErrSnapshotCorrupt ''file is shorter than its header'')
      else if slice 0 8 encoded \<noteq> magic then Inl (wrapf ErrSnapshotCorrupt ''invalid magic'')
      else if Uint16 (slice 8 10 encoded) \<noteq> snapshotCodecVersion
      then Inl (wrapf ErrUnsupportedFormatVersion ''snapshot version %d'')
      else if Uint16 (slice 10 12 encoded) \<noteq> word_of_nat snapshotHeaderSize
      then Inl (wrapf ErrSnapshotCorrupt ''invalid header size %d'')
      else if Uint32 (slice 12 16 encoded) \<noteq> 0
      then Inl (wrapf ErrSnapshotCorrupt ''nonzero reserved bytes'')
      else if CRC32C (slice 0 36 encoded) \<noteq> Uint32 (slice 36 40 encoded)
      then Inl (wrapf ErrSnapshotCorrupt ''header checksum got %08x, want %08x'')
      else
        let payloadLength = Uint64 (slice 24 32 encoded);
            payload = drop snapshotHeaderSize encoded in
        if maxSnapshotPayload < unat payloadLength
           \<or> unat payloadLength \<noteq> length encoded - snapshotHeaderSize
        then Inl (wrapf ErrSnapshotCorrupt ''invalid payload length %d'')
        else if CRC32C payload \<noteq> Uint32 (slice 32 36 encoded)
        then Inl (wrapf ErrSnapshotCorrupt ''payload checksum got %08x, want %08x'')
        else Inr (Uint64 (slice 16 24 encoded), payload))"

definition readSnapshotFile :: "ctx \<Rightarrow> string \<Rightarrow> files \<Rightarrow> env \<Rightarrow> (error + bytes) \<times> env" where
  "readSnapshotFile ctx name fs env =
     (if ctx = NilCtx then (Inl (ErrMsg ''db: nil snapshot read context''), env)
      else case ctx_Err ctx env of
        (Some err, env) \<Rightarrow> (Inl err, env)
      | (None, env) \<Rightarrow>
        (case os_call env of
           (Some err, env) \<Rightarrow> (Inl err, env)
         | (None, env) \<Rightarrow>
           (case fs name of
              None \<Rightarrow> (Inl (Sentinel ErrNotExist), env)
            | Some f \<Rightarrow>
              (case os_call env of
                 (Some err, env) \<Rightarrow> (Inl err, env)
               | (None, env) \<Rightarrow>
                 if length f < snapshotHeaderSize \<or> snapshotHeaderSize + maxSnapshotPayload < length f
                 then (Inl (wrapf ErrSnapshotCorrupt ''invalid file size %d''), env)
                 else (case os_call env of
                     (Some err, env) \<Rightarrow> (Inl err, env)
                   | (None, env) \<Rightarrow>
                     (case ctx_Err ctx env of
                        (Some err, env) \<Rightarrow> (Inl err, env)
                      | (None, env) \<Rightarrow> (Inr f, env)))))))"

subsection \<open>Round trip\<close>

definition snapshot_prefix :: "bytes \<Rightarrow> u64 \<Rightarrow> bytes \<Rightarrow> bytes" where
  "snapshot_prefix magic count payload =
     magic @ PutUint16 1 @ PutUint16 40 @ replicate 4 0 @ PutUint64 count
       @ PutUint64 (word_of_nat (length payload)) @ PutUint32 (CRC32C payload)"

lemma length_snapshot_prefix [simp]: "length magic = 8 \<Longrightarrow> length (snapshot_prefix magic c p) = 36"
  by (simp add: snapshot_prefix_def)

lemma encodeSnapshot_eq:
  "encodeSnapshot magic c p =
     (if length p \<le> maxSnapshotPayload
      then Inr (snapshot_prefix magic c p @ PutUint32 (CRC32C (snapshot_prefix magic c p)) @ p)
      else Inl (ErrMsg ''db: snapshot payload is %d bytes, maximum %d''))"
  by (simp add: encodeSnapshot_def snapshot_prefix_def Let_def snapshotCodecVersion_def snapshotHeaderSize_def)

lemma snapshot_prefix_fields:
  assumes "length magic = 8"
  shows "slice 0 8 (snapshot_prefix magic c p) = magic"
    "Uint16 (slice 8 10 (snapshot_prefix magic c p)) = 1"
    "Uint16 (slice 10 12 (snapshot_prefix magic c p)) = 40"
    "Uint32 (slice 12 16 (snapshot_prefix magic c p)) = 0"
    "Uint64 (slice 16 24 (snapshot_prefix magic c p)) = c"
    "Uint64 (slice 24 32 (snapshot_prefix magic c p)) = word_of_nat (length p)"
    "Uint32 (slice 32 36 (snapshot_prefix magic c p)) = CRC32C p"
  unfolding snapshot_prefix_def using assms by (simp_all add: codec_simps)

lemma decodeSnapshot_encode:
  assumes magic: "length magic = 8" and p: "length p \<le> maxSnapshotPayload"
  shows "decodeSnapshot (snapshot_prefix magic c p @ PutUint32 (CRC32C (snapshot_prefix magic c p)) @ p) magic
     = Inr (c, p)"
proof -
  let ?pre = "snapshot_prefix magic c p"
  let ?e = "?pre @ PutUint32 (CRC32C ?pre) @ p"
  have pre: "slice i j ?e = slice i j ?pre" if "j \<le> 36" for i j
    using that magic by (simp add: slice_append slice_outside)
  have crc: "slice 36 40 ?e = PutUint32 (CRC32C ?pre)" "slice 0 36 ?e = ?pre" "drop 40 ?e = p"
    using magic by (simp_all add: codec_simps)
  have "length p < 2 ^ 64" using p by (simp add: maxSnapshotPayload_def)
  then have len: "unat (word_of_nat (length p) :: u64) = length p"
    by (rule unat_of_nat_u64)
  show ?thesis
    unfolding decodeSnapshot_def Let_def snapshotHeaderSize_def snapshotCodecVersion_def
    using magic p by (simp add: pre crc snapshot_prefix_fields len)
qed

lemma decodeSnapshot_canonical:
  assumes magic: "length magic = 8" and dec: "decodeSnapshot e magic = Inr (c, p)"
  shows "length p \<le> maxSnapshotPayload"
    "e = snapshot_prefix magic c p @ PutUint32 (CRC32C (snapshot_prefix magic c p)) @ p"
proof -
  note d = dec [unfolded decodeSnapshot_def Let_def snapshotHeaderSize_def snapshotCodecVersion_def]
  have len: "40 \<le> length e" and m: "slice 0 8 e = magic" and v: "Uint16 (slice 8 10 e) = 1"
    and sz: "Uint16 (slice 10 12 e) = 40" and z: "Uint32 (slice 12 16 e) = 0"
    and hc: "Uint32 (slice 36 40 e) = CRC32C (slice 0 36 e)"
    and pl: "unat (Uint64 (slice 24 32 e)) \<le> maxSnapshotPayload"
    and ple: "unat (Uint64 (slice 24 32 e)) = length e - 40"
    and pc: "Uint32 (slice 32 36 e) = CRC32C (drop 40 e)"
    and p: "p = drop 40 e" and c: "c = Uint64 (slice 16 24 e)"
    using d by (auto split: if_splits)
  have lp: "unat (Uint64 (slice 24 32 e)) = length p" using ple by (simp add: p)
  then have pl': "Uint64 (slice 24 32 e) = word_of_nat (length p)" by (simp flip: lp)
  have f1: "slice 8 10 e = PutUint16 1" "slice 10 12 e = PutUint16 40"
    using Uint_eqD(1) [OF v] Uint_eqD(1) [OF sz] len by simp_all
  have f2: "slice 12 16 e = replicate 4 0" "slice 32 36 e = PutUint32 (CRC32C p)"
    "slice 36 40 e = PutUint32 (CRC32C (slice 0 36 e))"
    using Uint_eqD(2) [OF z] Uint_eqD(2) [OF pc] Uint_eqD(2) [OF hc] len by (simp_all add: PutUint32_zero p)
  have f3: "slice 16 24 e = PutUint64 c" "slice 24 32 e = PutUint64 (word_of_nat (length p))"
    using Uint_eqD(3) [OF c [symmetric]] Uint_eqD(3) [OF pl'] len by simp_all
  have pre: "slice 0 36 e = snapshot_prefix magic c p"
    by (simp add: snapshot_prefix_def f1 f2 f3 m slice_split [of 0 8 36 e] slice_split [of 8 10 36 e]
        slice_split [of 10 12 36 e] slice_split [of 12 16 36 e] slice_split [of 16 24 36 e]
        slice_split [of 24 32 36 e])
  have "e = slice 0 36 e @ slice 36 40 e @ drop 40 e"
    using drop_split3 [of 0 e 36 4] by (simp add: slice_def)
  then show e: "e = snapshot_prefix magic c p @ PutUint32 (CRC32C (snapshot_prefix magic c p)) @ p"
    using pre f2(3) p by simp
  show "length p \<le> maxSnapshotPayload" using pl lp by simp
qed

lemma readSnapshotFile_quiet:
  assumes "ctx \<noteq> NilCtx" "quiet env" "fs name = Some f" "snapshotHeaderSize \<le> length f"
    "length f \<le> snapshotHeaderSize + maxSnapshotPayload"
  shows "\<exists>env'. readSnapshotFile ctx name fs env = (Inr f, env') \<and> quiet env'"
proof -
  obtain e1 where 1: "ctx_Err ctx env = (None, e1)" "quiet e1"
    using ctx_Err_quiet [OF assms(2), of ctx] by (metis prod.collapse)
  obtain e2 where 2: "os_call e1 = (None, e2)" "quiet e2"
    using os_call_quiet [OF 1(2)] by (metis prod.collapse)
  obtain e3 where 3: "os_call e2 = (None, e3)" "quiet e3"
    using os_call_quiet [OF 2(2)] by (metis prod.collapse)
  obtain e4 where 4: "os_call e3 = (None, e4)" "quiet e4"
    using os_call_quiet [OF 3(2)] by (metis prod.collapse)
  obtain e5 where 5: "ctx_Err ctx e4 = (None, e5)" "quiet e5"
    using ctx_Err_quiet [OF 4(2), of ctx] by (metis prod.collapse)
  show ?thesis
    using assms 1 2 3 4 5 by (simp add: readSnapshotFile_def)
qed

end
