(* ===== verification/Delete_Store.thy ===== *)
theory Delete_Store
  imports Snapshot
begin

text \<open>
  The logical deletion set, \<^verbatim>\<open>src/internal/db/index/common/delete_store.go\<close>: the document IDs hidden by
  deletion, and its snapshot file of strictly ascending IDs.
\<close>

definition deleteSnapshotMagic :: bytes where
  "deleteSnapshotMagic = [0x5A, 0x56, 0x45, 0x43, 0x44, 0x45, 0x4C, 0]"

record DeleteStore =
  dsDeleted :: "u64 set"

definition NewDeleteStore :: DeleteStore where
  "NewDeleteStore = \<lparr>dsDeleted = {}\<rparr>"

definition DeleteStore_MarkDeleted :: "ctx \<Rightarrow> u64 \<Rightarrow> DeleteStore \<Rightarrow> env
    \<Rightarrow> (bool \<times> error option) \<times> DeleteStore \<times> env" where
  "DeleteStore_MarkDeleted ctx docID s env =
     (if ctx = NilCtx then ((False, Some (ErrMsg ''db: nil delete context'')), s, env)
      else case ctx_Err ctx env of
        (Some err, env) \<Rightarrow> ((False, Some err), s, env)
      | (None, env) \<Rightarrow>
          ((docID \<notin> dsDeleted s, None), s\<lparr>dsDeleted := insert docID (dsDeleted s)\<rparr>, env))"

definition DeleteStore_Restore :: "ctx \<Rightarrow> u64 \<Rightarrow> DeleteStore \<Rightarrow> env
    \<Rightarrow> (bool \<times> error option) \<times> DeleteStore \<times> env" where
  "DeleteStore_Restore ctx docID s env =
     (if ctx = NilCtx then ((False, Some (ErrMsg ''db: nil restore context'')), s, env)
      else case ctx_Err ctx env of
        (Some err, env) \<Rightarrow> ((False, Some err), s, env)
      | (None, env) \<Rightarrow>
          ((docID \<in> dsDeleted s, None), s\<lparr>dsDeleted := dsDeleted s - {docID}\<rparr>, env))"

definition DeleteStore_IsDeleted :: "DeleteStore \<Rightarrow> u64 \<Rightarrow> bool" where
  "DeleteStore_IsDeleted s docID \<longleftrightarrow> docID \<in> dsDeleted s"

text \<open>\<^verbatim>\<open>Range\<close>: the IDs in ascending order, until the callback answers false.\<close>

fun range_loop :: "(u64 \<Rightarrow> 's \<Rightarrow> bool \<times> 's) \<Rightarrow> u64 list \<Rightarrow> 's \<Rightarrow> 's" where
  "range_loop yield [] st = st"
| "range_loop yield (d # ds) st =
     (case yield d st of (go, st) \<Rightarrow> if go then range_loop yield ds st else st)"

definition DeleteStore_Range :: "(u64 \<Rightarrow> 's \<Rightarrow> bool \<times> 's) \<Rightarrow> DeleteStore \<Rightarrow> 's \<Rightarrow> 's" where
  "DeleteStore_Range yield s st = range_loop yield (sorted_list_of_set (dsDeleted s)) st"

definition DeleteStore_Count :: "DeleteStore \<Rightarrow> u64" where
  "DeleteStore_Count s = word_of_nat (card (dsDeleted s))"

definition DeleteStore_RangeCount :: "DeleteStore \<Rightarrow> u64 \<Rightarrow> u64 \<Rightarrow> u64" where
  "DeleteStore_RangeCount s minDocID maxDocID =
     (if maxDocID < minDocID then 0
      else word_of_nat (card (Set.filter (\<lambda>d. minDocID \<le> d \<and> d \<le> maxDocID) (dsDeleted s))))"

definition DeleteStore_Clone :: "DeleteStore \<Rightarrow> DeleteStore" where
  "DeleteStore_Clone s = \<lparr>dsDeleted = dsDeleted s\<rparr>"

definition DeleteStore_WriteSnapshot :: "ctx \<Rightarrow> string \<Rightarrow> string \<Rightarrow> DeleteStore \<Rightarrow> files \<Rightarrow> env
    \<Rightarrow> error option \<times> files \<times> env" where
  "DeleteStore_WriteSnapshot ctx name temp s fs env =
     (let ids = sorted_list_of_set (dsDeleted s) in
      if maxSnapshotPayload div 8 < length ids
      then (Some (ErrMsg ''db: delete snapshot is too large''), fs, env)
      else
        let payload = concat (map PutUint64 ids) in
        (case encodeSnapshot deleteSnapshotMagic (word_of_nat (length ids)) payload of
           Inl err \<Rightarrow> (Some err, fs, env)
         | Inr encoded \<Rightarrow> WriteImmutableSnapshot ctx name temp encoded fs env))"

text \<open>The loop over the payload: \<open>n\<close> entries are left from position \<open>index\<close> on.\<close>

fun load_loop :: "bytes \<Rightarrow> nat \<Rightarrow> nat \<Rightarrow> u64 \<Rightarrow> u64 set \<Rightarrow> error + u64 set" where
  "load_loop payload 0 index previous result = Inr result"
| "load_loop payload (Suc n) index previous result =
     (let docID = Uint64 (slice (index * 8) (index * 8 + 8) payload) in
      if 0 < index \<and> docID \<le> previous
      then Inl (wrapf ErrSnapshotCorrupt ''deleted IDs are not strictly sorted'')
      else load_loop payload n (index + 1) docID (insert docID result))"

definition LoadDeleteStore :: "ctx \<Rightarrow> string \<Rightarrow> files \<Rightarrow> env \<Rightarrow> (error + DeleteStore) \<times> env" where
  "LoadDeleteStore ctx name fs env =
     (case readSnapshotFile ctx name fs env of
        (Inl err, env) \<Rightarrow> (Inl err, env)
      | (Inr encoded, env) \<Rightarrow>
        (case decodeSnapshot encoded deleteSnapshotMagic of
           Inl err \<Rightarrow> (Inl err, env)
         | Inr (count, payload) \<Rightarrow>
             if (2 ^ 63 - 1) div 8 < unat count \<or> count * 8 \<noteq> word_of_nat (length payload)
             then (Inl (wrapf ErrSnapshotCorrupt ''delete count %d does not match payload''), env)
             else (map_sum id (\<lambda>ids. \<lparr>dsDeleted = ids\<rparr>) (load_loop payload (unat count) 0 0 {}), env)))"

subsection \<open>The codec of deletion snapshots\<close>

lemma length_deleteSnapshotMagic [simp]: "length deleteSnapshotMagic = 8"
  by (simp add: deleteSnapshotMagic_def)

interpretation snap: canonical_codec
    "\<lambda>(c :: u64, p). length p \<le> maxSnapshotPayload" "\<lambda>(c, p). encodeSnapshot deleteSnapshotMagic c p"
    "\<lambda>e. decodeSnapshot e deleteSnapshotMagic"
proof (unfold_locales, goal_cases)
  case (1 x) then show ?case by (cases x) (simp add: encodeSnapshot_eq)
next
  case (2 x b) then show ?case by (cases x) (auto simp: encodeSnapshot_eq decodeSnapshot_encode split: if_splits)
next
  case (3 b x) then show ?case
    using decodeSnapshot_canonical [of deleteSnapshotMagic b "fst x" "snd x"]
    by (cases x) (simp add: encodeSnapshot_eq)
qed

lemma length_ids [simp]: "length (concat (map PutUint64 ids)) = 8 * length ids"
  by (induction ids) auto

lemma slice_ids:
  "i < length ids \<Longrightarrow> slice (i * 8) (i * 8 + 8) (concat (map PutUint64 ids)) = PutUint64 (ids ! i)"
proof (induction ids arbitrary: i)
  case Nil
  then show ?case by simp
next
  case (Cons d ids)
  then show ?case
    by (cases i) (simp_all add: codec_simps add.commute)
qed

lemma load_loop_ids:
  assumes "sorted_wrt (<) ids" "index + n = length ids" "0 < index \<Longrightarrow> previous = ids ! (index - 1)"
  shows "load_loop (concat (map PutUint64 ids)) n index previous acc = Inr (acc \<union> set (drop index ids))"
  using assms
proof (induction n arbitrary: index previous acc)
  case 0
  then show ?case by simp
next
  case (Suc n)
  then have i: "index < length ids" by simp
  have "previous < ids ! index" if "0 < index"
    using that i Suc.prems by (simp add: sorted_wrt_nth_less)
  with Suc.IH [of "index + 1" "ids ! index" "insert (ids ! index) acc"] Suc.prems i show ?case
    by (auto simp: slice_ids Let_def Cons_nth_drop_Suc [symmetric])
qed

lemma finite_u64 [simp]: "finite (S :: u64 set)"
  by (rule finite_subset [OF subset_UNIV]) simp

lemma ids_strict: "sorted_wrt (<) (sorted_list_of_set (S :: u64 set))"
  by (simp add: strict_sorted_iff)

lemma LoadDeleteStore_written:
  assumes "DeleteStore_WriteSnapshot c name temp s fs env = (None, fs', env')" "temp \<noteq> name"
    and "c' \<noteq> NilCtx" "quiet e"
  shows "\<exists>e'. LoadDeleteStore c' name fs' e = (Inr s, e')"
proof -
  define ids where "ids = sorted_list_of_set (dsDeleted s)"
  define payload where "payload = concat (map PutUint64 ids)"
  have n: "length ids \<le> maxSnapshotPayload div 8"
    using assms(1) by (auto simp: DeleteStore_WriteSnapshot_def ids_def Let_def split: if_splits)
  then have p: "length payload \<le> maxSnapshotPayload" by (simp add: payload_def)
  then obtain enc where enc: "encodeSnapshot deleteSnapshotMagic (word_of_nat (length ids)) payload = Inr enc"
    by (simp add: encodeSnapshot_eq)
  have w: "WriteImmutableSnapshot c name temp enc fs env = (None, fs', env')"
    using assms(1) enc n
    by (simp add: DeleteStore_WriteSnapshot_def ids_def [symmetric] payload_def [symmetric])
  have f: "fs' name = Some enc"
    using WriteImmutableSnapshot_published [OF w assms(2)] by (simp add: published_def)
  have dec: "decodeSnapshot enc deleteSnapshotMagic = Inr (word_of_nat (length ids), payload)"
    using snap.dec_enc [of "(word_of_nat (length ids), payload)" enc] enc p by simp
  have len: "length enc = 40 + length payload"
    using enc p by (auto simp: encodeSnapshot_eq)
  obtain e' where rd: "readSnapshotFile c' name fs' e = (Inr enc, e')"
    using readSnapshotFile_quiet [where fs = fs', OF assms(3,4) f] len p by (auto simp: snapshotHeaderSize_def)
  have u: "unat (word_of_nat (length ids) :: u64) = length ids"
    using n by (intro unat_of_nat_u64) (simp add: maxSnapshotPayload_def)
  have "load_loop payload (length ids) 0 0 {} = Inr (dsDeleted s)"
    using load_loop_ids [of ids 0 "length ids" 0 "{}"] ids_strict
    by (simp add: payload_def ids_def)
  then show ?thesis
    using rd dec u n by (simp add: LoadDeleteStore_def maxSnapshotPayload_def payload_def)
qed

text \<open>
  C7: A deletion snapshot reloads exactly. After \<^verbatim>\<open>WriteSnapshot\<close> reported success, loading the file
  it published returns the same set of deleted document IDs, whatever faults and cancellations the write
  went through; loading needs only that its own calls do not fail.
\<close>

theorem delete_snapshot_round_trip:
  assumes "DeleteStore_WriteSnapshot c name temp s fs env = (None, fs', env')" "temp \<noteq> name"
    and "c' \<noteq> NilCtx" "quiet e"
  shows "\<exists>e'. LoadDeleteStore c' name fs' e = (Inr s, e')"
  by (rule LoadDeleteStore_written [OF assms])

theorem delete_snapshot_round_trip_witness:
  "\<exists>fs' env' e'. DeleteStore_WriteSnapshot Ctx ''d'' ''t'' \<lparr>dsDeleted = {3, 9}\<rparr> Map.empty calm = (None, fs', env')
     \<and> LoadDeleteStore Ctx ''d'' fs' calm = (Inr \<lparr>dsDeleted = {3, 9}\<rparr>, e')"
proof -
  obtain enc where "encodeSnapshot deleteSnapshotMagic (word_of_nat 2) (concat (map PutUint64 [3, 9])) = Inr enc"
    by (simp add: encodeSnapshot_eq maxSnapshotPayload_def)
  moreover have "sorted_list_of_set {3, 9 :: u64} = [3, 9]"
    by (simp add: insert_Diff_if)
  ultimately obtain fs' env' where w:
    "DeleteStore_WriteSnapshot Ctx ''d'' ''t'' \<lparr>dsDeleted = {3, 9}\<rparr> Map.empty calm = (None, fs', env')"
    using WriteImmutableSnapshot_quiet [OF quiet_calm, of Ctx "''d''" Map.empty "''t''" enc]
    by (auto simp: DeleteStore_WriteSnapshot_def maxSnapshotPayload_def Let_def)
  show ?thesis
    using delete_snapshot_round_trip [OF w, of Ctx calm] w by auto
qed

end
