(* ===== verification/Segment_Manager.thy ===== *)
theory Segment_Manager
  imports Segment_Codec Delete_Store
begin

text \<open>
  The segment manager, \<^verbatim>\<open>src/internal/db/index/segment/segment_manager.go\<close>: immutable segments ordered
  by document range, one optional write segment, the IDMap and the deletion set. The map of immutable
  segments is an association list; where the source ranges over it only to find a conflict, the order
  does not matter. \<^verbatim>\<open>sort.Search\<close> and \<^verbatim>\<open>slices.BinarySearchFunc\<close> are the same loop.
\<close>

subsection \<open>Binary search\<close>

function search_loop :: "(nat \<Rightarrow> bool) \<Rightarrow> nat \<Rightarrow> nat \<Rightarrow> nat" where
  "search_loop f i j =
     (if i < j then
        let h = (i + j) div 2 in
        if \<not> f h then search_loop f (h + 1) j else search_loop f i h
      else i)"
  by pat_completeness auto
termination
  by (relation "measure (\<lambda>(f, i, j). j - i)") auto

declare search_loop.simps [simp del]

definition sort_Search :: "nat \<Rightarrow> (nat \<Rightarrow> bool) \<Rightarrow> nat" where
  "sort_Search n f = search_loop f 0 n"

definition cmpUint64 :: "u64 \<Rightarrow> u64 \<Rightarrow> int" where
  "cmpUint64 left right = (if left < right then -1 else if right < left then 1 else 0)"

definition BinarySearchFunc :: "'a list \<Rightarrow> 'b \<Rightarrow> ('a \<Rightarrow> 'b \<Rightarrow> int) \<Rightarrow> nat \<times> bool" where
  "BinarySearchFunc x target cmp =
     (let i = search_loop (\<lambda>h. 0 \<le> cmp (x ! h) target) 0 (length x) in
      (i, i < length x \<and> cmp (x ! i) target = 0))"

subsection \<open>State\<close>

record FetchResult =
  frPrimaryKey :: bytes
  frDocument :: "StoredDocument option"
  frErr :: "error option"

record StorageStats =
  statImmutableSegmentCount :: u64
  statMutableDocumentCount :: u64
  statDeletedDocumentCount :: u64
  statMemoryUsageBytes :: u64

record 'db SegmentManager =
  sgImmutable :: "(u64 \<times> ImmutableSegment) list"
  sgOrdered :: "ImmutableSegment list"
  sgWriting :: "WriteSegment option"
  sgPrimaryKey :: "'db PrimaryKeyMap"
  sgDeletes :: DeleteStore

definition NewSegmentManager :: "'db PrimaryKeyMap \<Rightarrow> DeleteStore \<Rightarrow> 'db SegmentManager" where
  "NewSegmentManager primaryKey deletes =
     \<lparr>sgImmutable = [], sgOrdered = [], sgWriting = None, sgPrimaryKey = primaryKey, sgDeletes = deletes\<rparr>"

definition SegmentManager_ReplacePrimaryKeys :: "'db PrimaryKeyMap \<Rightarrow> 'db SegmentManager \<Rightarrow> 'db SegmentManager" where
  "SegmentManager_ReplacePrimaryKeys primaryKey m = m\<lparr>sgPrimaryKey := primaryKey\<rparr>"

subsection \<open>Changing the set of segments\<close>

definition rangesOverlap :: "SegmentMetadata \<Rightarrow> SegmentMetadata \<Rightarrow> bool" where
  "rangesOverlap left right \<longleftrightarrow>
     smDocCount left \<noteq> 0 \<and> smDocCount right \<noteq> 0 \<and>
     smMinDocID left \<le> smMaxDocID right \<and> smMinDocID right \<le> smMaxDocID left"

definition reserved_overlaps :: "u64 \<times> u64 \<Rightarrow> ImmutableSegment \<Rightarrow> bool" where
  "reserved_overlaps rng s \<longleftrightarrow>
     0 < smDocCount (isMetadata s) \<and> fst rng \<le> smMaxDocID (isMetadata s) \<and> smMinDocID (isMetadata s) \<le> snd rng"

definition SegmentManager_SetWriting :: "WriteSegment \<Rightarrow> 'db SegmentManager \<Rightarrow> error option \<times> 'db SegmentManager" where
  "SegmentManager_SetWriting segment m =
     (if sgWriting m \<noteq> None then (Some (ErrMsg ''db: writing segment %d already exists''), m)
      else if map_of (sgImmutable m) (WriteSegment_ID segment) \<noteq> None
      then (Some (ErrMsg ''db: segment ID %d already exists''), m)
      else if list_ex (\<lambda>(i, s). reserved_overlaps (WriteSegment_ReservedRange segment) s) (sgImmutable m)
      then (Some (ErrMsg ''db: writing segment %d reserved range overlaps segment %d''), m)
      else (None, m\<lparr>sgWriting := Some segment\<rparr>))"

definition SegmentManager_ClearWriting :: "'db SegmentManager \<Rightarrow> WriteSegment option \<times> 'db SegmentManager" where
  "SegmentManager_ClearWriting m = (sgWriting m, m\<lparr>sgWriting := None\<rparr>)"

definition checkRangeAgainstImmutableLocked :: "SegmentMetadata \<Rightarrow> u64 \<Rightarrow> 'db SegmentManager \<Rightarrow> error option" where
  "checkRangeAgainstImmutableLocked candidate candidateID m =
     (if smDocCount candidate = 0 then None
      else if list_ex (\<lambda>(i, s). i \<noteq> candidateID \<and> rangesOverlap candidate (isMetadata s)) (sgImmutable m)
      then Some (ErrMsg ''db: segment %d document range overlaps segment %d'') else None)"

definition checkRangeLocked :: "SegmentMetadata \<Rightarrow> u64 \<Rightarrow> 'db SegmentManager \<Rightarrow> error option" where
  "checkRangeLocked candidate candidateID m =
     (if smDocCount candidate = 0 then None
      else if list_ex (\<lambda>(i, s). i \<noteq> candidateID \<and> rangesOverlap candidate (isMetadata s)) (sgImmutable m)
      then Some (ErrMsg ''db: segment %d document range overlaps segment %d'')
      else case sgWriting m of
        None \<Rightarrow> None
      | Some w \<Rightarrow>
          if WriteSegment_ID w \<noteq> candidateID \<and> smMinDocID candidate \<le> snd (WriteSegment_ReservedRange w)
             \<and> fst (WriteSegment_ReservedRange w) \<le> smMaxDocID candidate
          then Some (ErrMsg ''db: segment %d document range overlaps writing segment %d reserved range'')
          else None)"

definition insertOrderedLocked :: "ImmutableSegment \<Rightarrow> 'db SegmentManager \<Rightarrow> 'db SegmentManager" where
  "insertOrderedLocked segment m =
     (let index = fst (BinarySearchFunc (sgOrdered m) (smMinDocID (isMetadata segment))
                    (\<lambda>candidate docID. cmpUint64 (smMinDocID (isMetadata candidate)) docID)) in
      m\<lparr>sgOrdered := take index (sgOrdered m) @ segment # drop index (sgOrdered m)\<rparr>)"

definition SegmentManager_RotateWriting :: "u64 \<Rightarrow> ImmutableSegment \<Rightarrow> WriteSegment \<Rightarrow> 'db SegmentManager
    \<Rightarrow> error option \<times> 'db SegmentManager" where
  "SegmentManager_RotateWriting currentID immutable next m =
     (if (case sgWriting m of None \<Rightarrow> True | Some w \<Rightarrow> WriteSegment_ID w \<noteq> currentID)
      then (Some (ErrMsg ''db: writing segment changed during rotation''), m)
      else if ImmutableSegment_ID immutable \<noteq> currentID
      then (Some (ErrMsg ''db: immutable segment ID %d does not match writing segment %d''), m)
      else if WriteSegment_ID next = currentID
      then (Some (ErrMsg ''db: next writing segment reuses ID %d''), m)
      else if map_of (sgImmutable m) currentID \<noteq> None
      then (Some (ErrMsg ''db: segment ID %d already exists''), m)
      else if map_of (sgImmutable m) (WriteSegment_ID next) \<noteq> None
      then (Some (ErrMsg ''db: next segment ID %d already exists''), m)
      else if smDocCount (isMetadata immutable) = 0
      then (Some (ErrMsg ''db: cannot rotate an empty immutable segment''), m)
      else case checkRangeAgainstImmutableLocked (isMetadata immutable) currentID m of
        Some err \<Rightarrow> (Some err, m)
      | None \<Rightarrow>
          if reserved_overlaps (WriteSegment_ReservedRange next) immutable
          then (Some (ErrMsg ''db: next writing segment %d overlaps flushed segment %d''), m)
          else if list_ex (\<lambda>(i, s). reserved_overlaps (WriteSegment_ReservedRange next) s) (sgImmutable m)
          then (Some (ErrMsg ''db: next writing segment %d overlaps segment %d''), m)
          else (None, (insertOrderedLocked immutable
                 (m\<lparr>sgImmutable := AList.update currentID immutable (sgImmutable m)\<rparr>))\<lparr>sgWriting := Some next\<rparr>))"

definition SegmentManager_AddImmutable :: "ImmutableSegment \<Rightarrow> 'db SegmentManager \<Rightarrow> error option \<times> 'db SegmentManager" where
  "SegmentManager_AddImmutable segment m =
     (if smDocCount (isMetadata segment) = 0 then (Some (ErrMsg ''db: empty immutable segment''), m)
      else if map_of (sgImmutable m) (ImmutableSegment_ID segment) \<noteq> None
        \<or> (case sgWriting m of None \<Rightarrow> False | Some w \<Rightarrow> WriteSegment_ID w = ImmutableSegment_ID segment)
      then (Some (ErrMsg ''db: segment ID %d already exists''), m)
      else case checkRangeLocked (isMetadata segment) (ImmutableSegment_ID segment) m of
        Some err \<Rightarrow> (Some err, m)
      | None \<Rightarrow>
          (None, insertOrderedLocked segment
             (m\<lparr>sgImmutable := AList.update (ImmutableSegment_ID segment) segment (sgImmutable m)\<rparr>)))"

fun remove_ordered :: "u64 \<Rightarrow> ImmutableSegment list \<Rightarrow> ImmutableSegment list" where
  "remove_ordered segmentID [] = []"
| "remove_ordered segmentID (s # ss) =
     (if ImmutableSegment_ID s = segmentID then ss else s # remove_ordered segmentID ss)"

definition SegmentManager_RemoveImmutable :: "u64 \<Rightarrow> 'db SegmentManager
    \<Rightarrow> (error + ImmutableSegment) \<times> 'db SegmentManager" where
  "SegmentManager_RemoveImmutable segmentID m =
     (case map_of (sgImmutable m) segmentID of
        None \<Rightarrow> (Inl (Sentinel ErrSegmentNotFound), m)
      | Some segment \<Rightarrow>
          (Inr segment, m\<lparr>sgImmutable := AList.delete segmentID (sgImmutable m),
                          sgOrdered := remove_ordered segmentID (sgOrdered m)\<rparr>))"

subsection \<open>Reading documents\<close>

definition SegmentManager_ImmutableSegments :: "'db SegmentManager \<Rightarrow> ImmutableSegment list" where
  "SegmentManager_ImmutableSegments m = sgOrdered m"

definition SegmentManager_ImmutableMetadata :: "'db SegmentManager \<Rightarrow> SegmentMetadata list" where
  "SegmentManager_ImmutableMetadata m = map ImmutableSegment_Metadata (SegmentManager_ImmutableSegments m)"

definition locateImmutableSegment :: "ImmutableSegment list \<Rightarrow> u64 \<Rightarrow> nat \<times> bool" where
  "locateImmutableSegment segments docID =
     (let index = sort_Search (length segments) (\<lambda>i. docID \<le> smMaxDocID (isMetadata (segments ! i))) in
      if index = length segments then (0, False)
      else
        let metadata = isMetadata (segments ! index) in
        (index, 0 < smDocCount metadata \<and> smMinDocID metadata \<le> docID))"

definition SegmentManager_RetainedDocument :: "'db SegmentManager \<Rightarrow> u64 \<Rightarrow> StoredDocument option" where
  "SegmentManager_RetainedDocument m docID =
     (case Option.bind (sgWriting m) (\<lambda>w. WriteSegment_Document w docID) of
        Some doc \<Rightarrow> Some doc
      | None \<Rightarrow>
        (case locateImmutableSegment (sgOrdered m) docID of
           (index, found) \<Rightarrow>
             if found then ImmutableSegment_Document (sgOrdered m ! index) docID else None))"

definition SegmentManager_Document :: "'db SegmentManager \<Rightarrow> u64 \<Rightarrow> StoredDocument option" where
  "SegmentManager_Document m docID =
     (if DeleteStore_IsDeleted (sgDeletes m) docID then None else SegmentManager_RetainedDocument m docID)"

definition SegmentManager_DocumentByPrimaryKey :: "'db pebble \<Rightarrow> 'db SegmentManager \<Rightarrow> bytes
    \<Rightarrow> error + StoredDocument option" where
  "SegmentManager_DocumentByPrimaryKey ops m key =
     (case PrimaryKeyMap_Get ops (sgPrimaryKey m) key of
        (docID, found, Some err) \<Rightarrow> Inl err
      | (docID, found, None) \<Rightarrow>
          if \<not> found \<or> DeleteStore_IsDeleted (sgDeletes m) docID then Inr None
          else (case SegmentManager_Document m docID of
              None \<Rightarrow> Inr None
            | Some doc \<Rightarrow> Inr (if PrimaryKey doc = key then Some doc else None)))"

fun fetch_loop :: "'db pebble \<Rightarrow> ctx \<Rightarrow> 'db SegmentManager \<Rightarrow> bytes list \<Rightarrow> env
    \<Rightarrow> FetchResult list \<times> error option \<times> env" where
  "fetch_loop ops ctx m [] env = ([], None, env)"
| "fetch_loop ops ctx m (key # keys) env =
     (case ctx_Err ctx env of
        (Some err, env) \<Rightarrow>
          (map (\<lambda>k. \<lparr>frPrimaryKey = k, frDocument = None, frErr = Some err\<rparr>) (key # keys), Some err, env)
      | (None, env) \<Rightarrow>
        (case SegmentManager_DocumentByPrimaryKey ops m key of
           Inl err \<Rightarrow>
             (map (\<lambda>k. \<lparr>frPrimaryKey = k, frDocument = None, frErr = Some err\<rparr>) (key # keys), Some err, env)
         | Inr doc \<Rightarrow>
           (case fetch_loop ops ctx m keys env of
              (rs, err, env) \<Rightarrow> (\<lparr>frPrimaryKey = key, frDocument = doc, frErr = None\<rparr> # rs, err, env))))"

definition SegmentManager_Fetch :: "'db pebble \<Rightarrow> ctx \<Rightarrow> bytes list \<Rightarrow> 'db SegmentManager \<Rightarrow> env
    \<Rightarrow> FetchResult list \<times> error option \<times> env" where
  "SegmentManager_Fetch ops ctx primaryKeys m env =
     (if ctx = NilCtx then ([], Some (ErrMsg ''db: nil fetch context''), env)
      else fetch_loop ops ctx m primaryKeys env)"

text \<open>\<^verbatim>\<open>appendLive\<close>: the accumulated result and the environment are its state.\<close>

fun appendLive :: "'db pebble \<Rightarrow> ctx \<Rightarrow> 'db SegmentManager \<Rightarrow> StoredDocument list
    \<Rightarrow> StoredDocument list \<times> env \<Rightarrow> error option \<times> StoredDocument list \<times> env" where
  "appendLive ops ctx m [] (result, env) = (None, result, env)"
| "appendLive ops ctx m (document # documents) (result, env) =
     (case ctx_Err ctx env of
        (Some err, env) \<Rightarrow> (Some err, result, env)
      | (None, env) \<Rightarrow>
        if DeleteStore_IsDeleted (sgDeletes m) (DocID document)
        then appendLive ops ctx m documents (result, env)
        else (case PrimaryKeyMap_Get ops (sgPrimaryKey m) (PrimaryKey document) of
            (docID, found, Some err) \<Rightarrow> (Some err, result, env)
          | (docID, found, None) \<Rightarrow>
              if \<not> found \<or> docID \<noteq> DocID document then appendLive ops ctx m documents (result, env)
              else appendLive ops ctx m documents (result @ [document], env)))"

fun visit_segments :: "(StoredDocument list \<Rightarrow> 's \<Rightarrow> error option \<times> 's) \<Rightarrow> ImmutableSegment list \<Rightarrow> 's
    \<Rightarrow> error option \<times> 's" where
  "visit_segments visit [] st = (None, st)"
| "visit_segments visit (s # ss) st =
     (case ImmutableSegment_VisitDocuments visit s st of
        (Some err, st) \<Rightarrow> (Some err, st)
      | (None, st) \<Rightarrow> visit_segments visit ss st)"

definition SegmentManager_LiveDocuments :: "'db pebble \<Rightarrow> ctx \<Rightarrow> 'db SegmentManager \<Rightarrow> env
    \<Rightarrow> (error + StoredDocument list) \<times> env" where
  "SegmentManager_LiveDocuments ops ctx m env =
     (if ctx = NilCtx then (Inl (ErrMsg ''db: nil live-document context''), env)
      else case ctx_Err ctx env of
        (Some err, env) \<Rightarrow> (Inl err, env)
      | (None, env) \<Rightarrow>
        (case visit_segments (appendLive ops ctx m) (SegmentManager_ImmutableSegments m) ([], env) of
           (Some err, result, env) \<Rightarrow> (Inl err, env)
         | (None, result, env) \<Rightarrow>
           (case sgWriting m of
              None \<Rightarrow> (Inr result, env)
            | Some w \<Rightarrow>
              (case WriteSegment_VisitDocuments (appendLive ops ctx m) w (result, env) of
                 (Some err, result, env) \<Rightarrow> (Inl err, env)
               | (None, result, env) \<Rightarrow> (Inr result, env)))))"

definition note_key :: "bytes \<Rightarrow> u64 \<Rightarrow> (u64 \<times> bytes) list \<Rightarrow> error option \<times> (u64 \<times> bytes) list" where
  "note_key primaryKey docID result =
     (case map_of result docID of
        Some previous \<Rightarrow> (Some (ErrMsg ''db: document ID %d is assigned to primary keys %q and %q''), result)
      | None \<Rightarrow> (None, result @ [(docID, primaryKey)]))"

definition SegmentManager_LiveDocumentPrimaryKeys :: "'db pebble \<Rightarrow> ctx \<Rightarrow> 'db SegmentManager \<Rightarrow> env
    \<Rightarrow> (error + (u64 \<times> bytes) list) \<times> env" where
  "SegmentManager_LiveDocumentPrimaryKeys ops ctx m env =
     (if ctx = NilCtx then (Inl (ErrMsg ''db: nil live-document context''), env)
      else case ctx_Err ctx env of
        (Some err, env) \<Rightarrow> (Inl err, env)
      | (None, env) \<Rightarrow>
        (case PrimaryKeyMap_ForEach ops ctx note_key (sgPrimaryKey m) [] env of
           (Some err, result, env) \<Rightarrow> (Inl err, env)
         | (None, result, env) \<Rightarrow> (Inr result, env)))"

definition SegmentManager_StorageStats :: "'db SegmentManager \<Rightarrow> StorageStats" where
  "SegmentManager_StorageStats m =
     (let deleted = DeleteStore_Count (sgDeletes m);
          mem = foldl (\<lambda>acc s. saturatingAdd acc (ImmutableSegment_MemoryUsageBytes s))
                  (saturatingMultiplyByEight deleted) (map snd (sgImmutable m)) in
      \<lparr>statImmutableSegmentCount = word_of_nat (length (sgImmutable m)),
       statMutableDocumentCount = (case sgWriting m of None \<Rightarrow> 0 | Some w \<Rightarrow> smDocCount (WriteSegment_Metadata w)),
       statDeletedDocumentCount = deleted,
       statMemoryUsageBytes = (case sgWriting m of None \<Rightarrow> mem
                               | Some w \<Rightarrow> saturatingAdd mem (WriteSegment_MemoryUsageBytes w))\<rparr>)"

fun close_segments :: "ImmutableSegment list \<Rightarrow> env \<Rightarrow> error option list \<times> ImmutableSegment list \<times> env" where
  "close_segments [] env = ([], [], env)"
| "close_segments (s # ss) env =
     (case ImmutableSegment_Close s env of
        (err, s, env) \<Rightarrow> (case close_segments ss env of (errs, ss, env) \<Rightarrow> (err # errs, s # ss, env)))"

text \<open>The segments are shared with the map, whose entries are the closed ones afterwards.\<close>

definition SegmentManager_Close :: "'db SegmentManager \<Rightarrow> env \<Rightarrow> error option \<times> 'db SegmentManager \<times> env" where
  "SegmentManager_Close m env =
     (case close_segments (SegmentManager_ImmutableSegments m) env of
        (errs, segments, env) \<Rightarrow>
          (errors_Join errs,
           m\<lparr>sgOrdered := segments, sgImmutable := map (\<lambda>s. (ImmutableSegment_ID s, s)) segments\<rparr>, env))"

end
