(* ===== verification/Manager_Invariant.thy ===== *)
theory Manager_Invariant
  imports Segment_Manager "HOL-Library.Multiset"
begin

text \<open>
  The invariant of the segment manager and what it gives: the binary search locates the one segment
  that covers a document ID, lookups find exactly the retained documents, every operation on
  segments keeps the invariant, and rotation does not change what is retained.
\<close>

subsection \<open>Binary search\<close>

lemma search_loop_spec:
  assumes "\<forall>k < i. \<not> f k" "\<forall>k. j \<le> k \<longrightarrow> k < n \<longrightarrow> f k" "i \<le> j" "j \<le> n"
    and mono: "\<And>k l. k \<le> l \<Longrightarrow> l < n \<Longrightarrow> f k \<Longrightarrow> f l"
  shows "search_loop f i j \<le> n \<and> (\<forall>k < search_loop f i j. \<not> f k)
     \<and> (\<forall>k. search_loop f i j \<le> k \<longrightarrow> k < n \<longrightarrow> f k)"
  using assms(1-4)
proof (induction "j - i" arbitrary: i j rule: less_induct)
  case less
  show ?case
  proof (cases "i < j")
    case False
    with less.prems show ?thesis by (simp add: search_loop.simps)
  next
    case True
    define h where "h = (i + j) div 2"
    have h: "i \<le> h" "h < j" "h < n" using True less.prems(4) by (auto simp: h_def)
    have eq: "search_loop f i j = (if \<not> f h then search_loop f (h + 1) j else search_loop f i h)"
      using True by (subst search_loop.simps) (simp add: h_def)
    show ?thesis
    proof (cases "f h")
      case False
      have "\<forall>k < h + 1. \<not> f k" using False mono [of _ h] h(3) by (metis Suc_eq_plus1 less_Suc_eq_le)
      with less.hyps [of j "h + 1"] less.prems(2,4) h show ?thesis
        unfolding eq using False by (simp del: not_less)
    next
      case t: True
      have ge: "\<forall>k. h \<le> k \<longrightarrow> k < n \<longrightarrow> f k" by (intro allI impI) (rule mono [OF _ _ t])
      have "h - i < j - i" "i \<le> h" "h \<le> n" using h by simp_all
      note less.hyps [OF this(1) less.prems(1) ge this(2,3)]
      then show ?thesis unfolding eq using t by simp
    qed
  qed
qed

subsection \<open>The invariant\<close>

abbreviation minID :: "ImmutableSegment \<Rightarrow> u64" where "minID s \<equiv> smMinDocID (isMetadata s)"
abbreviation maxID :: "ImmutableSegment \<Rightarrow> u64" where "maxID s \<equiv> smMaxDocID (isMetadata s)"

definition ranges_sorted :: "ImmutableSegment list \<Rightarrow> bool" where
  "ranges_sorted ss \<longleftrightarrow> sorted_wrt (\<lambda>a b. maxID a < minID b) ss"

definition writing_ok :: "ImmutableSegment list \<Rightarrow> WriteSegment \<Rightarrow> bool" where
  "writing_ok ss w \<longleftrightarrow> ws_ok w \<and>
     (\<forall>s \<in> set ss. wsID w \<noteq> ImmutableSegment_ID s \<and> \<not> reserved_overlaps (WriteSegment_ReservedRange w) s)"

definition mgr_ok :: "'db SegmentManager \<Rightarrow> bool" where
  "mgr_ok m \<longleftrightarrow> ranges_sorted (sgOrdered m) \<and> (\<forall>s \<in> set (sgOrdered m). im_ok s)
     \<and> distinct (map ImmutableSegment_ID (sgOrdered m)) \<and> distinct (map fst (sgImmutable m))
     \<and> set (sgImmutable m) = (\<lambda>s. (ImmutableSegment_ID s, s)) ` set (sgOrdered m)
     \<and> (\<forall>w. sgWriting m = Some w \<longrightarrow> writing_ok (sgOrdered m) w)"

text \<open>The documents the manager retains, deleted and superseded versions included.\<close>

definition retained :: "'db SegmentManager \<Rightarrow> StoredDocument list" where
  "retained m = concat (map isDocs (sgOrdered m)) @ (case sgWriting m of None \<Rightarrow> [] | Some w \<Rightarrow> wsDocs w)"

lemma im_ok_bounds:
  assumes "im_ok s" "d \<in> set (isDocs s)"
  shows "minID s \<le> DocID d" "DocID d \<le> maxID s"
proof -
  note r = im_ok_range [OF assms(1)]
  obtain i where i: "i < length (isDocs s)" "d = isDocs s ! i" using assms(2) by (metis in_set_conv_nth)
  show "minID s \<le> DocID d" using numbered_nth(3) [OF r(1) i(1)] i(2) by simp
  show "DocID d \<le> maxID s"
    using numbered_nth(2) [OF r(1) i(1)] i r(3) by (simp add: word_le_nat_alt)
qed

lemma ws_ok_bounds:
  assumes "ws_ok w" "d \<in> set (wsDocs w)"
  shows "fst (WriteSegment_ReservedRange w) \<le> DocID d" "DocID d \<le> snd (WriteSegment_ReservedRange w)"
proof -
  note n = ws_numbered [OF assms(1)]
  have w: "wsMaxDocs w \<noteq> 0" "unat (wsMinDocID w) + unat (wsMaxDocs w) \<le> 2 ^ 64"
    "length (wsDocs w) \<le> unat (wsMaxDocs w)" using assms(1) by (auto simp: ws_ok_def)
  obtain i where i: "i < length (wsDocs w)" "d = wsDocs w ! i" using assms(2) by (metis in_set_conv_nth)
  show "fst (WriteSegment_ReservedRange w) \<le> DocID d"
    using numbered_nth(3) [OF n i(1)] i(2) by (simp add: WriteSegment_ReservedRange_def)
  have "wsMinDocID w + wsMaxDocs w - 1 = wsMinDocID w + word_of_nat (unat (wsMaxDocs w) - 1)"
    using w(1) by (simp add: of_nat_diff unat_gt_0 Suc_le_eq)
  moreover have "unat (wsMinDocID w) + (unat (wsMaxDocs w) - 1) < 2 ^ 64"
    using w(2) unat_gt_0 [of "wsMaxDocs w"] w(1) by linarith
  ultimately have "unat (snd (WriteSegment_ReservedRange w)) = unat (wsMinDocID w) + (unat (wsMaxDocs w) - 1)"
    unfolding WriteSegment_ReservedRange_def using unat_offset by (metis snd_conv)
  then show "DocID d \<le> snd (WriteSegment_ReservedRange w)"
    using numbered_nth(2) [OF n i(1)] i w(3) by (simp add: word_le_nat_alt)
qed

lemma ranges_sorted_nth:
  assumes "ranges_sorted ss" "\<forall>s \<in> set ss. im_ok s" "k \<le> l" "l < length ss"
  shows "maxID (ss ! k) \<le> maxID (ss ! l)"
proof (cases "k = l")
  case False
  then have "maxID (ss ! k) < minID (ss ! l)"
    using assms sorted_wrt_nth_less [of _ ss k l] by (simp add: ranges_sorted_def)
  moreover have "minID (ss ! l) \<le> maxID (ss ! l)" using assms(2,4) by (simp add: im_ok_range)
  ultimately show ?thesis by simp
qed simp

lemma locate_spec:
  assumes "ranges_sorted ss" "\<forall>s \<in> set ss. im_ok s"
  shows "locateImmutableSegment ss x = (k, True) \<longleftrightarrow> k < length ss \<and> minID (ss ! k) \<le> x \<and> x \<le> maxID (ss ! k)"
proof -
  let ?f = "\<lambda>i. x \<le> maxID (ss ! i)"
  define r where "r = sort_Search (length ss) ?f"
  have mono: "?f k \<Longrightarrow> ?f l" if "k \<le> l" "l < length ss" for k l
    using ranges_sorted_nth [OF assms that] by simp
  have sp: "search_loop ?f 0 (length ss) \<le> length ss \<and> (\<forall>k < search_loop ?f 0 (length ss). \<not> ?f k)
      \<and> (\<forall>k. search_loop ?f 0 (length ss) \<le> k \<longrightarrow> k < length ss \<longrightarrow> ?f k)"
    by (rule search_loop_spec [OF _ _ _ _ mono]) simp_all
  have s: "r \<le> length ss" "\<forall>k < r. \<not> ?f k" "\<forall>k. r \<le> k \<longrightarrow> k < length ss \<longrightarrow> ?f k"
    unfolding r_def sort_Search_def by (insert sp, elim conjE, assumption)+
  have cnt: "0 < smDocCount (isMetadata (ss ! i))" if "i < length ss" for i
    using that assms(2) im_ok_range(5) by (simp add: word_gt_0)
  have "k = r" if k: "k < length ss" "minID (ss ! k) \<le> x" "x \<le> maxID (ss ! k)"
  proof (rule ccontr)
    assume "k \<noteq> r"
    then have "r < k" using s(2) k(3) by (metis linorder_neqE_nat)
    then have "maxID (ss ! r) < minID (ss ! k)"
      using assms(1) k(1) sorted_wrt_nth_less [of _ ss r k] by (simp add: ranges_sorted_def)
    moreover have "x \<le> maxID (ss ! r)" using s(3) \<open>r < k\<close> k(1) by simp
    ultimately show False using k(2) by simp
  qed
  then show ?thesis
    using s cnt unfolding locateImmutableSegment_def Let_def r_def [symmetric] by auto
qed

subsection \<open>Lookup\<close>

lemma RetainedDocument_iff:
  assumes ok: "mgr_ok m"
  shows "SegmentManager_RetainedDocument m x = Some d \<longleftrightarrow> d \<in> set (retained m) \<and> DocID d = x"
proof -
  let ?ss = "sgOrdered m"
  have rs: "ranges_sorted ?ss" "\<forall>s \<in> set ?ss. im_ok s" using ok by (auto simp: mgr_ok_def)
  have im: "(case locateImmutableSegment ?ss x of (index, found) \<Rightarrow>
        if found then ImmutableSegment_Document (?ss ! index) x else None) = Some d
      \<longleftrightarrow> (\<exists>s \<in> set ?ss. d \<in> set (isDocs s)) \<and> DocID d = x" (is "?L \<longleftrightarrow> ?R")
  proof
    assume ?L
    then obtain k where "locateImmutableSegment ?ss x = (k, True)" "ImmutableSegment_Document (?ss ! k) x = Some d"
      by (auto split: prod.splits if_splits)
    then show ?R
      using locate_spec [OF rs, of x k] iseg.lookup_iff [of "?ss ! k" x d] rs(2) by auto
  next
    assume ?R
    then obtain k where k: "k < length ?ss" "d \<in> set (isDocs (?ss ! k))" "DocID d = x"
      by (metis in_set_conv_nth)
    then have imk: "im_ok (?ss ! k)" using rs(2) by simp
    have "locateImmutableSegment ?ss x = (k, True)"
      using locate_spec [OF rs, of x k] im_ok_bounds [OF imk k(2)] k(1,3) by simp
    then show ?L using iseg.lookup_iff [OF imk, of x d] k by simp
  qed
  show ?thesis
  proof (cases "sgWriting m")
    case None
    then show ?thesis using im by (auto simp: SegmentManager_RetainedDocument_def retained_def)
  next
    case (Some w)
    have w: "writing_ok ?ss w" using ok Some by (simp add: mgr_ok_def)
    then have wok: "ws_ok w" by (simp add: writing_ok_def)
    have disj: False if "s \<in> set ?ss" "d \<in> set (isDocs s)" "d' \<in> set (wsDocs w)" "DocID d = DocID d'" for s d d'
      using that w im_ok_bounds [of s d] ws_ok_bounds [OF wok that(3)] rs(2) im_ok_range(5) [of s]
      by (auto simp: writing_ok_def reserved_overlaps_def word_gt_0 dest: order.trans)
    show ?thesis
    proof (cases "WriteSegment_Document w x")
      case n: None
      then have "x \<notin> DocID ` set (wsDocs w)" using wseg.lookup_None [OF wok] by simp
      then show ?thesis
        using im Some n by (auto simp: SegmentManager_RetainedDocument_def retained_def)
    next
      case (Some d')
      then have d': "d' \<in> set (wsDocs w)" "DocID d' = x" using wseg.lookup_iff [OF wok] by auto
      have "d = d' \<longleftrightarrow> d \<in> set (retained m) \<and> DocID d = x"
        using d' disj [of _ d d'] wseg.docs_unique [OF wok, of d d'] \<open>sgWriting m = Some w\<close>
        by (auto simp: retained_def)
      then show ?thesis
        using Some \<open>sgWriting m = Some w\<close> by (auto simp: SegmentManager_RetainedDocument_def)
    qed
  qed
qed

subsection \<open>Preservation\<close>

lemma overlap_sym: "rangesOverlap a b \<longleftrightarrow> rangesOverlap b a"
  by (auto simp: rangesOverlap_def)

lemma insert_ranges_sorted:
  assumes rs: "ranges_sorted ss" and oks: "\<forall>t \<in> set ss. im_ok t" and ok: "im_ok s"
    and no: "\<forall>t \<in> set ss. \<not> rangesOverlap (isMetadata s) (isMetadata t)"
    and k: "k = fst (BinarySearchFunc ss (minID s) (\<lambda>c x. cmpUint64 (minID c) x))"
  shows "ranges_sorted (take k ss @ s # drop k ss)"
proof -
  let ?f = "\<lambda>h. 0 \<le> cmpUint64 (minID (ss ! h)) (minID s)"
  have f: "?f h \<longleftrightarrow> minID s \<le> minID (ss ! h)" for h by (auto simp: cmpUint64_def)
  have mono: "?f b" if "a \<le> b" "b < length ss" "?f a" for a b
  proof (cases "a = b")
    case False
    then have "maxID (ss ! a) < minID (ss ! b)"
      using rs that sorted_wrt_nth_less [of _ ss a b] by (simp add: ranges_sorted_def)
    moreover have "minID (ss ! a) \<le> maxID (ss ! a)" using oks that by (simp add: im_ok_range)
    ultimately show ?thesis using that(3) unfolding f by simp
  qed (use that in simp)
  have sp: "k \<le> length ss \<and> (\<forall>h < k. \<not> ?f h) \<and> (\<forall>h. k \<le> h \<longrightarrow> h < length ss \<longrightarrow> ?f h)"
    unfolding k BinarySearchFunc_def Let_def fst_conv
    by (rule search_loop_spec [OF _ _ _ _ mono]) simp_all
  have apart: "maxID s < minID t \<or> maxID t < minID s" if "t \<in> set ss" for t
    using that no oks ok im_ok_range(5) [OF ok] im_ok_range(5) [of t]
    by (auto simp: rangesOverlap_def not_le)
  have before: "maxID t < minID s" if t: "t \<in> set (take k ss)" for t
  proof -
    obtain h where "h < k" "h < length ss" "t = ss ! h" using t by (auto simp: in_set_conv_nth)
    then have "minID t < minID s" using sp f by (simp add: not_le)
    then show ?thesis
      using apart [of t] in_set_takeD [OF t] im_ok_range(4) [OF ok] by force
  qed
  have after: "maxID s < minID t" if t: "t \<in> set (drop k ss)" for t
  proof -
    obtain i where i: "i < length ss - k" "t = drop k ss ! i" using t by (metis in_set_conv_nth length_drop)
    then have h: "k + i < length ss" "t = ss ! (k + i)" using sp by simp_all
    then have "minID s \<le> minID t" using sp f by simp
    then show ?thesis
      using apart [of t] in_set_dropD [OF t] im_ok_range(4) [of t] oks by auto
  qed
  have "ranges_sorted (take k ss @ drop k ss)" using rs by simp
  then have "sorted_wrt (\<lambda>a b. maxID a < minID b) (take k ss)"
    "sorted_wrt (\<lambda>a b. maxID a < minID b) (drop k ss)"
    "\<forall>a \<in> set (take k ss). \<forall>b \<in> set (drop k ss). maxID a < minID b"
    unfolding ranges_sorted_def sorted_wrt_append by blast+
  then show ?thesis
    using before after unfolding ranges_sorted_def sorted_wrt_append by simp
qed

lemma alist_update_new: "map_of al k = None \<Longrightarrow> AList.update k v al = al @ [(k, v)]"
  by (induction al) (auto split: if_splits)

text \<open>Adding one segment to both containers.\<close>

lemma mgr_ok_insert:
  assumes ok: "mgr_ok m" and s: "im_ok s" "ImmutableSegment_ID s \<notin> ImmutableSegment_ID ` set (sgOrdered m)"
    and no: "\<forall>t \<in> set (sgOrdered m). \<not> rangesOverlap (isMetadata s) (isMetadata t)"
    and w: "\<forall>w. W = Some w \<longrightarrow> writing_ok (s # sgOrdered m) w"
  defines "m' \<equiv> (insertOrderedLocked s (m\<lparr>sgImmutable := AList.update (ImmutableSegment_ID s) s (sgImmutable m)\<rparr>))\<lparr>sgWriting := W\<rparr>"
  shows "mgr_ok m' \<and> set (sgOrdered m') = insert s (set (sgOrdered m))"
proof -
  define k where "k = fst (BinarySearchFunc (sgOrdered m) (minID s) (\<lambda>c x. cmpUint64 (minID c) x))"
  have ord: "sgOrdered m' = take k (sgOrdered m) @ s # drop k (sgOrdered m)"
    by (simp add: m'_def insertOrderedLocked_def Let_def k_def)
  have set: "set (sgOrdered m') = insert s (set (sgOrdered m))"
    unfolding ord using set_append [of "take k (sgOrdered m)" "drop k (sgOrdered m)"] by auto
  have o: "ranges_sorted (sgOrdered m)" "\<forall>t \<in> set (sgOrdered m). im_ok t"
    "distinct (map ImmutableSegment_ID (sgOrdered m))" "distinct (map fst (sgImmutable m))"
    "set (sgImmutable m) = (\<lambda>s. (ImmutableSegment_ID s, s)) ` set (sgOrdered m)"
    using ok by (simp_all add: mgr_ok_def)
  have 1: "ranges_sorted (sgOrdered m')"
    unfolding ord by (rule insert_ranges_sorted [OF o(1,2) s(1) no k_def])
  have "mset (sgOrdered m') = add_mset s (mset (sgOrdered m))"
    unfolding ord by (metis append_take_drop_id mset.simps(2) mset_append union_mset_add_mset_right)
  then have 2: "distinct (map ImmutableSegment_ID (sgOrdered m'))"
    using o(3) s(2) by (metis distinct.simps(2) list.set_map list.simps(9) mset.simps(2) mset_eq_imp_distinct_iff mset_map)
  have nk: "map_of (sgImmutable m) (ImmutableSegment_ID s) = None"
    using s(2) o(5) by (auto simp: map_of_eq_None_iff)
  have im: "sgImmutable m' = sgImmutable m @ [(ImmutableSegment_ID s, s)]"
    unfolding m'_def using nk by (simp add: insertOrderedLocked_def Let_def alist_update_new)
  show ?thesis
    using 1 2 o(2,4,5) s set w nk im
    by (auto simp: mgr_ok_def m'_def [symmetric] writing_ok_def map_of_eq_None_iff) (auto simp: m'_def)
qed

lemma mgr_entries:
  assumes "mgr_ok m"
  shows "list_ex (\<lambda>(i, s). P i s) (sgImmutable m) \<longleftrightarrow> (\<exists>s \<in> set (sgOrdered m). P (ImmutableSegment_ID s) s)"
    "map_of (sgImmutable m) i = None \<longleftrightarrow> i \<notin> ImmutableSegment_ID ` set (sgOrdered m)"
  using assms by (auto simp: mgr_ok_def list_ex_iff map_of_eq_None_iff image_image)

lemma SetWriting_ok:
  assumes "mgr_ok m" "ws_ok w" "SegmentManager_SetWriting w m = (r, m')"
  shows "mgr_ok m'"
  using assms(3,2) mgr_entries [OF assms(1)] assms(1)
  by (auto simp: SegmentManager_SetWriting_def mgr_ok_def writing_ok_def WriteSegment_ID_def split: if_splits)

lemma ClearWriting_ok: "mgr_ok m \<Longrightarrow> mgr_ok (snd (SegmentManager_ClearWriting m))"
  by (simp add: SegmentManager_ClearWriting_def mgr_ok_def)

lemma AddImmutable_ok:
  assumes ok: "mgr_ok m" and s: "im_ok s" and add: "SegmentManager_AddImmutable s m = (r, m')"
  shows "mgr_ok m' \<and> (r = None \<longrightarrow> set (sgOrdered m') = insert s (set (sgOrdered m)) \<and> sgWriting m' = sgWriting m)"
proof (cases r)
  case (Some err)
  then have "m' = m" using add
    by (auto simp: SegmentManager_AddImmutable_def split: if_splits option.splits)
  with ok Some show ?thesis by simp
next
  case None
  let ?i = "ImmutableSegment_ID s"
  have g: "map_of (sgImmutable m) ?i = None" "\<forall>w. sgWriting m = Some w \<longrightarrow> wsID w \<noteq> ?i"
    "checkRangeLocked (isMetadata s) ?i m = None"
    and m': "m' = insertOrderedLocked s (m\<lparr>sgImmutable := AList.update ?i s (sgImmutable m)\<rparr>)"
    using add None by (auto simp: SegmentManager_AddImmutable_def WriteSegment_ID_def split: if_splits option.splits)
  have i: "?i \<notin> ImmutableSegment_ID ` set (sgOrdered m)" using g(1) mgr_entries(2) [OF ok] by simp
  then have i': "\<forall>t \<in> set (sgOrdered m). ImmutableSegment_ID t \<noteq> ?i" by (metis imageI)
  have cnt: "smDocCount (isMetadata s) \<noteq> 0" using im_ok_range(5) [OF s] .
  have no: "\<forall>t \<in> set (sgOrdered m). \<not> rangesOverlap (isMetadata s) (isMetadata t)"
    using g(3) cnt i' mgr_entries(1) [OF ok, of "\<lambda>i t. i \<noteq> ?i \<and> rangesOverlap (isMetadata s) (isMetadata t)"]
    by (auto simp: checkRangeLocked_def split: if_splits)
  have "writing_ok (s # sgOrdered m) w" if "sgWriting m = Some w" for w
    using that g(2,3) cnt ok i'
    by (auto simp: checkRangeLocked_def writing_ok_def mgr_ok_def reserved_overlaps_def WriteSegment_ID_def
        word_gt_0 split: if_splits)
  then have "mgr_ok (m'\<lparr>sgWriting := sgWriting m\<rparr>) \<and> set (sgOrdered (m'\<lparr>sgWriting := sgWriting m\<rparr>)) = insert s (set (sgOrdered m))"
    unfolding m' by (intro mgr_ok_insert [OF ok s i no]) simp
  moreover have "sgWriting m' = sgWriting m" by (simp add: m' insertOrderedLocked_def Let_def)
  then have "m'\<lparr>sgWriting := sgWriting m\<rparr> = m'" by simp
  ultimately show ?thesis using \<open>sgWriting m' = sgWriting m\<close> by simp
qed

lemma RotateWriting_ok:
  assumes ok: "mgr_ok m" and s: "im_ok s" and nx: "ws_ok next"
    and rot: "SegmentManager_RotateWriting i s next m = (r, m')"
  shows "mgr_ok m' \<and> (r = None \<longrightarrow> set (sgOrdered m') = insert s (set (sgOrdered m)) \<and> sgWriting m' = Some next)"
proof (cases r)
  case (Some err)
  then have "m' = m" using rot
    by (auto simp: SegmentManager_RotateWriting_def split: if_splits option.splits)
  with ok Some show ?thesis by simp
next
  case None
  have g: "ImmutableSegment_ID s = i" "wsID next \<noteq> i" "map_of (sgImmutable m) i = None"
    "map_of (sgImmutable m) (wsID next) = None" "checkRangeAgainstImmutableLocked (isMetadata s) i m = None"
    "\<not> reserved_overlaps (WriteSegment_ReservedRange next) s"
    "\<not> list_ex (\<lambda>(i, s). reserved_overlaps (WriteSegment_ReservedRange next) s) (sgImmutable m)"
    and m': "m' = (insertOrderedLocked s (m\<lparr>sgImmutable := AList.update i s (sgImmutable m)\<rparr>))\<lparr>sgWriting := Some next\<rparr>"
    using rot None by (auto simp: SegmentManager_RotateWriting_def WriteSegment_ID_def split: if_splits option.splits)
  have ids: "ImmutableSegment_ID s \<notin> ImmutableSegment_ID ` set (sgOrdered m)"
    using g(1,3) mgr_entries(2) [OF ok] by simp
  then have ids': "\<forall>t \<in> set (sgOrdered m). ImmutableSegment_ID t \<noteq> ImmutableSegment_ID s" by (metis imageI)
  have cnt: "smDocCount (isMetadata s) \<noteq> 0" using im_ok_range(5) [OF s] .
  have no: "\<forall>t \<in> set (sgOrdered m). \<not> rangesOverlap (isMetadata s) (isMetadata t)"
    using g(1,5) cnt ids' mgr_entries(1) [OF ok, of "\<lambda>j t. j \<noteq> i \<and> rangesOverlap (isMetadata s) (isMetadata t)"]
    by (auto simp: checkRangeAgainstImmutableLocked_def split: if_splits)
  have "\<forall>t \<in> set (sgOrdered m). \<not> reserved_overlaps (WriteSegment_ReservedRange next) t"
    using g(7) mgr_entries(1) [OF ok, of "\<lambda>i. reserved_overlaps (WriteSegment_ReservedRange next)"] by simp
  moreover have "\<forall>t \<in> set (sgOrdered m). wsID next \<noteq> ImmutableSegment_ID t"
    using g(4) mgr_entries(2) [OF ok, of "wsID next"] by auto
  ultimately have w: "writing_ok (s # sgOrdered m) next"
    using nx g(1,2,6) by (auto simp: writing_ok_def)
  have "mgr_ok m' \<and> set (sgOrdered m') = insert s (set (sgOrdered m))"
    unfolding m' g(1) [symmetric] by (rule mgr_ok_insert [OF ok s ids no]) (use w in simp)
  then show ?thesis by (simp add: m')
qed

lemma remove_ordered_filter:
  "distinct (map ImmutableSegment_ID ss) \<Longrightarrow> remove_ordered i ss = filter (\<lambda>s. ImmutableSegment_ID s \<noteq> i) ss"
proof (induction ss)
  case (Cons a ss)
  have "filter (\<lambda>s. ImmutableSegment_ID s \<noteq> ImmutableSegment_ID a) ss = ss"
    using Cons.prems by (intro filter_True) (auto simp: image_iff)
  with Cons show ?case by auto
qed simp

lemma RemoveImmutable_ok:
  assumes ok: "mgr_ok m" and rm: "SegmentManager_RemoveImmutable i m = (r, m')"
  shows "mgr_ok m'"
proof (cases r)
  case (Inl err)
  then have "m' = m" using rm by (auto simp: SegmentManager_RemoveImmutable_def split: option.splits)
  with ok show ?thesis by simp
next
  case (Inr s)
  have o: "distinct (map ImmutableSegment_ID (sgOrdered m))" "ranges_sorted (sgOrdered m)"
    using ok by (auto simp: mgr_ok_def)
  have m': "m' = m\<lparr>sgImmutable := AList.delete i (sgImmutable m),
      sgOrdered := filter (\<lambda>s. ImmutableSegment_ID s \<noteq> i) (sgOrdered m)\<rparr>"
    using rm Inr remove_ordered_filter [OF o(1)]
    by (auto simp: SegmentManager_RemoveImmutable_def split: option.splits)
  have "ranges_sorted (filter (\<lambda>s. ImmutableSegment_ID s \<noteq> i) (sgOrdered m))"
    using o(2) by (simp add: ranges_sorted_def sorted_wrt_filter)
  moreover have "distinct (map fst (AList.delete i (sgImmutable m)))"
    using ok by (simp add: mgr_ok_def distinct_delete)
  moreover have "set (AList.delete i (sgImmutable m)) =
      (\<lambda>s. (ImmutableSegment_ID s, s)) ` set (filter (\<lambda>s. ImmutableSegment_ID s \<noteq> i) (sgOrdered m))"
    using ok by (auto simp: mgr_ok_def AList.delete_eq)
  ultimately show ?thesis
    using ok o(1) by (auto simp: m' mgr_ok_def writing_ok_def distinct_map_filter)
qed

lemma append_error_unchanged:
  "WriteSegment_append ctx e k v w env = (Inl err, w', env') \<Longrightarrow> w' = w"
  by (auto simp: WriteSegment_append_def Let_def split: if_splits prod.splits option.splits)

lemma writing_append_ok:
  assumes "writing_ok ss w" "WriteSegment_append ctx e k v w env = (r, w', env')"
  shows "writing_ok ss w'"
proof (cases r)
  case (Inl err)
  with assms append_error_unchanged show ?thesis by blast
next
  case (Inr d)
  with assms(2) have a: "WriteSegment_append ctx e k v w env = (Inr d, w', env')" by simp
  have "ws_ok w" using assms(1) by (simp add: writing_ok_def)
  from append_ok [OF this a] assms(1) show ?thesis
    by (simp add: writing_ok_def WriteSegment_ReservedRange_def)
qed

subsection \<open>Reachable managers\<close>

text \<open>
  The states a manager goes through: every operation that changes its segments, in any order and
  whether or not it succeeds, appends to the write segment, and any change of the IDMap and the
  deletion set. Segments handed to it are well formed.
\<close>

inductive mgr_reach :: "'db SegmentManager \<Rightarrow> bool" where
  new: "mgr_reach (NewSegmentManager pk ds)"
| set_writing: "mgr_reach m \<Longrightarrow> ws_ok w \<Longrightarrow> SegmentManager_SetWriting w m = (r, m') \<Longrightarrow> mgr_reach m'"
| clear_writing: "mgr_reach m \<Longrightarrow> mgr_reach (snd (SegmentManager_ClearWriting m))"
| add: "mgr_reach m \<Longrightarrow> im_ok s \<Longrightarrow> SegmentManager_AddImmutable s m = (r, m') \<Longrightarrow> mgr_reach m'"
| rotate: "mgr_reach m \<Longrightarrow> im_ok s \<Longrightarrow> ws_ok w \<Longrightarrow> SegmentManager_RotateWriting i s w m = (r, m') \<Longrightarrow> mgr_reach m'"
| remove: "mgr_reach m \<Longrightarrow> SegmentManager_RemoveImmutable i m = (r', m') \<Longrightarrow> mgr_reach m'"
| append: "mgr_reach m \<Longrightarrow> sgWriting m = Some w \<Longrightarrow> WriteSegment_append c e k v w env = (r'', w', env') \<Longrightarrow>
     mgr_reach (m\<lparr>sgWriting := Some w'\<rparr>)"
| stores: "mgr_reach m \<Longrightarrow> mgr_reach (m\<lparr>sgPrimaryKey := pk, sgDeletes := ds\<rparr>)"

lemma mgr_ok_stores: "mgr_ok (m\<lparr>sgPrimaryKey := pk, sgDeletes := ds\<rparr>) \<longleftrightarrow> mgr_ok m"
  by (simp add: mgr_ok_def)

lemma mgr_ok_writing: "mgr_ok m \<Longrightarrow> writing_ok (sgOrdered m) w \<Longrightarrow> mgr_ok (m\<lparr>sgWriting := Some w\<rparr>)"
  by (simp add: mgr_ok_def)

lemma mgr_reach_ok: "mgr_reach m \<Longrightarrow> mgr_ok m"
proof (induction rule: mgr_reach.induct)
  case (append m w c e k v env r'' w' env')
  then have "writing_ok (sgOrdered m) w" by (simp add: mgr_ok_def)
  then show ?case using append writing_append_ok mgr_ok_writing by blast
qed (auto simp: mgr_ok_stores intro: SetWriting_ok ClearWriting_ok RemoveImmutable_ok
      dest: AddImmutable_ok RotateWriting_ok
      simp: NewSegmentManager_def mgr_ok_def [of "\<lparr>sgImmutable = [], sgOrdered = [], sgWriting = None,
        sgPrimaryKey = pk, sgDeletes = ds\<rparr>" for pk ds] ranges_sorted_def)

text \<open>
  C12: Lookup by document ID is exact in every reachable manager. Whatever sequence of operations
  produced the manager, successful or not, \<^verbatim>\<open>RetainedDocument\<close> (the write segment first, then a binary search over the ordered
  ranges) returns a document exactly when some segment retains it under that ID, so IDs are unique across
  segments, and \<^verbatim>\<open>Document\<close> returns it exactly when it is moreover not deleted.
\<close>

theorem manager_lookup_exact:
  assumes "mgr_reach m"
  shows "(SegmentManager_RetainedDocument m x = Some d \<longleftrightarrow> d \<in> set (retained m) \<and> DocID d = x)
    \<and> (SegmentManager_Document m x = Some d \<longleftrightarrow>
         d \<in> set (retained m) \<and> DocID d = x \<and> \<not> DeleteStore_IsDeleted (sgDeletes m) x)"
  using RetainedDocument_iff [OF mgr_reach_ok [OF assms]] by (auto simp: SegmentManager_Document_def)

lemma sample_manager_reach:
  "mgr_reach ((NewSegmentManager pk ds)\<lparr>sgWriting := Some sample_segment\<rparr>)"
  by (rule mgr_reach.set_writing [OF mgr_reach.new sample_segment_ok, where r = None])
     (simp add: SegmentManager_SetWriting_def NewSegmentManager_def)

theorem manager_lookup_exact_witness:
  "SegmentManager_Document ((NewSegmentManager sample_map \<lparr>dsDeleted = {4}\<rparr>)\<lparr>sgWriting := Some sample_segment\<rparr>) 5
     = Some \<lparr>DocID = 5, PrimaryKey = [0x61], Payload = [1, 2]\<rparr>"
  using manager_lookup_exact [OF sample_manager_reach, of sample_map "\<lparr>dsDeleted = {4}\<rparr>" 5
      "\<lparr>DocID = 5, PrimaryKey = [0x61], Payload = [1, 2]\<rparr>"]
  by (simp add: retained_def NewSegmentManager_def sample_segment_def DeleteStore_IsDeleted_def)

text \<open>
  C13: Rotation is invisible to readers. When a manager rotates its write segment to an immutable
  segment with the same documents and an empty successor, every lookup by document ID returns what it returned
  before; a refused rotation changes nothing.
\<close>

theorem rotation_preserves_documents:
  assumes "mgr_ok m" "sgWriting m = Some w" "im_ok s" "isDocs s = wsDocs w" "ws_ok next" "wsDocs next = []"
    and "SegmentManager_RotateWriting i s next m = (r, m')"
  shows "mgr_ok m' \<and> SegmentManager_RetainedDocument m' x = SegmentManager_RetainedDocument m x
    \<and> (r \<noteq> None \<longrightarrow> m' = m)"
proof -
  note rot = RotateWriting_ok [OF assms(1,3,5,7)]
  show ?thesis
  proof (cases r)
    case (Some err)
    then have "m' = m" using assms(7)
      by (auto simp: SegmentManager_RotateWriting_def split: if_splits option.splits)
    with assms(1) show ?thesis by simp
  next
    case None
    with rot assms(2,4,6) have "set (retained m') = set (retained m)"
      by (auto simp: retained_def)
    then have "SegmentManager_RetainedDocument m' x = Some d \<longleftrightarrow> SegmentManager_RetainedDocument m x = Some d" for d
      using RetainedDocument_iff [OF assms(1)] RetainedDocument_iff [of m'] rot by simp
    then show ?thesis using rot None by (metis option.exhaust)
  qed
qed

definition sample_immutable :: ImmutableSegment where
  "sample_immutable = newImmutableSegment (segmentMetadata 1 (wsDocs sample_segment) [''s'']) (wsDocs sample_segment)"

lemma sample_immutable_ok: "im_ok sample_immutable"
proof -
  have "segment_wf (segmentMetadata (wsID sample_segment) (wsDocs sample_segment) [], wsDocs sample_segment)"
    by (rule ws_segment_wf [OF sample_segment_ok])
       (simp_all add: sample_segment_def payload_bytes_def length_record_bytes maxSegmentPayloadSize_def)
  then show ?thesis
    by (simp add: im_ok_def sample_immutable_def newImmutableSegment_def sample_segment_def segmentMetadata_def)
qed

definition sample_next :: WriteSegment where
  "sample_next = \<lparr>wsID = 2, wsMinDocID = 15, wsMaxDocs = 10, wsDocs = [], wsSealed = False, wsMemoryBytes = 0\<rparr>"

lemma sample_next_ok: "ws_ok sample_next"
  by (simp add: ws_ok_def sample_next_def storedDocumentsMemoryBytes_def)

theorem rotation_preserves_documents_witness:
  "\<exists>m'. SegmentManager_RotateWriting 1 sample_immutable sample_next
       ((NewSegmentManager sample_map NewDeleteStore)\<lparr>sgWriting := Some sample_segment\<rparr>) = (None, m')
     \<and> SegmentManager_RetainedDocument m' 5 = Some \<lparr>DocID = 5, PrimaryKey = [0x61], Payload = [1, 2]\<rparr>"
proof -
  let ?m = "(NewSegmentManager sample_map NewDeleteStore)\<lparr>sgWriting := Some sample_segment\<rparr>"
  obtain m' where r: "SegmentManager_RotateWriting 1 sample_immutable sample_next ?m = (None, m')"
    by (simp add: SegmentManager_RotateWriting_def NewSegmentManager_def sample_segment_def sample_next_def
        sample_immutable_def newImmutableSegment_def segmentMetadata_def WriteSegment_ID_def ImmutableSegment_ID_def
        checkRangeAgainstImmutableLocked_def reserved_overlaps_def WriteSegment_ReservedRange_def)
  have "SegmentManager_RetainedDocument m' 5 = SegmentManager_RetainedDocument ?m 5"
    using rotation_preserves_documents [OF mgr_reach_ok [OF sample_manager_reach] _ sample_immutable_ok _
        sample_next_ok _ r, of sample_segment 5]
    by (simp add: sample_immutable_def newImmutableSegment_def sample_next_def NewSegmentManager_def)
  then show ?thesis
    using r by (simp add: SegmentManager_RetainedDocument_def NewSegmentManager_def WriteSegment_Document_def sample_segment_def)
qed

subsection \<open>Live documents\<close>

text \<open>A document is live when it is not deleted and the IDMap maps its key to its ID.\<close>

definition live :: "('db \<Rightarrow> bytes \<rightharpoonup> bytes) \<Rightarrow> 'db SegmentManager \<Rightarrow> StoredDocument \<Rightarrow> bool" where
  "live pmap m d \<longleftrightarrow> DocID d \<notin> dsDeleted (sgDeletes m)
     \<and> idmap_view pmap (sgPrimaryKey m) (PrimaryKey d) = Some (DocID d)"

lemma appendLive_filter:
  assumes "idmap_inv ops pmap (sgPrimaryKey m)"
  shows "appendLive ops ctx m ds (res, env) = (None, res', env') \<Longrightarrow> res' = res @ filter (live pmap m) ds"
proof (induction ds arbitrary: res env)
  case (Cons d ds)
  obtain e where e: "ctx_Err ctx env = (None, e)"
    using Cons.prems by (auto split: prod.splits option.splits)
  show ?case
  proof (cases "DocID d \<in> dsDeleted (sgDeletes m)")
    case True
    with Cons e show ?thesis by (simp add: live_def DeleteStore_IsDeleted_def)
  next
    case False
    obtain i f where g: "PrimaryKeyMap_Get ops (sgPrimaryKey m) (PrimaryKey d) = (i, f, None)"
      using Cons.prems e False by (auto simp: DeleteStore_IsDeleted_def split: prod.splits option.splits)
    note v = idm.get_view [OF assms g]
    show ?thesis
      using Cons.prems Cons.IH [of "res @ [d]" e] Cons.IH [of res e] e False g v
      by (auto simp: live_def DeleteStore_IsDeleted_def split: if_splits)
  qed
qed simp

lemma visit_segments_filter:
  assumes "idmap_inv ops pmap (sgPrimaryKey m)"
  shows "visit_segments (appendLive ops ctx m) ss (res, env) = (None, res', env') \<Longrightarrow>
    res' = res @ filter (live pmap m) (concat (map isDocs ss))"
proof (induction ss arbitrary: res env)
  case (Cons s ss)
  then obtain r1 e1 where "appendLive ops ctx m (isDocs s) (res, env) = (None, r1, e1)"
    "visit_segments (appendLive ops ctx m) ss (r1, e1) = (None, res', env')"
    by (auto simp: ImmutableSegment_VisitDocuments_def split: if_splits prod.splits option.splits)
  with Cons.IH appendLive_filter [OF assms] show ?case by fastforce
qed simp

lemma appendLive_quiet:
  assumes "idmap_inv ops pmap (sgPrimaryKey m)" "pebble_reliable ops"
  shows "quiet env \<Longrightarrow> \<exists>res' env'. appendLive ops ctx m ds (res, env) = (None, res', env') \<and> quiet env'"
proof (induction ds arbitrary: res env)
  case (Cons d ds)
  obtain e where e: "ctx_Err ctx env = (None, e)" "quiet e" using Cons.prems by (rule ctx_quietE)
  obtain i f where "PrimaryKeyMap_Get ops (sgPrimaryKey m) (PrimaryKey d) = (i, f, None)"
    using Get_reliable [OF assms(2,1)] by blast
  with Cons.IH [OF e(2)] e(1) show ?case by auto
qed simp

lemma visit_segments_quiet:
  assumes "idmap_inv ops pmap (sgPrimaryKey m)" "pebble_reliable ops"
  shows "quiet env \<Longrightarrow> \<forall>s \<in> set ss. \<not> isClosed s \<Longrightarrow>
    \<exists>res' env'. visit_segments (appendLive ops ctx m) ss (res, env) = (None, res', env') \<and> quiet env'"
proof (induction ss arbitrary: res env)
  case (Cons s ss)
  obtain r1 e1 where "appendLive ops ctx m (isDocs s) (res, env) = (None, r1, e1)" "quiet e1"
    using appendLive_quiet [OF assms Cons.prems(1)] by blast
  with Cons.IH [of e1 r1] Cons.prems show ?case by (simp add: ImmutableSegment_VisitDocuments_def)
qed simp

text \<open>
  C14: The live documents are exactly the current versions. A successful \<^verbatim>\<open>LiveDocuments\<close> returns, in
  retention order, the retained documents that are not deleted and to which the IDMap maps their own key;
  with no cancellation, no Pebble failure and no closed segment it does succeed.
\<close>

theorem live_documents_exact:
  assumes "idmap_inv ops pmap (sgPrimaryKey m)"
  shows "(\<forall>ds env'. SegmentManager_LiveDocuments ops ctx m env = (Inr ds, env') \<longrightarrow> ds = filter (live pmap m) (retained m))
    \<and> (ctx \<noteq> NilCtx \<and> quiet env \<and> pebble_reliable ops \<and> (\<forall>s \<in> set (sgOrdered m). \<not> isClosed s) \<longrightarrow>
        (\<exists>env'. SegmentManager_LiveDocuments ops ctx m env = (Inr (filter (live pmap m) (retained m)), env')))"
proof -
  have exact: "ds = filter (live pmap m) (retained m)"
    if "SegmentManager_LiveDocuments ops ctx m env = (Inr ds, env')" for ds env'
    using that visit_segments_filter [OF assms] appendLive_filter [OF assms]
    by (fastforce simp: SegmentManager_LiveDocuments_def SegmentManager_ImmutableSegments_def retained_def
        WriteSegment_VisitDocuments_def split: if_splits prod.splits option.splits)
  moreover have "\<exists>ds env'. SegmentManager_LiveDocuments ops ctx m env = (Inr ds, env')"
    if g: "ctx \<noteq> NilCtx" "quiet env" "pebble_reliable ops" "\<forall>s \<in> set (sgOrdered m). \<not> isClosed s"
  proof -
    obtain e where e: "ctx_Err ctx env = (None, e)" "quiet e" using g(2) by (rule ctx_quietE)
    obtain r1 e1 where 1: "visit_segments (appendLive ops ctx m) (sgOrdered m) ([], e) = (None, r1, e1)" "quiet e1"
      using visit_segments_quiet [OF assms g(3) e(2) g(4)] by blast
    have "\<exists>r2 e2. appendLive ops ctx m ds (r1, e1) = (None, r2, e2)" for ds
      using appendLive_quiet [OF assms g(3) 1(2)] by blast
    with e 1 g(1) show ?thesis
      by (cases "sgWriting m") (auto simp: SegmentManager_LiveDocuments_def SegmentManager_ImmutableSegments_def
          WriteSegment_VisitDocuments_def, metis (mono_tags, lifting) case_prod_conv option.case(1))
  qed
  ultimately show ?thesis by blast
qed

theorem live_documents_exact_witness:
  "\<exists>env'. SegmentManager_LiveDocuments mem_pebble Ctx
     ((NewSegmentManager sample_map NewDeleteStore)\<lparr>sgWriting := Some sample_segment\<rparr>) calm = (Inr [], env')"
proof -
  let ?m = "(NewSegmentManager sample_map NewDeleteStore)\<lparr>sgWriting := Some sample_segment\<rparr>"
  have "idmap_inv mem_pebble map_of (sgPrimaryKey ?m)" by (simp add: NewSegmentManager_def sample_map_inv)
  from live_documents_exact [OF this, of Ctx calm]
  obtain env' where "SegmentManager_LiveDocuments mem_pebble Ctx ?m calm = (Inr (filter (live map_of ?m) (retained ?m)), env')"
    by (auto simp: NewSegmentManager_def)
  moreover have "filter (live map_of ?m) (retained ?m) = []"
    by (simp add: live_def retained_def NewSegmentManager_def sample_segment_def sample_view)
  ultimately show ?thesis by simp
qed

end
