(* ===== verification/Wal.thy ===== *)
theory Wal
  imports Crc32c
begin

text \<open>
  The write-ahead log, \<^verbatim>\<open>src/internal/db/index/storage/wal/wal.go\<close>: its file and record
  formats, the recovery scan, appending with automatic synchronisation and poisoning, and
  replay. The record \<open>WAL\<close> is the Go struct without its lock and path; the file handle is
  the file's contents (\<open>walFile\<close>, what the operating system would return to a reader) together
  with the length of the prefix the last successful sync made durable (\<open>walSynced\<close>, which no
  operation reads: it only serves to say what survives a crash).
\<close>

subsection \<open>Formats\<close>

definition walFormatVersion :: u16 where
  "walFormatVersion = 1"

definition walFileHeaderSize :: nat where
  "walFileHeaderSize = 32"

definition walRecordHeaderSize :: nat where
  "walRecordHeaderSize = 32"

definition MaxWALRecordSize :: nat where
  "MaxWALRecordSize = 4194304"

definition walMagic :: bytes where
  "walMagic = [0x5A, 0x56, 0x45, 0x43, 0x57, 0x41, 0x4C, 0]"

definition walRecordMagic :: bytes where
  "walRecordMagic = [0x5A, 0x52, 0x45, 0x43]"

record WALRecovery =
  Records :: u64
  LastLSN :: u64
  ValidBytes :: nat
  TruncatedBytes :: nat

record WALRecord =
  recLSN :: u64
  recPayload :: bytes

record walRecordMetadata =
  metaLSN :: u64
  payloadLength :: u32
  payloadCRC :: u32

definition encodeWALFileHeader :: bytes where
  "encodeWALFileHeader =
     (let prefix = walMagic @ PutUint16 walFormatVersion
            @ PutUint16 (word_of_nat walFileHeaderSize)
            @ PutUint32 (word_of_nat MaxWALRecordSize) @ replicate 8 0
      in prefix @ PutUint32 (CRC32C prefix) @ replicate 4 0)"

definition validateWALFileHeader :: "bytes \<Rightarrow> error option" where
  "validateWALFileHeader header =
     (if length header \<noteq> walFileHeaderSize
      then Some (wrapf ErrWALCorrupt ''invalid file header length %d'')
      else if slice 0 8 header \<noteq> walMagic
      then Some (wrapf ErrWALCorrupt ''invalid file magic'')
      else if Uint16 (slice 8 10 header) \<noteq> walFormatVersion
      then Some (wrapf ErrUnsupportedFormatVersion ''unsupported WAL version %d'')
      else if Uint16 (slice 10 12 header) \<noteq> word_of_nat walFileHeaderSize
      then Some (wrapf ErrWALCorrupt ''invalid file header size %d'')
      else if Uint32 (slice 12 16 header) \<noteq> word_of_nat MaxWALRecordSize
      then Some (wrapf ErrWALCorrupt ''invalid maximum record size %d'')
      else if Uint64 (slice 16 24 header) \<noteq> 0 \<or> Uint32 (slice 28 32 header) \<noteq> 0
      then Some (wrapf ErrWALCorrupt ''nonzero file header reserved bytes'')
      else if CRC32C (slice 0 24 header) \<noteq> Uint32 (slice 24 28 header)
      then Some (wrapf ErrWALCorrupt ''file header checksum got %08x, want %08x'')
      else None)"

definition encodeWALRecord :: "u64 \<Rightarrow> bytes \<Rightarrow> bytes" where
  "encodeWALRecord lsn payload =
     (let prefix = walRecordMagic @ PutUint16 walFormatVersion
            @ PutUint16 (word_of_nat walRecordHeaderSize) @ PutUint64 lsn
            @ PutUint32 (word_of_nat (length payload)) @ PutUint32 (CRC32C payload)
      in prefix @ PutUint32 (CRC32C prefix) @ replicate 4 0 @ payload)"

definition decodeWALRecordHeader :: "bytes \<Rightarrow> u64 \<Rightarrow> error + walRecordMetadata" where
  "decodeWALRecordHeader header expectedLSN =
     (if length header \<noteq> walRecordHeaderSize then Inl (ErrMsg ''invalid record header length %d'')
      else if slice 0 4 header \<noteq> walRecordMagic then Inl (ErrMsg ''invalid record magic'')
      else if Uint16 (slice 4 6 header) \<noteq> walFormatVersion
      then Inl (ErrMsg ''unsupported record version %d'')
      else if Uint16 (slice 6 8 header) \<noteq> word_of_nat walRecordHeaderSize
      then Inl (ErrMsg ''invalid record header size %d'')
      else let lsn = Uint64 (slice 8 16 header) in
      if lsn \<noteq> expectedLSN then Inl (ErrMsg ''LSN %d, want %d'')
      else let len = Uint32 (slice 16 20 header) in
      if len = 0 \<or> MaxWALRecordSize < unat len then Inl (ErrMsg ''invalid payload length %d'')
      else if Uint32 (slice 28 32 header) \<noteq> 0
      then Inl (ErrMsg ''nonzero record header reserved bytes'')
      else if CRC32C (slice 0 24 header) \<noteq> Uint32 (slice 24 28 header)
      then Inl (ErrMsg ''header checksum got %08x, want %08x'')
      else Inr \<lparr>metaLSN = lsn, payloadLength = len, payloadCRC = Uint32 (slice 20 24 header)\<rparr>)"

subsection \<open>Reading\<close>

text \<open>
  An \<^verbatim>\<open>io.ReaderAt\<close> as \<^verbatim>\<open>ioutil.ReadFullAt\<close> presents it: offset and length to the bytes there,
  or the error that ended the read. \<open>bytes_reader\<close> is the reader over a file's contents, which
  fails only past the end.
\<close>

type_synonym reader = "nat \<Rightarrow> nat \<Rightarrow> error + bytes"

definition bytes_reader :: "bytes \<Rightarrow> reader" where
  "bytes_reader f off n =
     (if off + n \<le> length f then Inr (slice off (off + n) f) else Inl (Sentinel EOF))"

definition readWALRecordAt :: "reader \<Rightarrow> nat \<Rightarrow> nat \<Rightarrow> u64 \<Rightarrow> error + (WALRecord \<times> nat)" where
  "readWALRecordAt rd offset limit expectedLSN =
     (let remaining = limit - offset in
      if remaining < walRecordHeaderSize
      then Inl (wrapf ErrWALCorrupt ''partial record header at %d'')
      else case rd offset walRecordHeaderSize of
        Inl err \<Rightarrow> Inl (wrapf ErrWALCorrupt ''read record header: %v'')
      | Inr header \<Rightarrow>
        (case decodeWALRecordHeader header expectedLSN of
           Inl err \<Rightarrow> Inl (wrapf ErrWALCorrupt ''record at %d: %v'')
         | Inr metadata \<Rightarrow>
           let recordSize = walRecordHeaderSize + unat (payloadLength metadata) in
           if remaining < recordSize then Inl (wrapf ErrWALCorrupt ''partial record %d payload'')
           else case rd (offset + walRecordHeaderSize) (unat (payloadLength metadata)) of
             Inl err \<Rightarrow> Inl (wrapf ErrWALCorrupt ''read record payload: %v'')
           | Inr payload \<Rightarrow>
             if CRC32C payload \<noteq> payloadCRC metadata
             then Inl (wrapf ErrWALCorrupt ''record %d payload checksum got %08x, want %08x'')
             else Inr (\<lparr>recLSN = metaLSN metadata, recPayload = payload\<rparr>, recordSize)))"

text \<open>The loop of \<^verbatim>\<open>scanWAL\<close>; every round that continues consumes at least a record header.\<close>

function scan_loop :: "ctx \<Rightarrow> reader \<Rightarrow> nat \<Rightarrow> nat \<Rightarrow> u64 \<Rightarrow> WALRecovery \<Rightarrow> env
    \<Rightarrow> (error + WALRecovery) \<times> env" where
  "scan_loop ctx rd sz offset expectedLSN recovery env =
     (if \<not> offset < sz then (Inr recovery, env)
      else case ctx_Err ctx env of
        (Some err, env) \<Rightarrow> (Inl err, env)
      | (None, env) \<Rightarrow>
        let remaining = sz - offset in
        if remaining < walRecordHeaderSize
        then (Inr (recovery\<lparr>TruncatedBytes := remaining\<rparr>), env)
        else case rd offset walRecordHeaderSize of
          Inl err \<Rightarrow> (Inl (wrapf ErrWALCorrupt ''read record header at %d: %v''), env)
        | Inr recordHeader \<Rightarrow>
          (case decodeWALRecordHeader recordHeader expectedLSN of
             Inl err \<Rightarrow> (Inl (wrapf ErrWALCorrupt ''record at %d: %v''), env)
           | Inr metadata \<Rightarrow>
             let recordSize = walRecordHeaderSize + unat (payloadLength metadata) in
             if remaining < recordSize then (Inr (recovery\<lparr>TruncatedBytes := remaining\<rparr>), env)
             else case rd (offset + walRecordHeaderSize) (unat (payloadLength metadata)) of
               Inl err \<Rightarrow> (Inl (wrapf ErrWALCorrupt ''read record %d payload: %v''), env)
             | Inr payload \<Rightarrow>
               if CRC32C payload \<noteq> payloadCRC metadata
               then (Inl (wrapf ErrWALCorrupt
                      ''record %d payload checksum got %08x, want %08x''), env)
               else scan_loop ctx rd sz (offset + recordSize) (expectedLSN + 1)
                      (recovery\<lparr>Records := Records recovery + 1, LastLSN := expectedLSN,
                                ValidBytes := offset + recordSize\<rparr>) env))"
  by pat_completeness auto
termination
  by (relation "measure (\<lambda>(ctx, rd, sz, offset, lsn, rec, env). sz - offset)")
    (auto simp: walRecordHeaderSize_def)

declare scan_loop.simps [simp del]

definition scanWAL :: "ctx \<Rightarrow> reader \<Rightarrow> nat \<Rightarrow> env \<Rightarrow> (error + WALRecovery) \<times> env" where
  "scanWAL ctx rd sz env =
     (if sz < walFileHeaderSize
      then (Inl (wrapf ErrWALCorrupt ''file is shorter than its header''), env)
      else case rd 0 walFileHeaderSize of
        Inl err \<Rightarrow> (Inl (wrapf ErrWALCorrupt ''read file header: %v''), env)
      | Inr header \<Rightarrow>
        (case validateWALFileHeader header of
           Some err \<Rightarrow> (Inl err, env)
         | None \<Rightarrow>
           scan_loop ctx rd sz walFileHeaderSize 1
             \<lparr>Records = 0, LastLSN = 0, ValidBytes = walFileHeaderSize, TruncatedBytes = 0\<rparr> env))"

subsection \<open>The log handle\<close>

record WAL =
  walFile :: bytes
  walSynced :: nat
  walSyncEvery :: u64
  walRecovery :: WALRecovery
  walSize :: nat
  walLastLSN :: u64
  walDirtyRecords :: u64
  walPoisoned :: "error option"
  walReadOnly :: bool
  walClosed :: bool

text \<open>
  \<^verbatim>\<open>CreateWAL\<close>: \<open>slot\<close> is the file at the path (\<open>None\<close> when there is none), \<open>lock\<close> the answer of
  the advisory file lock. The result carries the file slot afterwards: a failed creation
  removes the file it created.
\<close>

definition CreateWAL :: "ctx \<Rightarrow> string \<Rightarrow> error + bool \<Rightarrow> bytes option \<Rightarrow> u64 \<Rightarrow> env
    \<Rightarrow> (error + WAL) \<times> bytes option \<times> env" where
  "CreateWAL ctx name lock slot syncEvery env =
     (if ctx = NilCtx then (Inl (ErrMsg ''db: nil create WAL context''), slot, env)
      else if name = [] then (Inl (ErrMsg ''db: empty WAL path''), slot, env)
      else case ctx_Err ctx env of
        (Some err, env) \<Rightarrow> (Inl err, slot, env)
      | (None, env) \<Rightarrow>
        (case os_call env of
           (Some err, env) \<Rightarrow> (Inl (ErrWrap ''db: stat WAL before create'' [err]), slot, env)
         | (None, env) \<Rightarrow>
           if slot \<noteq> None then (Inl (Sentinel ErrWALExists), slot, env)
           else case lock of
             Inl err \<Rightarrow> (Inl (ErrWrap ''db: lock WAL creation'' [err]), slot, env)
           | Inr False \<Rightarrow> (Inl (ErrMsg ''db: WAL creation lock unavailable''), slot, env)
           | Inr True \<Rightarrow>
             (case os_call env of
                (Some err, env) \<Rightarrow>
                  (Inl (if errors_Is err ErrExist then Sentinel ErrWALExists
                        else ErrWrap ''db: create WAL'' [err]), slot, env)
              | (None, env) \<Rightarrow>
                (case WriteFullAt [] encodeWALFileHeader 0 env of
                   (Some err, _, env) \<Rightarrow> (Inl (ErrWrap ''db: write WAL header'' [err]), None, env)
                 | (None, file, env) \<Rightarrow>
                   (case sync_call env of
                      (Some err, env) \<Rightarrow> (Inl (ErrWrap ''db: sync WAL header'' [err]), None, env)
                    | (None, env) \<Rightarrow>
                      (case os_call env of
                         (Some err, env) \<Rightarrow>
                           (Inl (ErrWrap ''db: sync WAL directory'' [err]), None, env)
                       | (None, env) \<Rightarrow>
                         (Inr \<lparr>walFile = file, walSynced = length file, walSyncEvery = syncEvery,
                               walRecovery = \<lparr>Records = 0, LastLSN = 0,
                                 ValidBytes = walFileHeaderSize, TruncatedBytes = 0\<rparr>,
                               walSize = walFileHeaderSize, walLastLSN = 0, walDirtyRecords = 0,
                               walPoisoned = None, walReadOnly = False, walClosed = False\<rparr>,
                          Some file, env)))))))"

definition openWAL :: "ctx \<Rightarrow> string \<Rightarrow> error + bool \<Rightarrow> bytes option \<Rightarrow> u64 \<Rightarrow> bool \<Rightarrow> env
    \<Rightarrow> (error + WAL) \<times> bytes option \<times> env" where
  "openWAL ctx name lock slot syncEvery readOnly env =
     (if ctx = NilCtx then (Inl (ErrMsg ''db: nil open WAL context''), slot, env)
      else if name = [] then (Inl (ErrMsg ''db: empty WAL path''), slot, env)
      else case ctx_Err ctx env of
        (Some err, env) \<Rightarrow> (Inl err, slot, env)
      | (None, env) \<Rightarrow>
        (case lock of
           Inl err \<Rightarrow> (Inl (ErrWrap ''db: lock WAL open'' [err]), slot, env)
         | Inr False \<Rightarrow> (Inl (ErrMsg ''db: WAL open lock unavailable''), slot, env)
         | Inr True \<Rightarrow>
           (case slot of
              None \<Rightarrow> (Inl (Sentinel ErrWALNotFound), slot, env)
            | Some file \<Rightarrow>
              (case os_call env of
                 (Some err, env) \<Rightarrow> (Inl (ErrWrap ''db: open WAL'' [err]), slot, env)
               | (None, env) \<Rightarrow>
                 (case os_call env of
                    (Some err, env) \<Rightarrow> (Inl (ErrWrap ''db: stat WAL'' [err]), slot, env)
                  | (None, env) \<Rightarrow>
                    (case scanWAL ctx (bytes_reader file) (length file) env of
                       (Inl err, env) \<Rightarrow> (Inl err, slot, env)
                     | (Inr recovery, env) \<Rightarrow>
                       let opened = (\<lambda>f synced env.
                         (Inr \<lparr>walFile = f, walSynced = synced, walSyncEvery = syncEvery,
                               walRecovery = recovery, walSize = ValidBytes recovery,
                               walLastLSN = LastLSN recovery, walDirtyRecords = 0,
                               walPoisoned = None, walReadOnly = readOnly, walClosed = False\<rparr>,
                          Some f, env)) in
                       if TruncatedBytes recovery > 0 \<and> \<not> readOnly
                       then (case os_call env of
                           (Some err, env) \<Rightarrow>
                             (Inl (ErrWrap ''db: truncate partial WAL tail'' [err]), slot, env)
                         | (None, env) \<Rightarrow>
                           let repaired = take (ValidBytes recovery) file in
                           (case sync_call env of
                              (Some err, env) \<Rightarrow>
                                (Inl (ErrWrap ''db: sync repaired WAL tail'' [err]),
                                 Some repaired, env)
                            | (None, env) \<Rightarrow> opened repaired (length repaired) env))
                       else opened file 0 env))))))"

definition OpenWAL :: "ctx \<Rightarrow> string \<Rightarrow> error + bool \<Rightarrow> bytes option \<Rightarrow> u64 \<Rightarrow> env
    \<Rightarrow> (error + WAL) \<times> bytes option \<times> env" where
  "OpenWAL ctx name lock slot syncEvery env = openWAL ctx name lock slot syncEvery False env"

definition OpenWALReadOnly :: "ctx \<Rightarrow> string \<Rightarrow> error + bool \<Rightarrow> bytes option \<Rightarrow> env
    \<Rightarrow> (error + WAL) \<times> bytes option \<times> env" where
  "OpenWALReadOnly ctx name lock slot env = openWAL ctx name lock slot 0 True env"

definition WAL_HasRecords :: "WAL \<Rightarrow> bool" where
  "WAL_HasRecords w \<longleftrightarrow> walLastLSN w \<noteq> 0"

definition syncFile :: "WAL \<Rightarrow> env \<Rightarrow> error option \<times> WAL \<times> env" where
  "syncFile w env =
     (case sync_call env of
        (Some err, env) \<Rightarrow> (Some err, w, env)
      | (None, env) \<Rightarrow> (None, w\<lparr>walSynced := length (walFile w)\<rparr>, env))"

definition WAL_Append :: "ctx \<Rightarrow> bytes \<Rightarrow> WAL \<Rightarrow> env \<Rightarrow> (u64 \<times> error option) \<times> WAL \<times> env" where
  "WAL_Append ctx payload w env =
     (if ctx = NilCtx then ((0, Some (ErrMsg ''db: nil WAL append context'')), w, env)
      else case ctx_Err ctx env of
        (Some err, env) \<Rightarrow> ((0, Some err), w, env)
      | (None, env) \<Rightarrow>
        if payload = [] then ((0, Some (ErrMsg ''db: empty WAL record'')), w, env)
        else if MaxWALRecordSize < length payload
        then ((0, Some (wrapf ErrWALRecordTooLarge ''got %d bytes, maximum %d'')), w, env)
        else if walClosed w then ((0, Some (Sentinel ErrWALClosed)), w, env)
        else if walReadOnly w then ((0, Some (Sentinel ErrWALReadOnly)), w, env)
        else if walPoisoned w \<noteq> None then ((0, walPoisoned w), w, env)
        else if walLastLSN w = MaxUint64 then ((0, Some (ErrMsg ''db: WAL LSN exhausted'')), w, env)
        else
          let lsn = walLastLSN w + 1; encoded = encodeWALRecord lsn payload in
          (case WriteFullAt (walFile w) encoded (walSize w) env of
             (Some err, file, env) \<Rightarrow>
               let p = wrapf ErrWALPoisoned ''write record %d: %v'' in
               ((0, Some p), w\<lparr>walFile := file, walPoisoned := Some p\<rparr>, env)
           | (None, file, env) \<Rightarrow>
               let w = w\<lparr>walFile := file, walSize := walSize w + length encoded, walLastLSN := lsn,
                         walDirtyRecords := walDirtyRecords w + 1\<rparr> in
               if walSyncEvery w > 0 \<and> walDirtyRecords w \<ge> walSyncEvery w
               then (case syncFile w env of
                   (Some err, w, env) \<Rightarrow>
                     let p = ErrWrap ''sync record %d'' [Sentinel ErrWALPoisoned, err] in
                     ((lsn, Some p), w\<lparr>walPoisoned := Some p\<rparr>, env)
                 | (None, w, env) \<Rightarrow> ((lsn, None), w\<lparr>walDirtyRecords := 0\<rparr>, env))
               else ((lsn, None), w, env)))"

definition WAL_Sync :: "ctx \<Rightarrow> WAL \<Rightarrow> env \<Rightarrow> error option \<times> WAL \<times> env" where
  "WAL_Sync ctx w env =
     (if ctx = NilCtx then (Some (ErrMsg ''db: nil WAL sync context''), w, env)
      else case ctx_Err ctx env of
        (Some err, env) \<Rightarrow> (Some err, w, env)
      | (None, env) \<Rightarrow>
        if walClosed w then (Some (Sentinel ErrWALClosed), w, env)
        else if walReadOnly w then (Some (Sentinel ErrWALReadOnly), w, env)
        else if walPoisoned w \<noteq> None then (walPoisoned w, w, env)
        else case syncFile w env of
          (Some err, w, env) \<Rightarrow>
            let p = ErrWrap ''sync WAL'' [Sentinel ErrWALPoisoned, err] in
            (Some p, w\<lparr>walPoisoned := Some p\<rparr>, env)
        | (None, w, env) \<Rightarrow> (None, w\<lparr>walDirtyRecords := 0\<rparr>, env))"

definition WAL_Close :: "WAL \<Rightarrow> env \<Rightarrow> error option \<times> WAL \<times> env" where
  "WAL_Close w env =
     (if walClosed w then (None, w, env)
      else
        let w = w\<lparr>walClosed := True\<rparr> in
        (case (if \<not> walReadOnly w \<and> walPoisoned w = None \<and> walDirtyRecords w > 0
               then (case syncFile w env of
                   (Some err, w, env) \<Rightarrow> (Some (ErrWrap ''db: sync WAL on close'' [err]), w, env)
                 | (None, w, env) \<Rightarrow> (None, w, env))
               else (None, w, env)) of
           (syncErr, w, env) \<Rightarrow>
             (case os_call env of
                (closeErr, env) \<Rightarrow>
                  (case os_call env of
                     (lockErr, env) \<Rightarrow>
                       (errors_Join [walPoisoned w, syncErr, closeErr, lockErr], w, env)))))"

subsection \<open>Replay\<close>

record WALReader =
  rdFile :: bytes
  rdOffset :: nat
  rdLimit :: nat
  rdNextLSN :: u64
  rdClosed :: bool

definition WAL_NewReader :: "WAL \<Rightarrow> env \<Rightarrow> (error + WALReader) \<times> env" where
  "WAL_NewReader w env =
     (if walClosed w then (Inl (Sentinel ErrWALClosed), env)
      else case walPoisoned w of
        Some err \<Rightarrow> (Inl err, env)
      | None \<Rightarrow>
        (case os_call env of
           (Some err, env) \<Rightarrow> (Inl (ErrWrap ''db: open WAL reader'' [err]), env)
         | (None, env) \<Rightarrow>
           (case bytes_reader (walFile w) 0 walFileHeaderSize of
              Inl err \<Rightarrow> (Inl (wrapf ErrWALCorrupt ''read WAL reader header: %v''), env)
            | Inr header \<Rightarrow>
              (case validateWALFileHeader header of
                 Some err \<Rightarrow> (Inl err, env)
               | None \<Rightarrow>
                 (Inr \<lparr>rdFile = walFile w, rdOffset = walFileHeaderSize, rdLimit = walSize w,
                       rdNextLSN = 1, rdClosed = False\<rparr>, env)))))"

definition WALReader_Next :: "ctx \<Rightarrow> WALReader \<Rightarrow> env \<Rightarrow> (error + WALRecord) \<times> WALReader \<times> env" where
  "WALReader_Next ctx r env =
     (if ctx = NilCtx then (Inl (ErrMsg ''db: nil WAL reader context''), r, env)
      else case ctx_Err ctx env of
        (Some err, env) \<Rightarrow> (Inl err, r, env)
      | (None, env) \<Rightarrow>
        if rdClosed r then (Inl (Sentinel ErrWALClosed), r, env)
        else if rdOffset r = rdLimit r then (Inl (Sentinel EOF), r, env)
        else case readWALRecordAt (bytes_reader (rdFile r)) (rdOffset r) (rdLimit r) (rdNextLSN r) of
          Inl err \<Rightarrow> (Inl err, r, env)
        | Inr (rec, n) \<Rightarrow>
          (Inr rec, r\<lparr>rdOffset := rdOffset r + n, rdNextLSN := rdNextLSN r + 1\<rparr>, env))"

definition WALReader_Close :: "WALReader \<Rightarrow> env \<Rightarrow> error option \<times> WALReader \<times> env" where
  "WALReader_Close r env =
     (if rdClosed r then (None, r, env)
      else case os_call env of (err, env) \<Rightarrow> (err, r\<lparr>rdClosed := True\<rparr>, env))"

lemma readWALRecordAt_progress:
  "readWALRecordAt rd off lim lsn = Inr (rec, n) \<Longrightarrow> 0 < n \<and> off + n \<le> lim"
  by (auto simp: readWALRecordAt_def Let_def walRecordHeaderSize_def split: if_splits sum.splits)

lemma WALReader_Next_progress:
  assumes "WALReader_Next ctx r env = (Inr rec, r', env')"
  shows "rdLimit r' = rdLimit r" "rdOffset r < rdOffset r'" "rdOffset r' \<le> rdLimit r"
  using assms readWALRecordAt_progress
  by (auto simp: WALReader_Next_def split: if_splits prod.splits option.splits sum.splits)

lemma WALReader_Next_measure:
  "(Inr rec, r', env') = WALReader_Next ctx r env \<Longrightarrow>
     rdLimit r' - rdOffset r' < rdLimit r - rdOffset r"
  by (drule sym, frule WALReader_Next_progress(1), frule WALReader_Next_progress(2),
      drule WALReader_Next_progress(3)) simp

text \<open>
  The loop of \<^verbatim>\<open>Replay\<close>. The callback is an argument: it maps a record, the caller's state and the
  environment to an error or nil, and new ones.
\<close>

type_synonym 's replay_fun = "WALRecord \<Rightarrow> 's \<Rightarrow> env \<Rightarrow> error option \<times> 's \<times> env"

function replay_loop :: "ctx \<Rightarrow> 's replay_fun \<Rightarrow> WALReader \<Rightarrow> 's \<Rightarrow> env
    \<Rightarrow> error option \<times> WALReader \<times> 's \<times> env" where
  "replay_loop ctx apply r s env =
     (case WALReader_Next ctx r env of
        (Inl err, r', env) \<Rightarrow>
          if errors_Is err EOF then (None, r', s, env) else (Some err, r', s, env)
      | (Inr rec, r', env) \<Rightarrow>
          (case apply rec s env of
             (Some err, s, env) \<Rightarrow> (Some (ErrWrap ''db: replay WAL record %d'' [err]), r', s, env)
           | (None, s, env) \<Rightarrow> replay_loop ctx apply r' s env))"
  by pat_completeness auto
termination
  by (relation "measure (\<lambda>(ctx, apply, r, s, env). rdLimit r - rdOffset r)")
    (auto dest: WALReader_Next_measure)

declare replay_loop.simps [simp del]

definition WAL_Replay :: "ctx \<Rightarrow> 's replay_fun \<Rightarrow> WAL \<Rightarrow> 's \<Rightarrow> env \<Rightarrow> error option \<times> 's \<times> env" where
  "WAL_Replay ctx apply w s env =
     (if ctx = NilCtx then (Some (ErrMsg ''db: nil WAL replay context''), s, env)
      else case WAL_NewReader w env of
        (Inl err, env) \<Rightarrow> (Some err, s, env)
      | (Inr r, env) \<Rightarrow>
        (case replay_loop ctx apply r s env of
           (err, r, s, env) \<Rightarrow>
             (case WALReader_Close r env of
                (closeErr, r, env) \<Rightarrow> (errors_Join [err, closeErr], s, env))))"

end
