(* ===== verification/Wal_Recovery.thy ===== *)
theory Wal_Recovery
  imports Wal
begin

text \<open>
  What the write-ahead log promises. \<open>log_bytes ps\<close> is the file that holds the payloads
  \<open>ps\<close> as records 1, 2, \<dots>. The first group of lemmas relates the codec to it (a record header
  is decoded only from its canonical bytes), the second shows that the recovery scan accepts
  every prefix of a log and finds its complete records, the third that appending extends the
  log and that replay delivers it in order.
\<close>

subsection \<open>Canonical logs\<close>

definition valid_payload :: "bytes \<Rightarrow> bool" where
  "valid_payload p \<longleftrightarrow> p \<noteq> [] \<and> length p \<le> MaxWALRecordSize"

fun encode_from :: "u64 \<Rightarrow> bytes list \<Rightarrow> bytes" where
  "encode_from l [] = []"
| "encode_from l (p # ps) = encodeWALRecord l p @ encode_from (l + 1) ps"

definition log_bytes :: "bytes list \<Rightarrow> bytes" where
  "log_bytes ps = encodeWALFileHeader @ encode_from 1 ps"

definition record_prefix :: "u64 \<Rightarrow> u32 \<Rightarrow> u32 \<Rightarrow> bytes" where
  "record_prefix l n c = walRecordMagic @ PutUint16 walFormatVersion
     @ PutUint16 (word_of_nat walRecordHeaderSize) @ PutUint64 l @ PutUint32 n @ PutUint32 c"

definition record_header :: "u64 \<Rightarrow> u32 \<Rightarrow> u32 \<Rightarrow> bytes" where
  "record_header l n c =
     record_prefix l n c @ PutUint32 (CRC32C (record_prefix l n c)) @ replicate 4 0"

lemma length_magics [simp]: "length walMagic = 8" "length walRecordMagic = 4"
  by (simp_all add: walMagic_def walRecordMagic_def)

lemma length_record_prefix [simp]: "length (record_prefix l n c) = 24"
  by (simp add: record_prefix_def)

lemma length_wal_record_header [simp]: "length (record_header l n c) = 32"
  by (simp add: record_header_def)

lemma encodeWALRecord_split:
  "encodeWALRecord l p = record_header l (word_of_nat (length p)) (CRC32C p) @ p"
  by (simp add: encodeWALRecord_def record_header_def record_prefix_def Let_def)

lemma length_encodeWALRecord [simp]: "length (encodeWALRecord l p) = 32 + length p"
  by (simp add: encodeWALRecord_split)

lemma encodeWALRecord_not_Nil [simp]: "encodeWALRecord l p \<noteq> []"
  using length_encodeWALRecord [of l p] by (cases "encodeWALRecord l p") auto

lemma length_encodeWALFileHeader [simp]: "length encodeWALFileHeader = 32"
  by (simp add: encodeWALFileHeader_def Let_def)

lemma encodeWALFileHeader_not_Nil [simp]: "encodeWALFileHeader \<noteq> []"
  using length_encodeWALFileHeader by (metis list.size(3) zero_neq_numeral)

lemma validate_encodeWALFileHeader [simp]: "validateWALFileHeader encodeWALFileHeader = None"
  by (simp add: validateWALFileHeader_def encodeWALFileHeader_def Let_def codec_simps
      walFileHeaderSize_def)

lemma encode_from_append:
  "encode_from l (ps @ qs) = encode_from l ps @ encode_from (l + word_of_nat (length ps)) qs"
  by (induction ps arbitrary: l) (auto simp: ac_simps)

lemma log_bytes_snoc:
  "log_bytes (ps @ [p]) = log_bytes ps @ encodeWALRecord (word_of_nat (length ps) + 1) p"
  by (simp add: log_bytes_def encode_from_append ac_simps)

subsection \<open>Record headers\<close>

lemma unat_valid_length:
  "length p \<le> MaxWALRecordSize \<Longrightarrow> unat (word_of_nat (length p) :: u32) = length p"
  by (rule unat_of_nat_u32) (simp add: MaxWALRecordSize_def)

lemma slices_record_header:
  "slice 0 4 (record_header l n c) = walRecordMagic"
  "slice 4 6 (record_header l n c) = PutUint16 walFormatVersion"
  "slice 6 8 (record_header l n c) = PutUint16 (word_of_nat walRecordHeaderSize)"
  "slice 8 16 (record_header l n c) = PutUint64 l"
  "slice 16 20 (record_header l n c) = PutUint32 n"
  "slice 20 24 (record_header l n c) = PutUint32 c"
  "slice 0 24 (record_header l n c) = record_prefix l n c"
  "slice 24 28 (record_header l n c) = PutUint32 (CRC32C (record_prefix l n c))"
  "slice 28 32 (record_header l n c) = replicate 4 0"
  by (simp_all add: record_header_def record_prefix_def codec_simps)

lemma decode_record_header:
  assumes "n \<noteq> 0" "unat n \<le> MaxWALRecordSize"
  shows "decodeWALRecordHeader (record_header l n c) l =
           Inr \<lparr>metaLSN = l, payloadLength = n, payloadCRC = c\<rparr>"
  using assms
  by (simp add: decodeWALRecordHeader_def slices_record_header walRecordHeaderSize_def Let_def)

lemma valid_payload_header:
  assumes "valid_payload p"
  shows "decodeWALRecordHeader (record_header l (word_of_nat (length p)) (CRC32C p)) l =
           Inr \<lparr>metaLSN = l, payloadLength = word_of_nat (length p), payloadCRC = CRC32C p\<rparr>"
proof (rule decode_record_header)
  have u: "unat (word_of_nat (length p) :: u32) = length p"
    using assms by (simp add: valid_payload_def unat_valid_length)
  then show "unat (word_of_nat (length p) :: u32) \<le> MaxWALRecordSize"
    using assms by (simp add: valid_payload_def)
  show "(word_of_nat (length p) :: u32) \<noteq> 0"
    using u assms by (metis length_0_conv unat_0 valid_payload_def)
qed

text \<open>Conversely, only canonical bytes decode: every byte of an accepted header is determined.\<close>

lemma decode_canonical:
  assumes "decodeWALRecordHeader h l = Inr m"
  shows "h = record_header l (payloadLength m) (payloadCRC m)" "metaLSN m = l"
    "payloadLength m \<noteq> 0" "unat (payloadLength m) \<le> MaxWALRecordSize"
proof -
  note d = assms [unfolded decodeWALRecordHeader_def walRecordHeaderSize_def Let_def]
  have len: "length h = 32" and magic: "slice 0 4 h = walRecordMagic"
    and ver: "Uint16 (slice 4 6 h) = walFormatVersion" and sz: "Uint16 (slice 6 8 h) = 32"
    and lsn: "Uint64 (slice 8 16 h) = l" and zero: "Uint32 (slice 28 32 h) = 0"
    and crc: "CRC32C (slice 0 24 h) = Uint32 (slice 24 28 h)"
    and m: "m = \<lparr>metaLSN = l, payloadLength = Uint32 (slice 16 20 h),
                 payloadCRC = Uint32 (slice 20 24 h)\<rparr>"
    using d by (auto split: if_splits)
  show "metaLSN m = l" by (simp add: m)
  show "payloadLength m \<noteq> 0" "unat (payloadLength m) \<le> MaxWALRecordSize"
    using d m by (auto split: if_splits)
  have f1: "slice 4 6 h = PutUint16 walFormatVersion" "slice 6 8 h = PutUint16 32"
    using Uint_eqD(1) [OF ver] Uint_eqD(1) [OF sz] len by simp_all
  have f2: "slice 8 16 h = PutUint64 l" "slice 28 32 h = PutUint32 0"
    using Uint_eqD(3) [OF lsn] Uint_eqD(2) [OF zero] len by simp_all
  have f3: "slice 16 20 h = PutUint32 (payloadLength m)" "slice 20 24 h = PutUint32 (payloadCRC m)"
    using len by (simp_all add: m PutUint32_Uint32)
  have c: "slice 24 28 h = PutUint32 (CRC32C (slice 0 24 h))"
    by (rule Uint_eqD(2) [OF crc [symmetric]]) (simp add: len)
  have pre: "slice 0 24 h = record_prefix l (payloadLength m) (payloadCRC m)"
    by (simp add: record_prefix_def walRecordHeaderSize_def f1 f2 f3 magic slice_split [of 0 4 24 h]
        slice_split [of 4 6 24 h] slice_split [of 6 8 24 h] slice_split [of 8 16 24 h]
        slice_split [of 16 20 24 h])
  have "slice 28 32 h = replicate 4 0"
    using f2(2) by (simp add: PutUint32_zero)
  moreover have "h = slice 0 24 h @ slice 24 28 h @ slice 28 32 h"
    using split_at [OF len, of 24] slice_split [of 24 28 32 h] by simp
  ultimately show "h = record_header l (payloadLength m) (payloadCRC m)"
    using pre c by (simp add: record_header_def)
qed

subsection \<open>The scan\<close>

lemma bytes_reader_mid [simp]:
  "bytes_reader (pre @ xs @ post) (length pre) (length xs) = Inr xs"
  by (simp add: bytes_reader_def slice_mid)

text \<open>A reader that shows the record \<open>l, p\<close> at an offset, with the header at least in range.\<close>

lemma reader_at_record:
  assumes "f = pre @ encodeWALRecord l p @ post"
  shows "bytes_reader f (length pre) 32 =
           Inr (record_header l (word_of_nat (length p)) (CRC32C p))"
    "bytes_reader f (length pre + 32) (length p) = Inr p"
proof -
  let ?h = "record_header l (word_of_nat (length p)) (CRC32C p)"
  have f: "f = pre @ ?h @ (p @ post)" "f = (pre @ ?h) @ p @ post"
    using assms by (simp_all add: encodeWALRecord_split)
  show "bytes_reader f (length pre) 32 = Inr ?h"
    using bytes_reader_mid [of pre ?h "p @ post"] f(1) by simp
  show "bytes_reader f (length pre + 32) (length p) = Inr p"
    using bytes_reader_mid [of "pre @ ?h" p post] f(2) by simp
qed

text \<open>One round of the scan over a complete record.\<close>

lemma scan_loop_record:
  assumes "f = pre @ encodeWALRecord l p @ post" "valid_payload p" "quiet env"
  shows "\<exists>env'. quiet env' \<and>
    scan_loop ctx (bytes_reader f) (length f) (length pre) l rec env =
    scan_loop ctx (bytes_reader f) (length f) (length (pre @ encodeWALRecord l p)) (l + 1)
      (rec\<lparr>Records := Records rec + 1, LastLSN := l,
           ValidBytes := length (pre @ encodeWALRecord l p)\<rparr>) env'"
proof -
  obtain env' where e: "ctx_Err ctx env = (None, env')" "quiet env'"
    using ctx_Err_quiet [OF assms(3), of ctx] by (metis prod.collapse)
  have u: "unat (word_of_nat (length p) :: u32) = length p"
    using assms(2) by (simp add: valid_payload_def unat_valid_length)
  note rd = reader_at_record [OF assms(1)]
  have "length pre < length f" "32 + length p \<le> length f - length pre"
    by (simp_all add: assms(1))
  then have "scan_loop ctx (bytes_reader f) (length f) (length pre) l rec env =
    scan_loop ctx (bytes_reader f) (length f) (length pre + (32 + length p)) (l + 1)
      (rec\<lparr>Records := Records rec + 1, LastLSN := l, ValidBytes := length pre + (32 + length p)\<rparr>) env'"
    by (subst scan_loop.simps)
      (simp add: e rd u valid_payload_header [OF assms(2)] walRecordHeaderSize_def Let_def)
  then show ?thesis
    using e(2) by auto
qed

text \<open>A torn record: a strict prefix of the encoding of a valid payload, possibly nothing.\<close>

definition torn :: "u64 \<Rightarrow> bytes \<Rightarrow> bool" where
  "torn l tail \<longleftrightarrow>
     tail = [] \<or> (\<exists>p n. valid_payload p \<and> n < 32 + length p \<and> tail = take n (encodeWALRecord l p))"

text \<open>
  An incomplete tail: fewer bytes than a record header, or the header of a record with the expected
  sequence number and an admissible payload length, followed by fewer bytes than it announces.
\<close>

definition incomplete_tail :: "u64 \<Rightarrow> bytes \<Rightarrow> bool" where
  "incomplete_tail l tail \<longleftrightarrow> length tail < 32
     \<or> (\<exists>n c body. tail = record_header l n c @ body \<and> n \<noteq> 0 \<and> unat n \<le> MaxWALRecordSize \<and> length body < unat n)"

lemma incomplete_decodes:
  "incomplete_tail l tail \<longleftrightarrow> length tail < 32
     \<or> (\<exists>m. decodeWALRecordHeader (take 32 tail) l = Inr m \<and> length tail < 32 + unat (payloadLength m))"
proof (cases "length tail < 32")
  case False
  have "\<exists>m. decodeWALRecordHeader (take 32 tail) l = Inr m \<and> length tail < 32 + unat (payloadLength m)"
    if "tail = record_header l n c @ body" "n \<noteq> 0" "unat n \<le> MaxWALRecordSize" "length body < unat n" for n c body
    using that decode_record_header [of n l c] by simp
  moreover have "\<exists>n c body. tail = record_header l n c @ body \<and> n \<noteq> 0 \<and> unat n \<le> MaxWALRecordSize \<and> length body < unat n"
    if m: "decodeWALRecordHeader (take 32 tail) l = Inr m" "length tail < 32 + unat (payloadLength m)" for m
  proof (intro exI conjI)
    show "tail = record_header l (payloadLength m) (payloadCRC m) @ drop 32 tail"
      unfolding decode_canonical(1) [OF m(1), symmetric] by simp
    show "length (drop 32 tail) < unat (payloadLength m)" using m(2) False by simp
  qed (rule decode_canonical(3,4) [OF m(1)])+
  ultimately show ?thesis using False by (auto simp: incomplete_tail_def)
qed (simp add: incomplete_tail_def)

lemma torn_incomplete: "torn l tail \<Longrightarrow> incomplete_tail l tail"
proof -
  assume "torn l tail"
  then consider "tail = []" | p n where "valid_payload p" "n < 32 + length p" "tail = take n (encodeWALRecord l p)"
    by (auto simp: torn_def)
  then show ?thesis
  proof cases
    case 2
    then have "unat (word_of_nat (length p) :: u32) = length p" by (simp add: valid_payload_def unat_valid_length)
    then show ?thesis
      using 2 valid_payload_header [OF 2(1), of l]
      by (cases "n < 32") (simp_all add: incomplete_decodes encodeWALRecord_split)
  qed (simp add: incomplete_tail_def)
qed

lemma scan_loop_incomplete:
  assumes "f = pre @ tail" "incomplete_tail l tail" "quiet env" "TruncatedBytes rec = 0"
  shows "\<exists>env'. quiet env' \<and>
    scan_loop ctx (bytes_reader f) (length f) (length pre) l rec env =
    (Inr (rec\<lparr>TruncatedBytes := length tail\<rparr>), env')"
proof (cases "tail = []")
  case True
  with assms show ?thesis
    by (subst scan_loop.simps) (auto intro!: exI [of _ env])
next
  case False
  obtain env' where e: "ctx_Err ctx env = (None, env')" "quiet env'"
    using ctx_Err_quiet [OF assms(3), of ctx] by (metis prod.collapse)
  show ?thesis
  proof (cases "length tail < 32")
    case True
    then show ?thesis
      using False e by (subst scan_loop.simps) (simp add: assms(1) walRecordHeaderSize_def Let_def)
  next
    case n: False
    then obtain m where m: "decodeWALRecordHeader (take 32 tail) l = Inr m" "length tail < 32 + unat (payloadLength m)"
      using assms(2) by (auto simp: incomplete_decodes)
    have "bytes_reader f (length pre) 32 = Inr (take 32 tail)"
      using n assms(1) by (simp add: bytes_reader_def slice_def)
    then show ?thesis
      using False e m n
      by (subst scan_loop.simps) (simp add: assms(1) walRecordHeaderSize_def Let_def)
  qed
qed

text \<open>The scan walks over complete records, whatever follows them.\<close>

lemma scan_loop_records:
  assumes "f = pre @ encode_from l ps @ post" "\<forall>p \<in> set ps. valid_payload p" "quiet env"
    "ValidBytes rec = length pre" "LastLSN rec = l - 1"
  shows "\<exists>env'. quiet env' \<and>
    scan_loop ctx (bytes_reader f) (length f) (length pre) l rec env =
    scan_loop ctx (bytes_reader f) (length f) (length (pre @ encode_from l ps))
      (l + word_of_nat (length ps))
      (rec\<lparr>Records := Records rec + word_of_nat (length ps),
           LastLSN := l + word_of_nat (length ps) - 1,
           ValidBytes := length (pre @ encode_from l ps)\<rparr>) env'"
  using assms
proof (induction ps arbitrary: pre l rec env)
  case Nil
  then have "rec\<lparr>Records := Records rec + word_of_nat (length []), LastLSN := l + word_of_nat (length []) - 1,
      ValidBytes := length (pre @ encode_from l [])\<rparr> = rec"
    by simp
  then show ?case using Nil(3) by auto
next
  case (Cons p ps)
  let ?rec = "rec\<lparr>Records := Records rec + 1, LastLSN := l,
    ValidBytes := length (pre @ encodeWALRecord l p)\<rparr>"
  have f: "f = pre @ encodeWALRecord l p @ (encode_from (l + 1) ps @ post)"
    using Cons.prems(1) by simp
  obtain env1 where e1: "quiet env1"
    and step: "scan_loop ctx (bytes_reader f) (length f) (length pre) l rec env =
      scan_loop ctx (bytes_reader f) (length f) (length (pre @ encodeWALRecord l p)) (l + 1) ?rec env1"
    using scan_loop_record [OF f _ Cons.prems(3), of ctx rec] Cons.prems(2) by auto
  have "\<exists>env'. quiet env' \<and>
    scan_loop ctx (bytes_reader f) (length f) (length (pre @ encodeWALRecord l p)) (l + 1) ?rec env1 =
    scan_loop ctx (bytes_reader f) (length f)
      (length ((pre @ encodeWALRecord l p) @ encode_from (l + 1) ps))
      (l + 1 + word_of_nat (length ps))
      (?rec\<lparr>Records := Records ?rec + word_of_nat (length ps),
            LastLSN := l + 1 + word_of_nat (length ps) - 1,
            ValidBytes := length ((pre @ encodeWALRecord l p) @ encode_from (l + 1) ps)\<rparr>) env'"
    by (rule Cons.IH) (use Cons.prems e1 in auto)
  then show ?case
    by (simp add: step ac_simps)
qed

text \<open>The whole scan: complete records, then an incomplete tail.\<close>

lemma scan_loop_log:
  assumes "f = pre @ encode_from l ps @ tail" "\<forall>p \<in> set ps. valid_payload p"
    "incomplete_tail (l + word_of_nat (length ps)) tail" "quiet env"
    "TruncatedBytes rec = 0" "ValidBytes rec = length pre" "LastLSN rec = l - 1"
  shows "\<exists>env'. quiet env' \<and>
    scan_loop ctx (bytes_reader f) (length f) (length pre) l rec env =
    (Inr \<lparr>Records = Records rec + word_of_nat (length ps),
          LastLSN = l + word_of_nat (length ps) - 1,
          ValidBytes = length (pre @ encode_from l ps), TruncatedBytes = length tail\<rparr>, env')"
proof -
  let ?rec = "rec\<lparr>Records := Records rec + word_of_nat (length ps),
    LastLSN := l + word_of_nat (length ps) - 1, ValidBytes := length (pre @ encode_from l ps)\<rparr>"
  obtain env1 where e1: "quiet env1"
    and go: "scan_loop ctx (bytes_reader f) (length f) (length pre) l rec env =
      scan_loop ctx (bytes_reader f) (length f) (length (pre @ encode_from l ps))
        (l + word_of_nat (length ps)) ?rec env1"
    using scan_loop_records [OF assms(1,2,4,6,7), of ctx] by blast
  have f: "f = (pre @ encode_from l ps) @ tail" using assms(1) by simp
  have "?rec\<lparr>TruncatedBytes := length tail\<rparr> =
      \<lparr>Records = Records rec + word_of_nat (length ps), LastLSN = l + word_of_nat (length ps) - 1,
       ValidBytes = length (pre @ encode_from l ps), TruncatedBytes = length tail\<rparr>"
    by simp
  then show ?thesis
    using scan_loop_incomplete [OF f assms(3) e1, of ?rec ctx] assms(5) unfolding go by auto
qed

subsection \<open>Prefixes of a log\<close>

text \<open>How many records of \<open>ps\<close> are complete in the first \<open>n\<close> bytes of their encoding.\<close>

fun fits :: "nat \<Rightarrow> bytes list \<Rightarrow> nat" where
  "fits n [] = 0"
| "fits n (p # ps) = (if 32 + length p \<le> n then Suc (fits (n - (32 + length p)) ps) else 0)"

lemma fits_le: "fits n ps \<le> length ps"
  by (induction n ps rule: fits.induct) auto

lemma length_encode_from: "length (encode_from l ps) = (\<Sum>p\<leftarrow>ps. 32 + length p)"
  by (induction ps arbitrary: l) auto

lemma fits_append: "length (encode_from l ps) \<le> n \<Longrightarrow> length ps \<le> fits n (ps @ qs)"
  unfolding length_encode_from by (induction n ps rule: fits.induct) auto

lemma fits_all: "length (encode_from l ps) \<le> n \<Longrightarrow> fits n ps = length ps"
  using fits_append [of l ps n "[]"] fits_le [of n ps] by simp

lemma fits_mono: "m \<le> n \<Longrightarrow> fits m ps \<le> fits n ps"
proof (induction m ps arbitrary: n rule: fits.induct)
  case (2 m p ps)
  then show ?case by (cases "32 + length p \<le> m") (auto simp: diff_le_mono)
qed simp

lemma take_encode_from:
  assumes "\<forall>p \<in> set ps. valid_payload p"
  shows "\<exists>tail. take n (encode_from l ps) = encode_from l (take (fits n ps) ps) @ tail
           \<and> torn (l + word_of_nat (fits n ps)) tail"
  using assms
proof (induction n ps arbitrary: l rule: fits.induct)
  case (1 n)
  show ?case by (auto simp: torn_def)
next
  case (2 n p ps)
  show ?case
  proof (cases "32 + length p \<le> n")
    case True
    with 2 obtain tail where
      "take (n - (32 + length p)) (encode_from (l + 1) ps) =
         encode_from (l + 1) (take (fits (n - (32 + length p)) ps) ps) @ tail"
      "torn (l + 1 + word_of_nat (fits (n - (32 + length p)) ps)) tail"
      by (metis list.set_intros(2))
    with True show ?thesis
      by (intro exI [of _ tail]) (simp add: ac_simps)
  next
    case False
    with 2 show ?thesis
      by (auto simp: torn_def intro!: exI [of _ p] exI [of _ n])
  qed
qed

lemma take_log_bytes:
  assumes "\<forall>p \<in> set ps. valid_payload p" "32 \<le> n"
  shows "\<exists>tail. take n (log_bytes ps) = log_bytes (take (fits (n - 32) ps) ps) @ tail
           \<and> torn (1 + word_of_nat (fits (n - 32) ps)) tail"
  using take_encode_from [OF assms(1), of "n - 32" 1] assms(2)
  by (auto simp: log_bytes_def)

lemma scanWAL_log:
  assumes "f = log_bytes ps @ tail" "\<forall>p \<in> set ps. valid_payload p"
    "incomplete_tail (1 + word_of_nat (length ps)) tail" "quiet env"
  shows "\<exists>env'. quiet env' \<and> scanWAL ctx (bytes_reader f) (length f) env =
    (Inr \<lparr>Records = word_of_nat (length ps), LastLSN = word_of_nat (length ps),
          ValidBytes = length (log_bytes ps), TruncatedBytes = length tail\<rparr>, env')"
proof -
  have f: "f = encodeWALFileHeader @ encode_from 1 ps @ tail"
    using assms(1) by (simp add: log_bytes_def)
  have rd: "bytes_reader f 0 32 = Inr encodeWALFileHeader"
    using bytes_reader_mid [of "[]" encodeWALFileHeader "encode_from 1 ps @ tail"] f by simp
  show ?thesis
    using scan_loop_log [OF f assms(2,3,4), of "\<lparr>Records = 0, LastLSN = 0, ValidBytes = 32, TruncatedBytes = 0\<rparr>" ctx]
      rd f
    by (auto simp: scanWAL_def walFileHeaderSize_def log_bytes_def)
qed

subsection \<open>Replay\<close>

fun records_from :: "u64 \<Rightarrow> bytes list \<Rightarrow> WALRecord list" where
  "records_from l [] = []"
| "records_from l (p # ps) = \<lparr>recLSN = l, recPayload = p\<rparr> # records_from (l + 1) ps"

text \<open>What replay does to the caller's state when nothing is cancelled: a fold that stops at the
  first error of the callback.\<close>

fun apply_all :: "'s replay_fun \<Rightarrow> WALRecord list \<Rightarrow> 's \<Rightarrow> env \<Rightarrow> error option \<times> 's \<times> env" where
  "apply_all f [] s env = (None, s, env)"
| "apply_all f (r # rs) s env =
     (case f r s env of
        (Some err, s, env) \<Rightarrow> (Some (ErrWrap ''db: replay WAL record %d'' [err]), s, env)
      | (None, s, env) \<Rightarrow> apply_all f rs s env)"

lemma read_record:
  assumes "f = pre @ encodeWALRecord l p @ post" "valid_payload p"
    "length pre + (32 + length p) \<le> limit"
  shows "readWALRecordAt (bytes_reader f) (length pre) limit l =
    Inr (\<lparr>recLSN = l, recPayload = p\<rparr>, 32 + length p)"
proof -
  have u: "unat (word_of_nat (length p) :: u32) = length p"
    using assms(2) by (simp add: valid_payload_def unat_valid_length)
  show ?thesis
    using assms(3) reader_at_record [OF assms(1)]
    by (simp add: readWALRecordAt_def walRecordHeaderSize_def valid_payload_header [OF assms(2)] u Let_def)
qed

lemma replay_loop_detached:
  assumes "f = pre @ encode_from l ps @ post" "\<forall>p \<in> set ps. valid_payload p"
  shows "\<exists>r. replay_loop DetachedCtx app
      \<lparr>rdFile = f, rdOffset = length pre, rdLimit = length (pre @ encode_from l ps),
       rdNextLSN = l, rdClosed = False\<rparr> s env =
    (case apply_all app (records_from l ps) s env of (e, s', env') \<Rightarrow> (e, r, s', env'))
    \<and> \<not> rdClosed r"
  using assms
proof (induction ps arbitrary: pre l s env)
  case Nil
  then show ?case
    by (subst replay_loop.simps) (simp add: WALReader_Next_def)
next
  case (Cons p ps)
  define lim where "lim = length (pre @ encode_from l (p # ps))"
  have f: "f = pre @ encodeWALRecord l p @ (encode_from (l + 1) ps @ post)"
    using Cons.prems(1) by simp
  have bound: "length pre + (32 + length p) \<le> lim" by (simp add: lim_def)
  have "readWALRecordAt (bytes_reader f) (length pre) lim l = Inr (\<lparr>recLSN = l, recPayload = p\<rparr>, 32 + length p)"
    by (rule read_record [OF f _ bound]) (use Cons.prems(2) in auto)
  then have nxt: "WALReader_Next DetachedCtx
      \<lparr>rdFile = f, rdOffset = length pre, rdLimit = lim, rdNextLSN = l, rdClosed = False\<rparr> env =
    (Inr \<lparr>recLSN = l, recPayload = p\<rparr>,
     \<lparr>rdFile = f, rdOffset = length (pre @ encodeWALRecord l p), rdLimit = lim, rdNextLSN = l + 1,
      rdClosed = False\<rparr>, env)"
    using bound by (simp add: WALReader_Next_def)
  obtain e s1 env1 where app: "app \<lparr>recLSN = l, recPayload = p\<rparr> s env = (e, s1, env1)"
    by (cases "app \<lparr>recLSN = l, recPayload = p\<rparr> s env")
  show ?case
  proof (cases e)
    case None
    have lim: "lim = length ((pre @ encodeWALRecord l p) @ encode_from (l + 1) ps)"
      by (simp add: lim_def)
    have "f = (pre @ encodeWALRecord l p) @ encode_from (l + 1) ps @ post" using f by simp
    from Cons.IH [OF this, of s1 env1] Cons.prems(2) show ?thesis
      unfolding lim [symmetric] lim_def [symmetric]
      by (subst replay_loop.simps) (auto simp: nxt app None split: prod.splits)
  next
    case (Some err)
    show ?thesis
      unfolding lim_def [symmetric] by (subst replay_loop.simps) (simp add: nxt app Some)
  qed
qed

subsection \<open>The handle\<close>

text \<open>
  A handle that holds the log \<open>ps\<close>: its file is that log, up to a record whose write failed
  (which poisoned the handle) and may be there in part or in full.
\<close>

definition partial_log :: "bytes \<Rightarrow> bytes list \<Rightarrow> bool" where
  "partial_log f ps \<longleftrightarrow> (\<exists>extra n. f = take n (log_bytes (ps @ extra)) \<and> length (log_bytes ps) \<le> n
     \<and> (\<forall>p \<in> set extra. valid_payload p) \<and> length (ps @ extra) < 2 ^ 64 \<and> length extra \<le> 1)"

definition wal_holds :: "WAL \<Rightarrow> bytes list \<Rightarrow> bool" where
  "wal_holds w ps \<longleftrightarrow> (\<forall>p \<in> set ps. valid_payload p) \<and> \<not> walReadOnly w
     \<and> walSize w = length (log_bytes ps) \<and> length ps < 2 ^ 64
     \<and> walLastLSN w = word_of_nat (length ps) \<and> walSynced w \<le> length (walFile w)
     \<and> (walPoisoned w = None \<longrightarrow> walFile w = log_bytes ps)
     \<and> partial_log (walFile w) ps"

lemma partial_log_exact [simp]: "length ps < 2 ^ 64 \<Longrightarrow> partial_log (log_bytes ps) ps"
  unfolding partial_log_def by (intro exI [of _ "[]"] exI [of _ "length (log_bytes ps)"]) simp

lemma partial_log_record:
  "valid_payload p \<Longrightarrow> Suc (length ps) < 2 ^ 64 \<Longrightarrow>
     partial_log (log_bytes ps @ take n (encodeWALRecord (word_of_nat (length ps) + 1) p)) ps"
  unfolding partial_log_def
  by (intro exI [of _ "[p]"] exI [of _ "length (log_bytes ps) + n"]) (simp add: log_bytes_snoc)

lemma wal_holdsI:
  assumes "\<forall>p \<in> set ps. valid_payload p" "\<not> walReadOnly w" "walFile w = log_bytes ps"
    "walSize w = length (log_bytes ps)" "length ps < 2 ^ 64"
    "walLastLSN w = word_of_nat (length ps)" "walSynced w \<le> length (log_bytes ps)"
  shows "wal_holds w ps"
  unfolding wal_holds_def using assms by simp

lemma length_log_bytes: "length (log_bytes ps) = 32 + length (encode_from 1 ps)"
  by (simp add: log_bytes_def)

lemma lsn_exhausted: "n < 2 ^ 64 \<Longrightarrow> (word_of_nat n :: u64) \<noteq> MaxUint64 \<longleftrightarrow> Suc n < 2 ^ 64"
proof -
  assume n: "n < 2 ^ 64"
  have "(word_of_nat n :: u64) = MaxUint64 \<longleftrightarrow> unat (word_of_nat n :: u64) = unat MaxUint64"
    by (simp add: word_unat_eq_iff)
  also have "\<dots> \<longleftrightarrow> n = 2 ^ 64 - 1"
    using n by (simp add: unat_of_nat_u64 unat_MaxUint64)
  finally show ?thesis using n by auto
qed

text \<open>Every outcome of an append: refused, failed in the write, or logged.\<close>

lemma WAL_Append_cases:
  assumes "WAL_Append ctx p w env = ((lsn, e), w', env')"
  obtains (refused) "lsn = 0" "e \<noteq> None" "w' = w"
  | (failed) n q where "lsn = 0" "e = Some q" "walPoisoned w = None" "valid_payload p"
      "walLastLSN w \<noteq> MaxUint64" "w' = w\<lparr>walFile := write_at (walFile w) (walSize w)
                 (take n (encodeWALRecord (walLastLSN w + 1) p)), walPoisoned := Some q\<rparr>"
  | (logged) "lsn = walLastLSN w + 1" "walPoisoned w = None" "valid_payload p"
      "walLastLSN w \<noteq> MaxUint64" "\<not> walClosed w" "\<not> walReadOnly w'" "\<not> walClosed w'"
      "walFile w' = write_at (walFile w) (walSize w) (encodeWALRecord lsn p)"
      "walSize w' = walSize w + (32 + length p)" "walLastLSN w' = lsn" "walPoisoned w' = e"
      "walSynced w' = walSynced w \<or> walSynced w' = length (walFile w')"
proof -
  have "(lsn = 0 \<and> e \<noteq> None \<and> w' = w) \<or>
    (\<exists>n q. lsn = 0 \<and> e = Some q \<and> walPoisoned w = None \<and> valid_payload p \<and>
       walLastLSN w \<noteq> MaxUint64 \<and> w' = w\<lparr>walFile := write_at (walFile w) (walSize w)
                 (take n (encodeWALRecord (walLastLSN w + 1) p)), walPoisoned := Some q\<rparr>) \<or>
    (lsn = walLastLSN w + 1 \<and> walPoisoned w = None \<and> valid_payload p \<and>
       walLastLSN w \<noteq> MaxUint64 \<and> \<not> walClosed w \<and> \<not> walReadOnly w' \<and> \<not> walClosed w' \<and>
       walFile w' = write_at (walFile w) (walSize w) (encodeWALRecord lsn p) \<and>
       walSize w' = walSize w + (32 + length p) \<and> walLastLSN w' = lsn \<and> walPoisoned w' = e \<and>
       (walSynced w' = walSynced w \<or> walSynced w' = length (walFile w')))"
    using assms unfolding WAL_Append_def
    by (auto simp: Let_def valid_payload_def syncFile_def WriteFullAt_def
        split: if_splits prod.splits option.splits)
  then show thesis
    using refused failed logged by blast
qed

text \<open>
  Either nothing was acknowledged and the log is unchanged, or exactly this payload was added
  under the next sequence number, whether or not the synchronisation that followed succeeded.
\<close>

lemma WAL_Append_holds:
  assumes "wal_holds w ps" "WAL_Append ctx p w env = ((lsn, e), w', env')"
  shows "(lsn = 0 \<and> e \<noteq> None \<and> wal_holds w' ps) \<or>
    (lsn = word_of_nat (length ps) + 1 \<and> lsn \<noteq> 0 \<and> wal_holds w' (ps @ [p]) \<and> walPoisoned w' = e)"
  using assms(2)
proof (cases rule: WAL_Append_cases)
  case refused
  then show ?thesis using assms(1) by simp
next
  case (failed n q)
  have w: "walFile w = log_bytes ps" "walSize w = length (log_bytes ps)"
    "walLastLSN w = word_of_nat (length ps)" "walSynced w \<le> length (log_bytes ps)"
    "length ps < 2 ^ 64"
    using assms(1) failed(3) by (auto simp: wal_holds_def)
  moreover have "Suc (length ps) < 2 ^ 64"
    using failed(5) w lsn_exhausted [of "length ps"] by simp
  ultimately have "wal_holds w' ps"
    using assms(1) failed unfolding wal_holds_def by (simp add: partial_log_record)
  then show ?thesis using failed by simp
next
  case logged
  have w: "walFile w = log_bytes ps" "walSize w = length (log_bytes ps)" "length ps < 2 ^ 64"
    "walLastLSN w = word_of_nat (length ps)" "\<forall>p \<in> set ps. valid_payload p"
    "walSynced w \<le> length (log_bytes ps)"
    using assms(1) logged(2) by (auto simp: wal_holds_def)
  have lsn: "Suc (length ps) < 2 ^ 64" "lsn \<noteq> 0"
    using logged(1,4) w(3,4) lsn_exhausted [of "length ps"] by (auto simp: add_eq_0_iff2)
  have "walFile w' = log_bytes (ps @ [p])"
    by (simp add: logged w log_bytes_snoc)
  then have "wal_holds w' (ps @ [p])"
    using w logged lsn by (intro wal_holdsI) (auto simp: log_bytes_snoc add.commute)
  then show ?thesis
    using logged w lsn by simp
qed

lemma WAL_Sync_holds:
  assumes "wal_holds w ps" "WAL_Sync ctx w env = (e, w', env')"
  shows "wal_holds w' ps" "walSynced w \<le> walSynced w'" 
    "e = None \<Longrightarrow> walSynced w' = length (log_bytes ps) \<and> walFile w' = log_bytes ps"
  using assms unfolding WAL_Sync_def
  by (auto simp: Let_def syncFile_def wal_holds_def split: if_splits prod.splits option.splits)

lemma WAL_Append_synced:
  assumes "wal_holds w ps" "WAL_Append ctx p w env = ((lsn, e), w', env')"
  shows "walSynced w \<le> walSynced w'"
  using assms(2)
proof (cases rule: WAL_Append_cases)
  case logged
  then show ?thesis
    using assms(1) by (auto simp: wal_holds_def)
qed simp_all

subsection \<open>Creating and reopening\<close>

lemma CreateWAL_holds:
  assumes "CreateWAL ctx name lock slot se env = (Inr w, slot', env')"
  shows "wal_holds w []" "slot = None" "slot' = Some (walFile w)" "walPoisoned w = None"
    "\<not> walClosed w"
proof -
  have w: "walFile w = log_bytes []" "walSize w = 32" "walLastLSN w = 0" "\<not> walReadOnly w"
    "walSynced w = 32"
    and other: "slot = None" "slot' = Some (walFile w)" "walPoisoned w = None" "\<not> walClosed w"
    using assms unfolding CreateWAL_def
    by (auto simp: WriteFullAt_def log_bytes_def walFileHeaderSize_def
        split: if_splits prod.splits option.splits sum.splits bool.splits)
  show "wal_holds w []"
    using w by (intro wal_holdsI) (simp_all add: log_bytes_def)
  show "slot = None" "slot' = Some (walFile w)" "walPoisoned w = None" "\<not> walClosed w"
    by (fact other)+
qed

text \<open>
  Reopening after a crash: whatever prefix of the log survived (at least its header), the open
  succeeds and the handle holds exactly the records that are complete in it.
\<close>

lemma openWAL_prefix:
  assumes "\<forall>p \<in> set ps. valid_payload p" "length ps < 2 ^ 64" "32 \<le> n" "quiet env"
    "ctx \<noteq> NilCtx" "name \<noteq> []"
  defines "k \<equiv> fits (n - 32) ps"
  shows "\<exists>w env'. openWAL ctx name (Inr True) (Some (take n (log_bytes ps))) se False env
      = (Inr w, Some (walFile w), env') \<and> quiet env' \<and> wal_holds w (take k ps)
      \<and> walPoisoned w = None \<and> \<not> walClosed w"
proof -
  define f where "f = take n (log_bytes ps)"
  obtain tail where tail: "f = log_bytes (take k ps) @ tail" "torn (1 + word_of_nat k) tail"
    using take_log_bytes [OF assms(1,3)] by (auto simp: k_def f_def)
  have k: "length (take k ps) = k" "k < 2 ^ 64"
    using fits_le [of "n - 32" ps] assms(2) by (simp_all add: k_def)
  obtain e1 where e1: "ctx_Err ctx env = (None, e1)" "quiet e1"
    using ctx_Err_quiet [OF assms(4), of ctx] by (metis prod.collapse)
  obtain e2 where e2: "os_call e1 = (None, e2)" "quiet e2"
    using os_call_quiet [OF e1(2)] by (metis prod.collapse)
  obtain e3 where e3: "os_call e2 = (None, e3)" "quiet e3"
    using os_call_quiet [OF e2(2)] by (metis prod.collapse)
  have valid: "\<forall>p \<in> set (take k ps). valid_payload p"
    using assms(1) by (auto dest: in_set_takeD)
  then obtain e4 where e4: "quiet e4" "scanWAL ctx (bytes_reader f) (length f) e3 =
    (Inr \<lparr>Records = word_of_nat k, LastLSN = word_of_nat k,
          ValidBytes = length (log_bytes (take k ps)), TruncatedBytes = length tail\<rparr>, e4)"
    using scanWAL_log [OF tail(1) _ _ e3(2), of ctx] torn_incomplete [OF tail(2)] k(1) by auto
  obtain e5 where e5: "os_call e4 = (None, e5)" "quiet e5"
    using os_call_quiet [OF e4(1)] by (metis prod.collapse)
  obtain e6 where e6: "sync_call e5 = (None, e6)" "quiet e6"
    using sync_call_quiet [OF e5(2)] by (metis prod.collapse)
  let ?w = "\<lambda>synced. \<lparr>walFile = log_bytes (take k ps), walSynced = synced, walSyncEvery = se,
    walRecovery = \<lparr>Records = word_of_nat k, LastLSN = word_of_nat k,
      ValidBytes = length (log_bytes (take k ps)), TruncatedBytes = length tail\<rparr>,
    walSize = length (log_bytes (take k ps)), walLastLSN = word_of_nat k, walDirtyRecords = 0,
    walPoisoned = None, walReadOnly = False, walClosed = False\<rparr>"
  have holds: "wal_holds (?w m) (take k ps)" if "m \<le> length (log_bytes (take k ps))" for m
    using valid k that by (intro wal_holdsI) auto
  note run = openWAL_def e1 e2 e3 e4 e5 e6 assms(5,6) Let_def f_def [symmetric]
  show ?thesis
  proof (cases "tail = []")
    case True
    then have fl: "log_bytes (take k ps) = f" using tail(1) by simp
    have "openWAL ctx name (Inr True) (Some f) se False env = (Inr (?w 0), Some f, e4)"
      using True by (simp add: run fl)
    then show ?thesis
      using e4(1) fl holds [of 0] by (simp add: f_def [symmetric])
  next
    case False
    have "take (length (log_bytes (take k ps))) f = log_bytes (take k ps)"
      using tail(1) by simp
    then show ?thesis
      using False holds e6(2) by (simp add: run)
  qed
qed

subsection \<open>Runs of a handle\<close>

text \<open>
  Any sequence of appends and syncs, with any contexts and any faults. The payload lists are
  the acknowledged payloads: those whose append returned a sequence number.
\<close>

inductive wal_reach :: "WAL \<Rightarrow> bytes list \<Rightarrow> WAL \<Rightarrow> bytes list \<Rightarrow> bool" where
  start: "wal_reach w ps w ps"
| append: "wal_reach w ps w1 qs \<Longrightarrow> WAL_Append ctx p w1 env = ((lsn, e), w2, env') \<Longrightarrow>
    wal_reach w ps w2 (if lsn = 0 then qs else qs @ [p])"
| sync: "wal_reach w ps w1 qs \<Longrightarrow> WAL_Sync ctx w1 env = (e, w2, env') \<Longrightarrow> wal_reach w ps w2 qs"

lemma wal_reach_holds:
  "wal_reach w ps w' qs \<Longrightarrow> wal_holds w ps \<Longrightarrow>
     wal_holds w' qs \<and> (\<exists>rs. qs = ps @ rs) \<and> walSynced w \<le> walSynced w'"
proof (induction rule: wal_reach.induct)
  case (append w ps w1 qs ctx p env lsn e w2 env')
  then show ?case
    using WAL_Append_holds [OF _ append.hyps(2)] WAL_Append_synced [OF _ append.hyps(2)]
    by (fastforce intro: order_trans)
next
  case (sync w ps w1 qs ctx env e w2 env')
  then show ?case
    using WAL_Sync_holds [OF _ sync.hyps(2)] by (fastforce intro: order_trans)
qed auto

lemma WAL_Replay_holds:
  assumes "wal_holds w ps" "walPoisoned w = None" "\<not> walClosed w" "quiet env"
  shows "\<exists>e0. quiet e0 \<and> WAL_Replay DetachedCtx app w s env =
    (case apply_all app (records_from 1 ps) s e0 of
       (err, s', e1) \<Rightarrow> (case os_call e1 of (closeErr, e2) \<Rightarrow> (errors_Join [err, closeErr], s', e2)))"
proof -
  obtain e0 where e0: "os_call env = (None, e0)" "quiet e0"
    using os_call_quiet [OF assms(4)] by (metis prod.collapse)
  have w: "walFile w = encodeWALFileHeader @ encode_from 1 ps"
    "walSize w = length (encodeWALFileHeader @ encode_from 1 ps)"
    and valid: "\<forall>p \<in> set ps. valid_payload p"
    using assms(1,2) by (auto simp: wal_holds_def log_bytes_def)
  have hd: "bytes_reader (walFile w) 0 32 = Inr encodeWALFileHeader"
    using bytes_reader_mid [of "[]" encodeWALFileHeader "encode_from 1 ps"] w by simp
  let ?r = "\<lparr>rdFile = walFile w, rdOffset = 32, rdLimit = walSize w, rdNextLSN = 1, rdClosed = False\<rparr>"
  have open_r: "WAL_NewReader w env = (Inr ?r, e0)"
    using assms(2,3) hd e0 by (simp add: WAL_NewReader_def walFileHeaderSize_def)
  obtain r where r: "replay_loop DetachedCtx app ?r s e0 =
      (case apply_all app (records_from 1 ps) s e0 of (e, s', env') \<Rightarrow> (e, r, s', env'))" "\<not> rdClosed r"
    using replay_loop_detached [of "walFile w" encodeWALFileHeader 1 ps "[]" app s e0] w valid
    by auto
  show ?thesis
    using e0 r by (intro exI [of _ e0])
      (auto simp: WAL_Replay_def open_r WALReader_Close_def split: prod.splits)
qed

subsection \<open>Only logs are accepted\<close>

lemma file_header_canonical:
  assumes "validateWALFileHeader h = None"
  shows "h = encodeWALFileHeader"
proof -
  note d = assms [unfolded validateWALFileHeader_def walFileHeaderSize_def]
  have len: "length h = 32" and magic: "slice 0 8 h = walMagic"
    and ver: "Uint16 (slice 8 10 h) = walFormatVersion" and sz: "Uint16 (slice 10 12 h) = 32"
    and mx: "Uint32 (slice 12 16 h) = word_of_nat MaxWALRecordSize"
    and z: "Uint64 (slice 16 24 h) = 0" "Uint32 (slice 28 32 h) = 0"
    and crc: "Uint32 (slice 24 28 h) = CRC32C (slice 0 24 h)"
    using d by (simp_all split: if_splits)
  have f1: "slice 8 10 h = PutUint16 walFormatVersion" "slice 10 12 h = PutUint16 32"
    using Uint_eqD(1) [OF ver] Uint_eqD(1) [OF sz] len by simp_all
  have f2: "slice 12 16 h = PutUint32 (word_of_nat MaxWALRecordSize)"
    "slice 28 32 h = replicate 4 0"
    using Uint_eqD(2) [OF mx] Uint_eqD(2) [OF z(2)] len by (simp_all add: PutUint32_zero)
  have f3: "slice 16 24 h = replicate 8 0"
    using Uint_eqD(3) [OF z(1)] len by (simp add: PutUint64_def)
  have f4: "slice 24 28 h = PutUint32 (CRC32C (slice 0 24 h))"
    by (rule Uint_eqD(2) [OF crc]) (simp add: len)
  have pre: "slice 0 24 h = walMagic @ PutUint16 walFormatVersion @ PutUint16 32
      @ PutUint32 (word_of_nat MaxWALRecordSize) @ replicate 8 0"
    by (simp add: f1 f2 f3 magic slice_split [of 0 8 24 h] slice_split [of 8 10 24 h]
        slice_split [of 10 12 24 h] slice_split [of 12 16 24 h])
  have "h = slice 0 24 h @ slice 24 28 h @ slice 28 32 h"
    using split_at [OF len, of 24] slice_split [of 24 28 32 h] by simp
  also have "\<dots> = encodeWALFileHeader"
    unfolding f4 f2(2) pre by (simp add: encodeWALFileHeader_def Let_def walFileHeaderSize_def)
  finally show ?thesis .
qed

text \<open>The bytes a scan round consumed are the canonical encoding of the payload it checked.\<close>

lemma accepted_record:
  assumes "bytes_reader f off 32 = Inr h" "decodeWALRecordHeader h l = Inr m"
    "bytes_reader f (off + 32) (unat (payloadLength m)) = Inr p" "CRC32C p = payloadCRC m"
  shows "drop off f = encodeWALRecord l p @ drop (off + (32 + unat (payloadLength m))) f"
    "valid_payload p" "length p = unat (payloadLength m)"
proof -
  let ?n = "unat (payloadLength m)"
  have len: "off + 32 + ?n \<le> length f" and h: "h = take 32 (drop off f)"
    and p: "p = take ?n (drop (off + 32) f)"
    using assms(1,3) by (auto simp: bytes_reader_def slice_def split: if_splits)
  show lp: "length p = ?n" using p len by simp
  then have "h = record_header l (word_of_nat (length p)) (CRC32C p)"
    using decode_canonical(1) [OF assms(2)] assms(4) by simp
  moreover have "drop off f = take 32 (drop off f) @ take ?n (drop (off + 32) f) @ drop (off + (32 + ?n)) f"
    by (rule drop_split3)
  ultimately show "drop off f = encodeWALRecord l p @ drop (off + (32 + ?n)) f"
    using h p by (simp add: encodeWALRecord_split)
  show "valid_payload p"
    using decode_canonical(3,4) [OF assms(2)] lp
    by (metis length_0_conv unat_eq_zero valid_payload_def)
qed

lemma scan_loop_sound:
  assumes "scan_loop ctx (bytes_reader f) (length f) off l rec env = (Inr r, env')"
    "off \<le> length f" "ValidBytes rec = off" "TruncatedBytes rec = 0" "LastLSN rec = l - 1"
  shows "\<exists>ps tail. (\<forall>p \<in> set ps. valid_payload p) \<and> drop off f = encode_from l ps @ tail
    \<and> incomplete_tail (l + word_of_nat (length ps)) tail
    \<and> Records r = Records rec + word_of_nat (length ps) \<and> LastLSN r = l + word_of_nat (length ps) - 1
    \<and> ValidBytes r = off + length (encode_from l ps) \<and> TruncatedBytes r = length tail"
  using assms
proof (induction "length f - off" arbitrary: off l rec env rule: less_induct)
  case less
  show ?case
  proof (cases "off < length f")
    case False
    then have "r = rec" using less.prems(1) by (subst (asm) scan_loop.simps) simp
    then show ?thesis
      using less.prems False by (intro exI [of _ "[]"] exI [of _ "drop off f"]) (simp add: incomplete_tail_def)
  next
    case True
    consider (short) "r = rec\<lparr>TruncatedBytes := length f - off\<rparr>" "length f - off < 32"
      | (cut) h m where "r = rec\<lparr>TruncatedBytes := length f - off\<rparr>" "bytes_reader f off 32 = Inr h"
        "decodeWALRecordHeader h l = Inr m" "length f - off < 32 + unat (payloadLength m)"
      | (more) h m p env1 where "bytes_reader f off 32 = Inr h" "decodeWALRecordHeader h l = Inr m"
        "bytes_reader f (off + 32) (unat (payloadLength m)) = Inr p" "CRC32C p = payloadCRC m"
        "32 + unat (payloadLength m) \<le> length f - off"
        "scan_loop ctx (bytes_reader f) (length f) (off + (32 + unat (payloadLength m))) (l + 1)
           (rec\<lparr>Records := Records rec + 1, LastLSN := l,
              ValidBytes := off + (32 + unat (payloadLength m))\<rparr>) env1 = (Inr r, env')"
      using less.prems(1) True
      by (subst (asm) scan_loop.simps)
        (auto simp: Let_def walRecordHeaderSize_def not_less
          split: if_splits prod.splits option.splits sum.splits)
    then show ?thesis
    proof cases
      case short
      then show ?thesis
        using less.prems by (intro exI [of _ "[]"] exI [of _ "drop off f"]) (simp add: incomplete_tail_def)
    next
      case cut
      then have "h = take 32 (drop off f)" by (auto simp: bytes_reader_def slice_def split: if_splits)
      then show ?thesis
        using cut less.prems by (intro exI [of _ "[]"] exI [of _ "drop off f"]) (simp add: incomplete_decodes)
    next
      case more
      note rec = accepted_record [OF more(1-4)]
      have a: "length f - (off + (32 + unat (payloadLength m))) < length f - off"
        "off + (32 + unat (payloadLength m)) \<le> length f"
        using more(5) True by linarith+
      obtain ps tail where ih: "\<forall>p \<in> set ps. valid_payload p"
        "drop (off + (32 + unat (payloadLength m))) f = encode_from (l + 1) ps @ tail"
        "incomplete_tail (l + 1 + word_of_nat (length ps)) tail"
        "Records r = Records rec + 1 + word_of_nat (length ps)"
        "LastLSN r = l + 1 + word_of_nat (length ps) - 1"
        "ValidBytes r = off + (32 + unat (payloadLength m)) + length (encode_from (l + 1) ps)"
        "TruncatedBytes r = length tail"
        using less.hyps [OF a(1) more(6)] a(2) less.prems(4) by auto
      show ?thesis
        using ih rec by (intro exI [of _ "p # ps"] exI [of _ tail]) (simp add: ac_simps)
    qed
  qed
qed

subsection \<open>Damage\<close>

text \<open>A record header with one byte changed never decodes.\<close>

lemma update_append_left: "j < length a \<Longrightarrow> (a @ b)[j := v] = a[j := v] @ b"
  by (simp add: list_update_append)

lemma update_append_right: "length a \<le> j \<Longrightarrow> (a @ b)[j := v] = a @ b[j - length a := v]"
  by (simp add: list_update_append)

lemma PutUint32_inj: "PutUint32 a = PutUint32 b \<Longrightarrow> a = b"
  by (metis Uint32_PutUint32)

lemma list_update_neq: "j < length xs \<Longrightarrow> v \<noteq> xs ! j \<Longrightarrow> xs[j := v] \<noteq> xs"
  by (metis nth_list_update_eq)

lemma decode_damaged_header:
  assumes "j < 32" "v \<noteq> record_header l n c ! j"
  shows "\<exists>err. decodeWALRecordHeader ((record_header l n c)[j := v]) l = Inl err"
proof (rule ccontr)
  let ?p = "record_prefix l n c"
  let ?k = "PutUint32 (CRC32C ?p)"
  assume "\<nexists>err. decodeWALRecordHeader ((record_header l n c)[j := v]) l = Inl err"
  then obtain m where m: "decodeWALRecordHeader ((record_header l n c)[j := v]) l = Inr m"
    by (metis sum.exhaust)
  let ?q = "record_prefix l (payloadLength m) (payloadCRC m)"
  have eq: "(?p @ ?k @ replicate 4 0)[j := v] = ?q @ PutUint32 (CRC32C ?q) @ replicate 4 0"
    using decode_canonical(1) [OF m] by (simp add: record_header_def)
  consider "j < 24" | "24 \<le> j" "j < 28" | "28 \<le> j" by linarith
  then show False
  proof cases
    case 1
    then have "?p[j := v] = ?q" "?k = PutUint32 (CRC32C ?q)"
      using eq by (simp_all add: update_append_left)
    then have "CRC32C (?p[j := v]) = CRC32C ?p" by (simp add: PutUint32_inj)
    moreover have "v \<noteq> ?p ! j"
      using assms(2) 1 by (simp add: record_header_def nth_append)
    ultimately show False
      using CRC32C_list_update [of j ?p v] 1 by simp
  next
    case 2
    then have "?p = ?q" "(?k @ replicate 4 0)[j - 24 := v] = PutUint32 (CRC32C ?q) @ replicate 4 0"
      using eq append_eq_append_conv [of ?p ?q] by (simp_all only: update_append_right length_record_prefix) auto
    then have "?k[j - 24 := v] = ?k"
      using 2 by (simp add: update_append_left)
    moreover have "j - 24 < 4" using 2 by simp
    then have "v \<noteq> ?k ! (j - 24)"
      using assms(2) 2 by (simp add: record_header_def nth_append)
    ultimately show False
      using list_update_neq [of "j - 24" ?k v] 2 by simp
  next
    case 3
    then have "(replicate 4 0)[j - 28 := v] = (replicate 4 0 :: bytes)"
      using eq by (simp add: update_append_right)
    moreover have "\<not> j - 24 < 4" "j - 28 < 4" using 3 assms(1) by simp_all
    then have "v \<noteq> replicate 4 0 ! (j - 28)"
      using assms 3 by (simp add: record_header_def nth_append)
    ultimately show False
      using list_update_neq [of "j - 28" "replicate 4 0" v] \<open>j - 28 < 4\<close> by simp
  qed
qed

text \<open>Without cancellation the scan fails only with the errors of a damaged or foreign file.\<close>

abbreviation scan_error :: "error \<Rightarrow> bool" where
  "scan_error err \<equiv> errors_Is err ErrWALCorrupt \<or> errors_Is err ErrUnsupportedFormatVersion"

lemma scan_loop_error:
  "quiet env \<Longrightarrow> scan_loop ctx rd sz off l rec env = (Inl err, env') \<Longrightarrow> errors_Is err ErrWALCorrupt"
proof (induction "sz - off" arbitrary: off l rec env rule: less_induct)
  case less
  obtain env1 where e: "ctx_Err ctx env = (None, env1)" "quiet env1"
    using ctx_quietE [OF less.prems(1)] by metis
  have "errors_Is err ErrWALCorrupt \<or> (\<exists>off' l' rec'. off < sz \<and> off < off'
      \<and> scan_loop ctx rd sz off' l' rec' env1 = (Inl err, env'))"
    using less.prems(2) e(1)
    by (subst (asm) scan_loop.simps)
      (fastforce simp: Let_def walRecordHeaderSize_def split: if_splits sum.splits)
  then show ?case using less.hyps e(2) by (metis diff_less_mono2)
qed

lemma scanWAL_error: "quiet env \<Longrightarrow> scanWAL ctx rd sz env = (Inl err, env') \<Longrightarrow> scan_error err"
  by (auto simp: scanWAL_def validateWALFileHeader_def dest: scan_loop_error split: if_splits sum.splits option.splits)

lemma scan_loop_damaged:
  assumes "f = pre @ (encodeWALRecord l p)[j := v] @ post" "valid_payload p" "quiet env"
    "j < 32 + length p" "v \<noteq> encodeWALRecord l p ! j"
  shows "\<exists>err env'. scan_loop ctx (bytes_reader f) (length f) (length pre) l rec env = (Inl err, env')
    \<and> errors_Is err ErrWALCorrupt"
proof -
  let ?h = "record_header l (word_of_nat (length p)) (CRC32C p)"
  obtain env' where e: "ctx_Err ctx env = (None, env')" "quiet env'"
    using ctx_Err_quiet [OF assms(3), of ctx] by (metis prod.collapse)
  have bounds: "length pre < length f" "32 + length p \<le> length f - length pre"
    by (simp_all add: assms(1))
  have u: "unat (word_of_nat (length p) :: u32) = length p"
    using assms(2) by (simp add: valid_payload_def unat_valid_length)
  show ?thesis
  proof (cases "j < 32")
    case True
    then have "f = pre @ ?h[j := v] @ (p @ post)"
      by (simp add: assms(1) encodeWALRecord_split update_append_left)
    then have rd: "bytes_reader f (length pre) 32 = Inr (?h[j := v])"
      using bytes_reader_mid [of pre "?h[j := v]" "p @ post"] by simp
    have "v \<noteq> ?h ! j"
      using assms(5) True by (simp add: encodeWALRecord_split nth_append)
    then obtain err where "decodeWALRecordHeader (?h[j := v]) l = Inl err"
      using decode_damaged_header [OF True] by blast
    then show ?thesis
      using bounds by (subst scan_loop.simps) (simp add: e rd walRecordHeaderSize_def Let_def)
  next
    case False
    let ?q = "p[j - 32 := v]"
    have f: "f = pre @ ?h @ (?q @ post)" "f = (pre @ ?h) @ ?q @ post"
      using False by (simp_all add: assms(1) encodeWALRecord_split update_append_right)
    have rd: "bytes_reader f (length pre) 32 = Inr ?h"
      "bytes_reader f (length pre + 32) (length p) = Inr ?q"
      using bytes_reader_mid [of pre ?h "?q @ post"] bytes_reader_mid [of "pre @ ?h" ?q post] f
      by simp_all
    have "CRC32C ?q \<noteq> CRC32C p"
      using False assms(4,5) by (intro CRC32C_list_update) (auto simp: encodeWALRecord_split nth_append)
    then show ?thesis
      using bounds
      by (subst scan_loop.simps)
        (simp add: e rd u valid_payload_header [OF assms(2)] walRecordHeaderSize_def Let_def)
  qed
qed

lemma encode_from_index:
  assumes "j < length (encode_from l ps)"
  shows "\<exists>as p bs i. ps = as @ p # bs \<and> i < 32 + length p \<and> j = length (encode_from l as) + i"
  using assms
proof (induction ps arbitrary: l j)
  case Nil
  then show ?case by simp
next
  case (Cons p ps)
  show ?case
  proof (cases "j < 32 + length p")
    case True
    then show ?thesis by (intro exI [of _ "[]"] exI [of _ p] exI [of _ ps] exI [of _ j]) simp
  next
    case False
    then obtain as q bs i where "ps = as @ q # bs" "i < 32 + length q"
      "j - (32 + length p) = length (encode_from (l + 1) as) + i"
      using Cons.IH [of "j - (32 + length p)" "l + 1"] Cons.prems by fastforce
    then show ?thesis
      using False by (intro exI [of _ "p # as"] exI [of _ q] exI [of _ bs] exI [of _ i]) simp
  qed
qed

text \<open>A crash that keeps the records \<open>ps\<close>: the log reopens with them first, and with at most one record more than it held.\<close>

lemma crash_reopens:
  assumes "wal_holds w qs" "qs = ps @ suf" "length (log_bytes ps) \<le> n"
    "img = take n (walFile w)" "quiet env" "ctx \<noteq> NilCtx" "name \<noteq> []"
  shows "\<exists>w3 rs extra k env3. OpenWAL ctx name (Inr True) (Some img) se env
      = (Inr w3, Some (walFile w3), env3) \<and> wal_holds w3 rs \<and> walPoisoned w3 = None
      \<and> rs = take k (qs @ extra) \<and> length extra \<le> 1 \<and> (\<exists>rest. rs = ps @ rest)
      \<and> \<not> walClosed w3 \<and> (walPoisoned w = None \<longrightarrow> extra = [])"
proof -
  have "\<exists>extra m. walFile w = take m (log_bytes (qs @ extra)) \<and> (\<forall>p \<in> set extra. valid_payload p)
      \<and> length (qs @ extra) < 2 ^ 64 \<and> length (log_bytes qs) \<le> m \<and> length extra \<le> 1 \<and> (walPoisoned w = None \<longrightarrow> extra = [])"
  proof (cases "walPoisoned w")
    case None
    then show ?thesis using assms(1)
      by (intro exI [of _ "[]"] exI [of _ "length (log_bytes qs)"]) (simp add: wal_holds_def)
  next
    case (Some err)
    moreover obtain extra m where "walFile w = take m (log_bytes (qs @ extra))" "length (log_bytes qs) \<le> m"
      "\<forall>p \<in> set extra. valid_payload p" "length (qs @ extra) < 2 ^ 64" "length extra \<le> 1"
      using assms(1) unfolding wal_holds_def partial_log_def by blast
    ultimately show ?thesis by (metis option.distinct(1))
  qed
  then obtain extra m where f: "walFile w = take m (log_bytes (qs @ extra))"
    "\<forall>p \<in> set extra. valid_payload p" "length (qs @ extra) < 2 ^ 64" "length (log_bytes qs) \<le> m"
    "length extra \<le> 1" "walPoisoned w = None \<longrightarrow> extra = []" by metis
  have valid: "\<forall>p \<in> set (qs @ extra). valid_payload p"
    using f(2) assms(1) by (auto simp: wal_holds_def)
  have enough: "length (log_bytes ps) \<le> min n m"
    using assms(2,3) f(4) by (simp add: log_bytes_def encode_from_append)
  let ?k = "fits (min n m - 32) (qs @ extra)"
  have "length (encode_from 1 ps) \<le> min n m - 32"
    using enough unfolding length_log_bytes by linarith
  then have "length ps \<le> ?k"
    using fits_append [of 1 ps "min n m - 32" "suf @ extra"] assms(2) by simp
  then have "\<exists>rest. take ?k (qs @ extra) = ps @ rest"
    using assms(2) by simp
  moreover have "32 \<le> min n m"
    using enough by (simp add: length_log_bytes)
  ultimately show ?thesis
    using openWAL_prefix [OF valid f(3) _ assms(5-7), of "min n m" se] assms(4) f(1,5,6)
    by (fastforce simp: OpenWAL_def min.commute)
qed

subsection \<open>Properties\<close>

text \<open>
  C1: Durability across crashes. Take any handle that holds the payloads \<open>ps\<close> and whose
  \<^verbatim>\<open>Sync\<close> succeeded; run any further appends and syncs, with any cancellations and any write
  or sync faults; then crash, keeping any prefix of the file that contains at least what was
  synced. Reopening succeeds, every payload of \<open>ps\<close> is recovered, in order and first, and what is
  recovered beyond it agrees with the payloads acknowledged later (up to one record whose append
  failed or was lost).
\<close>

theorem synced_records_survive_crash:
  assumes "wal_holds w ps" "WAL_Sync ctx1 w env1 = (None, w1, env1')" "wal_reach w1 ps w2 qs"
    "img = take n (walFile w2)" "walSynced w2 \<le> n" "quiet env2" "ctx2 \<noteq> NilCtx" "name \<noteq> []"
  shows "\<exists>w3 rs extra k env3. OpenWAL ctx2 name (Inr True) (Some img) se env2
      = (Inr w3, Some (walFile w3), env3) \<and> wal_holds w3 rs \<and> walPoisoned w3 = None
      \<and> rs = take k (qs @ extra) \<and> length extra \<le> 1 \<and> (\<exists>more. rs = ps @ more)"
proof -
  have s1: "wal_holds w1 ps" "walSynced w1 = length (log_bytes ps)"
    using WAL_Sync_holds [OF assms(1,2)] by auto
  from wal_reach_holds [OF assms(3) s1(1)] obtain more where
    s2: "wal_holds w2 qs" "qs = ps @ more" "walSynced w1 \<le> walSynced w2" by auto
  have "length (log_bytes ps) \<le> n" using s1(2) s2(3) assms(5) by simp
  from crash_reopens [OF s2(1,2) this assms(4,6-8), of se] show ?thesis by metis
qed


text \<open>
  C2: The recovery scan accepts exactly the write-ahead logs. If it succeeds on the bytes of a
  file, then the file is the canonical log of some payloads followed by an incomplete tail: a partial
  record header, or the valid header of the next record with only a part of its payload. The reported
  record count, last sequence number and valid length are those of that log and the truncated
  length is that of the tail. Every other file is refused, when nothing is cancelled with the error of
  a corrupt log or of an unsupported version: an undecodable header and a payload that does not match
  its checksum are never taken for a tail.
\<close>

theorem scan_accepts_only_logs:
  "(\<forall>r env'. scanWAL ctx (bytes_reader f) (length f) env = (Inr r, env') \<longrightarrow>
      (\<exists>ps tail. f = log_bytes ps @ tail \<and> (\<forall>p \<in> set ps. valid_payload p)
        \<and> incomplete_tail (1 + word_of_nat (length ps)) tail
        \<and> Records r = word_of_nat (length ps) \<and> LastLSN r = word_of_nat (length ps)
        \<and> ValidBytes r = length (log_bytes ps) \<and> TruncatedBytes r = length tail))
   \<and> (\<forall>err env'. quiet env \<and> scanWAL ctx (bytes_reader f) (length f) env = (Inl err, env') \<longrightarrow>
      (errors_Is err ErrWALCorrupt \<or> errors_Is err ErrUnsupportedFormatVersion)
      \<and> (\<nexists>ps tail. f = log_bytes ps @ tail \<and> (\<forall>p \<in> set ps. valid_payload p)
           \<and> incomplete_tail (1 + word_of_nat (length ps)) tail))"
proof (intro conjI allI impI, goal_cases)
  case (1 r env')
  let ?rec = "\<lparr>Records = 0, LastLSN = 0, ValidBytes = 32, TruncatedBytes = 0\<rparr>"
  obtain h where h: "32 \<le> length f" "bytes_reader f 0 32 = Inr h" "validateWALFileHeader h = None"
    and loop: "scan_loop ctx (bytes_reader f) (length f) 32 1 ?rec env = (Inr r, env')"
    using 1 by (auto simp: scanWAL_def walFileHeaderSize_def split: if_splits sum.splits option.splits)
  obtain ps tail where ps: "\<forall>p \<in> set ps. valid_payload p" "drop 32 f = encode_from 1 ps @ tail"
    "incomplete_tail (1 + word_of_nat (length ps)) tail"
    "Records r = word_of_nat (length ps)" "LastLSN r = word_of_nat (length ps)"
    "ValidBytes r = 32 + length (encode_from 1 ps)" "TruncatedBytes r = length tail"
    using scan_loop_sound [OF loop] h(1) by auto
  have "take 32 f = encodeWALFileHeader"
    using h file_header_canonical by (simp add: bytes_reader_def slice_def)
  then have "f = log_bytes ps @ tail"
    using ps(2) by (metis append_assoc append_take_drop_id log_bytes_def)
  then show ?case
    using ps by (auto simp: length_log_bytes)
next
  case (2 err env')
  then show ?case using scanWAL_error by blast
next
  case (3 err env')
  then show ?case using scanWAL_log [of f] by (metis prod.inject sum.distinct(1))
qed

text \<open>
  C3: Damage is never silent. Changing any single byte of the records of a log makes the
  recovery scan fail with the corruption error: it is neither accepted nor mistaken for an
  incomplete tail.
\<close>

theorem damaged_record_detected:
  assumes "\<forall>p \<in> set ps. valid_payload p" "32 \<le> i" "i < length (log_bytes ps)"
    "v \<noteq> log_bytes ps ! i" "quiet env"
  shows "\<exists>err env'. scanWAL ctx (bytes_reader ((log_bytes ps)[i := v])) (length (log_bytes ps)) env
      = (Inl err, env') \<and> errors_Is err ErrWALCorrupt"
proof -
  have "i - 32 < length (encode_from 1 ps)"
    using assms(2,3) unfolding length_log_bytes by linarith
  then obtain as p bs j where sp: "ps = as @ p # bs" "j < 32 + length p"
    "i - 32 = length (encode_from 1 as) + j"
    using encode_from_index by blast
  let ?l = "1 + word_of_nat (length as) :: u64"
  let ?r = "encodeWALRecord ?l p"
  define pre where "pre = encodeWALFileHeader @ encode_from 1 as"
  define f where "f = (log_bytes ps)[i := v]"
  have lb: "log_bytes ps = pre @ ?r @ encode_from (?l + 1) bs"
    by (simp add: log_bytes_def sp(1) encode_from_append pre_def)
  have i: "i = length pre + j"
    using sp(3) assms(2) by (simp add: pre_def)
  have f: "f = pre @ ?r[j := v] @ encode_from (?l + 1) bs"
    using sp(2) by (simp add: f_def lb i update_append_left update_append_right)
  have v: "v \<noteq> ?r ! j"
    using assms(4) sp(2) by (simp add: lb i nth_append)
  have f2: "f = encodeWALFileHeader @ encode_from 1 as @ (?r[j := v] @ encode_from (?l + 1) bs)"
    by (simp add: f pre_def)
  have hd: "bytes_reader f 0 32 = Inr encodeWALFileHeader"
    using bytes_reader_mid [of "[]" encodeWALFileHeader] f2 by simp
  have len: "length f = length (log_bytes ps)" "32 \<le> length f"
    by (simp_all add: f_def length_log_bytes)
  have valid: "valid_payload p" "\<forall>q \<in> set as. valid_payload q"
    using assms(1) sp(1) by auto
  obtain env1 where e1: "quiet env1"
    and go: "scan_loop ctx (bytes_reader f) (length f) (length encodeWALFileHeader) 1
        \<lparr>Records = 0, LastLSN = 0, ValidBytes = 32, TruncatedBytes = 0\<rparr> env =
      scan_loop ctx (bytes_reader f) (length f) (length pre) ?l
        \<lparr>Records = word_of_nat (length as), LastLSN = word_of_nat (length as),
         ValidBytes = length pre, TruncatedBytes = 0\<rparr> env1"
    using scan_loop_records [OF f2 valid(2) assms(5),
        of "\<lparr>Records = 0, LastLSN = 0, ValidBytes = 32, TruncatedBytes = 0\<rparr>" ctx]
    by (auto simp: pre_def)
  obtain err env2 where "scan_loop ctx (bytes_reader f) (length f) (length pre) ?l
        \<lparr>Records = word_of_nat (length as), LastLSN = word_of_nat (length as),
         ValidBytes = length pre, TruncatedBytes = 0\<rparr> env1 = (Inl err, env2)"
      "errors_Is err ErrWALCorrupt"
    using scan_loop_damaged [OF f valid(1) e1 sp(2) v] by blast
  then have "scanWAL ctx (bytes_reader f) (length f) env = (Inl err, env2)"
    using hd len go by (simp add: scanWAL_def walFileHeaderSize_def)
  then show ?thesis
    using \<open>errors_Is err ErrWALCorrupt\<close> len(1) by (auto simp: f_def)
qed

definition sample_wal :: "bytes list \<Rightarrow> WAL" where
  "sample_wal ps =
     \<lparr>walFile = log_bytes ps, walSynced = 0, walSyncEvery = 0,
      walRecovery = \<lparr>Records = 0, LastLSN = 0, ValidBytes = 32, TruncatedBytes = 0\<rparr>,
      walSize = length (log_bytes ps), walLastLSN = word_of_nat (length ps), walDirtyRecords = 0,
      walPoisoned = None, walReadOnly = False, walClosed = False\<rparr>"

lemma sample_wal_holds:
  "\<forall>p \<in> set ps. valid_payload p \<Longrightarrow> length ps < 2 ^ 64 \<Longrightarrow> wal_holds (sample_wal ps) ps"
  by (rule wal_holdsI) (simp_all add: sample_wal_def)

text \<open>Witness of C1: a one-record log, synced and reopened from the whole file.\<close>

theorem synced_records_survive_crash_witness:
  "\<exists>w3 rs extra k env3. OpenWAL Ctx ''wal'' (Inr True) (Some (log_bytes [[7]])) 0 calm
      = (Inr w3, Some (walFile w3), env3) \<and> wal_holds w3 rs \<and> walPoisoned w3 = None
      \<and> rs = take k ([[7]] @ extra) \<and> length extra \<le> 1 \<and> (\<exists>more. rs = [[7]] @ more)"
proof -
  let ?w = "sample_wal [[7]]"
  let ?w1 = "?w\<lparr>walSynced := length (log_bytes [[7]]), walDirtyRecords := 0\<rparr>"
  have h: "wal_holds ?w [[7]]"
    by (rule sample_wal_holds) (simp_all add: valid_payload_def MaxWALRecordSize_def)
  have s: "WAL_Sync DetachedCtx ?w calm = (None, ?w1, calm)"
    by (simp add: WAL_Sync_def syncFile_def sync_call_def sample_wal_def calm_def)
  have img: "log_bytes [[7]] = take (length (log_bytes [[7]])) (walFile ?w1)"
    by (simp add: sample_wal_def)
  show ?thesis
    by (rule synced_records_survive_crash [OF h s wal_reach.start img]) simp_all
qed

text \<open>Witness of C2: a log of one record with the first byte of the next is accepted.\<close>

theorem scan_accepts_only_logs_witness:
  "\<exists>r env' ps tail. scanWAL Ctx (bytes_reader (log_bytes [[7]] @ [0x5A])) (length (log_bytes [[7]] @ [0x5A])) calm = (Inr r, env')
    \<and> log_bytes [[7]] @ [0x5A] = log_bytes ps @ tail \<and> incomplete_tail (1 + word_of_nat (length ps)) tail
    \<and> Records r = word_of_nat (length ps) \<and> TruncatedBytes r = length tail"
proof -
  let ?f = "log_bytes [[7]] @ [0x5A]"
  obtain res env' where res: "scanWAL Ctx (bytes_reader ?f) (length ?f) calm = (res, env')" by fastforce
  have "\<forall>p \<in> set [[7]]. valid_payload p" "incomplete_tail (1 + word_of_nat (length [[7 :: u8]])) [0x5A]"
    by (simp_all add: valid_payload_def MaxWALRecordSize_def incomplete_tail_def)
  then have "\<exists>r. res = Inr r"
    using scan_accepts_only_logs [of Ctx ?f calm] res quiet_calm by (cases res) blast+
  then show ?thesis using scan_accepts_only_logs [of Ctx ?f calm] res by blast
qed

text \<open>Witness of C3: the payload byte of a one-record log, changed.\<close>

theorem damaged_record_detected_witness:
  "\<exists>err env'. scanWAL Ctx (bytes_reader ((log_bytes [[7]])[64 := 8])) (length (log_bytes [[7]])) calm
      = (Inl err, env') \<and> errors_Is err ErrWALCorrupt"
proof (rule damaged_record_detected)
  show "\<forall>p \<in> set [[7]]. valid_payload p"
    by (simp add: valid_payload_def MaxWALRecordSize_def)
  show "8 \<noteq> log_bytes [[7]] ! 64"
    by (simp add: log_bytes_def encodeWALRecord_split nth_append)
qed (simp_all add: length_log_bytes)

end
