(* ===== verification/Write_Engine.thy ===== *)
theory Write_Engine
  imports Manager_Invariant Wal_Recovery
begin

text \<open>
  The write engine, \<^verbatim>\<open>src/internal/db/write_engine.go\<close>: every mutation is encoded, appended to the
  write-ahead log and only then applied to the write segment, the deletion set and the IDMap. The engine
  owns the segment manager and the log here (pointers in the source). The four batch methods repeat one
  loop, which is written once.
\<close>

subsection \<open>Operations and their encoding\<close>

definition writeOperationVersion :: u16 where "writeOperationVersion = 3"
definition writeOperationHeaderSize :: nat where "writeOperationHeaderSize = 24"

definition writeOperationMagic :: bytes where
  "writeOperationMagic = [0x5A, 0x4F, 0x50, 0x31]"

type_synonym writeOperationType = u8

definition writeOperationInsert :: writeOperationType where "writeOperationInsert = 1"
definition writeOperationUpsert :: writeOperationType where "writeOperationUpsert = 2"
definition writeOperationUpdate :: writeOperationType where "writeOperationUpdate = 3"
definition writeOperationDelete :: writeOperationType where "writeOperationDelete = 4"

record writeOperation =
  opType :: writeOperationType
  opDocID :: u64
  opPrimaryKey :: bytes
  opPayload :: bytes

record WriteInput =
  inPrimaryKey :: bytes
  inPayload :: bytes

record WriteResult =
  wrPrimaryKey :: bytes
  wrDocID :: u64
  wrErr :: "error option"

definition encodeWriteOperation :: "writeOperation \<Rightarrow> error + bytes" where
  "encodeWriteOperation operation =
     (if opType operation < writeOperationInsert \<or> writeOperationDelete < opType operation
      then Inl (ErrMsg ''db: invalid write operation type'')
      else case ValidatePrimaryKey (opPrimaryKey operation) of
        Some err \<Rightarrow> Inl err
      | None \<Rightarrow>
        if MaxDocumentPayloadSize < length (opPayload operation)
        then Inl (ErrMsg ''db: write operation payload is too large'')
        else
          let header = writeOperationMagic @ PutUint16 writeOperationVersion @ [opType operation, 0]
                @ PutUint64 (opDocID operation) @ PutUint32 (word_of_nat (length (opPrimaryKey operation)))
                @ PutUint32 (word_of_nat (length (opPayload operation)));
              body = opPrimaryKey operation @ opPayload operation in
          Inr (header @ PutUint32 (UpdateCRC32C (CRC32C header) body) @ body))"

definition decodeWriteOperation :: "bytes \<Rightarrow> error + writeOperation" where
  "decodeWriteOperation encoded =
     (if length encoded < writeOperationHeaderSize + 4 then Inl (ErrMsg ''db: truncated write operation'')
      else if slice 0 4 encoded \<noteq> writeOperationMagic then Inl (ErrMsg ''db: invalid write operation magic'')
      else if Uint16 (slice 4 6 encoded) \<noteq> writeOperationVersion
      then Inl (wrapf ErrUnsupportedFormatVersion ''write operation version %d'')
      else
        let operationType = encoded ! 6 in
        if operationType < writeOperationInsert \<or> writeOperationDelete < operationType \<or> encoded ! 7 \<noteq> 0
        then Inl (ErrMsg ''db: invalid write operation type or flags'')
        else
          let keyLength = unat (Uint32 (slice 16 20 encoded));
              payloadLength = unat (Uint32 (slice 20 24 encoded)) in
          if keyLength = 0 \<or> MaxPrimaryKeyBytes < keyLength \<or> MaxDocumentPayloadSize < payloadLength
             \<or> keyLength + payloadLength \<noteq> length encoded - writeOperationHeaderSize - 4
          then Inl (ErrMsg ''db: invalid write operation lengths'')
          else if UpdateCRC32C (CRC32C (slice 0 writeOperationHeaderSize encoded))
                    (drop (writeOperationHeaderSize + 4) encoded)
                  \<noteq> Uint32 (slice writeOperationHeaderSize (writeOperationHeaderSize + 4) encoded)
          then Inl (ErrMsg ''db: write operation checksum mismatch'')
          else
            let keyStart = writeOperationHeaderSize + 4;
                key = slice keyStart (keyStart + keyLength) encoded in
            (case ValidatePrimaryKey key of
               Some err \<Rightarrow> Inl err
             | None \<Rightarrow> Inr \<lparr>opType = operationType, opDocID = Uint64 (slice 8 16 encoded),
                             opPrimaryKey = key, opPayload = drop (keyStart + keyLength) encoded\<rparr>))"

subsection \<open>The engine\<close>

record 'db WriteEngine =
  weManager :: "'db SegmentManager"
  weWal :: WAL
  wePoisoned :: "error option"

definition NewWriteEngine :: "'db SegmentManager \<Rightarrow> WAL \<Rightarrow> error + 'db WriteEngine" where
  "NewWriteEngine manager w =
     (if sgWriting manager = None then Inl (ErrMsg ''db: segment manager has no writing segment'')
      else Inr \<lparr>weManager = manager, weWal = w, wePoisoned = None\<rparr>)"

definition WriteEngine_Err :: "'db WriteEngine \<Rightarrow> error option" where
  "WriteEngine_Err e = wePoisoned e"

text \<open>\<^verbatim>\<open>poisonLocked\<close>: the first cause sticks; the handle's error is returned.\<close>

definition poisonLocked :: "error option \<Rightarrow> 'db WriteEngine \<Rightarrow> error option \<times> 'db WriteEngine" where
  "poisonLocked cause e =
     (case cause of
        None \<Rightarrow> (None, e)
      | Some err \<Rightarrow>
          let e = (if wePoisoned e = None
                   then e\<lparr>wePoisoned := errors_Join [Some (Sentinel ErrWriteEnginePoisoned), Some err]\<rparr> else e) in
          (wePoisoned e, e))"

text \<open>A failed application poisons the engine; the document ID reported is zero.\<close>

definition apply_failed :: "error option \<Rightarrow> error \<Rightarrow> 'db WriteEngine \<Rightarrow> env
    \<Rightarrow> (u64 \<times> error option) \<times> 'db WriteEngine \<times> env" where
  "apply_failed syncErr err e env =
     (case poisonLocked (errors_Join [syncErr, Some err]) e of (r, e) \<Rightarrow> ((0, r), e, env))"

text \<open>The last statements of every operation: a synchronization error poisons the engine.\<close>

definition finish :: "u64 \<Rightarrow> error option \<Rightarrow> 'db WriteEngine \<Rightarrow> env
    \<Rightarrow> (u64 \<times> error option) \<times> 'db WriteEngine \<times> env" where
  "finish docID syncErr e env =
     (case syncErr of
        Some err \<Rightarrow> (case poisonLocked (Some err) e of (r, e) \<Rightarrow> ((docID, r), e, env))
      | None \<Rightarrow> ((docID, None), e, env))"

abbreviation set_wal :: "WAL \<Rightarrow> 'db WriteEngine \<Rightarrow> 'db WriteEngine" where
  "set_wal w e \<equiv> e\<lparr>weWal := w\<rparr>"
abbreviation set_writing :: "WriteSegment \<Rightarrow> 'db WriteEngine \<Rightarrow> 'db WriteEngine" where
  "set_writing s e \<equiv> e\<lparr>weManager := (weManager e)\<lparr>sgWriting := Some s\<rparr>\<rparr>"
abbreviation set_keys :: "'db PrimaryKeyMap \<Rightarrow> 'db WriteEngine \<Rightarrow> 'db WriteEngine" where
  "set_keys pk e \<equiv> e\<lparr>weManager := (weManager e)\<lparr>sgPrimaryKey := pk\<rparr>\<rparr>"
abbreviation set_deletes :: "DeleteStore \<Rightarrow> 'db WriteEngine \<Rightarrow> 'db WriteEngine" where
  "set_deletes ds e \<equiv> e\<lparr>weManager := (weManager e)\<lparr>sgDeletes := ds\<rparr>\<rparr>"

definition insertOneLocked :: "'db pebble \<Rightarrow> ctx \<Rightarrow> WriteInput \<Rightarrow> 'db WriteEngine \<Rightarrow> env
    \<Rightarrow> (u64 \<times> error option) \<times> 'db WriteEngine \<times> env" where
  "insertOneLocked ops ctx input e env =
     (if wePoisoned e \<noteq> None then ((0, wePoisoned e), e, env)
      else case ValidatePrimaryKey (inPrimaryKey input) of
        Some err \<Rightarrow> ((0, Some err), e, env)
      | None \<Rightarrow>
        if MaxDocumentPayloadSize < length (inPayload input)
        then ((0, Some (ErrMsg ''db: document payload is %d bytes, maximum %d'')), e, env)
        else (case PrimaryKeyMap_Get ops (sgPrimaryKey (weManager e)) (inPrimaryKey input) of
            (_, exists, Some err) \<Rightarrow> ((0, Some err), e, env)
          | (_, exists, None) \<Rightarrow>
            if exists then ((0, Some (wrapf ErrPrimaryKeyExists ''%q'')), e, env)
            else (case sgWriting (weManager e) of
                None \<Rightarrow> ((0, Some (ErrMsg ''db: no writing segment'')), e, env)
              | Some writing \<Rightarrow>
                (case WriteSegment_NextDocumentID writing of
                   Inl err \<Rightarrow> ((0, Some err), e, env)
                 | Inr docID \<Rightarrow>
                   (case encodeWriteOperation \<lparr>opType = writeOperationInsert, opDocID = docID,
                           opPrimaryKey = inPrimaryKey input, opPayload = inPayload input\<rparr> of
                      Inl err \<Rightarrow> ((0, Some err), e, env)
                    | Inr encoded \<Rightarrow>
                      (case WAL_Append ctx encoded (weWal e) env of
                         ((lsn, syncErr), w, env) \<Rightarrow>
                         if syncErr \<noteq> None \<and> lsn = 0 then ((0, syncErr), set_wal w e, env)
                         else
                           let applyContext = WithoutCancel ctx in
                           (case WriteSegment_ApplyExpected applyContext docID (inPrimaryKey input) (inPayload input)
                                   writing env of
                              (Some err, s, env) \<Rightarrow>
                                apply_failed syncErr (ErrWrap ''db: apply WAL insert'' [err]) (set_writing s (set_wal w e)) env
                            | (None, s, env) \<Rightarrow>
                              (case PrimaryKeyMap_PutNew ops applyContext (inPrimaryKey input) docID
                                      (sgPrimaryKey (weManager e)) env of
                                 (Some err, pk, env) \<Rightarrow>
                                   apply_failed syncErr (ErrWrap ''db: index WAL insert'' [err])
                                     (set_keys pk (set_writing s (set_wal w e))) env
                               | (None, pk, env) \<Rightarrow>
                                   finish docID syncErr (set_keys pk (set_writing s (set_wal w e))) env))))))))"

definition upsertOneLocked :: "'db pebble \<Rightarrow> ctx \<Rightarrow> WriteInput \<Rightarrow> 'db WriteEngine \<Rightarrow> env
    \<Rightarrow> (u64 \<times> error option) \<times> 'db WriteEngine \<times> env" where
  "upsertOneLocked ops ctx input e env =
     (if wePoisoned e \<noteq> None then ((0, wePoisoned e), e, env)
      else case ValidatePrimaryKey (inPrimaryKey input) of
        Some err \<Rightarrow> ((0, Some err), e, env)
      | None \<Rightarrow>
        if MaxDocumentPayloadSize < length (inPayload input)
        then ((0, Some (ErrMsg ''db: document payload is %d bytes, maximum %d'')), e, env)
        else (case PrimaryKeyMap_Get ops (sgPrimaryKey (weManager e)) (inPrimaryKey input) of
            (_, _, Some err) \<Rightarrow> ((0, Some err), e, env)
          | (previous, existed, None) \<Rightarrow>
            (case sgWriting (weManager e) of
                None \<Rightarrow> ((0, Some (ErrMsg ''db: no writing segment'')), e, env)
              | Some writing \<Rightarrow>
                (case WriteSegment_NextDocumentID writing of
                   Inl err \<Rightarrow> ((0, Some err), e, env)
                 | Inr docID \<Rightarrow>
                   (case encodeWriteOperation \<lparr>opType = writeOperationUpsert, opDocID = docID,
                           opPrimaryKey = inPrimaryKey input, opPayload = inPayload input\<rparr> of
                      Inl err \<Rightarrow> ((0, Some err), e, env)
                    | Inr encoded \<Rightarrow>
                      (case WAL_Append ctx encoded (weWal e) env of
                         ((lsn, syncErr), w, env) \<Rightarrow>
                         if syncErr \<noteq> None \<and> lsn = 0 then ((0, syncErr), set_wal w e, env)
                         else
                           let applyContext = WithoutCancel ctx in
                           (case WriteSegment_ApplyExpected applyContext docID (inPrimaryKey input) (inPayload input)
                                   writing env of
                              (Some err, s, env) \<Rightarrow>
                                apply_failed syncErr (ErrWrap ''db: apply WAL upsert'' [err]) (set_writing s (set_wal w e)) env
                            | (None, s, env) \<Rightarrow>
                              (case (if existed then DeleteStore_MarkDeleted applyContext previous (sgDeletes (weManager e)) env
                                     else ((False, None), sgDeletes (weManager e), env)) of
                                 ((_, Some err), ds, env) \<Rightarrow>
                                   apply_failed syncErr (ErrWrap ''db: delete prior upsert version'' [err])
                                     (set_deletes ds (set_writing s (set_wal w e))) env
                               | ((_, None), ds, env) \<Rightarrow>
                                 (case PrimaryKeyMap_Put ops applyContext (inPrimaryKey input) docID
                                         (sgPrimaryKey (weManager e)) env of
                                    ((_, _, Some err), pk, env) \<Rightarrow>
                                      apply_failed syncErr (ErrWrap ''db: index WAL upsert'' [err])
                                        (set_keys pk (set_deletes ds (set_writing s (set_wal w e)))) env
                                  | ((_, _, None), pk, env) \<Rightarrow>
                                      finish docID syncErr (set_keys pk (set_deletes ds (set_writing s (set_wal w e)))) env)))))))))"

definition updateOneLocked :: "'db pebble \<Rightarrow> ctx \<Rightarrow> WriteInput \<Rightarrow> 'db WriteEngine \<Rightarrow> env
    \<Rightarrow> (u64 \<times> error option) \<times> 'db WriteEngine \<times> env" where
  "updateOneLocked ops ctx input e env =
     (if wePoisoned e \<noteq> None then ((0, wePoisoned e), e, env)
      else case ValidatePrimaryKey (inPrimaryKey input) of
        Some err \<Rightarrow> ((0, Some err), e, env)
      | None \<Rightarrow>
        if MaxDocumentPayloadSize < length (inPayload input)
        then ((0, Some (ErrMsg ''db: document payload is %d bytes, maximum %d'')), e, env)
        else (case PrimaryKeyMap_Get ops (sgPrimaryKey (weManager e)) (inPrimaryKey input) of
            (_, _, Some err) \<Rightarrow> ((0, Some err), e, env)
          | (previous, existed, None) \<Rightarrow>
            if \<not> existed then ((0, Some (wrapf ErrPrimaryKeyNotFound ''%q'')), e, env)
            else (case sgWriting (weManager e) of
                None \<Rightarrow> ((0, Some (ErrMsg ''db: no writing segment'')), e, env)
              | Some writing \<Rightarrow>
                (case WriteSegment_NextDocumentID writing of
                   Inl err \<Rightarrow> ((0, Some err), e, env)
                 | Inr docID \<Rightarrow>
                   (case encodeWriteOperation \<lparr>opType = writeOperationUpdate, opDocID = docID,
                           opPrimaryKey = inPrimaryKey input, opPayload = inPayload input\<rparr> of
                      Inl err \<Rightarrow> ((0, Some err), e, env)
                    | Inr encoded \<Rightarrow>
                      (case WAL_Append ctx encoded (weWal e) env of
                         ((lsn, syncErr), w, env) \<Rightarrow>
                         if syncErr \<noteq> None \<and> lsn = 0 then ((0, syncErr), set_wal w e, env)
                         else
                           let applyContext = WithoutCancel ctx in
                           (case WriteSegment_ApplyExpected applyContext docID (inPrimaryKey input) (inPayload input)
                                   writing env of
                              (Some err, s, env) \<Rightarrow>
                                apply_failed syncErr (ErrWrap ''db: apply WAL update'' [err]) (set_writing s (set_wal w e)) env
                            | (None, s, env) \<Rightarrow>
                              (case DeleteStore_MarkDeleted applyContext previous (sgDeletes (weManager e)) env of
                                 ((_, Some err), ds, env) \<Rightarrow>
                                   apply_failed syncErr (ErrWrap ''db: delete prior update version'' [err])
                                     (set_deletes ds (set_writing s (set_wal w e))) env
                               | ((_, None), ds, env) \<Rightarrow>
                                 (case PrimaryKeyMap_Put ops applyContext (inPrimaryKey input) docID
                                         (sgPrimaryKey (weManager e)) env of
                                    ((_, _, Some err), pk, env) \<Rightarrow>
                                      apply_failed syncErr (ErrWrap ''db: index WAL update'' [err])
                                        (set_keys pk (set_deletes ds (set_writing s (set_wal w e)))) env
                                  | ((_, _, None), pk, env) \<Rightarrow>
                                      finish docID syncErr (set_keys pk (set_deletes ds (set_writing s (set_wal w e)))) env)))))))))"

definition deleteOneLocked :: "'db pebble \<Rightarrow> ctx \<Rightarrow> bytes \<Rightarrow> 'db WriteEngine \<Rightarrow> env
    \<Rightarrow> (u64 \<times> error option) \<times> 'db WriteEngine \<times> env" where
  "deleteOneLocked ops ctx primaryKey e env =
     (if wePoisoned e \<noteq> None then ((0, wePoisoned e), e, env)
      else case ValidatePrimaryKey primaryKey of
        Some err \<Rightarrow> ((0, Some err), e, env)
      | None \<Rightarrow>
        (case PrimaryKeyMap_Get ops (sgPrimaryKey (weManager e)) primaryKey of
            (_, _, Some err) \<Rightarrow> ((0, Some err), e, env)
          | (docID, existed, None) \<Rightarrow>
            if \<not> existed then ((0, Some (wrapf ErrPrimaryKeyNotFound ''%q'')), e, env)
            else (case encodeWriteOperation \<lparr>opType = writeOperationDelete, opDocID = docID,
                           opPrimaryKey = primaryKey, opPayload = []\<rparr> of
                Inl err \<Rightarrow> ((0, Some err), e, env)
              | Inr encoded \<Rightarrow>
                (case WAL_Append ctx encoded (weWal e) env of
                   ((lsn, syncErr), w, env) \<Rightarrow>
                   if syncErr \<noteq> None \<and> lsn = 0 then ((0, syncErr), set_wal w e, env)
                   else
                     let applyContext = WithoutCancel ctx in
                     (case DeleteStore_MarkDeleted applyContext docID (sgDeletes (weManager e)) env of
                        ((_, Some err), ds, env) \<Rightarrow>
                          apply_failed syncErr (ErrWrap ''db: apply WAL delete'' [err]) (set_deletes ds (set_wal w e)) env
                      | ((_, None), ds, env) \<Rightarrow>
                        (case PrimaryKeyMap_Delete ops applyContext primaryKey (sgPrimaryKey (weManager e)) env of
                           ((_, _, Some err), pk, env) \<Rightarrow>
                             apply_failed syncErr (ErrWrap ''db: remove deleted primary key'' [err])
                               (set_keys pk (set_deletes ds (set_wal w e))) env
                         | ((removed, found, None), pk, env) \<Rightarrow>
                             if \<not> found \<or> removed \<noteq> docID
                             then apply_failed syncErr (ErrMsg ''db: IDMap changed while applying delete'')
                                    (set_keys pk (set_deletes ds (set_wal w e))) env
                             else finish docID syncErr (set_keys pk (set_deletes ds (set_wal w e))) env))))))"

text \<open>
  The batch loop: one result per input, in order; a cancelled context fails the input at hand and all
  that remain. The second component collects the causes of the \<^verbatim>\<open>BatchWriteError\<close>.
\<close>

fun batch_loop :: "('i \<Rightarrow> 'db WriteEngine \<Rightarrow> env \<Rightarrow> (u64 \<times> error option) \<times> 'db WriteEngine \<times> env) \<Rightarrow> ('i \<Rightarrow> bytes)
    \<Rightarrow> ctx \<Rightarrow> 'i list \<Rightarrow> 'db WriteEngine \<Rightarrow> env \<Rightarrow> WriteResult list \<times> error list \<times> 'db WriteEngine \<times> env" where
  "batch_loop one key ctx [] e env = ([], [], e, env)"
| "batch_loop one key ctx (i # is) e env =
     (case ctx_Err ctx env of
        (Some err, env) \<Rightarrow>
          (map (\<lambda>j. \<lparr>wrPrimaryKey = key j, wrDocID = 0, wrErr = Some err\<rparr>) (i # is), map (\<lambda>j. err) (i # is), e, env)
      | (None, env) \<Rightarrow>
        (case one i e env of
           ((docID, err), e, env) \<Rightarrow>
             (case batch_loop one key ctx is e env of
                (rs, causes, e, env) \<Rightarrow>
                  (\<lparr>wrPrimaryKey = key i, wrDocID = docID, wrErr = err\<rparr> # rs,
                   (case err of None \<Rightarrow> causes | Some c \<Rightarrow> c # causes), e, env))))"

definition run_batch :: "string \<Rightarrow> string \<Rightarrow> ('i \<Rightarrow> 'db WriteEngine \<Rightarrow> env \<Rightarrow> (u64 \<times> error option) \<times> 'db WriteEngine \<times> env)
    \<Rightarrow> ('i \<Rightarrow> bytes) \<Rightarrow> ctx \<Rightarrow> 'i list \<Rightarrow> 'db WriteEngine \<Rightarrow> env
    \<Rightarrow> (WriteResult list \<times> error option) \<times> 'db WriteEngine \<times> env" where
  "run_batch nilMsg emptyMsg one key ctx inputs e env =
     (if ctx = NilCtx then (([], Some (ErrMsg nilMsg)), e, env)
      else if inputs = [] then (([], Some (ErrMsg emptyMsg)), e, env)
      else (case batch_loop one key ctx inputs e env of
          (results, causes, e, env) \<Rightarrow>
            ((results, if causes = [] then None else Some (ErrWrap ''db: %d document writes failed'' causes)), e, env)))"

definition WriteEngine_Insert :: "'db pebble \<Rightarrow> ctx \<Rightarrow> WriteInput list \<Rightarrow> 'db WriteEngine \<Rightarrow> env
    \<Rightarrow> (WriteResult list \<times> error option) \<times> 'db WriteEngine \<times> env" where
  "WriteEngine_Insert ops ctx inputs e env =
     run_batch ''db: nil insert context'' ''db: insert batch is empty'' (insertOneLocked ops ctx) inPrimaryKey ctx inputs e env"

definition WriteEngine_Upsert :: "'db pebble \<Rightarrow> ctx \<Rightarrow> WriteInput list \<Rightarrow> 'db WriteEngine \<Rightarrow> env
    \<Rightarrow> (WriteResult list \<times> error option) \<times> 'db WriteEngine \<times> env" where
  "WriteEngine_Upsert ops ctx inputs e env =
     run_batch ''db: nil upsert context'' ''db: upsert batch is empty'' (upsertOneLocked ops ctx) inPrimaryKey ctx inputs e env"

definition WriteEngine_Update :: "'db pebble \<Rightarrow> ctx \<Rightarrow> WriteInput list \<Rightarrow> 'db WriteEngine \<Rightarrow> env
    \<Rightarrow> (WriteResult list \<times> error option) \<times> 'db WriteEngine \<times> env" where
  "WriteEngine_Update ops ctx inputs e env =
     run_batch ''db: nil update context'' ''db: update batch is empty'' (updateOneLocked ops ctx) inPrimaryKey ctx inputs e env"

definition WriteEngine_Delete :: "'db pebble \<Rightarrow> ctx \<Rightarrow> bytes list \<Rightarrow> 'db WriteEngine \<Rightarrow> env
    \<Rightarrow> (WriteResult list \<times> error option) \<times> 'db WriteEngine \<times> env" where
  "WriteEngine_Delete ops ctx primaryKeys e env =
     run_batch ''db: nil delete context'' ''db: delete batch is empty'' (deleteOneLocked ops ctx) (\<lambda>k. k) ctx primaryKeys e env"

end
