(* ===== verification/Recovery.thy ===== *)
theory Recovery
  imports Write_Engine
begin

text \<open>
  Recovery of a collection, \<^verbatim>\<open>src/internal/db/collection.go\<close>: replaying the write-ahead log over the state
  the manifest describes, and the check that the recovered state is coherent.
\<close>

definition applyRecoveredOperation :: "'db pebble \<Rightarrow> ctx \<Rightarrow> writeOperation \<Rightarrow> 'db SegmentManager \<Rightarrow> env
    \<Rightarrow> error option \<times> 'db SegmentManager \<times> env" where
  "applyRecoveredOperation ops ctx operation m env =
     (if opType operation \<noteq> writeOperationDelete \<and> sgWriting m = None
      then (Some (ErrMsg ''operation requires a writing segment''), m, env)
      else if opType operation = writeOperationInsert then
        (case PrimaryKeyMap_Get ops (sgPrimaryKey m) (opPrimaryKey operation) of
           (_, _, Some err) \<Rightarrow> (Some err, m, env)
         | (_, exists, None) \<Rightarrow>
           if exists then (Some (Sentinel ErrPrimaryKeyExists), m, env)
           else (case WriteSegment_ApplyExpected ctx (opDocID operation) (opPrimaryKey operation) (opPayload operation)
                        (the (sgWriting m)) env of
               (Some err, s, env) \<Rightarrow> (Some err, m\<lparr>sgWriting := Some s\<rparr>, env)
             | (None, s, env) \<Rightarrow>
               (case PrimaryKeyMap_PutNew ops ctx (opPrimaryKey operation) (opDocID operation) (sgPrimaryKey m) env of
                  (err, pk, env) \<Rightarrow> (err, m\<lparr>sgWriting := Some s, sgPrimaryKey := pk\<rparr>, env))))
      else if opType operation = writeOperationUpsert \<or> opType operation = writeOperationUpdate then
        (case PrimaryKeyMap_Get ops (sgPrimaryKey m) (opPrimaryKey operation) of
           (_, _, Some err) \<Rightarrow> (Some err, m, env)
         | (previous, existed, None) \<Rightarrow>
           if opType operation = writeOperationUpdate \<and> \<not> existed
           then (Some (Sentinel ErrPrimaryKeyNotFound), m, env)
           else (case WriteSegment_ApplyExpected ctx (opDocID operation) (opPrimaryKey operation) (opPayload operation)
                        (the (sgWriting m)) env of
               (Some err, s, env) \<Rightarrow> (Some err, m\<lparr>sgWriting := Some s\<rparr>, env)
             | (None, s, env) \<Rightarrow>
               (case (if existed then DeleteStore_MarkDeleted ctx previous (sgDeletes m) env
                      else ((False, None), sgDeletes m, env)) of
                  ((_, Some err), ds, env) \<Rightarrow> (Some err, m\<lparr>sgWriting := Some s, sgDeletes := ds\<rparr>, env)
                | ((_, None), ds, env) \<Rightarrow>
                  (case PrimaryKeyMap_Put ops ctx (opPrimaryKey operation) (opDocID operation) (sgPrimaryKey m) env of
                     ((_, _, err), pk, env) \<Rightarrow>
                       (err, m\<lparr>sgWriting := Some s, sgDeletes := ds, sgPrimaryKey := pk\<rparr>, env)))))
      else if opType operation = writeOperationDelete then
        (if opPayload operation \<noteq> [] then (Some (ErrMsg ''delete operation contains a payload''), m, env)
         else (case PrimaryKeyMap_Get ops (sgPrimaryKey m) (opPrimaryKey operation) of
             (_, _, Some err) \<Rightarrow> (Some err, m, env)
           | (docID, existed, None) \<Rightarrow>
             if \<not> existed \<or> docID \<noteq> opDocID operation then (Some (Sentinel ErrPrimaryKeyNotFound), m, env)
             else (case DeleteStore_MarkDeleted ctx (opDocID operation) (sgDeletes m) env of
                 ((_, Some err), ds, env) \<Rightarrow> (Some err, m\<lparr>sgDeletes := ds\<rparr>, env)
               | ((_, None), ds, env) \<Rightarrow>
                 (case PrimaryKeyMap_Delete ops ctx (opPrimaryKey operation) (sgPrimaryKey m) env of
                    ((_, found, err), pk, env) \<Rightarrow>
                      ((if err \<noteq> None \<or> \<not> found
                        then errors_Join [err, Some (Sentinel ErrPrimaryKeyNotFound)] else None),
                       m\<lparr>sgDeletes := ds, sgPrimaryKey := pk\<rparr>, env)))))
      else (Some (ErrMsg ''unknown write operation''), m, env))"

text \<open>The callback of \<^verbatim>\<open>replayWriteWAL\<close>.\<close>

definition recover_record :: "'db pebble \<Rightarrow> ctx \<Rightarrow> 'db SegmentManager replay_fun" where
  "recover_record ops ctx record m env =
     (case decodeWriteOperation (recPayload record) of
        Inl err \<Rightarrow> (Some (wrapf ErrWALCorrupt ''decode operation: %v''), m, env)
      | Inr operation \<Rightarrow>
        (case applyRecoveredOperation ops ctx operation m env of
           (Some err, m, env) \<Rightarrow> (Some (wrapf ErrWALCorrupt ''apply operation: %v''), m, env)
         | (None, m, env) \<Rightarrow> (None, m, env)))"

definition replayWriteWAL :: "'db pebble \<Rightarrow> ctx \<Rightarrow> WAL \<Rightarrow> 'db SegmentManager \<Rightarrow> env
    \<Rightarrow> error option \<times> 'db SegmentManager \<times> env" where
  "replayWriteWAL ops ctx w m env = WAL_Replay ctx (recover_record ops ctx) w m env"

text \<open>
  \<^verbatim>\<open>validateCollectionState\<close>: the live documents by ID (an association list) and the known IDs are collected from
  all segments; then the deletion set and the IDMap are checked against them. \<^verbatim>\<open>context.Background()\<close> is never
  cancelled.
\<close>

definition collect :: "DeleteStore \<Rightarrow> StoredDocument list \<Rightarrow> (u64 \<times> bytes) list \<times> u64 set
    \<Rightarrow> error option \<times> (u64 \<times> bytes) list \<times> u64 set" where
  "collect ds documents st =
     (None, foldl (\<lambda>(liveKeys, known) document.
        ((if DeleteStore_IsDeleted ds (DocID document) then liveKeys
          else AList.update (DocID document) (PrimaryKey document) liveKeys), insert (DocID document) known)) st documents)"

definition check_live :: "(u64 \<times> bytes) list \<Rightarrow> unit visit_fun" where
  "check_live liveKeys key docID st =
     ((if map_of liveKeys docID = Some key then None
       else Some (wrapf ErrCollectionCorrupt ''primary key %q has invalid document ID %d'')), st)"

definition validateCollectionState :: "'db pebble \<Rightarrow> 'db SegmentManager \<Rightarrow> env \<Rightarrow> error option \<times> env" where
  "validateCollectionState ops m env =
     (case visit_segments (collect (sgDeletes m)) (SegmentManager_ImmutableSegments m) ([], {}) of
        (Some err, st) \<Rightarrow> (Some err, env)
      | (None, st) \<Rightarrow>
        (case (case sgWriting m of None \<Rightarrow> (None, st) | Some w \<Rightarrow> WriteSegment_VisitDocuments (collect (sgDeletes m)) w st) of
           (Some err, st) \<Rightarrow> (Some err, env)
         | (None, liveKeys, known) \<Rightarrow>
           (case DeleteStore_Range (\<lambda>docID err. if docID \<in> known then (True, err)
                   else (False, Some (wrapf ErrCollectionCorrupt ''deletion references missing document %d'')))
                   (sgDeletes m) None of
              Some err \<Rightarrow> (Some err, env)
            | None \<Rightarrow>
              if PrimaryKeyMap_Count (sgPrimaryKey m) \<noteq> int (length liveKeys)
              then (Some (wrapf ErrCollectionCorrupt ''IDMap count %d differs from live document count %d''), env)
              else (case PrimaryKeyMap_ForEach ops DetachedCtx (check_live liveKeys) (sgPrimaryKey m) () env of
                  (Some err, st, env) \<Rightarrow>
                    (Some (if errors_Is err ErrCollectionCorrupt then err
                           else wrapf ErrCollectionCorrupt ''validate IDMap: %v''), env)
                | (None, st, env) \<Rightarrow> (None, env)))))"

end
