(* ===== verification/Engine_Recovery.thy ===== *)
theory Engine_Recovery
  imports Recovery
begin

text \<open>
  The write-operation codec is canonical; every operation the engine logs and applies is exactly what
  replay applies; so the log of a running engine always replays to the state the engine is in, and
  what survives a crash replays to a state the engine went through.
\<close>

subsection \<open>The codec of write operations\<close>

definition op_wf :: "writeOperation \<Rightarrow> bool" where
  "op_wf op \<longleftrightarrow> writeOperationInsert \<le> opType op \<and> opType op \<le> writeOperationDelete
     \<and> ValidatePrimaryKey (opPrimaryKey op) = None \<and> length (opPayload op) \<le> MaxDocumentPayloadSize"

definition op_header :: "writeOperation \<Rightarrow> bytes" where
  "op_header op = writeOperationMagic @ PutUint16 3 @ [opType op, 0] @ PutUint64 (opDocID op)
     @ PutUint32 (word_of_nat (length (opPrimaryKey op))) @ PutUint32 (word_of_nat (length (opPayload op)))"

definition op_bytes :: "writeOperation \<Rightarrow> bytes" where
  "op_bytes op = op_header op
     @ PutUint32 (CRC32C (op_header op @ opPrimaryKey op @ opPayload op)) @ opPrimaryKey op @ opPayload op"

lemma length_op_header [simp]: "length (op_header op) = 24"
  by (simp add: op_header_def writeOperationMagic_def)

lemma encodeWriteOperation_wf: "encodeWriteOperation op = Inr b \<longleftrightarrow> op_wf op \<and> b = op_bytes op"
  by (auto simp: encodeWriteOperation_def op_wf_def op_bytes_def op_header_def writeOperationVersion_def
      UpdateCRC32C_CRC32C Let_def not_less split: if_splits option.splits)

lemma op_lengths:
  assumes "op_wf op"
  shows "unat (word_of_nat (length (opPrimaryKey op)) :: u32) = length (opPrimaryKey op)"
    "unat (word_of_nat (length (opPayload op)) :: u32) = length (opPayload op)"
    "0 < length (opPrimaryKey op)" "length (opPrimaryKey op) \<le> MaxPrimaryKeyBytes"
  using doc_ok_lengths [of "\<lparr>DocID = 0, PrimaryKey = opPrimaryKey op, Payload = opPayload op\<rparr>"] assms
  by (auto simp: op_wf_def doc_ok_def)

lemma op_header_fields:
  "slice 0 4 (op_header op) = writeOperationMagic" "Uint16 (slice 4 6 (op_header op)) = 3"
  "op_header op ! 6 = opType op" "op_header op ! 7 = 0" "Uint64 (slice 8 16 (op_header op)) = opDocID op"
  "Uint32 (slice 16 20 (op_header op)) = word_of_nat (length (opPrimaryKey op))"
  "Uint32 (slice 20 24 (op_header op)) = word_of_nat (length (opPayload op))"
  unfolding op_header_def by (simp_all add: codec_simps writeOperationMagic_def nth_append)

lemma decode_op_bytes:
  assumes wf: "op_wf op"
  shows "decodeWriteOperation (op_bytes op) = Inr op"
proof -
  let ?k = "opPrimaryKey op" and ?v = "opPayload op" and ?h = "op_header op"
  let ?c = "PutUint32 (CRC32C (?h @ ?k @ ?v))"
  have b: "op_bytes op = ?h @ ?c @ ?k @ ?v" by (simp add: op_bytes_def)
  have sl: "slice i j (op_bytes op) = slice i j ?h" if "j \<le> 24" for i j
    using that by (simp add: b slice_append slice_outside)
  have nth: "op_bytes op ! 6 = opType op" "op_bytes op ! 7 = 0"
    by (simp_all add: b nth_append op_header_fields)
  have body: "slice 24 28 (op_bytes op) = ?c" "drop 28 (op_bytes op) = ?k @ ?v"
    "slice 28 (28 + length ?k) (op_bytes op) = ?k" "drop (28 + length ?k) (op_bytes op) = ?v"
    "slice 0 24 (op_bytes op) = ?h"
    by (simp_all add: b codec_simps)
  have len: "length (op_bytes op) = 28 + length ?k + length ?v" by (simp add: b)
  have ty: "\<not> opType op < writeOperationInsert" "\<not> writeOperationDelete < opType op"
    using wf by (simp_all add: op_wf_def not_less)
  have v: "ValidatePrimaryKey ?k = None" "length ?v \<le> MaxDocumentPayloadSize" using wf by (simp_all add: op_wf_def)
  note l = op_lengths [OF wf]
  have op: "\<lparr>opType = opType op, opDocID = opDocID op, opPrimaryKey = ?k, opPayload = ?v\<rparr> = op" by simp
  show ?thesis
    unfolding decodeWriteOperation_def writeOperationHeaderSize_def writeOperationVersion_def Let_def
    using ty v l len by (simp add: sl nth op_header_fields body UpdateCRC32C_CRC32C op)
qed

lemma decode_op_canonical:
  assumes dec: "decodeWriteOperation b = Inr op"
  shows "op_wf op" "b = op_bytes op"
proof -
  define k where "k = unat (Uint32 (slice 16 20 b))"
  define v where "v = unat (Uint32 (slice 20 24 b))"
  have f: "28 \<le> length b" "slice 0 4 b = writeOperationMagic" "Uint16 (slice 4 6 b) = 3"
    "writeOperationInsert \<le> b ! 6" "b ! 6 \<le> writeOperationDelete" "b ! 7 = 0" "v \<le> MaxDocumentPayloadSize"
    "k + v = length b - 28" "Uint32 (slice 24 28 b) = CRC32C (slice 0 24 b @ drop 28 b)"
    "ValidatePrimaryKey (slice 28 (28 + k) b) = None"
    and op: "op = \<lparr>opType = b ! 6, opDocID = Uint64 (slice 8 16 b), opPrimaryKey = slice 28 (28 + k) b,
                opPayload = drop (28 + k) b\<rparr>"
    using dec unfolding decodeWriteOperation_def writeOperationHeaderSize_def writeOperationVersion_def Let_def
    by (auto simp: k_def v_def UpdateCRC32C_CRC32C split: if_splits option.splits)
  have lk: "length (opPrimaryKey op) = k" "length (opPayload op) = v" using f(1,8) by (simp_all add: op)
  show wf: "op_wf op" using f lk by (simp add: op_wf_def op)
  have u: "Uint32 (slice 16 20 b) = word_of_nat k" "Uint32 (slice 20 24 b) = word_of_nat v"
    by (simp_all add: k_def v_def)
  have s: "slice 4 6 b = PutUint16 3" "slice 16 20 b = PutUint32 (word_of_nat k)"
    "slice 20 24 b = PutUint32 (word_of_nat v)" "slice 24 28 b = PutUint32 (CRC32C (slice 0 24 b @ drop 28 b))"
    using Uint_eqD(1) [OF f(3)] Uint_eqD(2) [OF u(1)] Uint_eqD(2) [OF u(2)] Uint_eqD(2) [OF f(9)] f(1) by simp_all
  have s2: "slice 8 16 b = PutUint64 (opDocID op)" using f(1) by (simp add: op PutUint64_Uint64)
  have s3: "slice 6 8 b = [opType op, 0]"
    using f(1,6) by (simp add: slice_def op Cons_nth_drop_Suc [symmetric] numeral_2_eq_2)
  have h: "slice 0 24 b = op_header op"
    unfolding op_header_def lk using f(2) s s2 s3
    by (simp add: slice_split [of 0 4 24 b] slice_split [of 4 6 24 b] slice_split [of 6 8 24 b]
        slice_split [of 8 16 24 b] slice_split [of 16 20 24 b])
  have body: "drop 28 b = opPrimaryKey op @ opPayload op"
    using drop_split [of 28 b k] by (simp add: op slice_def)
  have "b = slice 0 24 b @ slice 24 28 b @ drop 28 b"
    using drop_split3 [of 0 b 24 4] by (simp add: slice_def)
  then show "b = op_bytes op" using h s(4) body by (simp add: op_bytes_def)
qed

interpretation opc: canonical_codec op_wf encodeWriteOperation decodeWriteOperation
proof (unfold_locales, goal_cases)
  case (1 x) then show ?case by (simp add: encodeWriteOperation_wf)
next
  case (2 x b) then show ?case by (simp add: encodeWriteOperation_wf decode_op_bytes)
next
  case (3 b x) then show ?case using decode_op_canonical [of b x] by (simp add: encodeWriteOperation_wf)
qed

subsection \<open>Calls under a detached context\<close>

text \<open>With cancellation detached, the component calls neither read nor change the environment.\<close>

definition seg_apply :: "u64 \<Rightarrow> bytes \<Rightarrow> bytes \<Rightarrow> WriteSegment \<Rightarrow> error option \<times> WriteSegment" where
  "seg_apply d k v s = (case WriteSegment_ApplyExpected DetachedCtx d k v s calm of (r, s', _) \<Rightarrow> (r, s'))"

definition key_putNew :: "'db pebble \<Rightarrow> bytes \<Rightarrow> u64 \<Rightarrow> 'db PrimaryKeyMap \<Rightarrow> error option \<times> 'db PrimaryKeyMap" where
  "key_putNew ops k d m = (case PrimaryKeyMap_PutNew ops DetachedCtx k d m calm of (r, m', _) \<Rightarrow> (r, m'))"

definition key_put :: "'db pebble \<Rightarrow> bytes \<Rightarrow> u64 \<Rightarrow> 'db PrimaryKeyMap
    \<Rightarrow> (u64 \<times> bool \<times> error option) \<times> 'db PrimaryKeyMap" where
  "key_put ops k d m = (case PrimaryKeyMap_Put ops DetachedCtx k d m calm of (r, m', _) \<Rightarrow> (r, m'))"

definition key_delete :: "'db pebble \<Rightarrow> bytes \<Rightarrow> 'db PrimaryKeyMap
    \<Rightarrow> (u64 \<times> bool \<times> error option) \<times> 'db PrimaryKeyMap" where
  "key_delete ops k m = (case PrimaryKeyMap_Delete ops DetachedCtx k m calm of (r, m', _) \<Rightarrow> (r, m'))"

lemma detached_apply:
  "WriteSegment_ApplyExpected DetachedCtx d k v s env = (case seg_apply d k v s of (r, s') \<Rightarrow> (r, s', env))"
  by (simp add: seg_apply_def WriteSegment_ApplyExpected_def WriteSegment_append_def Let_def split: option.splits)

lemma detached_guard:
  "idmap_guard w DetachedCtx k m env = (fst (idmap_guard w DetachedCtx k m calm), env)"
  by (simp add: idmap_guard_def split: option.splits)

lemma detached_putNew:
  "PrimaryKeyMap_PutNew ops DetachedCtx k d m env = (case key_putNew ops k d m of (r, m') \<Rightarrow> (r, m', env))"
  unfolding key_putNew_def PrimaryKeyMap_PutNew_def detached_guard [of _ _ _ env]
  by (cases "idmap_guard ''db: nil IDMap write context'' DetachedCtx k m calm")
     (auto split: sum.splits option.splits prod.splits)

lemma detached_put:
  "PrimaryKeyMap_Put ops DetachedCtx k d m env = (case key_put ops k d m of (r, m') \<Rightarrow> (r, m', env))"
  unfolding key_put_def PrimaryKeyMap_Put_def detached_guard [of _ _ _ env]
  by (cases "idmap_guard ''db: nil IDMap write context'' DetachedCtx k m calm")
     (auto simp: Let_def split: sum.splits option.splits prod.splits)

lemma detached_delete:
  "PrimaryKeyMap_Delete ops DetachedCtx k m env = (case key_delete ops k m of (r, m') \<Rightarrow> (r, m', env))"
  unfolding key_delete_def PrimaryKeyMap_Delete_def detached_guard [of _ _ _ env]
  by (cases "idmap_guard ''db: nil IDMap delete context'' DetachedCtx k m calm")
     (auto split: sum.splits option.splits prod.splits)

lemma detached_mark:
  "DeleteStore_MarkDeleted DetachedCtx d s env = ((d \<notin> dsDeleted s, None), s\<lparr>dsDeleted := insert d (dsDeleted s)\<rparr>, env)"
  by (simp add: DeleteStore_MarkDeleted_def)

lemmas detached = detached_apply detached_putNew detached_put detached_delete detached_mark WithoutCancel_def

subsection \<open>The outcome of one operation\<close>

text \<open>
  Either nothing reached the log and the documents are untouched, or one record did. In the latter
  case either replaying that record on the manager of before gives the manager of after, or the
  engine is poisoned.
\<close>

definition applies :: "'db pebble \<Rightarrow> bytes \<Rightarrow> 'db SegmentManager \<Rightarrow> 'db SegmentManager \<Rightarrow> bool" where
  "applies ops p m m' \<longleftrightarrow>
     (\<forall>l env. recover_record ops DetachedCtx \<lparr>recLSN = l, recPayload = p\<rparr> m env = (None, m', env))"

definition outcome :: "'db pebble \<Rightarrow> ctx \<Rightarrow> 'db WriteEngine \<Rightarrow> env \<Rightarrow> error option \<Rightarrow> 'db WriteEngine \<Rightarrow> bool" where
  "outcome ops ctx e env err e' \<longleftrightarrow>
     (weManager e' = weManager e \<and> wePoisoned e' = wePoisoned e \<and> err \<noteq> None \<and>
        (weWal e' = weWal e \<or> (\<exists>p r env'. WAL_Append ctx p (weWal e) env = ((0, Some r), weWal e', env'))))
   \<or> (\<exists>p lsn syncErr env'. wePoisoned e = None \<and> WAL_Append ctx p (weWal e) env = ((lsn, syncErr), weWal e', env') \<and>
        \<not> (syncErr \<noteq> None \<and> lsn = 0) \<and>
        (wePoisoned e' \<noteq> None \<and> err \<noteq> None
         \<or> applies ops p (weManager e) (weManager e') \<and> (err = None \<longleftrightarrow> syncErr = None)
           \<and> (wePoisoned e' = None \<longleftrightarrow> syncErr = None)))"

lemma outcome_refused: "err \<noteq> None \<Longrightarrow> outcome ops ctx e env err e"
  by (simp add: outcome_def)

lemma poisonLocked_simps:
  "wePoisoned e = None \<Longrightarrow> poisonLocked (Some c) e =
     (Some (ErrJoin [Sentinel ErrWriteEnginePoisoned, c]),
      e\<lparr>wePoisoned := Some (ErrJoin [Sentinel ErrWriteEnginePoisoned, c])\<rparr>)"
  by (simp add: poisonLocked_def errors_Join_def List.map_filter_def)

lemma apply_failed_eq:
  "wePoisoned e = None \<Longrightarrow> \<exists>c. apply_failed syncErr err e env = ((0, Some c), e\<lparr>wePoisoned := Some c\<rparr>, env)"
  by (cases syncErr) (auto simp: apply_failed_def poisonLocked_simps errors_Join_def List.map_filter_def)

lemma finish_eq:
  "wePoisoned e = None \<Longrightarrow> \<exists>r. finish d syncErr e env = ((d, r), e\<lparr>wePoisoned := r\<rparr>, env) \<and> (r = None \<longleftrightarrow> syncErr = None)"
  by (cases syncErr) (auto simp: finish_def poisonLocked_simps)

lemma outcome_unlogged:
  "WAL_Append ctx p (weWal e) env = ((0, Some r), w, env') \<Longrightarrow> outcome ops ctx e env (Some r) (set_wal w e)"
  by (auto simp: outcome_def)

lemma outcome_failed:
  assumes "wePoisoned e = None" "WAL_Append ctx p (weWal e) env = ((lsn, syncErr), w, env1)"
    "\<not> (syncErr \<noteq> None \<and> lsn = 0)" "apply_failed syncErr er ea envb = ((d, err), e', env')"
    "weWal ea = w" "wePoisoned ea = None"
  shows "outcome ops ctx e env err e'"
  using apply_failed_eq [OF assms(6), of syncErr er envb] assms(1-5)
  unfolding outcome_def by fastforce

lemma outcome_applied:
  assumes "wePoisoned e = None" "WAL_Append ctx p (weWal e) env = ((lsn, syncErr), w, env1)"
    "\<not> (syncErr \<noteq> None \<and> lsn = 0)" "finish doc syncErr ea envb = ((d, err), e', env')"
    "weWal ea = w" "wePoisoned ea = None" "applies ops p (weManager e) (weManager ea)"
  shows "outcome ops ctx e env err e'"
  using finish_eq [OF assms(6), of doc syncErr envb] assms(1-5,7)
  unfolding outcome_def by fastforce

lemma recover_encoded:
  "encodeWriteOperation op = Inr p \<Longrightarrow> recover_record ops c \<lparr>recLSN = l, recPayload = p\<rparr> m env =
     (case applyRecoveredOperation ops c op m env of
        (Some err, m, env) \<Rightarrow> (Some (wrapf ErrWALCorrupt ''apply operation: %v''), m, env)
      | (None, m, env) \<Rightarrow> (None, m, env))"
  using opc.dec_enc by (simp add: recover_record_def encodeWriteOperation_wf)

lemmas op_types = writeOperationInsert_def writeOperationUpsert_def writeOperationUpdate_def writeOperationDelete_def

text \<open>
  The shape the four operations share: checks that yield the operation to log, the append, the
  application of the operation to the manager.
\<close>

definition logged_op :: "ctx \<Rightarrow> error + writeOperation \<Rightarrow> (writeOperation \<Rightarrow> error option \<times> 'db SegmentManager)
    \<Rightarrow> 'db WriteEngine \<Rightarrow> env \<Rightarrow> (u64 \<times> error option) \<times> 'db WriteEngine \<times> env" where
  "logged_op ctx pre app e env =
     (if wePoisoned e \<noteq> None then ((0, wePoisoned e), e, env)
      else case pre of
        Inl err \<Rightarrow> ((0, Some err), e, env)
      | Inr op \<Rightarrow>
        (case encodeWriteOperation op of
           Inl err \<Rightarrow> ((0, Some err), e, env)
         | Inr p \<Rightarrow>
           (case WAL_Append ctx p (weWal e) env of
              ((lsn, syncErr), w, env) \<Rightarrow>
                if syncErr \<noteq> None \<and> lsn = 0 then ((0, syncErr), set_wal w e, env)
                else (case app op of
                    (Some err, m) \<Rightarrow> apply_failed syncErr err ((set_wal w e)\<lparr>weManager := m\<rparr>) env
                  | (None, m) \<Rightarrow> finish (opDocID op) syncErr ((set_wal w e)\<lparr>weManager := m\<rparr>) env))))"

lemma logged_op_outcome:
  assumes run: "logged_op ctx pre app e env = ((d, err), e', env')"
    and app: "\<And>op m. pre = Inr op \<Longrightarrow> app op = (None, m) \<Longrightarrow>
      \<forall>env. applyRecoveredOperation ops DetachedCtx op (weManager e) env = (None, m, env)"
  shows "outcome ops ctx e env err e'"
proof (cases "wePoisoned e = None \<and> (\<exists>op p. pre = Inr op \<and> encodeWriteOperation op = Inr p)")
  case False
  then have "err \<noteq> None \<and> e' = e"
    using run by (auto simp: logged_op_def split: if_splits sum.splits dest: sym)
  then show ?thesis by (simp add: outcome_refused)
next
  case True
  then obtain op p where base: "wePoisoned e = None" and pre: "pre = Inr op" "encodeWriteOperation op = Inr p" by blast
  obtain lsn sy w e1 where ap: "WAL_Append ctx p (weWal e) env = ((lsn, sy), w, e1)" by (metis surj_pair)
  obtain r m where r: "app op = (r, m)" by fastforce
  show ?thesis
  proof (cases "sy \<noteq> None \<and> lsn = 0")
    case True
    then show ?thesis using run base pre ap outcome_unlogged [of ctx p e env _ w e1 ops]
      by (auto simp: logged_op_def)
  next
    case logged: False
    show ?thesis
    proof (cases r)
      case None
      then have "applies ops p (weManager e) m"
        using app [OF pre(1)] r by (simp add: applies_def recover_encoded [OF pre(2)])
      with None logged show ?thesis
        using run base pre ap r
        by (intro outcome_applied [OF base ap logged, where ea = "(set_wal w e)\<lparr>weManager := m\<rparr>" and envb = e1
              and doc = "opDocID op" and d = d and env' = env']) (auto simp: logged_op_def split: if_splits)
    next
      case (Some er)
      with logged show ?thesis
        using run base pre ap r
        by (intro outcome_failed [OF base ap logged, where ea = "(set_wal w e)\<lparr>weManager := m\<rparr>" and envb = e1
              and er = er and d = d and env' = env']) (auto simp: logged_op_def split: if_splits)
    qed
  qed
qed

subsection \<open>The four operations\<close>

definition doc_checks :: "WriteInput \<Rightarrow> error option" where
  "doc_checks input =
     (case ValidatePrimaryKey (inPrimaryKey input) of
        Some err \<Rightarrow> Some err
      | None \<Rightarrow> if MaxDocumentPayloadSize < length (inPayload input)
                then Some (ErrMsg ''db: document payload is %d bytes, maximum %d'') else None)"

definition next_op :: "writeOperationType \<Rightarrow> WriteInput \<Rightarrow> 'db SegmentManager \<Rightarrow> error + writeOperation" where
  "next_op ty input m =
     (case sgWriting m of
        None \<Rightarrow> Inl (ErrMsg ''db: no writing segment'')
      | Some writing \<Rightarrow>
        (case WriteSegment_NextDocumentID writing of
           Inl err \<Rightarrow> Inl err
         | Inr docID \<Rightarrow> Inr \<lparr>opType = ty, opDocID = docID, opPrimaryKey = inPrimaryKey input, opPayload = inPayload input\<rparr>))"

definition insert_pre :: "'db pebble \<Rightarrow> WriteInput \<Rightarrow> 'db SegmentManager \<Rightarrow> error + writeOperation" where
  "insert_pre ops input m =
     (case doc_checks input of
        Some err \<Rightarrow> Inl err
      | None \<Rightarrow>
        (case PrimaryKeyMap_Get ops (sgPrimaryKey m) (inPrimaryKey input) of
           (_, exists, Some err) \<Rightarrow> Inl err
         | (_, exists, None) \<Rightarrow>
             if exists then Inl (wrapf ErrPrimaryKeyExists ''%q'') else next_op writeOperationInsert input m))"

definition insert_app :: "'db pebble \<Rightarrow> 'db SegmentManager \<Rightarrow> writeOperation \<Rightarrow> error option \<times> 'db SegmentManager" where
  "insert_app ops m op =
     (case seg_apply (opDocID op) (opPrimaryKey op) (opPayload op) (the (sgWriting m)) of
        (Some err, s) \<Rightarrow> (Some (ErrWrap ''db: apply WAL insert'' [err]), m\<lparr>sgWriting := Some s\<rparr>)
      | (None, s) \<Rightarrow>
        (case key_putNew ops (opPrimaryKey op) (opDocID op) (sgPrimaryKey m) of
           (Some err, pk) \<Rightarrow> (Some (ErrWrap ''db: index WAL insert'' [err]), m\<lparr>sgWriting := Some s, sgPrimaryKey := pk\<rparr>)
         | (None, pk) \<Rightarrow> (None, m\<lparr>sgWriting := Some s, sgPrimaryKey := pk\<rparr>)))"

lemma insert_logged_op:
  "insertOneLocked ops ctx i e env =
     logged_op ctx (insert_pre ops i (weManager e)) (insert_app ops (weManager e)) e env"
proof (cases "wePoisoned e = None \<and> ValidatePrimaryKey (inPrimaryKey i) = None \<and> \<not> MaxDocumentPayloadSize < length (inPayload i)")
  case False
  then show ?thesis
    by (auto simp: insertOneLocked_def logged_op_def insert_pre_def doc_checks_def split: option.split)
next
  case valid: True
  obtain previous existed g where get: "PrimaryKeyMap_Get ops (sgPrimaryKey (weManager e)) (inPrimaryKey i) = (previous, existed, g)"
    by (metis surj_pair)
  show ?thesis
  proof (cases "next_op writeOperationInsert i (weManager e)")
    case (Inl err)
    with valid get show ?thesis
      by (cases g; cases existed)
         (auto simp: insertOneLocked_def logged_op_def insert_pre_def doc_checks_def next_op_def split: option.splits sum.splits)
  next
    case (Inr op)
    then obtain s where s: "sgWriting (weManager e) = Some s" "WriteSegment_NextDocumentID s = Inr (opDocID op)"
      "op = \<lparr>opType = writeOperationInsert, opDocID = opDocID op, opPrimaryKey = inPrimaryKey i, opPayload = inPayload i\<rparr>"
      by (auto simp: next_op_def split: option.splits sum.splits)
    then have f: "opPrimaryKey op = inPrimaryKey i" "opPayload op = inPayload i"
      by (metis writeOperation.select_convs)+
    obtain r s' where sa: "seg_apply (opDocID op) (inPrimaryKey i) (inPayload i) s = (r, s')" by fastforce
    obtain q pk where kp: "key_putNew ops (inPrimaryKey i) (opDocID op) (sgPrimaryKey (weManager e)) = (q, pk)" by fastforce
    show ?thesis
    proof (cases "encodeWriteOperation op")
      case (Inl err)
      then show ?thesis using valid get s Inr
        by (cases g; cases existed) (simp_all add: insertOneLocked_def logged_op_def insert_pre_def doc_checks_def)
    next
      case (Inr p)
      obtain lsn sy w env1 where ap: "WAL_Append ctx p (weWal e) env = ((lsn, sy), w, env1)" by (metis surj_pair)
      show ?thesis using valid get s f \<open>next_op _ i (weManager e) = Inr op\<close> Inr ap sa kp
        by (cases g; cases existed; cases r; cases q)
           (simp_all add: insertOneLocked_def logged_op_def insert_pre_def doc_checks_def insert_app_def  detached Let_def)
    qed
  qed
qed

lemma next_op_eqD:
  assumes "next_op ty i m = Inr op"
  obtains s where "sgWriting m = Some s" "opType op = ty" "opPrimaryKey op = inPrimaryKey i"
  using assms by (auto simp: next_op_def split: option.splits sum.splits)

lemma insert_app_recovers:
  assumes pre: "insert_pre ops i m = Inr op" and app: "insert_app ops m op = (None, m')"
  shows "applyRecoveredOperation ops DetachedCtx op m env = (None, m', env)"
proof -
  obtain d where get: "PrimaryKeyMap_Get ops (sgPrimaryKey m) (inPrimaryKey i) = (d, False, None)"
    and n: "next_op writeOperationInsert i m = Inr op"
    using pre by (auto simp: insert_pre_def split: option.splits prod.splits if_splits)
  from next_op_eqD [OF n] obtain s where s: "sgWriting m = Some s" "opType op = writeOperationInsert" "opPrimaryKey op = inPrimaryKey i" .
  obtain r s' where sa: "seg_apply (opDocID op) (inPrimaryKey i) (opPayload op) s = (r, s')" by fastforce
  obtain q pk where kp: "key_putNew ops (inPrimaryKey i) (opDocID op) (sgPrimaryKey m) = (q, pk)" by fastforce
  show ?thesis
    using app get s sa kp
    by (cases r; cases q) (simp_all add: insert_app_def applyRecoveredOperation_def detached)
qed

lemma insert_outcome:
  assumes "insertOneLocked ops ctx i e env = ((d, err), e', env')"
  shows "outcome ops ctx e env err e'"
  using logged_op_outcome [OF assms [unfolded insert_logged_op]] insert_app_recovers by blast

definition replace_app :: "string \<Rightarrow> string \<Rightarrow> string \<Rightarrow> 'db pebble \<Rightarrow> u64 \<Rightarrow> bool \<Rightarrow> 'db SegmentManager \<Rightarrow> writeOperation
    \<Rightarrow> error option \<times> 'db SegmentManager" where
  "replace_app applyMsg deleteMsg indexMsg ops previous existed m op =
     (case seg_apply (opDocID op) (opPrimaryKey op) (opPayload op) (the (sgWriting m)) of
        (Some err, s) \<Rightarrow> (Some (ErrWrap applyMsg [err]), m\<lparr>sgWriting := Some s\<rparr>)
      | (None, s) \<Rightarrow>
        let ds = (if existed then (sgDeletes m)\<lparr>dsDeleted := insert previous (dsDeleted (sgDeletes m))\<rparr> else sgDeletes m) in
        (case key_put ops (opPrimaryKey op) (opDocID op) (sgPrimaryKey m) of
           ((_, _, Some err), pk) \<Rightarrow>
             (Some (ErrWrap indexMsg [err]), m\<lparr>sgWriting := Some s, sgDeletes := ds, sgPrimaryKey := pk\<rparr>)
         | ((_, _, None), pk) \<Rightarrow> (None, m\<lparr>sgWriting := Some s, sgDeletes := ds, sgPrimaryKey := pk\<rparr>)))"

definition upsert_pre :: "'db pebble \<Rightarrow> WriteInput \<Rightarrow> 'db SegmentManager \<Rightarrow> error + writeOperation" where
  "upsert_pre ops input m =
     (case doc_checks input of
        Some err \<Rightarrow> Inl err
      | None \<Rightarrow>
        (case PrimaryKeyMap_Get ops (sgPrimaryKey m) (inPrimaryKey input) of
           (_, _, Some err) \<Rightarrow> Inl err
         | (_, _, None) \<Rightarrow> next_op writeOperationUpsert input m))"

definition upsert_app :: "'db pebble \<Rightarrow> 'db SegmentManager \<Rightarrow> writeOperation \<Rightarrow> error option \<times> 'db SegmentManager" where
  "upsert_app ops m op =
     (case PrimaryKeyMap_Get ops (sgPrimaryKey m) (opPrimaryKey op) of
        (previous, existed, _) \<Rightarrow> replace_app ''db: apply WAL upsert'' ''db: delete prior upsert version''
           ''db: index WAL upsert'' ops previous existed m op)"

definition update_pre :: "'db pebble \<Rightarrow> WriteInput \<Rightarrow> 'db SegmentManager \<Rightarrow> error + writeOperation" where
  "update_pre ops input m =
     (case doc_checks input of
        Some err \<Rightarrow> Inl err
      | None \<Rightarrow>
        (case PrimaryKeyMap_Get ops (sgPrimaryKey m) (inPrimaryKey input) of
           (_, _, Some err) \<Rightarrow> Inl err
         | (_, existed, None) \<Rightarrow>
             if \<not> existed then Inl (wrapf ErrPrimaryKeyNotFound ''%q'') else next_op writeOperationUpdate input m))"

definition update_app :: "'db pebble \<Rightarrow> 'db SegmentManager \<Rightarrow> writeOperation \<Rightarrow> error option \<times> 'db SegmentManager" where
  "update_app ops m op =
     (case PrimaryKeyMap_Get ops (sgPrimaryKey m) (opPrimaryKey op) of
        (previous, existed, _) \<Rightarrow> replace_app ''db: apply WAL update'' ''db: delete prior update version''
           ''db: index WAL update'' ops previous True m op)"

lemma upsert_logged_op:
  "upsertOneLocked ops ctx i e env =
     logged_op ctx (upsert_pre ops i (weManager e)) (upsert_app ops (weManager e)) e env"
proof (cases "wePoisoned e = None \<and> ValidatePrimaryKey (inPrimaryKey i) = None \<and> \<not> MaxDocumentPayloadSize < length (inPayload i)")
  case False
  then show ?thesis
    by (auto simp: upsertOneLocked_def logged_op_def upsert_pre_def doc_checks_def split: option.split)
next
  case valid: True
  obtain previous existed g where get: "PrimaryKeyMap_Get ops (sgPrimaryKey (weManager e)) (inPrimaryKey i) = (previous, existed, g)"
    by (metis surj_pair)
  show ?thesis
  proof (cases "next_op writeOperationUpsert i (weManager e)")
    case (Inl err)
    with valid get show ?thesis
      by (cases g; cases existed)
         (auto simp: upsertOneLocked_def logged_op_def upsert_pre_def doc_checks_def next_op_def split: option.splits sum.splits)
  next
    case (Inr op)
    then obtain s where s: "sgWriting (weManager e) = Some s" "WriteSegment_NextDocumentID s = Inr (opDocID op)"
      "op = \<lparr>opType = writeOperationUpsert, opDocID = opDocID op, opPrimaryKey = inPrimaryKey i, opPayload = inPayload i\<rparr>"
      by (auto simp: next_op_def split: option.splits sum.splits)
    then have f: "opPrimaryKey op = inPrimaryKey i" "opPayload op = inPayload i"
      by (metis writeOperation.select_convs)+
    obtain r s' where sa: "seg_apply (opDocID op) (inPrimaryKey i) (inPayload i) s = (r, s')" by fastforce
    obtain qa qb q pk where kp: "key_put ops (inPrimaryKey i) (opDocID op) (sgPrimaryKey (weManager e)) = ((qa, qb, q), pk)" by (metis surj_pair)
    show ?thesis
    proof (cases "encodeWriteOperation op")
      case (Inl err)
      then show ?thesis using valid get s Inr
        by (cases g; cases existed) (simp_all add: upsertOneLocked_def logged_op_def upsert_pre_def doc_checks_def)
    next
      case (Inr p)
      obtain lsn sy w env1 where ap: "WAL_Append ctx p (weWal e) env = ((lsn, sy), w, env1)" by (metis surj_pair)
      show ?thesis using valid get s f \<open>next_op _ i (weManager e) = Inr op\<close> Inr ap sa kp
        by (cases g; cases existed; cases r; cases q)
           (simp_all add: upsertOneLocked_def logged_op_def upsert_pre_def doc_checks_def upsert_app_def replace_app_def detached Let_def)
    qed
  qed
qed

lemma update_logged_op:
  "updateOneLocked ops ctx i e env =
     logged_op ctx (update_pre ops i (weManager e)) (update_app ops (weManager e)) e env"
proof (cases "wePoisoned e = None \<and> ValidatePrimaryKey (inPrimaryKey i) = None \<and> \<not> MaxDocumentPayloadSize < length (inPayload i)")
  case False
  then show ?thesis
    by (auto simp: updateOneLocked_def logged_op_def update_pre_def doc_checks_def split: option.split)
next
  case valid: True
  obtain previous existed g where get: "PrimaryKeyMap_Get ops (sgPrimaryKey (weManager e)) (inPrimaryKey i) = (previous, existed, g)"
    by (metis surj_pair)
  show ?thesis
  proof (cases "next_op writeOperationUpdate i (weManager e)")
    case (Inl err)
    with valid get show ?thesis
      by (cases g; cases existed)
         (auto simp: updateOneLocked_def logged_op_def update_pre_def doc_checks_def next_op_def split: option.splits sum.splits)
  next
    case (Inr op)
    then obtain s where s: "sgWriting (weManager e) = Some s" "WriteSegment_NextDocumentID s = Inr (opDocID op)"
      "op = \<lparr>opType = writeOperationUpdate, opDocID = opDocID op, opPrimaryKey = inPrimaryKey i, opPayload = inPayload i\<rparr>"
      by (auto simp: next_op_def split: option.splits sum.splits)
    then have f: "opPrimaryKey op = inPrimaryKey i" "opPayload op = inPayload i"
      by (metis writeOperation.select_convs)+
    obtain r s' where sa: "seg_apply (opDocID op) (inPrimaryKey i) (inPayload i) s = (r, s')" by fastforce
    obtain qa qb q pk where kp: "key_put ops (inPrimaryKey i) (opDocID op) (sgPrimaryKey (weManager e)) = ((qa, qb, q), pk)" by (metis surj_pair)
    show ?thesis
    proof (cases "encodeWriteOperation op")
      case (Inl err)
      then show ?thesis using valid get s Inr
        by (cases g; cases existed) (simp_all add: updateOneLocked_def logged_op_def update_pre_def doc_checks_def)
    next
      case (Inr p)
      obtain lsn sy w env1 where ap: "WAL_Append ctx p (weWal e) env = ((lsn, sy), w, env1)" by (metis surj_pair)
      show ?thesis using valid get s f \<open>next_op _ i (weManager e) = Inr op\<close> Inr ap sa kp
        by (cases g; cases existed; cases r; cases q)
           (simp_all add: updateOneLocked_def logged_op_def update_pre_def doc_checks_def update_app_def replace_app_def detached Let_def)
    qed
  qed
qed

lemma replace_app_recovers:
  assumes get: "PrimaryKeyMap_Get ops (sgPrimaryKey m) (inPrimaryKey i) = (previous, existed, None)"
    and n: "next_op ty i m = Inr op" and ty: "ty = writeOperationUpsert \<or> ty = writeOperationUpdate \<and> existed"
    and app: "replace_app a b c ops previous existed m op = (None, m')"
  shows "applyRecoveredOperation ops DetachedCtx op m env = (None, m', env)"
proof -
  from next_op_eqD [OF n] obtain s where s: "sgWriting m = Some s" "opType op = ty" "opPrimaryKey op = inPrimaryKey i" .
  obtain r s' where sa: "seg_apply (opDocID op) (inPrimaryKey i) (opPayload op) s = (r, s')" by fastforce
  obtain qa qb q pk where kp: "key_put ops (inPrimaryKey i) (opDocID op) (sgPrimaryKey m) = ((qa, qb, q), pk)"
    by (metis surj_pair)
  have t: "ty \<noteq> writeOperationDelete" "ty \<noteq> writeOperationInsert" "writeOperationUpsert \<noteq> writeOperationUpdate"
    using ty by (auto simp: op_types)
  show ?thesis
    using app get s sa kp ty t
    by (cases r; cases q; cases existed) (simp_all add: replace_app_def applyRecoveredOperation_def detached)
qed

lemma upsert_app_recovers:
  assumes pre: "upsert_pre ops i m = Inr op" and app: "upsert_app ops m op = (None, m')"
  shows "applyRecoveredOperation ops DetachedCtx op m env = (None, m', env)"
proof -
  obtain previous existed where get: "PrimaryKeyMap_Get ops (sgPrimaryKey m) (inPrimaryKey i) = (previous, existed, None)"
    and n: "next_op writeOperationUpsert i m = Inr op"
    using pre by (auto simp: upsert_pre_def split: option.splits prod.splits if_splits)
  have "opPrimaryKey op = inPrimaryKey i" using next_op_eqD [OF n] by metis
  with app replace_app_recovers [OF get n] show ?thesis by (simp add: upsert_app_def get)
qed

lemma update_app_recovers:
  assumes pre: "update_pre ops i m = Inr op" and app: "update_app ops m op = (None, m')"
  shows "applyRecoveredOperation ops DetachedCtx op m env = (None, m', env)"
proof -
  obtain previous where get: "PrimaryKeyMap_Get ops (sgPrimaryKey m) (inPrimaryKey i) = (previous, True, None)"
    and n: "next_op writeOperationUpdate i m = Inr op"
    using pre by (auto simp: update_pre_def split: option.splits prod.splits if_splits)
  have "opPrimaryKey op = inPrimaryKey i" using next_op_eqD [OF n] by metis
  with app replace_app_recovers [OF get n] show ?thesis by (simp add: update_app_def get)
qed

lemma upsert_outcome:
  assumes "upsertOneLocked ops ctx i e env = ((d, err), e', env')"
  shows "outcome ops ctx e env err e'"
  using logged_op_outcome [OF assms [unfolded upsert_logged_op]] upsert_app_recovers by blast

lemma update_outcome:
  assumes "updateOneLocked ops ctx i e env = ((d, err), e', env')"
  shows "outcome ops ctx e env err e'"
  using logged_op_outcome [OF assms [unfolded update_logged_op]] update_app_recovers by blast

definition delete_pre :: "'db pebble \<Rightarrow> bytes \<Rightarrow> 'db SegmentManager \<Rightarrow> error + writeOperation" where
  "delete_pre ops key m =
     (case ValidatePrimaryKey key of
        Some err \<Rightarrow> Inl err
      | None \<Rightarrow>
        (case PrimaryKeyMap_Get ops (sgPrimaryKey m) key of
           (_, _, Some err) \<Rightarrow> Inl err
         | (docID, existed, None) \<Rightarrow>
             if \<not> existed then Inl (wrapf ErrPrimaryKeyNotFound ''%q'')
             else Inr \<lparr>opType = writeOperationDelete, opDocID = docID, opPrimaryKey = key, opPayload = []\<rparr>))"

definition delete_app :: "'db pebble \<Rightarrow> 'db SegmentManager \<Rightarrow> writeOperation \<Rightarrow> error option \<times> 'db SegmentManager" where
  "delete_app ops m op =
     (let ds = (sgDeletes m)\<lparr>dsDeleted := insert (opDocID op) (dsDeleted (sgDeletes m))\<rparr> in
      (case key_delete ops (opPrimaryKey op) (sgPrimaryKey m) of
         ((_, _, Some err), pk) \<Rightarrow>
           (Some (ErrWrap ''db: remove deleted primary key'' [err]), m\<lparr>sgDeletes := ds, sgPrimaryKey := pk\<rparr>)
       | ((removed, found, None), pk) \<Rightarrow>
           ((if \<not> found \<or> removed \<noteq> opDocID op then Some (ErrMsg ''db: IDMap changed while applying delete'') else None),
            m\<lparr>sgDeletes := ds, sgPrimaryKey := pk\<rparr>)))"

lemma delete_logged_op:
  "deleteOneLocked ops ctx k e env =
     logged_op ctx (delete_pre ops k (weManager e)) (delete_app ops (weManager e)) e env"
proof -
  obtain docID existed g where get: "PrimaryKeyMap_Get ops (sgPrimaryKey (weManager e)) k = (docID, existed, g)"
    by (metis surj_pair)
  obtain qa qb q pk where kd: "key_delete ops k (sgPrimaryKey (weManager e)) = ((qa, qb, q), pk)" by (metis surj_pair)
  define op where "op = \<lparr>opType = writeOperationDelete, opDocID = docID, opPrimaryKey = k, opPayload = []\<rparr>"
  have f: "opPrimaryKey op = k" "opDocID op = docID" by (simp_all add: op_def)
  show ?thesis
  proof (cases "encodeWriteOperation op")
    case (Inl err)
    then show ?thesis using get unfolding op_def
      by (cases g; cases existed; cases "ValidatePrimaryKey k"; cases "wePoisoned e")
         (simp_all add: deleteOneLocked_def logged_op_def delete_pre_def)
  next
    case (Inr p)
    obtain lsn sy w env1 where ap: "WAL_Append ctx p (weWal e) env = ((lsn, sy), w, env1)" by (metis surj_pair)
    show ?thesis using get f Inr ap kd op_def [symmetric]
      by (cases g; cases existed; cases q; cases "ValidatePrimaryKey k"; cases "wePoisoned e")
         (simp_all add: deleteOneLocked_def logged_op_def delete_pre_def delete_app_def detached Let_def)
  qed
qed

lemma delete_app_recovers:
  assumes pre: "delete_pre ops k m = Inr op" and app: "delete_app ops m op = (None, m')"
  shows "applyRecoveredOperation ops DetachedCtx op m env = (None, m', env)"
proof -
  obtain d where get: "PrimaryKeyMap_Get ops (sgPrimaryKey m) k = (d, True, None)"
    and op: "op = \<lparr>opType = writeOperationDelete, opDocID = d, opPrimaryKey = k, opPayload = []\<rparr>"
    using pre by (auto simp: delete_pre_def split: option.splits prod.splits if_splits)
  obtain qa qb q pk where kd: "key_delete ops k (sgPrimaryKey m) = ((qa, qb, q), pk)" by (metis surj_pair)
  have t: "writeOperationDelete \<noteq> writeOperationInsert" "writeOperationDelete \<noteq> writeOperationUpsert"
    "writeOperationDelete \<noteq> writeOperationUpdate" by (simp_all add: op_types)
  show ?thesis
    using app get kd t
    by (cases q) (simp_all add: op delete_app_def applyRecoveredOperation_def detached split: if_splits)
qed

lemma delete_outcome:
  assumes "deleteOneLocked ops ctx k e env = ((d, err), e', env')"
  shows "outcome ops ctx e env err e'"
  using logged_op_outcome [OF assms [unfolded delete_logged_op]] delete_app_recovers by blast

end
