(* ===== verification/Coherence.thy ===== *)
theory Coherence
  imports Engine_Recovery
begin

text \<open>
  Coherence of the document stores: the IDMap maps a key to a document ID exactly when a retained, undeleted
  document has them. On coherent states the operations of the write engine act on the contents, a
  finite map from keys to payloads.
\<close>

subsection \<open>Coherent states\<close>

abbreviation key_view :: "('db \<Rightarrow> bytes \<rightharpoonup> bytes) \<Rightarrow> 'db SegmentManager \<Rightarrow> bytes \<rightharpoonup> u64" where
  "key_view pmap m \<equiv> idmap_view pmap (sgPrimaryKey m)"

abbreviation deleted :: "'db SegmentManager \<Rightarrow> u64 set" where
  "deleted m \<equiv> dsDeleted (sgDeletes m)"

definition coherent :: "('db \<Rightarrow> bytes \<rightharpoonup> bytes) \<Rightarrow> 'db SegmentManager \<Rightarrow> bool" where
  "coherent pmap m \<longleftrightarrow>
     (\<forall>k d. key_view pmap m k = Some d \<longleftrightarrow>
        d \<notin> deleted m \<and> (\<exists>doc \<in> set (retained m). DocID doc = d \<and> PrimaryKey doc = k))
     \<and> deleted m \<subseteq> DocID ` set (retained m)"

definition state_ok :: "'db pebble \<Rightarrow> ('db \<Rightarrow> bytes \<rightharpoonup> bytes) \<Rightarrow> 'db SegmentManager \<Rightarrow> bool" where
  "state_ok ops pmap m \<longleftrightarrow> mgr_ok m \<and> idmap_inv ops pmap (sgPrimaryKey m) \<and> coherent pmap m"

definition contents :: "('db \<Rightarrow> bytes \<rightharpoonup> bytes) \<Rightarrow> 'db SegmentManager \<Rightarrow> bytes \<rightharpoonup> bytes" where
  "contents pmap m k = Option.bind (key_view pmap m k) (\<lambda>d. map_option Payload (SegmentManager_RetainedDocument m d))"

lemma state_view:
  assumes "state_ok ops pmap m"
  shows "key_view pmap m k = Some d \<longleftrightarrow>
    d \<notin> deleted m \<and> (\<exists>doc. SegmentManager_RetainedDocument m d = Some doc \<and> PrimaryKey doc = k)"
proof -
  have "mgr_ok m" "key_view pmap m k = Some d \<longleftrightarrow>
        d \<notin> deleted m \<and> (\<exists>doc \<in> set (retained m). DocID doc = d \<and> PrimaryKey doc = k)"
    using assms by (simp_all add: state_ok_def coherent_def)
  then show ?thesis by (simp add: RetainedDocument_iff Bex_def conj_assoc)
qed

lemma contents_None:
  assumes "state_ok ops pmap m"
  shows "contents pmap m k = None \<longleftrightarrow> key_view pmap m k = None"
proof (cases "key_view pmap m k")
  case (Some d)
  then show ?thesis using state_view [OF assms, of k d] by (auto simp: contents_def)
qed (simp add: contents_def)

text \<open>Document IDs are unique across the segments.\<close>

lemma ranges_docs_sorted:
  assumes "ranges_sorted ss" "\<forall>s \<in> set ss. im_ok s"
  shows "sorted_wrt (<) (map DocID (concat (map isDocs ss)))"
  using assms
proof (induction ss)
  case (Cons s ss)
  have "DocID x < DocID y" if "x \<in> set (isDocs s)" "t \<in> set ss" "y \<in> set (isDocs t)" for x t y
  proof -
    have "maxID s < minID t" using Cons.prems(1) that(2) by (simp add: ranges_sorted_def)
    then show ?thesis using im_ok_bounds [of s x] im_ok_bounds [of t y] Cons.prems(2) that by (auto dest: order.strict_trans1 order.strict_trans2)
  qed
  moreover have "ranges_sorted ss" using Cons.prems(1) by (simp add: ranges_sorted_def)
  ultimately show ?case
    using Cons iseg.docs_sorted [of s] by (auto simp: sorted_wrt_append)
qed simp

lemma retained_distinct:
  assumes "mgr_ok m"
  shows "distinct (map DocID (retained m))"
proof -
  have im: "distinct (map DocID (concat (map isDocs (sgOrdered m))))"
    using ranges_docs_sorted [of "sgOrdered m"] assms strict_sorted_iff by (auto simp: mgr_ok_def)
  show ?thesis
  proof (cases "sgWriting m")
    case None
    then show ?thesis using im by (simp add: retained_def)
  next
    case (Some w)
    have w: "writing_ok (sgOrdered m) w" using assms Some by (simp add: mgr_ok_def)
    then have wok: "ws_ok w" by (simp add: writing_ok_def)
    have "DocID x \<noteq> DocID y" if "s \<in> set (sgOrdered m)" "x \<in> set (isDocs s)" "y \<in> set (wsDocs w)" for s x y
      using that w im_ok_bounds [of s x] ws_ok_bounds [OF wok that(3)] assms im_ok_range(5) [of s]
      by (auto simp: mgr_ok_def writing_ok_def reserved_overlaps_def word_gt_0 dest: order.trans)
    then show ?thesis
      using im wseg.docs_distinct [OF wok] Some by (auto simp: retained_def)
  qed
qed

subsection \<open>The two kinds of change\<close>

lemma seg_apply_ok:
  assumes "writing_ok ss s" "seg_apply d k v s = (None, s')"
  shows "writing_ok ss s'" "wsDocs s' = wsDocs s @ [\<lparr>DocID = d, PrimaryKey = k, Payload = v\<rparr>]"
proof -
  obtain r t env' where a: "WriteSegment_append DetachedCtx (Some d) k v s calm = (r, t, env')" by (metis surj_pair)
  then obtain doc where r: "r = Inr doc" "t = s'"
    using assms(2) by (cases r) (auto simp: seg_apply_def WriteSegment_ApplyExpected_def)
  have ws: "ws_ok s" using assms(1) by (simp add: writing_ok_def)
  show "writing_ok ss s'" using writing_append_ok [OF assms(1) a] r by simp
  show "wsDocs s' = wsDocs s @ [\<lparr>DocID = d, PrimaryKey = k, Payload = v\<rparr>]"
    using append_ok(2,3,5) [OF ws a [unfolded r]] by simp
qed

text \<open>A new version of \<open>k\<close>: the document is appended, the previous version deleted, the key remapped.\<close>

lemma add_version:
  assumes ok: "state_ok ops pmap m" and w: "sgWriting m = Some s" and ap: "seg_apply d k v s = (None, s')"
    and pk: "idmap_inv ops pmap pk" "idmap_view pmap pk = (key_view pmap m)(k \<mapsto> d)"
    and ds: "dsDeleted ds = deleted m \<union> set_option (key_view pmap m k)"
  defines "m' \<equiv> m\<lparr>sgWriting := Some s', sgDeletes := ds, sgPrimaryKey := pk\<rparr>"
  shows "state_ok ops pmap m'" "contents pmap m' = (contents pmap m)(k \<mapsto> v)"
proof -
  let ?doc = "\<lparr>DocID = d, PrimaryKey = k, Payload = v\<rparr>"
  have wo: "writing_ok (sgOrdered m) s" and mo: "mgr_ok m" and co: "coherent pmap m"
    using ok w by (simp_all add: state_ok_def mgr_ok_def)
  note sa = seg_apply_ok [OF wo ap]
  have mo': "mgr_ok m'" using mo sa(1) by (simp add: m'_def mgr_ok_def)
  have ret: "retained m' = retained m @ [?doc]" using w sa(2) by (simp add: m'_def retained_def)
  have new: "d \<notin> DocID ` set (retained m)" using retained_distinct [OF mo'] by (simp add: ret)
  have d: "d \<notin> deleted m" "\<And>k'. key_view pmap m k' \<noteq> Some d" using co new by (auto simp: coherent_def)
  have inj: "k' = k''" if "key_view pmap m k' = Some x" "key_view pmap m k'' = Some x" for k' k'' x
    using that co retained_distinct [OF mo] by (auto simp: coherent_def distinct_map dest: inj_onD)
  have "(key_view pmap m' k' = Some x) \<longleftrightarrow>
      x \<notin> deleted m' \<and> (\<exists>doc \<in> set (retained m'). DocID doc = x \<and> PrimaryKey doc = k')" for k' x
  proof (cases "x = d")
    case True
    then show ?thesis using d new ds pk(2) by (auto simp: m'_def ret [unfolded m'_def])
  next
    case False
    have "(key_view pmap m' k' = Some x) \<longleftrightarrow> key_view pmap m k' = Some x \<and> k' \<noteq> k"
      using False pk(2) by (simp add: m'_def)
    also have "\<dots> \<longleftrightarrow> key_view pmap m k' = Some x \<and> key_view pmap m k \<noteq> Some x"
      using inj by (metis (no_types))
    finally show ?thesis using co False ds by (auto simp: m'_def ret [unfolded m'_def] coherent_def)
  qed
  moreover have "deleted m' \<subseteq> DocID ` set (retained m')"
    using co ds by (auto simp: m'_def ret [unfolded m'_def] coherent_def)
  ultimately have "coherent pmap m'" unfolding coherent_def by blast
  with mo' pk(1) show ok': "state_ok ops pmap m'" by (simp add: state_ok_def m'_def)
  show "contents pmap m' = (contents pmap m)(k \<mapsto> v)"
  proof
    fix k'
    have "contents pmap m' k' = Some u \<longleftrightarrow> ((contents pmap m)(k \<mapsto> v)) k' = Some u" for u
    proof (cases "k' = k")
      case True
      have "SegmentManager_RetainedDocument m' d = Some ?doc" using RetainedDocument_iff [OF mo'] ret by simp
      then show ?thesis using True pk(2) by (simp add: contents_def m'_def)
    next
      case False
      have "SegmentManager_RetainedDocument m' x = SegmentManager_RetainedDocument m x" if "x \<noteq> d" for x
      proof -
        have "SegmentManager_RetainedDocument m' x = Some y \<longleftrightarrow> SegmentManager_RetainedDocument m x = Some y" for y
          unfolding RetainedDocument_iff [OF mo'] RetainedDocument_iff [OF mo] ret using that by auto
        then show ?thesis by (metis not_Some_eq)
      qed
      moreover have "key_view pmap m' k' = key_view pmap m k'" using False pk(2) by (simp add: m'_def)
      moreover have "x \<noteq> d" if "key_view pmap m k' = Some x" for x using that d(2) by metis
      ultimately show ?thesis using False by (cases "key_view pmap m k'") (simp_all add: contents_def)
    qed
    then show "contents pmap m' k' = ((contents pmap m)(k \<mapsto> v)) k'" by (metis not_Some_eq)
  qed
qed

lemma drop_version:
  assumes ok: "state_ok ops pmap m" and v: "key_view pmap m k = Some d"
    and pk: "idmap_inv ops pmap pk" "idmap_view pmap pk = (key_view pmap m)(k := None)"
    and ds: "dsDeleted ds = insert d (deleted m)"
  defines "m' \<equiv> m\<lparr>sgDeletes := ds, sgPrimaryKey := pk\<rparr>"
  shows "state_ok ops pmap m'" "contents pmap m' = (contents pmap m)(k := None)"
proof -
  have mo: "mgr_ok m" and co: "coherent pmap m" using ok by (simp_all add: state_ok_def)
  have mo': "mgr_ok m'" using mo by (simp add: m'_def mgr_ok_def)
  have ret: "retained m' = retained m" by (simp add: m'_def retained_def)
  have inj: "k' = k" if "key_view pmap m k' = Some d" for k'
    using that v co retained_distinct [OF mo] by (auto simp: coherent_def distinct_map dest: inj_onD)
  have "(key_view pmap m' k' = Some x) \<longleftrightarrow>
      x \<notin> deleted m' \<and> (\<exists>doc \<in> set (retained m'). DocID doc = x \<and> PrimaryKey doc = k')" for k' x
  proof -
    have "(key_view pmap m' k' = Some x) \<longleftrightarrow> key_view pmap m k' = Some x \<and> x \<noteq> d"
    proof (cases "k' = k")
      case True
      then show ?thesis using pk(2) v by (auto simp: m'_def)
    next
      case False
      then have "key_view pmap m k' \<noteq> Some d" using inj by blast
      moreover have "key_view pmap m' k' = key_view pmap m k'" using pk(2) False by (simp add: m'_def)
      ultimately show ?thesis by metis
    qed
    moreover have "key_view pmap m k' = Some x \<longleftrightarrow>
        x \<notin> deleted m \<and> (\<exists>doc \<in> set (retained m). DocID doc = x \<and> PrimaryKey doc = k')"
      using co by (simp add: coherent_def)
    moreover have "deleted m' = insert d (deleted m)" using ds by (simp add: m'_def)
    ultimately show ?thesis unfolding ret by blast
  qed
  moreover have "deleted m' \<subseteq> DocID ` set (retained m')"
    unfolding ret using co ds v by (auto simp: m'_def coherent_def)
  ultimately have "coherent pmap m'" unfolding coherent_def by blast
  with mo' pk(1) show "state_ok ops pmap m'" by (simp add: state_ok_def m'_def)
  have sel: "sgOrdered m' = sgOrdered m" "sgWriting m' = sgWriting m" by (simp_all add: m'_def)
  have "SegmentManager_RetainedDocument m' x = SegmentManager_RetainedDocument m x" for x
    unfolding SegmentManager_RetainedDocument_def sel by (rule refl)
  then show "contents pmap m' = (contents pmap m)(k := None)"
    using pk(2) by (auto simp: contents_def m'_def fun_eq_iff)
qed

subsection \<open>Operations on the contents\<close>

text \<open>What an operation means for the contents; \<open>None\<close> when it does not apply.\<close>

definition op_meaning :: "writeOperation \<Rightarrow> (bytes \<rightharpoonup> bytes) \<Rightarrow> (bytes \<rightharpoonup> bytes) option" where
  "op_meaning op c =
     (if opType op = writeOperationDelete
      then if c (opPrimaryKey op) = None then None else Some (c(opPrimaryKey op := None))
      else if (opType op = writeOperationInsert \<and> c (opPrimaryKey op) \<noteq> None)
           \<or> (opType op = writeOperationUpdate \<and> c (opPrimaryKey op) = None)
      then None else Some (c(opPrimaryKey op \<mapsto> opPayload op)))"

lemma key_put_view:
  "key_put ops k d m = ((p, f, None), m') \<Longrightarrow> idmap_inv ops pmap m \<Longrightarrow>
     idmap_inv ops pmap m' \<and> idmap_view pmap m' = (idmap_view pmap m)(k \<mapsto> d)"
  using idm.put_view [of ops pmap m DetachedCtx k d calm p f m'] by (auto simp: key_put_def split: prod.splits)

lemma key_putNew_view:
  "key_putNew ops k d m = (None, m') \<Longrightarrow> idmap_inv ops pmap m \<Longrightarrow> idmap_view pmap m k = None \<Longrightarrow>
     idmap_inv ops pmap m' \<and> idmap_view pmap m' = (idmap_view pmap m)(k \<mapsto> d)"
  using idm.putNew_view [of ops pmap m k DetachedCtx d calm m'] by (auto simp: key_putNew_def split: prod.splits)

lemma key_delete_view:
  "key_delete ops k m = ((p, f, None), m') \<Longrightarrow> idmap_inv ops pmap m \<Longrightarrow>
     idmap_inv ops pmap m' \<and> idmap_view pmap m' = (idmap_view pmap m)(k := None)"
  using idm.remove_view [of ops pmap m DetachedCtx k calm p f m'] by (auto simp: key_delete_def split: prod.splits)

lemma recovered_insert:
  assumes ok: "state_ok ops pmap m" and ty: "opType op = writeOperationInsert"
    and ap: "applyRecoveredOperation ops DetachedCtx op m env = (None, m', env')"
  shows "state_ok ops pmap m' \<and> op_meaning op (contents pmap m) = Some (contents pmap m')"
proof -
  have t: "writeOperationInsert \<noteq> writeOperationDelete" "writeOperationInsert \<noteq> writeOperationUpdate" by (simp_all add: op_types)
  obtain d x g where get: "PrimaryKeyMap_Get ops (sgPrimaryKey m) (opPrimaryKey op) = (d, x, g)" by (metis surj_pair)
  from ap ty t get obtain s where g: "g = None" "\<not> x" and s: "sgWriting m = Some s"
    by (cases g; cases "sgWriting m"; cases x) (simp_all add: applyRecoveredOperation_def)
  obtain r s' where sa: "seg_apply (opDocID op) (opPrimaryKey op) (opPayload op) s = (r, s')" by fastforce
  obtain q pk where kp: "key_putNew ops (opPrimaryKey op) (opDocID op) (sgPrimaryKey m) = (q, pk)" by fastforce
  have rq: "r = None" "q = None" "m' = m\<lparr>sgWriting := Some s', sgDeletes := sgDeletes m, sgPrimaryKey := pk\<rparr>"
    using ap ty t get g s sa kp by (cases r; simp add: applyRecoveredOperation_def detached)+
  have inv: "idmap_inv ops pmap (sgPrimaryKey m)" using ok by (simp add: state_ok_def)
  have v: "key_view pmap m (opPrimaryKey op) = None" using idm.get_view [OF inv get [unfolded g(1)]] g by simp
  note pk = key_putNew_view [OF kp [unfolded rq(2)] inv v]
  have "state_ok ops pmap m'" "contents pmap m' = (contents pmap m)(opPrimaryKey op \<mapsto> opPayload op)"
    unfolding rq(3) using pk v by (intro add_version [OF ok s sa [unfolded rq(1)]]; simp)+
  then show ?thesis using v ty t contents_None [OF ok] by (simp add: op_meaning_def)
qed

lemma recovered_replace:
  assumes ok: "state_ok ops pmap m" and ty: "opType op = writeOperationUpsert \<or> opType op = writeOperationUpdate"
    and ap: "applyRecoveredOperation ops DetachedCtx op m env = (None, m', env')"
  shows "state_ok ops pmap m' \<and> op_meaning op (contents pmap m) = Some (contents pmap m')"
proof -
  have t: "opType op \<noteq> writeOperationDelete" "opType op \<noteq> writeOperationInsert" "writeOperationUpsert \<noteq> writeOperationUpdate"
    using ty by (auto simp: op_types)
  obtain d x g where get: "PrimaryKeyMap_Get ops (sgPrimaryKey m) (opPrimaryKey op) = (d, x, g)" by (metis surj_pair)
  from ap ty t get obtain s where g: "g = None" and x: "opType op = writeOperationUpdate \<longrightarrow> x" and s: "sgWriting m = Some s"
    by (cases g; cases "sgWriting m"; cases x) (auto simp: applyRecoveredOperation_def)
  obtain r s' where sa: "seg_apply (opDocID op) (opPrimaryKey op) (opPayload op) s = (r, s')" by fastforce
  obtain qa qb q pk where kp: "key_put ops (opPrimaryKey op) (opDocID op) (sgPrimaryKey m) = ((qa, qb, q), pk)"
    by (metis surj_pair)
  define ds where "ds = (if x then (sgDeletes m)\<lparr>dsDeleted := insert d (deleted m)\<rparr> else sgDeletes m)"
  have rq: "r = None" "q = None" "m' = m\<lparr>sgWriting := Some s', sgDeletes := ds, sgPrimaryKey := pk\<rparr>"
    using ap ty t get g x s sa kp by (cases r; cases x; simp add: applyRecoveredOperation_def detached ds_def)+
  have inv: "idmap_inv ops pmap (sgPrimaryKey m)" using ok by (simp add: state_ok_def)
  have v: "key_view pmap m (opPrimaryKey op) = (if x then Some d else None)" using idm.get_view [OF inv get [unfolded g]] by simp
  note pk = key_put_view [OF kp [unfolded rq(2)] inv]
  have "state_ok ops pmap m'" "contents pmap m' = (contents pmap m)(opPrimaryKey op \<mapsto> opPayload op)"
    unfolding rq(3) using pk v by (intro add_version [OF ok s sa [unfolded rq(1)]]; simp add: ds_def)+
  then show ?thesis using v x t contents_None [OF ok, of "opPrimaryKey op"] by (simp add: op_meaning_def)
qed

lemma recovered_delete:
  assumes ok: "state_ok ops pmap m" and ty: "opType op = writeOperationDelete"
    and ap: "applyRecoveredOperation ops DetachedCtx op m env = (None, m', env')"
  shows "state_ok ops pmap m' \<and> op_meaning op (contents pmap m) = Some (contents pmap m')"
proof -
  have t: "writeOperationDelete \<noteq> writeOperationInsert" "writeOperationDelete \<noteq> writeOperationUpdate"
    "writeOperationDelete \<noteq> writeOperationUpsert" by (simp_all add: op_types)
  obtain d x g where get: "PrimaryKeyMap_Get ops (sgPrimaryKey m) (opPrimaryKey op) = (d, x, g)" by (metis surj_pair)
  from ap ty t get have g: "g = None" "x" "d = opDocID op"
    by (cases g; cases x; simp add: applyRecoveredOperation_def split: if_splits)+
  obtain qa qb q pk where kd: "key_delete ops (opPrimaryKey op) (sgPrimaryKey m) = ((qa, qb, q), pk)" by (metis surj_pair)
  have q: "q = None" "m' = m\<lparr>sgDeletes := (sgDeletes m)\<lparr>dsDeleted := insert d (deleted m)\<rparr>, sgPrimaryKey := pk\<rparr>"
    using ap ty t get g kd
    by (cases q; simp add: applyRecoveredOperation_def detached errors_Join_def List.map_filter_def split: if_splits)+
  have inv: "idmap_inv ops pmap (sgPrimaryKey m)" using ok by (simp add: state_ok_def)
  have v: "key_view pmap m (opPrimaryKey op) = Some d" using idm.get_view [OF inv get [unfolded g(1)]] g by simp
  note pk = key_delete_view [OF kd [unfolded q(1)] inv]
  have "state_ok ops pmap m'" "contents pmap m' = (contents pmap m)(opPrimaryKey op := None)"
    unfolding q(2) using pk by (intro drop_version [OF ok v]; simp)+
  then show ?thesis using v ty contents_None [OF ok, of "opPrimaryKey op"] by (simp add: op_meaning_def)
qed

lemma recovered_op:
  assumes "state_ok ops pmap m" "applyRecoveredOperation ops DetachedCtx op m env = (None, m', env')"
  shows "state_ok ops pmap m' \<and> op_meaning op (contents pmap m) = Some (contents pmap m')"
proof -
  have "opType op = writeOperationInsert \<or> opType op = writeOperationUpsert \<or> opType op = writeOperationUpdate
      \<or> opType op = writeOperationDelete"
    using assms(2) by (auto simp: applyRecoveredOperation_def split: if_splits)
  then show ?thesis
    using recovered_insert [OF assms(1) _ assms(2)] recovered_replace [OF assms(1) _ assms(2)]
      recovered_delete [OF assms(1) _ assms(2)] by blast
qed

end
