(* ===== verification/Engine_Durability.thy ===== *)
theory Engine_Durability
  imports Engine_Recovery
begin

text \<open>
  Durability of the write engine: the states the engine goes through are the states that replaying
  its log goes through, one per record, so what is recovered after a crash is one of them.
\<close>

subsection \<open>Runs of an engine\<close>

text \<open>
  One step of an engine: one document of one of the four mutations, or the log being synchronized
  by the collection. Contexts, cancellations and faults are arbitrary.
\<close>

inductive eng_step :: "'db pebble \<Rightarrow> 'db WriteEngine \<Rightarrow> 'db WriteEngine \<Rightarrow> bool" for ops where
  step_insert: "insertOneLocked ops ctx i e env = (r, e', env') \<Longrightarrow> eng_step ops e e'"
| step_upsert: "upsertOneLocked ops ctx i e env = (r, e', env') \<Longrightarrow> eng_step ops e e'"
| step_update: "updateOneLocked ops ctx i e env = (r, e', env') \<Longrightarrow> eng_step ops e e'"
| step_delete: "deleteOneLocked ops ctx k e env = (r, e', env') \<Longrightarrow> eng_step ops e e'"
| step_sync: "WAL_Sync ctx (weWal e) env = (r, w, env') \<Longrightarrow> eng_step ops e (set_wal w e)"

text \<open>
  A run from \<open>e\<close> to \<open>e'\<close> extends the history by the manager after each record that reached the log:
  entry \<open>n\<close> of the history is the state at sequence number \<open>n\<close>.
\<close>

definition next_history :: "'db WriteEngine \<Rightarrow> 'db WriteEngine \<Rightarrow> 'db SegmentManager list \<Rightarrow> 'db SegmentManager list" where
  "next_history e e' hs =
     (if walLastLSN (weWal e') = walLastLSN (weWal e) then hs else hs @ [weManager e'])"

inductive eng_run :: "'db pebble \<Rightarrow> 'db WriteEngine \<Rightarrow> 'db SegmentManager list \<Rightarrow> 'db WriteEngine
    \<Rightarrow> 'db SegmentManager list \<Rightarrow> bool" for ops e hs where
  run_refl: "eng_run ops e hs e hs"
| run_step: "eng_run ops e hs e1 hs1 \<Longrightarrow> eng_step ops e1 e2 \<Longrightarrow> eng_run ops e hs e2 (next_history e1 e2 hs1)"

text \<open>Every batch is such a run.\<close>

lemma eng_run_trans:
  "eng_run ops e1 hs1 e2 hs2 \<Longrightarrow> eng_run ops e hs e1 hs1 \<Longrightarrow> eng_run ops e hs e2 hs2"
  by (induction rule: eng_run.induct) (auto intro: run_step)

lemma batch_loop_run:
  assumes one: "\<And>i e env r e' env'. one i e env = (r, e', env') \<Longrightarrow> eng_step ops e e'"
    and run: "batch_loop one key ctx is e env = (rs, causes, e', env')"
  shows "\<exists>hs'. eng_run ops e hs e' hs'"
  using run
proof (induction "is" arbitrary: e env hs rs causes e' env')
  case Nil
  then show ?case by (auto intro: run_refl)
next
  case (Cons i "is")
  obtain r env1 where c: "ctx_Err ctx env = (r, env1)" by fastforce
  show ?case
  proof (cases r)
    case (Some err)
    with Cons.prems c show ?thesis by (auto intro: run_refl)
  next
    case None
    obtain d er e2 env2 where o: "one i e env1 = ((d, er), e2, env2)" by (metis surj_pair)
    obtain rs2 cs2 e3 env3 where l: "batch_loop one key ctx is e2 env2 = (rs2, cs2, e3, env3)" by (metis surj_pair)
    have [simp]: "e3 = e'" using Cons.prems c None o l by simp
    have "eng_run ops e hs e2 (next_history e e2 hs)"
      by (rule run_step [OF run_refl one [OF o]])
    then show ?thesis using Cons.IH [OF l, of "next_history e e2 hs"] by (auto intro: eng_run_trans)
  qed
qed

lemma batches_run:
  shows "WriteEngine_Insert ops ctx inputs e env = (r, e', env') \<Longrightarrow> \<exists>hs'. eng_run ops e hs e' hs'"
    and "WriteEngine_Upsert ops ctx inputs e env = (r, e', env') \<Longrightarrow> \<exists>hs'. eng_run ops e hs e' hs'"
    and "WriteEngine_Update ops ctx inputs e env = (r, e', env') \<Longrightarrow> \<exists>hs'. eng_run ops e hs e' hs'"
    and "WriteEngine_Delete ops ctx keys e env = (r, e', env') \<Longrightarrow> \<exists>hs'. eng_run ops e hs e' hs'"
  unfolding WriteEngine_Insert_def WriteEngine_Upsert_def WriteEngine_Update_def WriteEngine_Delete_def run_batch_def
  by (auto split: if_splits prod.splits intro: run_refl
      dest!: batch_loop_run [where ops = ops and hs = hs, rotated] intro: eng_step.intros)

subsection \<open>The invariant of a run\<close>

text \<open>
  \<open>m\<^sub>0\<close> is the state the log starts from. The log holds one record per entry of the history after the
  first, and each record replays from its entry to the next, the last one excepted when the engine is poisoned.
\<close>

definition eng_inv :: "'db pebble \<Rightarrow> 'db SegmentManager \<Rightarrow> 'db WriteEngine \<Rightarrow> 'db SegmentManager list \<Rightarrow> bytes list \<Rightarrow> bool" where
  "eng_inv ops m0 e hs ps \<longleftrightarrow> wal_holds (weWal e) ps \<and> length hs = Suc (length ps) \<and> hs ! 0 = m0 \<and> weManager e = last hs
     \<and> (\<forall>i. Suc i < length hs \<longrightarrow> wePoisoned e = None \<or> Suc (Suc i) < length hs \<longrightarrow> applies ops (ps ! i) (hs ! i) (hs ! Suc i))"

lemma eng_inv_same_log:
  assumes "eng_inv ops m0 e hs ps" "wal_holds (weWal e') ps" "weManager e' = weManager e" "wePoisoned e' = wePoisoned e"
  shows "eng_inv ops m0 e' (next_history e e' hs) ps"
  using assms by (auto simp: eng_inv_def next_history_def wal_holds_def)

lemma eng_inv_logged:
  assumes inv: "eng_inv ops m0 e hs ps" and p: "wePoisoned e = None" and w: "wal_holds (weWal e') (ps @ [p])"
    and ap: "wePoisoned e' = None \<Longrightarrow> applies ops p (weManager e) (weManager e')"
  shows "eng_inv ops m0 e' (next_history e e' hs) (ps @ [p])"
proof -
  have i: "length hs = Suc (length ps)" "hs ! 0 = m0" "weManager e = last hs" "wal_holds (weWal e) ps"
    "\<And>i. Suc i < length hs \<Longrightarrow> applies ops (ps ! i) (hs ! i) (hs ! Suc i)"
    using inv p by (simp_all add: eng_inv_def)
  have "walLastLSN (weWal e') \<noteq> walLastLSN (weWal e)" using w i(4) by (simp add: wal_holds_def)
  then have h: "next_history e e' hs = hs @ [weManager e']" by (simp add: next_history_def)
  have "hs \<noteq> []" using i(1) by auto
  then have l: "weManager e = hs ! length ps" using i(1,3) by (simp add: last_conv_nth)
  have "applies ops ((ps @ [p]) ! j) ((hs @ [weManager e']) ! j) ((hs @ [weManager e']) ! Suc j)"
    if j: "Suc j < length (hs @ [weManager e'])" and d: "wePoisoned e' = None \<or> Suc (Suc j) < length (hs @ [weManager e'])" for j
  proof (cases "Suc j < length hs")
    case True
    then show ?thesis using i(1,5) by (simp add: nth_append)
  next
    case False
    then have "j = length ps" "wePoisoned e' = None" using j d i(1) by auto
    then show ?thesis using ap l i(1) by (simp add: nth_append)
  qed
  then show ?thesis
    using w i(1,2) \<open>hs \<noteq> []\<close> unfolding eng_inv_def h by (simp add: nth_append)
qed

lemma outcome_inv:
  assumes inv: "eng_inv ops m0 e hs ps" and out: "outcome ops ctx e env err e'"
  shows "\<exists>qs. eng_inv ops m0 e' (next_history e e' hs) (ps @ qs)"
  using out unfolding outcome_def
proof (elim disjE exE conjE, goal_cases)
  case 1
  then have "wal_holds (weWal e') ps" using inv by (simp add: eng_inv_def)
  with eng_inv_same_log [OF inv] 1 show ?case by (metis append_Nil2)
next
  case (2 p r env')
  then have "wal_holds (weWal e') ps" using WAL_Append_holds [of "weWal e" ps] inv by (fastforce simp: eng_inv_def)
  with eng_inv_same_log [OF inv] 2 show ?case by (metis append_Nil2)
next
  case (3 p lsn syncErr env')
  then have "wal_holds (weWal e') (ps @ [p])" using WAL_Append_holds [of "weWal e" ps] inv by (fastforce simp: eng_inv_def)
  with eng_inv_logged [OF inv, of e' p] 3 show ?case by auto
next
  case (4 p lsn syncErr env')
  then have "wal_holds (weWal e') (ps @ [p])" using WAL_Append_holds [of "weWal e" ps] inv by (fastforce simp: eng_inv_def)
  with eng_inv_logged [OF inv, of e' p] 4 show ?case by auto
qed

lemma eng_step_inv:
  assumes "eng_step ops e e'" "eng_inv ops m0 e hs ps"
  shows "\<exists>qs. eng_inv ops m0 e' (next_history e e' hs) (ps @ qs)"
  using assms(1)
proof cases
  case (step_insert ctx i env r env')
  then show ?thesis by (cases r) (metis insert_outcome outcome_inv [OF assms(2)])
next
  case (step_upsert ctx i env r env')
  then show ?thesis by (cases r) (metis upsert_outcome outcome_inv [OF assms(2)])
next
  case (step_update ctx i env r env')
  then show ?thesis by (cases r) (metis update_outcome outcome_inv [OF assms(2)])
next
  case (step_delete ctx k env r env')
  then show ?thesis by (cases r) (metis delete_outcome outcome_inv [OF assms(2)])
next
  case (step_sync ctx env r w env')
  then have "wal_holds w ps" using assms(2) WAL_Sync_holds(1) [of "weWal e" ps ctx env r w env'] by (simp add: eng_inv_def)
  then have "eng_inv ops m0 e' (next_history e e' hs) ps"
    using step_sync(1) by (intro eng_inv_same_log [OF assms(2)]) simp_all
  then show ?thesis by (metis append_Nil2)
qed

lemma eng_run_inv:
  assumes "eng_run ops e hs e' hs'" "eng_inv ops m0 e hs ps"
  shows "\<exists>qs ms. eng_inv ops m0 e' hs' (ps @ qs) \<and> hs' = hs @ ms"
  using assms
proof (induction rule: eng_run.induct)
  case run_refl
  then show ?case by (metis append_Nil2)
next
  case (run_step e1 hs1 e2)
  then obtain qs ms where i: "eng_inv ops m0 e1 hs1 (ps @ qs)" "hs1 = hs @ ms" by blast
  from eng_step_inv [OF run_step.hyps(2) i(1)] obtain rs where "eng_inv ops m0 e2 (next_history e1 e2 hs1) (ps @ qs @ rs)" by auto
  with i(2) show ?case by (auto simp: next_history_def)
qed

lemma outcome_synced:
  "wal_holds (weWal e) ps \<Longrightarrow> outcome ops ctx e env err e' \<Longrightarrow> walSynced (weWal e) \<le> walSynced (weWal e')"
  by (auto simp: outcome_def dest: WAL_Append_synced)

lemma eng_step_synced:
  assumes "eng_step ops e e'" "wal_holds (weWal e) ps"
  shows "walSynced (weWal e) \<le> walSynced (weWal e')"
  using assms(1)
proof cases
  case (step_insert ctx i env r env')
  then show ?thesis by (cases r) (metis insert_outcome outcome_synced [OF assms(2)])
next
  case (step_upsert ctx i env r env')
  then show ?thesis by (cases r) (metis upsert_outcome outcome_synced [OF assms(2)])
next
  case (step_update ctx i env r env')
  then show ?thesis by (cases r) (metis update_outcome outcome_synced [OF assms(2)])
next
  case (step_delete ctx k env r env')
  then show ?thesis by (cases r) (metis delete_outcome outcome_synced [OF assms(2)])
next
  case (step_sync ctx env r w env')
  then show ?thesis using WAL_Sync_holds(2) [OF assms(2)] by simp
qed

lemma eng_run_synced:
  "eng_run ops e hs e' hs' \<Longrightarrow> eng_inv ops m0 e hs ps \<Longrightarrow> walSynced (weWal e) \<le> walSynced (weWal e')"
proof (induction rule: eng_run.induct)
  case (run_step e1 hs1 e2)
  obtain qs where "wal_holds (weWal e1) qs"
    using eng_run_inv [OF run_step.hyps(1) run_step.prems] by (auto simp: eng_inv_def)
  from eng_step_synced [OF run_step.hyps(2) this] run_step.IH [OF run_step.prems] show ?case by simp
qed simp

end
