(* ===== verification/Engine_Refinement.thy ===== *)
theory Engine_Refinement
  imports Coherence Engine_Durability
begin

text \<open>
  The write engine implements a map from primary keys to payloads: every acknowledged mutation is
  the map operation it stands for, every refused one leaves the map alone, and with healthy
  dependencies a mutation is refused exactly when the map operation does not apply.
\<close>

subsection \<open>Mutations\<close>

datatype mutation = InsertDoc WriteInput | UpsertDoc WriteInput | UpdateDoc WriteInput | DeleteDoc bytes

fun mutateOne :: "'db pebble \<Rightarrow> ctx \<Rightarrow> mutation \<Rightarrow> 'db WriteEngine \<Rightarrow> env
    \<Rightarrow> (u64 \<times> error option) \<times> 'db WriteEngine \<times> env" where
  "mutateOne ops ctx (InsertDoc i) e env = insertOneLocked ops ctx i e env"
| "mutateOne ops ctx (UpsertDoc i) e env = upsertOneLocked ops ctx i e env"
| "mutateOne ops ctx (UpdateDoc i) e env = updateOneLocked ops ctx i e env"
| "mutateOne ops ctx (DeleteDoc k) e env = deleteOneLocked ops ctx k e env"

fun mut_key :: "mutation \<Rightarrow> bytes" where
  "mut_key (InsertDoc i) = inPrimaryKey i"
| "mut_key (UpsertDoc i) = inPrimaryKey i"
| "mut_key (UpdateDoc i) = inPrimaryKey i"
| "mut_key (DeleteDoc k) = k"

fun mut_payload :: "mutation \<Rightarrow> bytes" where
  "mut_payload (InsertDoc i) = inPayload i"
| "mut_payload (UpsertDoc i) = inPayload i"
| "mut_payload (UpdateDoc i) = inPayload i"
| "mut_payload (DeleteDoc k) = []"

text \<open>The abstract specification: the effect on a map, or the error the caller is owed.\<close>

fun mut_meaning :: "mutation \<Rightarrow> (bytes \<rightharpoonup> bytes) \<Rightarrow> sentinel + (bytes \<rightharpoonup> bytes)" where
  "mut_meaning (InsertDoc i) c =
     (if c (inPrimaryKey i) = None then Inr (c(inPrimaryKey i \<mapsto> inPayload i)) else Inl ErrPrimaryKeyExists)"
| "mut_meaning (UpsertDoc i) c = Inr (c(inPrimaryKey i \<mapsto> inPayload i))"
| "mut_meaning (UpdateDoc i) c =
     (if c (inPrimaryKey i) = None then Inl ErrPrimaryKeyNotFound else Inr (c(inPrimaryKey i \<mapsto> inPayload i)))"
| "mut_meaning (DeleteDoc k) c = (if c k = None then Inl ErrPrimaryKeyNotFound else Inr (c(k := None)))"

fun mut_pre :: "'db pebble \<Rightarrow> mutation \<Rightarrow> 'db SegmentManager \<Rightarrow> error + writeOperation" where
  "mut_pre ops (InsertDoc i) m = insert_pre ops i m"
| "mut_pre ops (UpsertDoc i) m = upsert_pre ops i m"
| "mut_pre ops (UpdateDoc i) m = update_pre ops i m"
| "mut_pre ops (DeleteDoc k) m = delete_pre ops k m"

fun mut_app :: "'db pebble \<Rightarrow> mutation \<Rightarrow> 'db SegmentManager \<Rightarrow> writeOperation \<Rightarrow> error option \<times> 'db SegmentManager" where
  "mut_app ops (InsertDoc i) m op = insert_app ops m op"
| "mut_app ops (UpsertDoc i) m op = upsert_app ops m op"
| "mut_app ops (UpdateDoc i) m op = update_app ops m op"
| "mut_app ops (DeleteDoc k) m op = delete_app ops m op"

lemma mutate_logged_op:
  "mutateOne ops ctx mu e env = logged_op ctx (mut_pre ops mu (weManager e)) (mut_app ops mu (weManager e)) e env"
proof -
  have eta: "mut_app ops (InsertDoc i) m = insert_app ops m" "mut_app ops (UpsertDoc i) m = upsert_app ops m"
    "mut_app ops (UpdateDoc i) m = update_app ops m" "mut_app ops (DeleteDoc k) m = delete_app ops m" for i k m
    by (simp_all add: fun_eq_iff)
  show ?thesis
    by (cases mu) (simp_all add: eta insert_logged_op upsert_logged_op update_logged_op delete_logged_op)
qed

lemma mutate_step: "mutateOne ops ctx mu e env = (r, e', env') \<Longrightarrow> eng_step ops e e'"
  by (cases mu) (auto intro: eng_step.intros)

lemma mut_app_recovers:
  "mut_pre ops mu m = Inr op \<Longrightarrow> mut_app ops mu m op = (None, m') \<Longrightarrow>
     applyRecoveredOperation ops DetachedCtx op m env = (None, m', env)"
  by (cases mu) (auto intro: insert_app_recovers upsert_app_recovers update_app_recovers delete_app_recovers)

lemma next_op_fields:
  "next_op ty i m = Inr op \<Longrightarrow> opType op = ty \<and> opPrimaryKey op = inPrimaryKey i \<and> opPayload op = inPayload i"
  by (auto simp: next_op_def split: option.splits sum.splits)

lemma mut_pre_op:
  assumes "mut_pre ops mu m = Inr op"
  shows "opPrimaryKey op = mut_key mu" "opPayload op = mut_payload mu"
    "op_meaning op c = (case mut_meaning mu c of Inl _ \<Rightarrow> None | Inr c' \<Rightarrow> Some c')"
  using assms
  by (cases mu; auto simp: insert_pre_def upsert_pre_def update_pre_def delete_pre_def op_meaning_def op_types
      split: option.splits prod.splits if_splits dest!: next_op_fields)+

lemma mut_pre_type:
  "mut_pre ops mu m = Inr op \<Longrightarrow> writeOperationInsert \<le> opType op \<and> opType op \<le> writeOperationDelete"
  by (cases mu; auto simp: insert_pre_def upsert_pre_def update_pre_def delete_pre_def op_types
      split: option.splits prod.splits if_splits dest!: next_op_fields)

lemma logged_op_success:
  assumes "logged_op ctx pre app e env = ((d, None), e', env')"
  obtains op m p w env1 lsn where "wePoisoned e = None" "pre = Inr op" "encodeWriteOperation op = Inr p" "app op = (None, m)"
    "WAL_Append ctx p (weWal e) env = ((lsn, None), w, env1)"
    "d = opDocID op" "e' = e\<lparr>weWal := w, weManager := m\<rparr>"
proof (cases "wePoisoned e = None \<and> (\<exists>op p. pre = Inr op \<and> encodeWriteOperation op = Inr p)")
  case False
  then show ?thesis using assms by (auto simp: logged_op_def split: sum.splits if_splits)
next
  case True
  then obtain op p where b: "wePoisoned e = None" "pre = Inr op" "encodeWriteOperation op = Inr p" by blast
  obtain lsn sy w env1 where ap: "WAL_Append ctx p (weWal e) env = ((lsn, sy), w, env1)" by (metis surj_pair)
  obtain r m where r: "app op = (r, m)" by fastforce
  let ?e = "(set_wal w e)\<lparr>weManager := m\<rparr>"
  have pz: "wePoisoned ?e = None" using b by simp
  have run: "(if sy \<noteq> None \<and> lsn = 0 then ((0, sy), set_wal w e, env1)
      else case r of Some er \<Rightarrow> apply_failed sy er ?e env1 | None \<Rightarrow> finish (opDocID op) sy ?e env1) = ((d, None), e', env')"
    using assms b ap r by (cases r; cases sy; cases "lsn = 0") (simp_all add: logged_op_def)
  have r0: "r = None"
  proof (cases r)
    case (Some er)
    with apply_failed_eq [OF pz, of sy er env1] run show ?thesis by (auto split: if_splits)
  qed simp
  have sy: "sy = None"
    using run finish_eq [OF pz, of "opDocID op" sy env1] r0 by (auto split: if_splits)
  have "d = opDocID op" "e' = ?e" using run r0 sy by (simp_all add: finish_def)
  then show ?thesis using that [OF b _ ap [unfolded sy]] r r0 by simp
qed

subsection \<open>Healthy dependencies\<close>

lemma WAL_Append_quiet:
  assumes "quiet env" "ctx \<noteq> NilCtx" "p \<noteq> []" "length p \<le> MaxWALRecordSize" "\<not> walClosed w" "\<not> walReadOnly w"
    "walPoisoned w = None" "walLastLSN w \<noteq> MaxUint64"
  shows "\<exists>w' env'. WAL_Append ctx p w env = ((walLastLSN w + 1, None), w', env')
    \<and> walPoisoned w' = None \<and> \<not> walClosed w' \<and> \<not> walReadOnly w'"
proof -
  obtain e1 where e1: "ctx_Err ctx env = (None, e1)" "quiet e1" using ctx_quietE [OF assms(1)] by metis
  obtain f e2 where f: "WriteFullAt (walFile w) (encodeWALRecord (walLastLSN w + 1) p) (walSize w) e1 = (None, f, e2)" "quiet e2"
    using WriteFullAt_quiet [OF e1(2) encodeWALRecord_not_Nil] by metis
  obtain e3 where e3: "sync_call e2 = (None, e3)" using sync_quietE [OF f(2)] by metis
  show ?thesis
    using assms e1 f e3 unfolding WAL_Append_def syncFile_def
    by (auto simp: Let_def)
qed

lemma seg_apply_next:
  assumes "WriteSegment_NextDocumentID s = Inr d" "ValidatePrimaryKey k = None" "length v \<le> MaxDocumentPayloadSize"
  shows "\<exists>s'. seg_apply d k v s = (None, s')"
  using assms
  by (auto simp: seg_apply_def WriteSegment_ApplyExpected_def WriteSegment_append_def WriteSegment_NextDocumentID_def
      Let_def split: if_splits)

definition healthy :: "'db WriteEngine \<Rightarrow> bool" where
  "healthy e \<longleftrightarrow> wePoisoned e = None \<and> \<not> walClosed (weWal e) \<and> \<not> walReadOnly (weWal e) \<and> walPoisoned (weWal e) = None
     \<and> walLastLSN (weWal e) \<noteq> MaxUint64"

definition admissible :: "mutation \<Rightarrow> bool" where
  "admissible mu \<longleftrightarrow> ValidatePrimaryKey (mut_key mu) = None
     \<and> writeOperationHeaderSize + 4 + length (mut_key mu) + length (mut_payload mu) \<le> MaxWALRecordSize"

definition has_room :: "mutation \<Rightarrow> 'db SegmentManager \<Rightarrow> bool" where
  "has_room mu m \<longleftrightarrow> (\<exists>k. mu = DeleteDoc k) \<or> (\<exists>s d. sgWriting m = Some s \<and> WriteSegment_NextDocumentID s = Inr d)"

lemma admissible_payload: "admissible mu \<Longrightarrow> length (mut_payload mu) \<le> MaxDocumentPayloadSize"
  by (simp add: admissible_def MaxWALRecordSize_def MaxDocumentPayloadSize_def)

lemma mut_pre_reliable:
  assumes ok: "state_ok ops pmap m" and rel: "pebble_reliable ops" and adm: "admissible mu"
  shows "mut_meaning mu (contents pmap m) = Inl se \<Longrightarrow> \<exists>what. mut_pre ops mu m = Inl (wrapf se what)"
    and "mut_meaning mu (contents pmap m) = Inr c \<Longrightarrow> has_room mu m \<Longrightarrow> \<exists>op. mut_pre ops mu m = Inr op"
proof -
  have inv: "idmap_inv ops pmap (sgPrimaryKey m)" using ok by (simp add: state_ok_def)
  obtain d f where get: "PrimaryKeyMap_Get ops (sgPrimaryKey m) (mut_key mu) = (d, f, None)"
    using Get_reliable [OF rel inv] by blast
  have f: "f \<longleftrightarrow> contents pmap m (mut_key mu) \<noteq> None"
    using idm.get_view [OF inv get] contents_None [OF ok] by (cases f) auto
  have chk: "ValidatePrimaryKey (mut_key mu) = None" "\<not> MaxDocumentPayloadSize < length (mut_payload mu)"
    using adm admissible_payload [OF adm] by (simp_all add: admissible_def not_less)
  note defs = insert_pre_def upsert_pre_def update_pre_def delete_pre_def doc_checks_def
  show "mut_meaning mu (contents pmap m) = Inl se \<Longrightarrow> \<exists>what. mut_pre ops mu m = Inl (wrapf se what)"
    using get f chk by (cases mu) (auto simp: defs split: if_splits)
  show "mut_meaning mu (contents pmap m) = Inr c \<Longrightarrow> has_room mu m \<Longrightarrow> \<exists>op. mut_pre ops mu m = Inr op"
    using get f chk by (cases mu) (auto simp: defs has_room_def next_op_def split: if_splits)
qed

lemma next_op_room: "next_op ty i m = Inr op \<Longrightarrow> \<exists>s. sgWriting m = Some s \<and> WriteSegment_NextDocumentID s = Inr (opDocID op)"
  by (auto simp: next_op_def split: option.splits sum.splits)

lemma mut_app_reliable:
  assumes ok: "state_ok ops pmap m" and rel: "pebble_reliable ops" and adm: "admissible mu"
    and pre: "mut_pre ops mu m = Inr op"
  shows "\<exists>m'. mut_app ops mu m op = (None, m')"
proof -
  have inv: "idmap_inv ops pmap (sgPrimaryKey m)" using ok by (simp add: state_ok_def)
  have v: "ValidatePrimaryKey (opPrimaryKey op) = None" and pl: "length (opPayload op) \<le> MaxDocumentPayloadSize"
    using adm admissible_payload [OF adm] mut_pre_op [OF pre] by (simp_all add: admissible_def)
  have sa: "\<exists>s s'. sgWriting m = Some s \<and> seg_apply (opDocID op) (opPrimaryKey op) (opPayload op) s = (None, s')"
    if "next_op ty i m = Inr op" for ty i
    using next_op_room [OF that] seg_apply_next [OF _ v pl] by blast
  obtain pk1 where k1: "key_putNew ops (opPrimaryKey op) (opDocID op) (sgPrimaryKey m) = (None, pk1)"
    using PutNew_reliable [OF rel inv v, of "opDocID op" calm] by (auto simp: key_putNew_def)
  obtain p2 f2 pk2 where k2: "key_put ops (opPrimaryKey op) (opDocID op) (sgPrimaryKey m) = ((p2, f2, None), pk2)"
    using Put_reliable [OF rel inv v, of "opDocID op" calm] by (auto simp: key_put_def)
  obtain p3 f3 pk3 where k3: "PrimaryKeyMap_Delete ops DetachedCtx (opPrimaryKey op) (sgPrimaryKey m) calm = ((p3, f3, None), pk3, calm)"
    using Delete_reliable [OF rel inv v, of calm] by blast
  have k3': "key_view pmap m (opPrimaryKey op) = (if f3 then Some p3 else None)"
    using idm.remove_view [OF inv k3] by simp
  show ?thesis
  proof (cases mu)
    case (InsertDoc i)
    with pre obtain ty where "next_op ty i m = Inr op"
      by (auto simp: insert_pre_def split: option.splits prod.splits if_splits)
    with InsertDoc sa k1 show ?thesis by (fastforce simp: insert_app_def)
  next
    case (UpsertDoc i)
    with pre obtain ty where "next_op ty i m = Inr op"
      by (auto simp: upsert_pre_def split: option.splits prod.splits if_splits)
    with UpsertDoc sa k2 show ?thesis by (fastforce simp: upsert_app_def replace_app_def Let_def split: prod.splits)
  next
    case (UpdateDoc i)
    with pre obtain ty where "next_op ty i m = Inr op"
      by (auto simp: update_pre_def split: option.splits prod.splits if_splits)
    with UpdateDoc sa k2 show ?thesis by (fastforce simp: update_app_def replace_app_def Let_def split: prod.splits)
  next
    case (DeleteDoc k)
    with pre obtain d where g: "PrimaryKeyMap_Get ops (sgPrimaryKey m) k = (d, True, None)" and op: "opPrimaryKey op = k" "opDocID op = d"
      by (auto simp: delete_pre_def split: option.splits prod.splits if_splits)
    have "f3" "p3 = d" using idm.get_view [OF inv g] k3' op by (auto split: if_splits)
    with DeleteDoc k3 op show ?thesis by (simp add: delete_app_def key_delete_def)
  qed
qed

lemma mutation_accepted:
  assumes "state_ok ops pmap (weManager e)" "pebble_reliable ops" "healthy e" "admissible mu" "has_room mu (weManager e)"
    "quiet env" "ctx \<noteq> NilCtx" and Inr: "mut_meaning mu (contents pmap (weManager e)) = Inr c"
  shows "\<exists>d e' env'. mutateOne ops ctx mu e env = ((d, None), e', env') \<and> contents pmap (weManager e') = c
    \<and> wePoisoned e' = None \<and> walPoisoned (weWal e') = None \<and> \<not> walClosed (weWal e') \<and> \<not> walReadOnly (weWal e')"
proof -
  obtain op where pre: "mut_pre ops mu (weManager e) = Inr op" using mut_pre_reliable(2) [OF assms(1,2,4) Inr assms(5)] by blast
  obtain m' where app: "mut_app ops mu (weManager e) op = (None, m')" using mut_app_reliable [OF assms(1,2,4) pre] by blast
  have "\<exists>p. encodeWriteOperation op = Inr p \<and> p \<noteq> [] \<and> length p \<le> MaxWALRecordSize"
  proof -
    have "op_wf op"
      using assms(4) admissible_payload [OF assms(4)] mut_pre_op(1,2) [OF pre] mut_pre_type [OF pre]
      by (simp add: op_wf_def admissible_def)
    moreover have "length (op_bytes op) = 28 + length (opPrimaryKey op) + length (opPayload op)" by (simp add: op_bytes_def)
    ultimately show ?thesis
      using assms(4) mut_pre_op(1,2) [OF pre]
      by (intro exI [of _ "op_bytes op"]) (auto simp: encodeWriteOperation_wf admissible_def writeOperationHeaderSize_def)
  qed
  then obtain p where p: "encodeWriteOperation op = Inr p" "p \<noteq> []" "length p \<le> MaxWALRecordSize" by blast
  obtain w' env1 where ap: "WAL_Append ctx p (weWal e) env = ((walLastLSN (weWal e) + 1, None), w', env1)"
      "walPoisoned w' = None" "\<not> walClosed w'" "\<not> walReadOnly w'"
    using WAL_Append_quiet [OF assms(6,7) p(2,3), of "weWal e"] assms(3) by (auto simp: healthy_def)
  have run: "mutateOne ops ctx mu e env = ((opDocID op, None), (set_wal w' e)\<lparr>weManager := m'\<rparr>, env1)"
    using assms(3) pre app p(1) ap by (simp add: mutate_logged_op logged_op_def finish_def healthy_def)
  from recovered_op [OF assms(1) mut_app_recovers [OF pre app]] mut_pre_op(3) [OF pre] Inr
  have "contents pmap m' = c" by simp
  with run ap assms(3) show ?thesis by (simp add: healthy_def)
qed

text \<open>An acknowledged mutation, and a refused one that did not poison the engine.\<close>

lemma mutate_acknowledged:
  assumes ok: "state_ok ops pmap (weManager e)" and run: "mutateOne ops ctx mu e env = ((d, None), e', env')"
  shows "state_ok ops pmap (weManager e') \<and> mut_meaning mu (contents pmap (weManager e)) = Inr (contents pmap (weManager e'))
    \<and> wePoisoned e = None \<and> wePoisoned e' = None"
proof -
  obtain op m where op: "mut_pre ops mu (weManager e) = Inr op" "mut_app ops mu (weManager e) op = (None, m)" "weManager e' = m"
    "wePoisoned e = None" "wePoisoned e' = None"
  proof (rule logged_op_success [OF run [unfolded mutate_logged_op]], goal_cases)
    case (1 op m p w env1 lsn)
    from 1(2,8) have "weManager e' = m" "wePoisoned e' = None" by simp_all
    with 1(1) [OF 1(3,5)] 1(2) show ?case by blast
  qed
  from recovered_op [OF ok mut_app_recovers [OF op(1,2)]] mut_pre_op(3) [OF op(1)] op(3-5)
  show ?thesis by (auto split: sum.splits)
qed

lemma mutate_outcome: "mutateOne ops ctx mu e env = ((d, err), e', env') \<Longrightarrow> outcome ops ctx e env err e'"
  by (cases mu) (auto intro: insert_outcome upsert_outcome update_outcome delete_outcome)

lemma mutate_refused:
  assumes "mutateOne ops ctx mu e env = ((d, Some err), e', env')" "wePoisoned e' = None"
  shows "weManager e' = weManager e"
  using mutate_outcome [OF assms(1)] assms(2) by (auto simp: outcome_def)

lemma mutate_poisoned:
  "wePoisoned e \<noteq> None \<Longrightarrow> mutateOne ops ctx mu e env = ((0, wePoisoned e), e, env)"
  by (simp add: mutate_logged_op logged_op_def)

subsection \<open>Replaying a history\<close>

lemma apply_all_history:
  "\<forall>i < length qs. applies ops (qs ! i) (hs ! (n + i)) (hs ! Suc (n + i)) \<Longrightarrow>
     apply_all (recover_record ops DetachedCtx) (records_from l qs) (hs ! n) env = (None, hs ! (n + length qs), env)"
proof (induction qs arbitrary: n l)
  case (Cons q qs)
  have "applies ops q (hs ! n) (hs ! Suc n)" using Cons.prems by (metis add_0_right length_Cons nth_Cons_0 zero_less_Suc)
  moreover have "\<forall>i < length qs. applies ops (qs ! i) (hs ! (Suc n + i)) (hs ! Suc (Suc n + i))"
    using Cons.prems by force
  ultimately show ?case using Cons.IH [of "Suc n" "l + 1"] by (simp add: applies_def)
qed simp

lemma replay_history:
  assumes "wal_holds w qs" "walPoisoned w = None" "\<not> walClosed w" "quiet env"
    and "\<forall>i < length qs. applies ops (qs ! i) (hs ! i) (hs ! Suc i)"
  shows "\<exists>env'. replayWriteWAL ops DetachedCtx w (hs ! 0) env = (None, hs ! length qs, env')"
proof -
  obtain e0 where e0: "quiet e0" "WAL_Replay DetachedCtx (recover_record ops DetachedCtx) w (hs ! 0) env =
    (case apply_all (recover_record ops DetachedCtx) (records_from 1 qs) (hs ! 0) e0 of
       (err, s', e1) \<Rightarrow> (case os_call e1 of (closeErr, e2) \<Rightarrow> (errors_Join [err, closeErr], s', e2)))"
    using WAL_Replay_holds [OF assms(1-4), of "recover_record ops DetachedCtx" "hs ! 0"] by (elim exE conjE)
  obtain e1 where "os_call e0 = (None, e1)" using os_quietE [OF e0(1)] by metis
  moreover have "apply_all (recover_record ops DetachedCtx) (records_from 1 qs) (hs ! 0) e0 = (None, hs ! length qs, e0)"
    using apply_all_history [of qs ops hs 0 1 e0] assms(5) by simp
  ultimately show ?thesis using e0(2) by (simp add: replayWriteWAL_def errors_Join_def List.map_filter_def)
qed

lemma eng_inv_start: "NewWriteEngine m0 w0 = Inr e0 \<Longrightarrow> wal_holds w0 [] \<Longrightarrow> eng_inv ops m0 e0 [m0] []"
  by (auto simp: eng_inv_def NewWriteEngine_def split: if_splits)

subsection \<open>Properties\<close>

text \<open>
  C15: The write engine implements a map. When an insert, upsert, update or delete is acknowledged
  by an engine whose stores are coherent, the stores are coherent afterwards and their contents
  are those the operation prescribes: an insert applies only to a key that was absent, an update and a delete
  only to one that was present, and no other key is affected.
\<close>

theorem mutation_refines_map:
  assumes "state_ok ops pmap (weManager e)" "mutateOne ops ctx mu e env = ((d, None), e', env')"
  shows "state_ok ops pmap (weManager e') \<and> mut_meaning mu (contents pmap (weManager e)) = Inr (contents pmap (weManager e'))"
  using mutate_acknowledged [OF assms] by blast

text \<open>
  C16: A mutation is refused only for a reason. On coherent stores, with a Pebble database that does not
  fail, a healthy log, no cancellation, an admissible key and payload and room in the write segment, the
  engine acknowledges the mutation exactly when the map operation applies; otherwise it returns the error the
  specification names and changes nothing at all.
\<close>

theorem mutation_succeeds_when_applicable:
  assumes "state_ok ops pmap (weManager e)" "pebble_reliable ops" "healthy e" "admissible mu" "has_room mu (weManager e)"
    "quiet env" "ctx \<noteq> NilCtx"
  shows "case mut_meaning mu (contents pmap (weManager e)) of
      Inr c \<Rightarrow> (\<exists>d e' env'. mutateOne ops ctx mu e env = ((d, None), e', env') \<and> contents pmap (weManager e') = c)
    | Inl s \<Rightarrow> (\<exists>err. mutateOne ops ctx mu e env = ((0, Some err), e, env) \<and> errors_Is err s)"
proof (cases "mut_meaning mu (contents pmap (weManager e))")
  case (Inl s)
  then show ?thesis
    using mut_pre_reliable(1) [OF assms(1,2,4) Inl] assms(3) by (auto simp: mutate_logged_op logged_op_def healthy_def)
next
  case (Inr c)
  from mutation_accepted [OF assms Inr] Inr show ?thesis by auto
qed

text \<open>
  C17: A crash loses no synchronized write and invents none. Start an engine on a state \<open>m\<^sub>0\<close> with an empty
  log, run any mutations, with any cancellations and faults, synchronize the log, run any more; then
  crash, keeping any prefix of the log file that contains at least what was synchronized. If neither the engine
  nor the log was poisoned, reopening the log and replaying it over \<open>m\<^sub>0\<close> succeeds and gives a state the engine was in: the
  one after record \<open>k\<close>, with \<open>k\<close> not before the synchronization.
\<close>

theorem crash_recovers_a_state_of_the_engine:
  assumes "NewWriteEngine m0 w0 = Inr e0" "wal_holds w0 []"
    and "eng_run ops e0 [m0] e1 hs1" "WAL_Sync c1 (weWal e1) v1 = (None, w1, v1')"
    and "eng_run ops (set_wal w1 e1) hs1 e2 hs2" "wePoisoned e2 = None" "walPoisoned (weWal e2) = None"
    and "walSynced (weWal e2) \<le> n" "quiet env" "quiet env2" "ctx \<noteq> NilCtx" "name \<noteq> []"
  shows "\<exists>w3 env3 env4 k. OpenWAL ctx name (Inr True) (Some (take n (walFile (weWal e2)))) se env
      = (Inr w3, Some (walFile w3), env3)
    \<and> replayWriteWAL ops DetachedCtx w3 m0 env2 = (None, hs2 ! k, env4) \<and> length hs1 \<le> Suc k \<and> k < length hs2"
proof -
  from eng_run_inv [OF assms(3) eng_inv_start [OF assms(1,2)]] obtain ps where i1: "eng_inv ops m0 e1 hs1 ps" by auto
  have s: "wal_holds w1 ps" "walSynced w1 = length (log_bytes ps)"
    using WAL_Sync_holds [OF _ assms(4)] i1 by (auto simp: eng_inv_def)
  have i1': "eng_inv ops m0 (set_wal w1 e1) hs1 ps" using i1 s(1) by (simp add: eng_inv_def)
  from eng_run_inv [OF assms(5) i1'] obtain qs where i2: "eng_inv ops m0 e2 hs2 (ps @ qs)" by auto
  have sy: "walSynced w1 \<le> walSynced (weWal e2)" using eng_run_synced [OF assms(5) i1'] by simp
  have h: "wal_holds (weWal e2) (ps @ qs)" "length hs2 = Suc (length (ps @ qs))" "hs2 ! 0 = m0"
    and ap: "\<And>i. Suc i < length hs2 \<Longrightarrow> applies ops ((ps @ qs) ! i) (hs2 ! i) (hs2 ! Suc i)"
    using i2 assms(6) by (simp_all add: eng_inv_def)
  have "length (log_bytes ps) \<le> n" using s(2) sy assms(8) by simp
  from crash_reopens [OF h(1) refl this refl assms(9,11,12), of se] obtain w3 k env3 rest where
    w3: "OpenWAL ctx name (Inr True) (Some (take n (walFile (weWal e2)))) se env = (Inr w3, Some (walFile w3), env3)"
      "wal_holds w3 (take k (ps @ qs))" "walPoisoned w3 = None" "\<not> walClosed w3" "take k (ps @ qs) = ps @ rest"
    using assms(7) by auto
  let ?rs = "take k (ps @ qs)"
  have len: "length ?rs \<le> length (ps @ qs)" unfolding length_take by (rule min.cobounded1)
  have len2: "length ps \<le> length ?rs" unfolding w3(5) by simp
  have "\<forall>i < length ?rs. applies ops (?rs ! i) (hs2 ! i) (hs2 ! Suc i)"
    using ap h(2) by (simp del: take_append)
  from replay_history [OF w3(2-4) assms(10) this] h(3) obtain env4 where
    "replayWriteWAL ops DetachedCtx w3 m0 env2 = (None, hs2 ! length ?rs, env4)" by auto
  moreover have "length hs1 \<le> Suc (length ?rs)" "length ?rs < length hs2"
    using len len2 h(2) i1 by (simp_all add: eng_inv_def)
  ultimately show ?thesis using w3(1) by blast
qed

text \<open>
  C19: Log records have one encoding per operation. A byte string decodes to a write operation exactly when it is
  the encoding of that operation, which is then valid: known type, valid key, bounded payload.
\<close>

theorem write_operation_decoder_exact:
  "decodeWriteOperation b = Inr op \<longleftrightarrow> op_wf op \<and> encodeWriteOperation op = Inr b"
  using opc.dec_iff [of b op] by blast

subsection \<open>Batches\<close>

datatype batch = InsertBatch "WriteInput list" | UpsertBatch "WriteInput list" | UpdateBatch "WriteInput list" | DeleteBatch "bytes list"

fun mutateBatch :: "'db pebble \<Rightarrow> ctx \<Rightarrow> batch \<Rightarrow> 'db WriteEngine \<Rightarrow> env
    \<Rightarrow> (WriteResult list \<times> error option) \<times> 'db WriteEngine \<times> env" where
  "mutateBatch ops ctx (InsertBatch is) e env = WriteEngine_Insert ops ctx is e env"
| "mutateBatch ops ctx (UpsertBatch is) e env = WriteEngine_Upsert ops ctx is e env"
| "mutateBatch ops ctx (UpdateBatch is) e env = WriteEngine_Update ops ctx is e env"
| "mutateBatch ops ctx (DeleteBatch ks) e env = WriteEngine_Delete ops ctx ks e env"

fun mutations :: "batch \<Rightarrow> mutation list" where
  "mutations (InsertBatch is) = map InsertDoc is"
| "mutations (UpsertBatch is) = map UpsertDoc is"
| "mutations (UpdateBatch is) = map UpdateDoc is"
| "mutations (DeleteBatch ks) = map DeleteDoc ks"

text \<open>
  What results claim of a map: the mutations reported as successful were applied in order, each to a
  map it applies to, and the others were not.
\<close>

fun claimed :: "mutation list \<Rightarrow> WriteResult list \<Rightarrow> (bytes \<rightharpoonup> bytes) \<Rightarrow> (bytes \<rightharpoonup> bytes) option" where
  "claimed (mu # mus) (r # rs) c =
     (if wrErr r \<noteq> None then claimed mus rs c
      else case mut_meaning mu c of Inl _ \<Rightarrow> None | Inr c' \<Rightarrow> claimed mus rs c')"
| "claimed [] [] c = Some c"
| "claimed _ _ c = None"

lemma batch_loop_results:
  "batch_loop one key ctx is e env = (rs, causes, e', env') \<Longrightarrow>
     map wrPrimaryKey rs = map key is \<and> causes = List.map_filter wrErr rs"
proof (induction "is" arbitrary: e env rs causes)
  case (Cons i "is")
  obtain r env1 where c: "ctx_Err ctx env = (r, env1)" by fastforce
  show ?case
  proof (cases r)
    case (Some err)
    with Cons.prems c show ?thesis by (auto simp: List.map_filter_def comp_def)
  next
    case None
    obtain d er e2 env2 where o: "one i e env1 = ((d, er), e2, env2)" by (metis surj_pair)
    obtain rs2 cs2 e3 env3 where l: "batch_loop one key ctx is e2 env2 = (rs2, cs2, e3, env3)" by (metis surj_pair)
    have "e3 = e'" "env3 = env'" using Cons.prems c None o l by simp_all
    with l have l': "batch_loop one key ctx is e2 env2 = (rs2, cs2, e', env')" by simp
    from Cons.IH [OF l'] Cons.prems c None o l show ?thesis
      by (cases er) (auto simp: List.map_filter_def)
  qed
qed (simp add: List.map_filter_def)

lemma batch_loop_poisoned:
  assumes one: "\<And>i e env. one i e env = mutateOne ops ctx (mk i) e env"
    and "batch_loop one key ctx is e env = (rs, causes, e', env')" "wePoisoned e \<noteq> None"
  shows "(\<forall>r\<in>set rs. wrErr r \<noteq> None) \<and> wePoisoned e' \<noteq> None"
  using assms(2,3)
proof (induction "is" arbitrary: e env rs causes e' env')
  case (Cons i "is")
  obtain r env1 where c: "ctx_Err ctx env = (r, env1)" by fastforce
  have o: "one i e env1 = ((0, wePoisoned e), e, env1)" using Cons.prems(2) by (simp add: one mutate_poisoned)
  obtain rs2 cs2 e2 env2 where l: "batch_loop one key ctx is e env1 = (rs2, cs2, e2, env2)" by (metis surj_pair)
  show ?case using Cons.IH [OF l Cons.prems(2)] Cons.prems c o l by (cases r) auto
qed simp

lemma claimed_errors: "length mus = length rs \<Longrightarrow> \<forall>r\<in>set rs. wrErr r \<noteq> None \<Longrightarrow> claimed mus rs c = Some c"
  by (induction mus rs rule: list_induct2) auto

definition claims_hold :: "'db pebble \<Rightarrow> ('db \<Rightarrow> bytes \<rightharpoonup> bytes) \<Rightarrow> mutation list \<Rightarrow> WriteResult list
    \<Rightarrow> 'db SegmentManager \<Rightarrow> 'db WriteEngine \<Rightarrow> bool" where
  "claims_hold ops pmap mus rs m e' \<longleftrightarrow>
     (\<exists>n m'. n \<le> length rs \<and> state_ok ops pmap m'
        \<and> claimed (take n mus) (take n rs) (contents pmap m) = Some (contents pmap m')
        \<and> (\<forall>r\<in>set (drop n rs). wrErr r \<noteq> None)
        \<and> (wePoisoned e' = None \<longrightarrow> n = length rs \<and> m' = weManager e'))"

lemma claims_hold_Cons:
  assumes "claims_hold ops pmap mus rs m2 e'"
    and "if wrErr r = None then mut_meaning mu (contents pmap m) = Inr (contents pmap m2) else m2 = m"
  shows "claims_hold ops pmap (mu # mus) (r # rs) m e'"
proof -
  obtain n m' where "n \<le> length rs" "state_ok ops pmap m'"
    "claimed (take n mus) (take n rs) (contents pmap m2) = Some (contents pmap m')"
    "\<forall>r\<in>set (drop n rs). wrErr r \<noteq> None" "wePoisoned e' = None \<longrightarrow> n = length rs \<and> m' = weManager e'"
    using assms(1) by (auto simp: claims_hold_def)
  then show ?thesis
    unfolding claims_hold_def using assms(2) by (intro exI [of _ "Suc n"] exI [of _ m']) (auto split: if_splits)
qed

lemma batch_loop_claims:
  assumes one: "\<And>i e env. one i e env = mutateOne ops ctx (mk i) e env"
    and "batch_loop one key ctx is e env = (rs, causes, e', env')" "state_ok ops pmap (weManager e)"
  shows "claims_hold ops pmap (map mk is) rs (weManager e) e'"
  using assms(2,3)
proof (induction "is" arbitrary: e env rs causes)
  case Nil
  then show ?case by (auto simp: claims_hold_def)
next
  case (Cons i "is")
  obtain r env1 where c: "ctx_Err ctx env = (r, env1)" by fastforce
  show ?case
  proof (cases r)
    case (Some err)
    then have "length (map mk (i # is)) = length rs" "\<forall>r\<in>set rs. wrErr r \<noteq> None" "e' = e" using Cons.prems c by auto
    then show ?thesis
      using claimed_errors [of "map mk (i # is)" rs] Cons.prems(2)
      unfolding claims_hold_def by (intro exI [of _ "length rs"] exI [of _ "weManager e"]) simp
  next
    case None
    obtain d er e2 env2 where o: "mutateOne ops ctx (mk i) e env1 = ((d, er), e2, env2)" by (metis surj_pair)
    obtain rs2 cs2 where l: "batch_loop one key ctx is e2 env2 = (rs2, cs2, e', env')"
      and rs: "rs = \<lparr>wrPrimaryKey = key i, wrDocID = d, wrErr = er\<rparr> # rs2"
      using Cons.prems(1) c None one [of i e env1] o by (auto split: prod.splits)
    show ?thesis
    proof (cases "er = None \<or> wePoisoned e2 = None")
      case True
      then have "state_ok ops pmap (weManager e2) \<and> (if er = None
          then mut_meaning (mk i) (contents pmap (weManager e)) = Inr (contents pmap (weManager e2)) else weManager e2 = weManager e)"
        using mutate_acknowledged [OF Cons.prems(2)] mutate_refused o Cons.prems(2) by (cases er) fastforce+
      then show ?thesis using claims_hold_Cons [OF Cons.IH [OF l]] by (simp add: rs)
    next
      case False
      then have "\<forall>r\<in>set rs. wrErr r \<noteq> None" "wePoisoned e' \<noteq> None"
        using batch_loop_poisoned [OF one l] rs by auto
      then show ?thesis
        using Cons.prems(2) unfolding claims_hold_def by (intro exI [of _ 0] exI [of _ "weManager e"]) auto
    qed
  qed
qed

lemma run_batch_claims:
  assumes one: "\<And>i e env. one i e env = mutateOne ops ctx (mk i) e env"
    and run: "run_batch nilMsg emptyMsg one key ctx is e env = ((rs, err), e', env')" and "is \<noteq> []" "ctx \<noteq> NilCtx"
    and ok: "state_ok ops pmap (weManager e)"
  shows "map wrPrimaryKey rs = map key is
    \<and> err = (if list_all (\<lambda>r. wrErr r = None) rs then None
             else Some (ErrWrap ''db: %d document writes failed'' (List.map_filter wrErr rs)))
    \<and> claims_hold ops pmap (map mk is) rs (weManager e) e'"
proof -
  obtain causes where b: "batch_loop one key ctx is e env = (rs, causes, e', env')"
    and err: "err = (if causes = [] then None else Some (ErrWrap ''db: %d document writes failed'' causes))"
    using run assms(3,4) by (auto simp: run_batch_def split: prod.splits if_splits)
  have "causes = [] \<longleftrightarrow> list_all (\<lambda>r. wrErr r = None) rs"
    using batch_loop_results [OF b] by (simp add: List.map_filter_def list_all_iff filter_empty_conv)
  then show ?thesis using batch_loop_results [OF b] batch_loop_claims [OF one b ok] err by simp
qed

text \<open>
  C20: The results of a batch are what happened. On coherent stores, whatever is cancelled or fails, a batch of
  inserts, upserts, updates or deletes answers with one result per input, in the order of the inputs, and
  returns an error that collects the errors of the results exactly when one of them has an error. The mutations
  reported as successful were applied one after the other as map operations and no other mutation was: this
  leads from the contents before to the contents after when the engine is not poisoned, and otherwise up
  to some point after which every result is an error.
\<close>

theorem batch_reports_every_input:
  assumes "mutateBatch ops ctx b e env = ((rs, err), e', env')" "mutations b \<noteq> []" "ctx \<noteq> NilCtx"
    and "state_ok ops pmap (weManager e)"
  shows "map wrPrimaryKey rs = map mut_key (mutations b)
    \<and> err = (if list_all (\<lambda>r. wrErr r = None) rs then None
             else Some (ErrWrap ''db: %d document writes failed'' (List.map_filter wrErr rs)))
    \<and> (\<exists>n m. n \<le> length rs \<and> state_ok ops pmap m
         \<and> claimed (take n (mutations b)) (take n rs) (contents pmap (weManager e)) = Some (contents pmap m)
         \<and> (\<forall>r\<in>set (drop n rs). wrErr r \<noteq> None)
         \<and> (wePoisoned e' = None \<longrightarrow> n = length rs \<and> m = weManager e'))"
proof -
  have "map wrPrimaryKey rs = map mut_key (mutations b)
    \<and> err = (if list_all (\<lambda>r. wrErr r = None) rs then None
             else Some (ErrWrap ''db: %d document writes failed'' (List.map_filter wrErr rs)))
    \<and> claims_hold ops pmap (mutations b) rs (weManager e) e'"
  proof (cases b)
    case (InsertBatch "is")
    then show ?thesis
      using run_batch_claims [where mk = InsertDoc and ops = ops and pmap = pmap] assms by (fastforce simp: WriteEngine_Insert_def)
  next
    case (UpsertBatch "is")
    then show ?thesis
      using run_batch_claims [where mk = UpsertDoc and ops = ops and pmap = pmap] assms by (fastforce simp: WriteEngine_Upsert_def)
  next
    case (UpdateBatch "is")
    then show ?thesis
      using run_batch_claims [where mk = UpdateDoc and ops = ops and pmap = pmap] assms by (fastforce simp: WriteEngine_Update_def)
  next
    case (DeleteBatch ks)
    then show ?thesis
      using run_batch_claims [where mk = DeleteDoc and ops = ops and pmap = pmap] assms by (fastforce simp: WriteEngine_Delete_def)
  qed
  then show ?thesis by (simp add: claims_hold_def)
qed

subsection \<open>Witnesses\<close>

definition sample_base :: "(bytes \<times> bytes) list SegmentManager" where
  "sample_base = \<lparr>sgImmutable = [], sgOrdered = [],
     sgWriting = Some \<lparr>wsID = 1, wsMinDocID = 1, wsMaxDocs = 10, wsDocs = [], wsSealed = False, wsMemoryBytes = 0\<rparr>,
     sgPrimaryKey = \<lparr>pkDb = Some [], pkCount = 0, pkKnown = Some {}, pkOverlay = None\<rparr>, sgDeletes = \<lparr>dsDeleted = {}\<rparr>\<rparr>"

definition sample_engine :: "(bytes \<times> bytes) list WriteEngine" where
  "sample_engine = \<lparr>weManager = sample_base, weWal = sample_wal [], wePoisoned = None\<rparr>"

abbreviation sample_input :: WriteInput where
  "sample_input \<equiv> \<lparr>inPrimaryKey = [0x61], inPayload = [1, 2]\<rparr>"

lemma sample_base_view: "key_view map_of sample_base = Map.empty"
  by (simp add: fun_eq_iff sample_base_def idmap_view_def overlay_lookup_def doc_of_def)

lemma sample_base_ok: "state_ok mem_pebble map_of sample_base"
proof -
  have "mgr_ok sample_base"
    by (simp add: sample_base_def mgr_ok_def ranges_sorted_def writing_ok_def ws_ok_def storedDocumentsMemoryBytes_def)
  moreover have "idmap_inv mem_pebble map_of (sgPrimaryKey sample_base)"
    using sample_base_view by (simp add: idmap_inv_def idmap_ok_def) (simp add: sample_base_def)
  moreover have "coherent map_of sample_base"
    unfolding coherent_def sample_base_view by (simp add: sample_base_def retained_def)
  ultimately show ?thesis by (simp add: state_ok_def)
qed

lemma sample_contents: "contents map_of sample_base = Map.empty"
  by (simp add: fun_eq_iff contents_def sample_base_view)

lemma sample_ready:
  "healthy sample_engine" "admissible (InsertDoc sample_input)" "has_room (InsertDoc sample_input) (weManager sample_engine)"
  "weManager sample_engine = sample_base"
  by (simp_all add: healthy_def sample_engine_def sample_wal_def admissible_def sample_keys_valid has_room_def
      sample_base_def WriteSegment_NextDocumentID_def MaxWALRecordSize_def writeOperationHeaderSize_def)

lemma sample_insert:
  "\<exists>d e' env'. mutateOne mem_pebble Ctx (InsertDoc sample_input) sample_engine calm = ((d, None), e', env')
     \<and> wePoisoned e' = None \<and> walPoisoned (weWal e') = None \<and> \<not> walClosed (weWal e') \<and> \<not> walReadOnly (weWal e')"
  using mutation_accepted [of mem_pebble map_of sample_engine "InsertDoc sample_input" calm Ctx] sample_ready
    sample_base_ok sample_contents
  by fastforce

theorem mutation_refines_map_witness:
  "\<exists>d e' env'. mutateOne mem_pebble Ctx (InsertDoc sample_input) sample_engine calm = ((d, None), e', env')
     \<and> contents map_of (weManager e') = [[0x61] \<mapsto> [1, 2]]"
proof -
  obtain d e' env' where run: "mutateOne mem_pebble Ctx (InsertDoc sample_input) sample_engine calm = ((d, None), e', env')"
    using sample_insert by blast
  have ok: "state_ok mem_pebble map_of (weManager sample_engine)" using sample_base_ok sample_ready(4) by simp
  from mutation_refines_map [OF ok run] run show ?thesis by (auto simp: sample_ready(4) sample_contents split: if_splits)
qed

theorem mutation_succeeds_when_applicable_witness:
  "\<exists>d e' env'. mutateOne mem_pebble Ctx (InsertDoc sample_input) sample_engine calm = ((d, None), e', env')
     \<and> contents map_of (weManager e') = [[0x61] \<mapsto> [1, 2]]"
  using mutation_succeeds_when_applicable [of mem_pebble map_of sample_engine "InsertDoc sample_input" calm Ctx]
    sample_ready sample_base_ok by (simp add: sample_contents)

theorem crash_recovers_a_state_of_the_engine_witness:
  "\<exists>d e1 env1 w1 w3 env3 env4. mutateOne mem_pebble Ctx (InsertDoc sample_input) sample_engine calm = ((d, None), e1, env1)
     \<and> WAL_Sync DetachedCtx (weWal e1) calm = (None, w1, calm)
     \<and> OpenWAL Ctx ''wal'' (Inr True) (Some (take (walSynced w1) (walFile w1))) 0 calm = (Inr w3, Some (walFile w3), env3)
     \<and> replayWriteWAL mem_pebble DetachedCtx w3 sample_base calm = (None, weManager e1, env4)"
proof -
  obtain d e1 env1 where run: "mutateOne mem_pebble Ctx (InsertDoc sample_input) sample_engine calm = ((d, None), e1, env1)"
    and e1: "wePoisoned e1 = None" "walPoisoned (weWal e1) = None" "\<not> walClosed (weWal e1)" "\<not> walReadOnly (weWal e1)"
    using sample_insert by blast
  define w1 where "w1 = (weWal e1)\<lparr>walSynced := length (walFile (weWal e1)), walDirtyRecords := 0\<rparr>"
  have sync: "WAL_Sync DetachedCtx (weWal e1) calm = (None, w1, calm)"
    using e1 by (simp add: WAL_Sync_def syncFile_def sync_call_def calm_def w1_def)
  have new: "NewWriteEngine sample_base (sample_wal []) = Inr sample_engine"
    by (simp add: NewWriteEngine_def sample_engine_def sample_base_def)
  have h: "wal_holds (sample_wal []) []" by (rule sample_wal_holds) simp_all
  define hs where "hs = next_history sample_engine e1 [sample_base]"
  have r: "eng_run mem_pebble sample_engine [sample_base] e1 hs"
    unfolding hs_def by (rule run_step [OF run_refl mutate_step [OF run]])
  have p: "wePoisoned (set_wal w1 e1) = None" "walPoisoned (weWal (set_wal w1 e1)) = None" using e1 by (simp_all add: w1_def)
  obtain w3 env3 env4 k where res: "OpenWAL Ctx ''wal'' (Inr True) (Some (take (walSynced w1) (walFile w1))) 0 calm
      = (Inr w3, Some (walFile w3), env3)" "replayWriteWAL mem_pebble DetachedCtx w3 sample_base calm = (None, hs ! k, env4)"
      "length hs \<le> Suc k" "k < length hs"
    using crash_recovers_a_state_of_the_engine [OF new h r sync run_refl p, of "walSynced w1" calm calm Ctx "''wal''" 0] by auto
  have "weManager e1 = last hs" "hs \<noteq> []"
    using eng_run_inv [OF r eng_inv_start [OF new h]] by (auto simp: eng_inv_def)
  moreover have "k = length hs - 1" using res(3,4) by simp
  ultimately have "hs ! k = weManager e1" by (simp add: last_conv_nth)
  with run sync res(1,2) show ?thesis by metis
qed

theorem batch_reports_every_input_witness:
  "\<exists>rs err e' env'. mutateBatch mem_pebble Ctx (InsertBatch [sample_input, sample_input]) sample_engine calm = ((rs, err), e', env')
     \<and> map wrPrimaryKey rs = [[0x61], [0x61]] \<and> \<not> list_all (\<lambda>r. wrErr r = None) rs \<and> err \<noteq> None"
proof -
  obtain rs err e' env' where r: "mutateBatch mem_pebble Ctx (InsertBatch [sample_input, sample_input]) sample_engine calm = ((rs, err), e', env')"
    by (metis surj_pair)
  have ok: "state_ok mem_pebble map_of (weManager sample_engine)" using sample_base_ok sample_ready(4) by simp
  have "\<not> list_all (\<lambda>r. wrErr r = None) rs"
  proof
    assume all: "list_all (\<lambda>r. wrErr r = None) rs"
    obtain r1 r2 where rs: "rs = [r1, r2]"
      using batch_reports_every_input [OF r _ _ ok] by (auto simp: map_eq_Cons_conv)
    have nil: "mutations (InsertBatch [sample_input, sample_input]) \<noteq> []" "Ctx \<noteq> NilCtx" by simp_all
    obtain n m where nm: "n \<le> length rs" "\<forall>r\<in>set (drop n rs). wrErr r \<noteq> None"
        "claimed (take n (mutations (InsertBatch [sample_input, sample_input]))) (take n rs) (contents map_of (weManager sample_engine))
           = Some (contents map_of m)"
      using batch_reports_every_input [OF r nil ok] by blast
    have "n \<le> 2" using nm(1) by (simp add: rs)
    moreover have "\<forall>r\<in>set (drop n [r1, r2]). wrErr r \<noteq> None" using nm(2) by (simp add: rs)
    moreover have "claimed (take n [InsertDoc sample_input, InsertDoc sample_input]) (take n [r1, r2]) (contents map_of sample_base) \<noteq> None"
      using nm(3) sample_ready(4) by (simp add: rs)
    moreover have "wrErr r1 = None" "wrErr r2 = None" using all by (simp_all add: rs)
    moreover have "n = 0 \<or> n = 1 \<or> n = 2" using \<open>n \<le> 2\<close> by auto
    ultimately show False by (auto simp: sample_contents split: if_splits)
  qed
  then show ?thesis using batch_reports_every_input [OF r _ _ ok] r by auto
qed

end
