(* ===== verification/State_Check.thy ===== *)
theory State_Check
  imports Coherence
begin

text \<open>
  The consistency check of an opened collection accepts exactly the coherent states: the
  iteration over the IDMap visits its whole view, and a count together with one inclusion is a bijection.
\<close>

subsection \<open>Iterating with a check\<close>

definition checker :: "(bytes \<Rightarrow> u64 \<Rightarrow> bool) \<Rightarrow> error \<Rightarrow> 's visit_fun" where
  "checker P er k d s = ((if P k d then None else Some er), s)"

definition base_checked :: "(bytes \<Rightarrow> u64 \<Rightarrow> bool) \<Rightarrow> (bytes \<rightharpoonup> primaryKeyDelta) \<Rightarrow> bytes \<times> bytes \<Rightarrow> bool" where
  "base_checked P ov = (\<lambda>(k, v). case ov k of
       Some delta \<Rightarrow> deltaDeleted delta \<or> P k (deltaDocID delta) | None \<Rightarrow> P k (BigEndian_Uint64 v))"

lemma forEach_base_check:
  assumes "\<forall>(k, v) \<in> set kvs. ValidatePrimaryKey k = None \<and> length v = 8"
  shows "\<exists>seen'. forEach_base DetachedCtx ov (checker P er) kvs seen s env =
    (if list_all (base_checked P ov) kvs then (None, seen \<union> {k \<in> fst ` set kvs. ov k \<noteq> None}, s, env)
     else (Some er, seen', s, env))"
  using assms
proof (induction kvs arbitrary: seen)
  case (Cons kv kvs)
  obtain k v where kv: "kv = (k, v)" by fastforce
  have rest: "\<forall>(k, v) \<in> set kvs. ValidatePrimaryKey k = None \<and> length v = 8" and hd: "ValidatePrimaryKey k = None" "length v = 8"
    using Cons.prems kv by auto
  show ?case
  proof (cases "ov k")
    case None
    then show ?thesis using Cons.IH [OF rest, of seen] hd kv
      by (cases "P k (BigEndian_Uint64 v)") (auto simp: checker_def base_checked_def split: if_splits)
  next
    case (Some delta)
    have u: "insert k seen \<union> {k \<in> fst ` set kvs. ov k \<noteq> None} = seen \<union> {k \<in> fst ` set (kv # kvs). ov k \<noteq> None}"
      using Some kv by auto
    show ?thesis using Cons.IH [OF rest, of "insert k seen"] hd kv Some
      unfolding u [symmetric]
      by (cases "deltaDeleted delta"; cases "P k (deltaDocID delta)") (auto simp: checker_def base_checked_def split: if_splits)
  qed
qed simp

lemma forEach_overlay_check:
  "forEach_overlay (checker P er) seen ds s =
     ((if \<forall>(k, delta) \<in> set ds. k \<in> seen \<or> deltaDeleted delta \<or> P k (deltaDocID delta) then None else Some er), s)"
proof (induction ds)
  case (Cons kd ds)
  obtain k delta where kd: "kd = (k, delta)" by fastforce
  show ?case
    unfolding kd using Cons
    by (cases "k \<in> seen"; cases "deltaDeleted delta"; cases "P k (deltaDocID delta)") (simp_all add: checker_def [of P er k])
qed simp

lemma view_checked:
  assumes ok: "idmap_ok pmap m" and db: "pkDb m = Some db"
    and kvs: "map_of kvs = pmap db" "distinct (map fst kvs)"
    and seen: "seen = {k \<in> fst ` set kvs. overlay_lookup m k \<noteq> None}"
  shows "(\<forall>k d. idmap_view pmap m k = Some d \<longrightarrow> P k d) \<longleftrightarrow>
    list_all (base_checked P (overlay_lookup m)) kvs \<and>
    (\<forall>(k, delta) \<in> set (case pkOverlay m of None \<Rightarrow> [] | Some ov \<Rightarrow> ov). k \<in> seen \<or> deltaDeleted delta \<or> P k (deltaDocID delta))"
  using ok
proof (cases rule: idmap_okE)
  case (writable db')
  then have "overlay_lookup m = (\<lambda>k. None)" by (simp add: overlay_lookup_def fun_eq_iff)
  moreover have "(\<forall>k d. idmap_view pmap m k = Some d \<longrightarrow> P k d) \<longleftrightarrow> (\<forall>k v. pmap db k = Some v \<longrightarrow> P k (BigEndian_Uint64 v))"
    using writable db by (auto simp: idmap_view_writable doc_of_def)
  moreover have "pmap db k = Some w \<longleftrightarrow> (k, w) \<in> set kvs" for k w
    unfolding kvs(1) [symmetric] using kvs(2) by (rule map_of_eq_Some_iff)
  ultimately show ?thesis
    using writable by (auto simp: list_all_iff base_checked_def)
next
  case (readonly db' ov)
  have ol: "overlay_lookup m k = map_of ov k" for k using readonly by (simp add: overlay_lookup_def)
  have v: "idmap_view pmap m k = (case map_of ov k of Some d \<Rightarrow> delta_doc d | None \<Rightarrow> doc_of (map_of kvs k))" for k
    unfolding idmap_view_readonly [OF db readonly(2)] kvs(1) by (rule refl)
  show ?thesis
  proof (intro iffI conjI)
    assume all: "\<forall>k d. idmap_view pmap m k = Some d \<longrightarrow> P k d"
    have "base_checked P (overlay_lookup m) (k, w)" if "(k, w) \<in> set kvs" for k w
    proof -
      have "map_of kvs k = Some w" using that kvs(2) by simp
      then show ?thesis using all [rule_format, of k]
        by (cases "map_of ov k"; cases "deltaDeleted (the (map_of ov k))")
           (simp_all add: base_checked_def ol v delta_doc_def doc_of_def)
    qed
    then show "list_all (base_checked P (overlay_lookup m)) kvs" by (auto simp: list_all_iff)
    show "\<forall>(k, delta) \<in> set (case pkOverlay m of None \<Rightarrow> [] | Some ov \<Rightarrow> ov). k \<in> seen \<or> deltaDeleted delta \<or> P k (deltaDocID delta)"
    proof -
      have "deltaDeleted delta \<or> P k (deltaDocID delta)" if "(k, delta) \<in> set ov" for k delta
      proof -
        have "map_of ov k = Some delta" using that readonly(4) by simp
        then show ?thesis using all [rule_format, of k] by (cases "deltaDeleted delta") (simp_all add: v delta_doc_def)
      qed
      then show ?thesis using readonly(2) by auto
    qed
  next
    assume r: "list_all (base_checked P (overlay_lookup m)) kvs \<and>
      (\<forall>(k, delta) \<in> set (case pkOverlay m of None \<Rightarrow> [] | Some ov \<Rightarrow> ov). k \<in> seen \<or> deltaDeleted delta \<or> P k (deltaDocID delta))"
    show "\<forall>k d. idmap_view pmap m k = Some d \<longrightarrow> P k d"
    proof (intro allI impI)
      fix k d
      assume vk: "idmap_view pmap m k = Some d"
      show "P k d"
      proof (cases "map_of ov k")
        case None
        with vk obtain w where "map_of kvs k = Some w" "d = BigEndian_Uint64 w" by (auto simp: v doc_of_def)
        then show ?thesis using r None by (auto simp: list_all_iff base_checked_def ol dest!: map_of_SomeD)
      next
        case (Some delta)
        with vk have "\<not> deltaDeleted delta" "d = deltaDocID delta" by (auto simp: v delta_doc_def split: if_splits)
        moreover have "k \<in> seen \<or> deltaDeleted delta \<or> P k (deltaDocID delta)"
          using r readonly(2) map_of_SomeD [OF Some] by auto
        moreover have "deltaDeleted delta \<or> P k (deltaDocID delta)" if "k \<in> seen"
        proof -
          from that obtain w where "(k, w) \<in> set kvs" unfolding seen by auto
          then have "base_checked P (overlay_lookup m) (k, w)" using r by (auto simp: list_all_iff)
          then show ?thesis using Some by (simp add: base_checked_def ol)
        qed
        ultimately show ?thesis by blast
      qed
    qed
  qed
qed

lemma ForEach_check:
  assumes inv: "idmap_inv ops pmap m" and rel: "pebble_reliable ops"
  shows "\<exists>err. PrimaryKeyMap_ForEach ops DetachedCtx (checker P er) m s env =
    ((if \<forall>k d. idmap_view pmap m k = Some d \<longrightarrow> P k d then None else Some err), s, env)"
proof -
  have ok: "idmap_ok pmap m" "pebble_ok ops pmap" using inv by (simp_all add: idmap_inv_def)
  obtain db where db: "pkDb m = Some db" using idmap_inv_db [OF inv] by blast
  obtain kvs where kvs: "pbIter ops db = Inr (kvs, None, None)" using rel unfolding pebble_reliable_def by metis
  note k = pebble_okD(4) [OF ok(2) kvs]
  have valid: "\<forall>(k, v) \<in> set kvs. ValidatePrimaryKey k = None \<and> length v = 8"
    using ok(1) k db by (auto simp: idmap_ok_def map_of_eq_Some_iff [symmetric])
  let ?seen = "{k \<in> fst ` set kvs. overlay_lookup m k \<noteq> None}"
  have v: "(\<forall>k d. idmap_view pmap m k = Some d \<longrightarrow> P k d) \<longleftrightarrow>
      list_all (base_checked P (overlay_lookup m)) kvs \<and>
      (\<forall>(k, delta) \<in> set (case pkOverlay m of None \<Rightarrow> [] | Some ov \<Rightarrow> ov). k \<in> ?seen \<or> deltaDeleted delta \<or> P k (deltaDocID delta))"
    using k by (intro view_checked [OF ok(1) db]) simp_all
  obtain seen' where b: "forEach_base DetachedCtx (overlay_lookup m) (checker P er) kvs {} s env =
    (if list_all (base_checked P (overlay_lookup m)) kvs then (None, ?seen, s, env) else (Some er, seen', s, env))"
    using forEach_base_check [OF valid, of "overlay_lookup m" P er "{}" s env] unfolding Un_empty_left by (elim exE)
  define A where "A \<longleftrightarrow> list_all (base_checked P (overlay_lookup m)) kvs"
  define ov where "ov = (case pkOverlay m of None \<Rightarrow> [] | Some ov \<Rightarrow> ov)"
  define B where "B \<longleftrightarrow> (\<forall>(k, delta) \<in> set ov. k \<in> ?seen \<or> deltaDeleted delta \<or> P k (deltaDocID delta))"
  have o: "forEach_overlay (checker P er) ?seen ov s = ((if B then None else Some er), s)"
    unfolding B_def by (rule forEach_overlay_check)
  have "PrimaryKeyMap_ForEach ops DetachedCtx (checker P er) m s env =
      ((if A \<and> B then None else Some (ErrJoin [er])), s, env)"
    using db kvs b o unfolding A_def [symmetric]
    by (cases A; cases B) (simp_all add: PrimaryKeyMap_ForEach_def ov_def [symmetric] errors_Join_def List.map_filter_def)
  then show ?thesis unfolding v A_def B_def ov_def by (rule exI)
qed

subsection \<open>What the check collects\<close>

abbreviation undeleted :: "DeleteStore \<Rightarrow> StoredDocument list \<Rightarrow> StoredDocument list" where
  "undeleted ds docs \<equiv> filter (\<lambda>d. DocID d \<notin> dsDeleted ds) docs"

lemma collect_docs:
  assumes "distinct (map DocID (done @ docs))"
  shows "collect ds docs (map (\<lambda>d. (DocID d, PrimaryKey d)) (undeleted ds done), DocID ` set done) =
    (None, map (\<lambda>d. (DocID d, PrimaryKey d)) (undeleted ds (done @ docs)), DocID ` set (done @ docs))"
  using assms
proof (induction docs arbitrary: "done")
  case (Cons d docs)
  have "map_of (map (\<lambda>d. (DocID d, PrimaryKey d)) (undeleted ds done)) (DocID d) = None"
    using Cons.prems by (auto simp: map_of_eq_None_iff)
  then show ?case
    using Cons.IH [of "done @ [d]"] Cons.prems
    by (auto simp: collect_def DeleteStore_IsDeleted_def alist_update_new insert_commute)
qed (simp add: collect_def)

lemma visit_collect:
  assumes "\<forall>s \<in> set ss. \<not> isClosed s" "distinct (map DocID (done @ concat (map isDocs ss)))"
  shows "visit_segments (collect ds) ss (map (\<lambda>d. (DocID d, PrimaryKey d)) (undeleted ds done), DocID ` set done) =
    (None, map (\<lambda>d. (DocID d, PrimaryKey d)) (undeleted ds (done @ concat (map isDocs ss))), DocID ` set (done @ concat (map isDocs ss)))"
  using assms
proof (induction ss arbitrary: "done")
  case (Cons s ss)
  have "collect ds (isDocs s) (map (\<lambda>d. (DocID d, PrimaryKey d)) (undeleted ds done), DocID ` set done) =
    (None, map (\<lambda>d. (DocID d, PrimaryKey d)) (undeleted ds (done @ isDocs s)), DocID ` set (done @ isDocs s))"
    using Cons.prems(2) by (intro collect_docs) auto
  then show ?case
    using Cons.IH [of "done @ isDocs s"] Cons.prems by (simp add: ImmutableSegment_VisitDocuments_def)
qed simp

lemma range_missing:
  "range_loop (\<lambda>docID err. if docID \<in> known then (True, err) else (False, Some er)) ds None =
     (if set ds \<subseteq> known then None else Some er)"
  by (induction ds) auto

text \<open>A count and an inclusion make the view a bijection with the live documents.\<close>

lemma coherent_by_count:
  assumes fin: "finite (dom (key_view pmap m))" and dist: "distinct (map DocID (retained m))"
  defines "L \<equiv> undeleted (sgDeletes m) (retained m)"
  shows "coherent pmap m \<longleftrightarrow> deleted m \<subseteq> DocID ` set (retained m) \<and> card (dom (key_view pmap m)) = length L
    \<and> (\<forall>k d. key_view pmap m k = Some d \<longrightarrow> map_of (map (\<lambda>d. (DocID d, PrimaryKey d)) L) d = Some k)"
proof -
  let ?v = "key_view pmap m"
  have dL: "distinct (map DocID L)" using dist by (simp add: L_def distinct_map_filter)
  have mo: "map_of (map (\<lambda>d. (DocID d, PrimaryKey d)) L) d = Some k \<longleftrightarrow> (\<exists>doc \<in> set L. DocID doc = d \<and> PrimaryKey doc = k)" for d k
    using dL by (subst map_of_eq_Some_iff) (auto simp: comp_def)
  have co: "coherent pmap m \<longleftrightarrow> (\<forall>k d. ?v k = Some d \<longleftrightarrow> (\<exists>doc \<in> set L. DocID doc = d \<and> PrimaryKey doc = k))
      \<and> deleted m \<subseteq> DocID ` set (retained m)"
    unfolding coherent_def L_def by auto
  have idj: "inj_on DocID (set L)" and cL: "card (set L) = length L"
    using dL by (auto simp: distinct_map distinct_card)
  show ?thesis unfolding co mo
  proof (intro iffI conjI; (elim conjE)?)
    assume all: "\<forall>k d. ?v k = Some d \<longleftrightarrow> (\<exists>doc \<in> set L. DocID doc = d \<and> PrimaryKey doc = k)"
    have pkj: "inj_on PrimaryKey (set L)"
    proof (rule inj_onI)
      fix x y assume xy: "x \<in> set L" "y \<in> set L" "PrimaryKey x = PrimaryKey y"
      then have "?v (PrimaryKey x) = Some (DocID x)" "?v (PrimaryKey x) = Some (DocID y)" using all by auto
      then have "DocID x = DocID y" by simp
      with idj xy show "x = y" by (auto dest: inj_onD)
    qed
    have "dom ?v = PrimaryKey ` set L" using all by (auto simp: dom_def)
    then show "card (dom ?v) = length L" using card_image [OF pkj] cL by simp
    show "\<forall>k d. ?v k = Some d \<longrightarrow> (\<exists>doc \<in> set L. DocID doc = d \<and> PrimaryKey doc = k)" using all by simp
  next
    assume n: "card (dom ?v) = length L"
      and sub: "\<forall>k d. ?v k = Some d \<longrightarrow> (\<exists>doc \<in> set L. DocID doc = d \<and> PrimaryKey doc = k)"
    let ?f = "\<lambda>k. the (?v k)"
    have inj: "inj_on ?f (dom ?v)"
    proof (rule inj_onI)
      fix k k' assume k: "k \<in> dom ?v" "k' \<in> dom ?v" "?f k = ?f k'"
      then obtain d where "?v k = Some d" "?v k' = Some d" by auto
      then show "k = k'" using sub idj by (metis inj_onD)
    qed
    have "?f ` dom ?v \<subseteq> DocID ` set L" using sub by force
    moreover have "card (?f ` dom ?v) = card (DocID ` set L)"
      using card_image [OF inj] card_image [OF idj] n cL by simp
    ultimately have eq: "?f ` dom ?v = DocID ` set L" by (intro card_subset_eq) auto
    show "\<forall>k d. ?v k = Some d \<longleftrightarrow> (\<exists>doc \<in> set L. DocID doc = d \<and> PrimaryKey doc = k)"
    proof (intro allI iffI)
      fix k d assume "\<exists>doc \<in> set L. DocID doc = d \<and> PrimaryKey doc = k"
      then obtain doc where doc: "doc \<in> set L" "DocID doc = d" "PrimaryKey doc = k" by blast
      have "d \<in> ?f ` dom ?v" unfolding eq using doc by blast
      then obtain k' where k': "?v k' = Some d" by auto
      then obtain doc' where "doc' \<in> set L" "DocID doc' = d" "PrimaryKey doc' = k'" using sub by blast
      then have "doc' = doc" using doc idj by (auto dest: inj_onD)
      then show "?v k = Some d" using k' doc \<open>PrimaryKey doc' = k'\<close> by simp
    qed (use sub in blast)
  qed
qed

text \<open>
  C18: The consistency check of an opened collection is exact. On a manager with well-formed segments, none of them closed, and
  an IDMap that satisfies its invariant, with no failing iteration, \<^verbatim>\<open>validateCollectionState\<close> reports success exactly when the
  stores are coherent: the IDMap maps a key to a document ID if and only if a retained, undeleted document has
  this key and this ID, and every deleted ID belongs to a retained document. Otherwise it reports a corrupt collection.
\<close>

theorem validate_collection_state_exact:
  assumes "mgr_ok m" "idmap_inv ops pmap (sgPrimaryKey m)" "pebble_reliable ops" "\<forall>s \<in> set (sgOrdered m). \<not> isClosed s"
  shows "if coherent pmap m then validateCollectionState ops m env = (None, env)
    else (\<exists>err. validateCollectionState ops m env = (Some err, env) \<and> errors_Is err ErrCollectionCorrupt)"
proof -
  let ?L = "undeleted (sgDeletes m) (retained m)" and ?al = "\<lambda>ds. map (\<lambda>d. (DocID d, PrimaryKey d)) ds"
  have dist: "distinct (map DocID (retained m))" by (rule retained_distinct [OF assms(1)])
  have fin: "finite (dom (key_view pmap m))" and cnt: "PrimaryKeyMap_Count (sgPrimaryKey m) = int (card (dom (key_view pmap m)))"
    using idm.count_view [OF assms(2)] by simp_all
  define im where "im = concat (map isDocs (sgOrdered m))"
  define A where "A = ?al (undeleted (sgDeletes m) im)"
  define K where "K = DocID ` set im"
  define lk where "lk = ?al ?L"
  define kn where "kn = DocID ` set (retained m)"
  have v1: "visit_segments (collect (sgDeletes m)) (SegmentManager_ImmutableSegments m) ([], {}) = (None, A, K)"
    using visit_collect [OF assms(4), of "[]" "sgDeletes m"] dist
    by (simp add: SegmentManager_ImmutableSegments_def retained_def A_def K_def im_def)
  have v2: "(case sgWriting m of None \<Rightarrow> (None, A, K)
      | Some w \<Rightarrow> WriteSegment_VisitDocuments (collect (sgDeletes m)) w (A, K)) = (None, lk, kn)"
    using dist collect_docs [of im] unfolding A_def K_def lk_def kn_def retained_def im_def [symmetric]
    by (cases "sgWriting m") (simp_all add: WriteSegment_VisitDocuments_def)
  have rng: "DeleteStore_Range (\<lambda>docID err. if docID \<in> kn then (True, err) else (False, Some er)) (sgDeletes m) None
      = (if deleted m \<subseteq> kn then None else Some er)" for er
    unfolding DeleteStore_Range_def range_missing by (simp add: finite_u64)
  let ?er = "wrapf ErrCollectionCorrupt ''primary key %q has invalid document ID %d''"
  have chk: "check_live lk = checker (\<lambda>k d. map_of lk d = Some k) ?er"
    by (simp add: fun_eq_iff check_live_def checker_def)
  define V where "V \<longleftrightarrow> (\<forall>k d. key_view pmap m k = Some d \<longrightarrow> map_of lk d = Some k)"
  obtain err where fe: "PrimaryKeyMap_ForEach ops DetachedCtx (check_live lk) (sgPrimaryKey m) () env =
      ((if V then None else Some err), (), env)"
    unfolding chk V_def using ForEach_check [OF assms(2,3), of "\<lambda>k d. map_of lk d = Some k" ?er "()" env] by (elim exE)
  have len: "length lk = length ?L" by (simp add: lk_def)
  have co: "coherent pmap m \<longleftrightarrow> deleted m \<subseteq> kn \<and> card (dom (key_view pmap m)) = length lk \<and> V"
    unfolding coherent_by_count [OF fin dist] V_def len kn_def unfolding lk_def by (rule refl)
  show ?thesis
    unfolding co validateCollectionState_def
    by (simp add: v1 v2 rng cnt fe)
qed

text \<open>One document with ID 5 and an empty IDMap: coherent exactly if the document is deleted.\<close>

definition sample_store :: "u64 set \<Rightarrow> (bytes \<times> bytes) list SegmentManager" where
  "sample_store ds = \<lparr>sgImmutable = [], sgOrdered = [], sgWriting = Some sample_segment,
     sgPrimaryKey = \<lparr>pkDb = Some [], pkCount = 0, pkKnown = Some {}, pkOverlay = None\<rparr>, sgDeletes = \<lparr>dsDeleted = ds\<rparr>\<rparr>"

lemma sample_store_view: "key_view map_of (sample_store ds) = Map.empty"
  by (simp add: fun_eq_iff sample_store_def idmap_view_def overlay_lookup_def doc_of_def)

lemma sample_store_ok:
  "mgr_ok (sample_store ds)" "idmap_inv mem_pebble map_of (sgPrimaryKey (sample_store ds))"
  "\<forall>s \<in> set (sgOrdered (sample_store ds)). \<not> isClosed s" "coherent map_of (sample_store ds) \<longleftrightarrow> ds = {5}"
proof -
  show "mgr_ok (sample_store ds)" "\<forall>s \<in> set (sgOrdered (sample_store ds)). \<not> isClosed s"
    by (simp_all add: sample_store_def mgr_ok_def ranges_sorted_def writing_ok_def sample_segment_ok)
  show "idmap_inv mem_pebble map_of (sgPrimaryKey (sample_store ds))"
    using sample_store_view by (simp add: idmap_inv_def idmap_ok_def) (simp add: sample_store_def)
  show "coherent map_of (sample_store ds) \<longleftrightarrow> ds = {5}"
    unfolding coherent_def sample_store_view by (auto simp: sample_store_def retained_def sample_segment_def)
qed

theorem validate_collection_state_exact_witness:
  "validateCollectionState mem_pebble (sample_store {5}) calm = (None, calm)
     \<and> (\<exists>err. validateCollectionState mem_pebble (sample_store {}) calm = (Some err, calm) \<and> errors_Is err ErrCollectionCorrupt)"
  using validate_collection_state_exact [OF sample_store_ok(1,2) mem_pebble_reliable sample_store_ok(3), of "{5}" calm]
    validate_collection_state_exact [OF sample_store_ok(1,2) mem_pebble_reliable sample_store_ok(3), of "{}" calm]
  by (simp add: sample_store_ok(4))

end
