(* ===== verification/Version_Manager.thy ===== *)
theory Version_Manager
  imports Manifest Files
begin

text \<open>
  Versions of a collection, \<^verbatim>\<open>src/internal/db/index/common/version_manager.go\<close>: immutable manifest files
  and the file \<^verbatim>\<open>CURRENT\<close> that names the published one. The answers of the file lock, of \<^verbatim>\<open>os.ReadDir\<close> (names
  with a directory flag) and the name \<^verbatim>\<open>os.CreateTemp\<close> picks are arguments. Cloning a manifest copies it, which is the
  identity on values.
\<close>

definition currentFileName :: string where "currentFileName = ''CURRENT''"
definition manifestPrefix :: string where "manifestPrefix = ''MANIFEST-''"
definition manifestDigits :: nat where "manifestDigits = 20"
definition currentHeaderLen :: nat where "currentHeaderLen = 16"
definition maxCurrentSize :: nat where "maxCurrentSize = 1024"

definition currentMagic :: bytes where
  "currentMagic = [0x5A, 0x56, 0x45, 0x43, 0x43, 0x55, 0x52, 0x31]"

subsection \<open>Names and the pointer file\<close>

definition manifestFileName :: "u64 \<Rightarrow> string" where
  "manifestFileName generation = manifestPrefix @ format_020d generation"

definition parseManifestFileName :: "string \<Rightarrow> u64 option" where
  "parseManifestFileName name =
     (if length name \<noteq> length manifestPrefix + manifestDigits \<or> \<not> strings_HasPrefix name manifestPrefix then None
      else case ParseUint (drop (length manifestPrefix) name) of
        None \<Rightarrow> None
      | Some generation \<Rightarrow> if 0 < generation then Some generation else None)"

fun max_generation :: "(string \<times> bool) list \<Rightarrow> u64 \<Rightarrow> u64" where
  "max_generation [] maximum = maximum"
| "max_generation ((name, isDir) # entries) maximum =
     max_generation entries
       (if isDir then maximum
        else case parseManifestFileName name of None \<Rightarrow> maximum | Some generation \<Rightarrow> max maximum generation)"

definition nextManifestGeneration :: "(string \<times> bool) list \<Rightarrow> env \<Rightarrow> (error + u64) \<times> env" where
  "nextManifestGeneration entries env =
     (case os_call env of
        (Some err, env) \<Rightarrow> (Inl (ErrWrap ''db: scan manifest directory'' [err]), env)
      | (None, env) \<Rightarrow>
          let maximum = max_generation entries 0 in
          if maximum = MaxUint64 then (Inl (ErrMsg ''db: manifest generation exhausted''), env)
          else (Inr (maximum + 1), env))"

definition marshalCurrent :: "string \<Rightarrow> error + bytes" where
  "marshalCurrent name =
     (if parseManifestFileName name = None then Inl (wrapf ErrManifestCorrupt ''invalid manifest name %q'')
      else Inr (currentMagic @ PutUint16 (word_of_nat (length name)) @ PutUint16 (word_of_nat currentHeaderLen)
             @ PutUint32 (CRC32C (string_bytes name)) @ string_bytes name))"

definition decode_current :: "bytes \<Rightarrow> error + string" where
  "decode_current encoded =
     (if slice 0 8 encoded \<noteq> currentMagic then Inl (wrapf ErrManifestCorrupt ''invalid CURRENT magic'')
      else if unat (Uint16 (slice 10 12 encoded)) \<noteq> currentHeaderLen
      then Inl (wrapf ErrManifestCorrupt ''invalid CURRENT header size %d'')
      else if unat (Uint16 (slice 8 10 encoded)) \<noteq> length encoded - currentHeaderLen
      then Inl (wrapf ErrManifestCorrupt ''invalid CURRENT payload length'')
      else
        let payload = drop currentHeaderLen encoded; name = bytes_string payload in
        if CRC32C payload \<noteq> Uint32 (slice 12 16 encoded)
        then Inl (wrapf ErrManifestCorrupt ''CURRENT checksum got %08x, want %08x'')
        else if parseManifestFileName name = None
        then Inl (wrapf ErrManifestCorrupt ''invalid CURRENT manifest name %q'')
        else Inr name)"

definition readCurrent :: "string \<Rightarrow> files \<Rightarrow> env \<Rightarrow> (error + string) \<times> env" where
  "readCurrent dir fs env =
     (case os_call env of
        (Some err, env) \<Rightarrow>
          (Inl (if errors_Is err ErrNotExist then Sentinel ErrManifestNotFound
                else ErrWrap ''db: open CURRENT'' [err]), env)
      | (None, env) \<Rightarrow>
        (case fs (filepath_Join dir currentFileName) of
           None \<Rightarrow> (Inl (Sentinel ErrManifestNotFound), env)
         | Some encoded \<Rightarrow>
           (case os_call env of
              (Some err, env) \<Rightarrow> (Inl (ErrWrap ''db: stat CURRENT'' [err]), env)
            | (None, env) \<Rightarrow>
              if length encoded < currentHeaderLen \<or> maxCurrentSize < length encoded
              then (Inl (wrapf ErrManifestCorrupt ''invalid CURRENT size %d''), env)
              else (case os_call env of
                  (Some err, env) \<Rightarrow> (Inl (wrapf ErrManifestCorrupt ''read CURRENT: %v''), env)
                | (None, env) \<Rightarrow> (decode_current encoded, env)))))"

definition readManifestFile :: "json_codec \<Rightarrow> string \<Rightarrow> files \<Rightarrow> env \<Rightarrow> (error + Manifest) \<times> env" where
  "readManifestFile js name fs env =
     (case os_call env of
        (Some err, env) \<Rightarrow>
          (Inl (if errors_Is err ErrNotExist then wrapf ErrManifestNotFound ''%s''
                else ErrWrap ''db: open manifest'' [err]), env)
      | (None, env) \<Rightarrow>
        (case fs name of
           None \<Rightarrow> (Inl (wrapf ErrManifestNotFound ''%s''), env)
         | Some encoded \<Rightarrow>
           (case os_call env of
              (Some err, env) \<Rightarrow> (Inl (ErrWrap ''db: stat manifest'' [err]), env)
            | (None, env) \<Rightarrow>
              if length encoded < manifestHeaderSize \<or> manifestHeaderSize + maxManifestSize < length encoded
              then (Inl (wrapf ErrManifestCorrupt ''invalid file size %d''), env)
              else (case os_call env of
                  (Some err, env) \<Rightarrow> (Inl (wrapf ErrManifestCorrupt ''read file: %v''), env)
                | (None, env) \<Rightarrow> (UnmarshalManifest js encoded, env)))))"

subsection \<open>Publication\<close>

definition prepareManifest :: "Manifest \<Rightarrow> u64 \<Rightarrow> Manifest" where
  "prepareManifest manifest generation =
     manifest\<lparr>mfFormatVersion := (if mfFormatVersion manifest = 0 then DiskFormatVersion else mfFormatVersion manifest),
              mfGeneration := generation\<rparr>"

text \<open>The last steps of \<^verbatim>\<open>publishLocked\<close>: \<^verbatim>\<open>CURRENT\<close> is installed from the temporary file.\<close>

definition publish_current :: "string \<Rightarrow> string \<Rightarrow> string \<Rightarrow> string \<Rightarrow> files \<Rightarrow> env
    \<Rightarrow> (string \<times> bool \<times> error option) \<times> files \<times> env" where
  "publish_current expectedCurrent name temp current fs env =
     (case (case (if expectedCurrent = [] then installFileNoReplace temp current fs env
                  else atomicReplaceFile temp current fs env) of
         (Some err, fs, env) \<Rightarrow>
           (([], False, Some (if expectedCurrent = [] \<and> errors_Is err ErrExist then Sentinel ErrManifestExists
                              else ErrWrap ''db: publish CURRENT'' [err])), fs, env)
       | (None, fs, env) \<Rightarrow>
         (case syncDirectory env of
            (Some err, env) \<Rightarrow> ((name, True, Some (ErrWrap ''db: sync published CURRENT'' [err])), fs, env)
          | (None, env) \<Rightarrow> ((name, True, None), fs, env))) of
        (r, fs, env) \<Rightarrow> (case os_Remove temp fs env of (fs, env) \<Rightarrow> (r, fs, env)))"

text \<open>
  \<^verbatim>\<open>publishLocked\<close>: the manifest file is written exclusively and synced, then \<^verbatim>\<open>CURRENT\<close> is installed from a
  synced temporary file, which is removed in the end. An empty \<open>expectedCurrent\<close> stands for the first publication.
\<close>

definition publishLocked :: "json_codec \<Rightarrow> ctx \<Rightarrow> string \<Rightarrow> string \<Rightarrow> Manifest \<Rightarrow> string \<Rightarrow> files \<Rightarrow> env
    \<Rightarrow> (string \<times> bool \<times> error option) \<times> files \<times> env" where
  "publishLocked js ctx dir expectedCurrent manifest temp fs env =
     (case Manifest_Validate js manifest of
        Some err \<Rightarrow> (([], False, Some err), fs, env)
      | None \<Rightarrow>
        (case ctx_Err ctx env of
           (Some err, env) \<Rightarrow> (([], False, Some err), fs, env)
         | (None, env) \<Rightarrow>
           let name = manifestFileName (mfGeneration manifest); current = filepath_Join dir currentFileName in
           (case MarshalManifest js manifest of
              Inl err \<Rightarrow> (([], False, Some err), fs, env)
            | Inr encoded \<Rightarrow>
              (case writeExclusiveSynced (filepath_Join dir name) encoded fs env of
                 (Some err, fs, env) \<Rightarrow>
                   (([], False, Some (if errors_Is err ErrExist then wrapf ErrManifestConflict ''generation %d already exists''
                                      else ErrWrap ''db: write manifest %s'' [err])), fs, env)
               | (None, fs, env) \<Rightarrow>
                 (case syncDirectory env of
                    (Some err, env) \<Rightarrow> (([], False, Some (ErrWrap ''db: sync manifest directory'' [err])), fs, env)
                  | (None, env) \<Rightarrow>
                    (case ctx_Err ctx env of
                       (Some err, env) \<Rightarrow> (([], False, Some err), fs, env)
                     | (None, env) \<Rightarrow>
                       (case marshalCurrent name of
                          Inl err \<Rightarrow> (([], False, Some err), fs, env)
                        | Inr pointer \<Rightarrow>
                          (case writeTempSynced ctx temp pointer fs env of
                             (Some err, fs, env) \<Rightarrow> (([], False, Some err), fs, env)
                           | (None, fs, env) \<Rightarrow> publish_current expectedCurrent name temp current fs env))))))))"

record VersionManager =
  vmDir :: string
  vmCurrent :: Manifest
  vmCurrentName :: string

text \<open>Releasing the file lock joins its error to the result.\<close>

definition with_close :: "error option \<Rightarrow> env \<Rightarrow> error option \<times> env" where
  "with_close err env = (case os_call env of (closeErr, env) \<Rightarrow> (errors_Join [err, closeErr], env))"

definition CreateVersionManager :: "json_codec \<Rightarrow> ctx \<Rightarrow> string \<Rightarrow> Manifest \<Rightarrow> error + bool \<Rightarrow> (string \<times> bool) list \<Rightarrow> string
    \<Rightarrow> files \<Rightarrow> env \<Rightarrow> (VersionManager option \<times> error option) \<times> files \<times> env" where
  "CreateVersionManager js ctx dir initial lock entries temp fs env =
     (if ctx = NilCtx then ((None, Some (ErrMsg ''db: nil create version manager context'')), fs, env)
      else if dir = [] then ((None, Some (ErrMsg ''db: empty collection directory'')), fs, env)
      else case ctx_Err ctx env of
        (Some err, env) \<Rightarrow> ((None, Some err), fs, env)
      | (None, env) \<Rightarrow>
        (case os_call env of
           (Some err, env) \<Rightarrow> ((None, Some (ErrWrap ''db: create collection directory'' [err])), fs, env)
         | (None, env) \<Rightarrow>
           (case lock of
              Inl err \<Rightarrow> ((None, Some (ErrWrap ''db: lock manifest creation'' [err])), fs, env)
            | Inr locked \<Rightarrow>
              if \<not> locked then ((None, Some (ErrMsg ''db: manifest creation lock unavailable'')), fs, env)
              else
                (case (case readCurrent dir fs env of
                    (Inr name, env) \<Rightarrow> ((None, Some (Sentinel ErrManifestExists)), fs, env)
                  | (Inl err, env) \<Rightarrow>
                    if \<not> errors_Is err ErrManifestNotFound then ((None, Some err), fs, env)
                    else
                      (case nextManifestGeneration entries env of
                         (Inl err, env) \<Rightarrow> ((None, Some err), fs, env)
                       | (Inr generation, env) \<Rightarrow>
                         let initial = prepareManifest initial generation in
                         (case publishLocked js ctx dir [] initial temp fs env of
                            ((name, committed, err), fs, env) \<Rightarrow>
                              if committed then ((Some \<lparr>vmDir = dir, vmCurrent = initial, vmCurrentName = name\<rparr>, err), fs, env)
                              else if err \<noteq> None then ((None, err), fs, env)
                              else ((None, Some (ErrMsg ''db: initial manifest was not committed'')), fs, env)))) of
                   ((vm, err), fs, env) \<Rightarrow> (case with_close err env of (err, env) \<Rightarrow> ((vm, err), fs, env))))))"

definition OpenVersionManager :: "json_codec \<Rightarrow> ctx \<Rightarrow> string \<Rightarrow> bool \<Rightarrow> files \<Rightarrow> env \<Rightarrow> (error + VersionManager) \<times> env" where
  "OpenVersionManager js ctx dir isDir fs env =
     (if ctx = NilCtx then (Inl (ErrMsg ''db: nil open version manager context''), env)
      else case ctx_Err ctx env of
        (Some err, env) \<Rightarrow> (Inl err, env)
      | (None, env) \<Rightarrow>
        (case os_call env of
           (Some err, env) \<Rightarrow>
             (Inl (if errors_Is err ErrNotExist then Sentinel ErrManifestNotFound
                   else ErrWrap ''db: stat collection directory'' [err]), env)
         | (None, env) \<Rightarrow>
           if \<not> isDir then (Inl (ErrMsg ''db: collection path %q is not a directory''), env)
           else
             (case readCurrent dir fs env of
                (Inl err, env) \<Rightarrow> (Inl err, env)
              | (Inr name, env) \<Rightarrow>
                (case readManifestFile js (filepath_Join dir name) fs env of
                   (Inl err, env) \<Rightarrow> (Inl err, env)
                 | (Inr manifest, env) \<Rightarrow>
                   if manifestFileName (mfGeneration manifest) \<noteq> name
                   then (Inl (wrapf ErrManifestCorrupt ''CURRENT names %s but payload generation is %d''), env)
                   else (Inr \<lparr>vmDir = dir, vmCurrent = manifest, vmCurrentName = name\<rparr>, env)))))"

definition VersionManager_Current :: "VersionManager \<Rightarrow> Manifest" where
  "VersionManager_Current vm = vmCurrent vm"

definition publishManagerLocked :: "json_codec \<Rightarrow> ctx \<Rightarrow> Manifest \<Rightarrow> error + bool \<Rightarrow> (string \<times> bool) list \<Rightarrow> string
    \<Rightarrow> VersionManager \<Rightarrow> files \<Rightarrow> env \<Rightarrow> (Manifest option \<times> error option) \<times> VersionManager \<times> files \<times> env" where
  "publishManagerLocked js ctx next lock entries temp vm fs env =
     (case lock of
        Inl err \<Rightarrow> ((None, Some (ErrWrap ''db: lock manifest publication'' [err])), vm, fs, env)
      | Inr locked \<Rightarrow>
        if \<not> locked then ((None, Some (ErrMsg ''db: manifest publication lock unavailable'')), vm, fs, env)
        else
          (case (case readCurrent (vmDir vm) fs env of
              (Inl err, env) \<Rightarrow> ((None, Some err), vm, fs, env)
            | (Inr currentName, env) \<Rightarrow>
              if currentName \<noteq> vmCurrentName vm
              then ((None, Some (wrapf ErrManifestConflict ''expected %s, found %s'')), vm, fs, env)
              else
                (case nextManifestGeneration entries env of
                   (Inl err, env) \<Rightarrow> ((None, Some err), vm, fs, env)
                 | (Inr generation, env) \<Rightarrow>
                   let next = prepareManifest next generation in
                   (case publishLocked js ctx (vmDir vm) (vmCurrentName vm) next temp fs env of
                      ((name, committed, err), fs, env) \<Rightarrow>
                        if committed then ((Some next, err), vm\<lparr>vmCurrent := next, vmCurrentName := name\<rparr>, fs, env)
                        else if err \<noteq> None then ((None, err), vm, fs, env)
                        else ((Some next, None), vm, fs, env)))) of
             ((r, err), vm, fs, env) \<Rightarrow> (case with_close err env of (err, env) \<Rightarrow> ((r, err), vm, fs, env))))"

definition VersionManager_Publish :: "json_codec \<Rightarrow> ctx \<Rightarrow> Manifest \<Rightarrow> error + bool \<Rightarrow> (string \<times> bool) list \<Rightarrow> string
    \<Rightarrow> VersionManager \<Rightarrow> files \<Rightarrow> env \<Rightarrow> (Manifest option \<times> error option) \<times> VersionManager \<times> files \<times> env" where
  "VersionManager_Publish js ctx next lock entries temp vm fs env =
     (if ctx = NilCtx then ((None, Some (ErrMsg ''db: nil publish context'')), vm, fs, env)
      else case ctx_Err ctx env of
        (Some err, env) \<Rightarrow> ((None, Some err), vm, fs, env)
      | (None, env) \<Rightarrow> publishManagerLocked js ctx next lock entries temp vm fs env)"

text \<open>
  \<^verbatim>\<open>Update\<close>: \<open>base\<close> is what \<^verbatim>\<open>Current\<close> returned before the mutation ran; other goroutines may have
  published before the manager's lock is taken again.
\<close>

definition VersionManager_Update :: "json_codec \<Rightarrow> ctx \<Rightarrow> (Manifest \<Rightarrow> error + Manifest) \<Rightarrow> Manifest \<Rightarrow> error + bool
    \<Rightarrow> (string \<times> bool) list \<Rightarrow> string \<Rightarrow> VersionManager \<Rightarrow> files \<Rightarrow> env
    \<Rightarrow> (Manifest option \<times> error option) \<times> VersionManager \<times> files \<times> env" where
  "VersionManager_Update js ctx mutate base lock entries temp vm fs env =
     (if ctx = NilCtx then ((None, Some (ErrMsg ''db: nil update context'')), vm, fs, env)
      else case ctx_Err ctx env of
        (Some err, env) \<Rightarrow> ((None, Some err), vm, fs, env)
      | (None, env) \<Rightarrow>
        (case mutate base of
           Inl err \<Rightarrow> ((None, Some err), vm, fs, env)
         | Inr next \<Rightarrow>
           (case ctx_Err ctx env of
              (Some err, env) \<Rightarrow> ((None, Some err), vm, fs, env)
            | (None, env) \<Rightarrow>
              if mfGeneration (vmCurrent vm) \<noteq> mfGeneration base
              then ((None, Some (wrapf ErrManifestConflict ''update started at generation %d, current is %d'')), vm, fs, env)
              else publishManagerLocked js ctx next lock entries temp vm fs env)))"

end
