(* ===== verification/Manifest_Properties.thy ===== *)
theory Manifest_Properties
  imports Manifest
begin

text \<open>What validation guarantees of a manifest, and the round trip of the manifest file.\<close>

subsection \<open>Validation\<close>

lemma claim_files_Inr:
  "claim_files msg names resources = Inr resources' \<Longrightarrow>
     resources' = resources \<union> set names \<and> distinct names \<and> set names \<inter> resources = {}"
  by (induction msg names resources rule: claim_files.induct) (auto split: if_splits)

definition range_sorted :: "SegmentMetadata list \<Rightarrow> bool" where
  "range_sorted segments \<longleftrightarrow> sorted_wrt (\<lambda>a b. smMaxDocID a < smMinDocID b) segments"

abbreviation files_of :: "SegmentMetadata list \<Rightarrow> string list" where
  "files_of segments \<equiv> concat (map smFiles segments)"

lemma ValidateSegment_range:
  "ValidateSegment s = None \<Longrightarrow> smDocCount s \<noteq> 0 \<Longrightarrow> smMinDocID s \<le> smMaxDocID s"
  by (auto simp: ValidateSegment_def split: if_splits)

lemma ValidateSegment_files:
  "ValidateSegment s = None \<Longrightarrow> \<forall>n \<in> set (smFiles s). ValidatePortableRelativePath n = None"
  by (auto simp: ValidateSegment_def validate_files_None split: if_splits)

lemma validate_persisted_Inr:
  assumes "validate_persisted segments prev ids resources mx = Inr (ids', resources', mx')"
    and "case prev of None \<Rightarrow> True | Some p \<Rightarrow> 0 < smDocCount p \<and> smMinDocID p \<le> smMaxDocID p"
  shows "range_sorted (case prev of None \<Rightarrow> segments | Some p \<Rightarrow> p # segments)
    \<and> (\<forall>s \<in> set segments. 0 < smDocCount s \<and> ValidateSegment s = None)
    \<and> distinct (map smID segments) \<and> smID ` set segments \<inter> ids = {} \<and> ids' = ids \<union> smID ` set segments
    \<and> distinct (files_of segments) \<and> set (files_of segments) \<inter> resources = {}
    \<and> resources' = resources \<union> set (files_of segments)
    \<and> mx \<le> mx' \<and> (\<forall>s \<in> set segments. smID s \<le> mx')"
  using assms
proof (induction segments prev ids resources mx rule: validate_persisted.induct)
  case (1 prev ids resources mx)
  then show ?case by (simp add: range_sorted_def split: option.splits)
next
  case (2 s ss prev ids resources mx)
  from 2(2) obtain rs where v: "ValidateSegment s = None" and c: "smDocCount s \<noteq> 0" "smID s \<notin> ids"
    and sorted: "\<not> (case prev of None \<Rightarrow> False | Some p \<Rightarrow> 0 < smDocCount p \<and> 0 < smDocCount s \<and> smMinDocID s \<le> smMaxDocID p)"
    and cf: "claim_files ''persisted segment artifact %q conflicts with %s'' (smFiles s) resources = Inr rs"
    and rest: "validate_persisted ss (Some s) (insert (smID s) ids) rs (max mx (smID s)) = Inr (ids', resources', mx')"
    by (auto split: option.splits if_splits sum.splits)
  have pos: "0 < smDocCount s" "smMinDocID s \<le> smMaxDocID s"
    using c(1) ValidateSegment_range [OF v] by (simp_all add: word_gt_0)
  note ih = 2(1) [OF v c(1) c(2) sorted cf rest, simplified, OF conjI [OF pos]]
  note cl = claim_files_Inr [OF cf]
  have "range_sorted (case prev of None \<Rightarrow> s # ss | Some p \<Rightarrow> p # s # ss)"
  proof (cases prev)
    case None
    then show ?thesis using ih by simp
  next
    case (Some p)
    then have p: "smMaxDocID p < smMinDocID s" using sorted pos 2(3) by (simp add: not_le)
    have "smMaxDocID p < smMinDocID t" if "t \<in> set ss" for t
      using ih that p pos(2) by (auto simp: range_sorted_def dest!: bspec intro: order.strict_trans order.strict_trans1)
    with Some p ih show ?thesis by (simp add: range_sorted_def)
  qed
  then show ?case using ih cl c v pos by auto
qed

lemma validate_writing_Inr:
  "validate_writing writing ids resources mx = Inr (resources', mx') \<Longrightarrow>
     (\<forall>w. writing = Some w \<longrightarrow> ValidateSegment w = None \<and> smID w \<notin> ids \<and> distinct (smFiles w)
        \<and> set (smFiles w) \<inter> resources = {} \<and> smID w \<le> mx')
     \<and> resources' = resources \<union> (\<Union>w \<in> set_option writing. set (smFiles w)) \<and> mx \<le> mx'"
  by (cases writing) (auto simp: validate_writing_def split: option.splits if_splits sum.splits dest: claim_files_Inr)

abbreviation artifact_files :: "SegmentIndexSnapshotMetadata list \<Rightarrow> string list" where
  "artifact_files snapshots \<equiv> concat (map (\<lambda>s. map iaFile (ixArtifacts s)) snapshots)"

lemma validate_artifacts_Inr:
  "validate_artifacts arts keys files resources = Inr (files', resources') \<Longrightarrow>
     distinct (map iaFile arts) \<and> set (map iaFile arts) \<inter> (files \<union> resources) = {}
     \<and> (\<forall>a \<in> set arts. ValidatePortableRelativePath (iaFile a) = None)
     \<and> files' = files \<union> set (map iaFile arts) \<and> resources' = resources \<union> set (map iaFile arts)"
  by (induction arts keys files resources rule: validate_artifacts.induct) (auto simp: Let_def split: if_splits)

lemma validate_snapshots_None:
  "validate_snapshots segments snaps seen files resources = None \<Longrightarrow>
     distinct (map ixSegmentID snaps) \<and> ixSegmentID ` set snaps \<inter> seen = {}
     \<and> (\<forall>s \<in> set snaps. \<exists>g \<in> set segments. smID g = ixSegmentID s \<and> ixDocumentCount s = smDocCount g
          \<and> ixMinDocumentID s = smMinDocID g \<and> ixMaxDocumentID s = smMaxDocID g)
     \<and> distinct (artifact_files snaps) \<and> set (artifact_files snaps) \<inter> (files \<union> resources) = {}
     \<and> (\<forall>n \<in> set (artifact_files snaps). ValidatePortableRelativePath n = None)"
proof (induction segments snaps seen files resources rule: validate_snapshots.induct)
  case (2 segments s snaps seen files resources)
  from 2(2) obtain g files1 resources1 where g: "segment_by_id segments (ixSegmentID s) = Some g"
    and c: "ixSegmentID s \<notin> seen" "ixDocumentCount s = smDocCount g" "ixMinDocumentID s = smMinDocID g"
      "ixMaxDocumentID s = smMaxDocID g" "length (ixSchemaSHA256 s) = 64" "list_all hex_digit (ixSchemaSHA256 s)"
    and a: "validate_artifacts (ixArtifacts s) {} files resources = Inr (files1, resources1)"
    and rest: "validate_snapshots segments snaps (insert (ixSegmentID s) seen) files1 resources1 = None"
    by (auto split: option.splits if_splits sum.splits)
  have gs: "g \<in> set segments" "smID g = ixSegmentID s"
    using g unfolding segment_by_id_def find_Some_iff by (metis length_rev nth_mem set_rev, metis)
  note ih = 2(1) [OF g _ _ _ _ a refl rest]
  have "distinct (map ixSegmentID snaps) \<and> ixSegmentID ` set snaps \<inter> insert (ixSegmentID s) seen = {}
     \<and> (\<forall>s \<in> set snaps. \<exists>g \<in> set segments. smID g = ixSegmentID s \<and> ixDocumentCount s = smDocCount g
          \<and> ixMinDocumentID s = smMinDocID g \<and> ixMaxDocumentID s = smMaxDocID g)
     \<and> distinct (artifact_files snaps) \<and> set (artifact_files snaps) \<inter> (files1 \<union> resources1) = {}
     \<and> (\<forall>n \<in> set (artifact_files snaps). ValidatePortableRelativePath n = None)"
    using c by (intro ih) auto
  moreover define B where "B = map iaFile (ixArtifacts s)"
  moreover define C where "C = artifact_files snaps"
  moreover have "artifact_files (s # snaps) = B @ C" by (simp add: B_def C_def)
  moreover have "distinct B" "set B \<inter> (files \<union> resources) = {}" "\<forall>n \<in> set B. ValidatePortableRelativePath n = None"
    "files1 = files \<union> set B" "resources1 = resources \<union> set B"
    using validate_artifacts_Inr [OF a] by (auto simp: B_def)
  ultimately show ?case using c gs unfolding C_def [symmetric] by auto
qed simp

text \<open>
  C21: A valid manifest describes disjoint data. If \<^verbatim>\<open>Validate\<close> accepts a manifest, its persisted segments are not empty and in
  ascending, pairwise disjoint document ranges; the IDs of all segments, the writing one included, are distinct and below
  the next one to be assigned; no file belongs to two owners among segments, index artifacts, IDMap and deletion snapshot;
  every file name is portable; and every index snapshot describes a persisted segment with equal document bounds.
\<close>

theorem validated_manifest_disjoint:
  assumes "Manifest_Validate js m = None"
  shows "let all = mfPersistedSegments m @ (case mfWritingSegment m of None \<Rightarrow> [] | Some w \<Rightarrow> [w]);
             files = files_of all @ artifact_files (mfSegmentIndexSnapshots m) in
    range_sorted (mfPersistedSegments m) \<and> (\<forall>s \<in> set (mfPersistedSegments m). 0 < smDocCount s \<and> smMinDocID s \<le> smMaxDocID s)
    \<and> distinct (map smID all) \<and> (\<forall>s \<in> set all. smID s < mfNextSegmentID m)
    \<and> distinct files \<and> mfIDMap m \<notin> set files \<and> DeleteSnapshotName (mfDeleteSnapshotGeneration m) \<notin> set files
    \<and> (\<forall>n \<in> set files. ValidatePortableRelativePath n = None)
    \<and> (\<forall>x \<in> set (mfSegmentIndexSnapshots m). \<exists>s \<in> set (mfPersistedSegments m). smID s = ixSegmentID x
         \<and> ixDocumentCount x = smDocCount s \<and> ixMinDocumentID x = smMinDocID s \<and> ixMaxDocumentID x = smMaxDocID s)"
proof -
  let ?r = "{mfIDMap m, DeleteSnapshotName (mfDeleteSnapshotGeneration m)}" and ?P = "mfPersistedSegments m"
    and ?W = "mfWritingSegment m"
  obtain ids r1 mx1 r2 mx2 where p: "validate_persisted ?P None {} ?r 0 = Inr (ids, r1, mx1)"
    and w: "validate_writing ?W ids r1 mx1 = Inr (r2, mx2)"
    and nx: "?P \<noteq> [] \<or> ?W \<noteq> None \<longrightarrow> mx2 < mfNextSegmentID m"
    and sn: "validate_snapshots ?P (mfSegmentIndexSnapshots m) {} {} r2 = None"
    using assms by (auto simp: Manifest_Validate_def not_le split: if_splits sum.splits)
  note pp = validate_persisted_Inr [OF p, simplified]
  note ww = validate_writing_Inr [OF w]
  note ss = validate_snapshots_None [OF sn]
  have ids: "smID s < mfNextSegmentID m" if "s \<in> set ?P" for s
  proof -
    have "smID s \<le> mx2" "?P \<noteq> []" using that pp ww by (auto intro: order_trans)
    then show ?thesis using nx by (auto intro: order.strict_trans1)
  qed
  have wid: "smID s < mfNextSegmentID m" if "?W = Some s" for s
    using that ww nx by (auto intro: order.strict_trans1)
  define ws where "ws = (case ?W of None \<Rightarrow> [] | Some w \<Rightarrow> [w])"
  define F where "F = files_of ?P"
  define G where "G = files_of ws"
  define A where "A = artifact_files (mfSegmentIndexSnapshots m)"
  have f: "distinct F" "mfIDMap m \<notin> set F" "DeleteSnapshotName (mfDeleteSnapshotGeneration m) \<notin> set F"
    "r1 = ?r \<union> set F" using pp unfolding F_def by auto
  have g: "distinct G" "set G \<inter> r1 = {}" "r2 = r1 \<union> set G"
    using ww unfolding G_def ws_def by (cases ?W; auto)+
  have a: "distinct A" "set A \<inter> r2 = {}" "\<forall>n \<in> set A. ValidatePortableRelativePath n = None"
    using ss unfolding A_def by auto
  have fp: "\<forall>n \<in> set F. ValidatePortableRelativePath n = None" using pp ValidateSegment_files unfolding F_def by fastforce
  have gp: "\<forall>n \<in> set G. ValidatePortableRelativePath n = None"
    using ww ValidateSegment_files unfolding G_def ws_def by (cases ?W) auto
  have di: "distinct (map smID (?P @ ws))" using pp ww unfolding ws_def by (auto split: option.splits)
  have lt: "\<forall>s \<in> set (?P @ ws). smID s < mfNextSegmentID m" using ids wid unfolding ws_def by (auto split: option.splits)
  have d3: "distinct ((F @ G) @ A)" "mfIDMap m \<notin> set ((F @ G) @ A)"
    "DeleteSnapshotName (mfDeleteSnapshotGeneration m) \<notin> set ((F @ G) @ A)" "\<forall>n \<in> set ((F @ G) @ A). ValidatePortableRelativePath n = None"
    using f g a fp gp by auto
  have rg: "range_sorted ?P" "\<forall>s \<in> set ?P. 0 < smDocCount s \<and> smMinDocID s \<le> smMaxDocID s"
    using pp ValidateSegment_range by (auto simp: word_gt_0)
  have "files_of (?P @ ws) = F @ G" by (simp add: F_def G_def)
  then show ?thesis
    unfolding Let_def ws_def [symmetric] A_def [symmetric] using d3 di lt rg ss by simp
qed

subsection \<open>The manifest file\<close>

text \<open>What is relied on of the JSON codec: decoding what it encoded returns the manifest, with nothing after it.\<close>

definition json_faithful :: "json_codec \<Rightarrow> Manifest \<Rightarrow> bool" where
  "json_faithful js m \<longleftrightarrow> (\<forall>p. jsMarshal js m = Inr p \<longrightarrow> jsDecode js p = Inr m \<and> jsStartField js p = Inr True
     \<and> ensureJSONEOF (jsExtra js p) = None)"

lemma MarshalManifest_Inr:
  assumes "MarshalManifest js m = Inr b"
  obtains p where "Manifest_Validate js m = None" "jsMarshal js m = Inr p" "length p \<le> maxManifestSize"
    "b = (manifestMagic @ PutUint16 3 @ PutUint16 32 @ PutUint64 (mfGeneration m)
        @ PutUint64 (word_of_nat (length p)) @ PutUint32 (CRC32C p)) @ p"
  using assms
  by (auto simp: MarshalManifest_def DiskFormatVersion_def manifestHeaderSize_def split: option.splits sum.splits if_splits)

lemma UnmarshalManifest_written:
  assumes "json_faithful js m" "MarshalManifest js m = Inr b"
  shows "UnmarshalManifest js b = Inr m
    \<and> (\<forall>i v. manifestHeaderSize \<le> i \<longrightarrow> i < length b \<longrightarrow> v \<noteq> b ! i \<longrightarrow>
         (\<exists>err. UnmarshalManifest js (b[i := v]) = Inl err \<and> errors_Is err ErrManifestCorrupt))"
proof -
  obtain p where v: "Manifest_Validate js m = None" and p: "jsMarshal js m = Inr p" "length p \<le> maxManifestSize"
    and b: "b = (manifestMagic @ PutUint16 3 @ PutUint16 32 @ PutUint64 (mfGeneration m)
        @ PutUint64 (word_of_nat (length p)) @ PutUint32 (CRC32C p)) @ p"
    using MarshalManifest_Inr [OF assms(2)] .
  define h where "h = manifestMagic @ PutUint16 3 @ PutUint16 32 @ PutUint64 (mfGeneration m)
        @ PutUint64 (word_of_nat (length p)) @ PutUint32 (CRC32C p)"
  have lh: "length h = 32" by (simp add: h_def manifestMagic_def)
  have len: "unat (word_of_nat (length p) :: u64) = length p"
    using p(2) by (simp add: unat_of_nat_u64 maxManifestSize_def)
  have fields: "slice 0 8 h = manifestMagic" "Uint16 (slice 8 10 h) = 3" "Uint16 (slice 10 12 h) = 32"
    "Uint64 (slice 12 20 h) = mfGeneration m" "Uint64 (slice 20 28 h) = word_of_nat (length p)" "Uint32 (slice 28 32 h) = CRC32C p"
    unfolding h_def by (simp_all add: codec_simps manifestMagic_def)
  have sl: "slice i j (h @ q) = slice i j h" if "j \<le> 32" for i j q
    using that lh by (simp add: slice_append slice_outside)
  have un: "UnmarshalManifest js (h @ q) = (if CRC32C q \<noteq> CRC32C p then Inl (wrapf ErrManifestCorrupt ''checksum got %08x, want %08x'')
      else UnmarshalManifest js (h @ q))" if "length q = length p" for q
    using that lh len p(2) unfolding UnmarshalManifest_def
    by (auto simp: sl fields manifestHeaderSize_def DiskFormatVersion_def Let_def)
  have "UnmarshalManifest js (h @ p) = Inr m"
    using lh len p assms(1) v unfolding UnmarshalManifest_def
    by (simp add: sl fields manifestHeaderSize_def DiskFormatVersion_def json_faithful_def)
  moreover have "\<exists>err. UnmarshalManifest js (b[i := x]) = Inl err \<and> errors_Is err ErrManifestCorrupt"
    if i: "manifestHeaderSize \<le> i" "i < length b" and x: "x \<noteq> b ! i" for i x
  proof -
    have i32: "32 \<le> i" "i - 32 < length p" using i b lh by (simp_all add: manifestHeaderSize_def h_def [symmetric])
    have "b[i := x] = h @ p[i - 32 := x]" using i32 lh by (simp add: b h_def [symmetric] list_update_append)
    moreover have "p ! (i - 32) \<noteq> x" using x i32 lh by (auto simp: b h_def [symmetric] nth_append)
    ultimately show ?thesis
      using un [of "p[i - 32 := x]"] CRC32C_list_update [of "i - 32" p x] i32 by simp
  qed
  ultimately show ?thesis using b by (simp add: h_def [symmetric])
qed

lemma UnmarshalManifest_marshal: "json_faithful js m \<Longrightarrow> MarshalManifest js m = Inr b \<Longrightarrow> UnmarshalManifest js b = Inr m"
  using UnmarshalManifest_written by blast

text \<open>
  C22: A manifest file is read back exactly. If \<^verbatim>\<open>MarshalManifest\<close> encodes a manifest that survives the JSON codec, \<^verbatim>\<open>UnmarshalManifest\<close>
  accepts the file and returns that manifest; if in addition any one byte of the payload is changed, it is rejected as corrupt.
\<close>

theorem manifest_file_round_trip:
  assumes "json_faithful js m" "MarshalManifest js m = Inr b"
  shows "UnmarshalManifest js b = Inr m
    \<and> (\<forall>i v. manifestHeaderSize \<le> i \<longrightarrow> i < length b \<longrightarrow> v \<noteq> b ! i \<longrightarrow>
         (\<exists>err. UnmarshalManifest js (b[i := v]) = Inl err \<and> errors_Is err ErrManifestCorrupt))"
  by (rule UnmarshalManifest_written [OF assms])

subsection \<open>Witnesses\<close>

abbreviation sample_idmap :: string where
  "sample_idmap \<equiv> ''idmap/idmap-00000000000000000001.pebble''"

definition sample_manifest :: "u64 \<Rightarrow> Manifest" where
  "sample_manifest generation = \<lparr>mfFormatVersion = 3, mfGeneration = generation, mfSchema = [0x7B, 0x7D], mfEnableMmap = False,
     mfSegmentMaxDocuments = 10,
     mfPersistedSegments = [\<lparr>smID = 1, smMinDocID = 5, smMaxDocID = 8, smDocCount = 3, smFiles = [''seg/a'']\<rparr>],
     mfWritingSegment = Some \<lparr>smID = 2, smMinDocID = 0, smMaxDocID = 0, smDocCount = 0, smFiles = [''wal/b'']\<rparr>,
     mfWritingSegmentStartDocID = 9, mfIDMap = sample_idmap, mfDeleteSnapshotGeneration = 1, mfNextSegmentID = 3,
     mfSegmentIndexSnapshots = []\<rparr>"

definition sample_json :: json_codec where
  "sample_json = \<lparr>jsValid = (\<lambda>b. True), jsObject = (\<lambda>b. True), jsMarshal = (\<lambda>m. Inr (PutUint64 (mfGeneration m))),
     jsStartField = (\<lambda>b. Inr True), jsDecode = (\<lambda>b. Inr (sample_manifest (Uint64 b))), jsExtra = (\<lambda>b. Some (Sentinel EOF))\<rparr>"

lemma sample_idmap_owned: "IsOwnedIDMapName ''idmap-00000000000000000001.pebble''"
proof -
  have "strings_HasPrefix ''idmap-00000000000000000001.pebble'' ''idmap-''" by code_simp
  moreover have "strings_HasSuffix ''idmap-00000000000000000001.pebble'' ''.pebble''" by code_simp
  moreover have "TrimSuffix (TrimPrefix ''idmap-00000000000000000001.pebble'' ''idmap-'') ''.pebble'' = ''00000000000000000001''"
    by code_simp
  moreover have "ParseUint ''00000000000000000001'' = Some 1" by (simp add: ParseUint_def digit_value_def)
  ultimately show ?thesis unfolding IsOwnedIDMapName_def by simp
qed

lemma sample_paths:
  "ValidatePortableRelativePath sample_idmap = None" "path_Dir sample_idmap = ''idmap''"
  "path_Base sample_idmap = ''idmap-00000000000000000001.pebble''"
  "ValidatePortableRelativePath ''seg/a'' = None" "ValidatePortableRelativePath ''wal/b'' = None"
  by code_simp+

lemma sample_manifest_valid: "g \<noteq> 0 \<Longrightarrow> Manifest_Validate sample_json (sample_manifest g) = None"
  by (simp add: Manifest_Validate_def sample_manifest_def sample_json_def DiskFormatVersion_def sample_paths
      sample_idmap_owned ValidateSegment_def validate_writing_def DeleteSnapshotName_def strings_HasPrefix_def)

lemma sample_json_faithful: "json_faithful sample_json (sample_manifest g)"
  by (simp add: json_faithful_def sample_json_def sample_manifest_def ensureJSONEOF_def)

theorem validated_manifest_disjoint_witness:
  "range_sorted (mfPersistedSegments (sample_manifest 7)) \<and> mfIDMap (sample_manifest 7) \<noteq> ''seg/a''"
  using validated_manifest_disjoint [OF sample_manifest_valid [of 7]] by (simp add: Let_def sample_manifest_def)

theorem manifest_file_round_trip_witness:
  "\<exists>b. MarshalManifest sample_json (sample_manifest 7) = Inr b \<and> UnmarshalManifest sample_json b = Inr (sample_manifest 7)"
proof -
  have "\<exists>b. MarshalManifest sample_json (sample_manifest 7) = Inr b"
    using sample_manifest_valid [of 7] by (simp add: MarshalManifest_def sample_json_def maxManifestSize_def)
  then show ?thesis using manifest_file_round_trip [OF sample_json_faithful] by blast
qed

end
