(* ===== verification/Version_Properties.thy ===== *)
theory Version_Properties
  imports Version_Manager Manifest_Properties
begin

text \<open>
  Publication of a version is atomic whatever fails, a published version is what opening the
  directory reads, and a stale manager cannot overwrite a newer version.
\<close>

subsection \<open>File names in one directory\<close>

definition simple_name :: "string \<Rightarrow> bool" where
  "simple_name w \<longleftrightarrow> w \<noteq> [] \<and> slash \<notin> set w \<and> w \<noteq> ''.'' \<and> w \<noteq> ''..''"

lemma split_on_snoc: "c \<notin> set w \<Longrightarrow> split_on c (s @ c # w) = split_on c s @ [w]"
  by (induction s) (auto simp: split_on_simple neq_Nil_conv split: list.splits)

lemma join_with_snoc: "w \<noteq> [] \<Longrightarrow> join_with c (ws @ [w]) = (if ws = [] then w else join_with c ws @ c # w)"
  by (induction ws rule: join_with.induct) auto

lemma Join_simple: "\<exists>pre. \<forall>w. simple_name w \<longrightarrow> filepath_Join dir w = pre @ w"
proof (cases "dir = []")
  case True
  have "filepath_Join dir w = w" if "simple_name w" for w
    using that True by (auto simp: filepath_Join_def path_Clean_def path_IsAbs_def simple_name_def split_on_simple clean_step_def
        Let_def split: list.splits)
  then show ?thesis by (intro exI [of _ "[]"]) simp
next
  case False
  define rooted where "rooted = path_IsAbs dir"
  define out where "out = foldl (clean_step rooted) [] (split_on slash dir)"
  define pre where "pre = (if rooted then [slash] else []) @ (if out = [] then [] else join_with slash out @ [slash])"
  have "filepath_Join dir w = pre @ w" if w: "simple_name w" for w
  proof -
    have "path_IsAbs (dir @ slash # w) = rooted" using False by (cases dir) (simp_all add: path_IsAbs_def rooted_def)
    moreover have "foldl (clean_step rooted) [] (split_on slash (dir @ slash # w)) = out @ [w]"
      using w by (simp add: split_on_snoc simple_name_def out_def clean_step_def)
    ultimately show ?thesis
      using w False by (simp add: filepath_Join_def path_Clean_def Let_def join_with_snoc simple_name_def pre_def)
  qed
  then show ?thesis by blast
qed

lemma Join_inject:
  "simple_name v \<Longrightarrow> simple_name w \<Longrightarrow> filepath_Join dir v = filepath_Join dir w \<longleftrightarrow> v = w"
  using Join_simple [of dir] by (metis same_append_eq)

lemma simple_current: "simple_name currentFileName"
  by (simp add: simple_name_def currentFileName_def)

lemma digit_not_slash: "d < 10 \<Longrightarrow> digit d \<noteq> slash"
  using digit_value_digit [of d] by (auto simp: digit_value_def)

lemma pad_digits_no_slash: "slash \<notin> set (pad_digits n v)"
  by (induction n arbitrary: v) (use digit_not_slash [THEN not_sym] in auto)

lemma simple_manifest: "simple_name (manifestFileName g)"
  using pad_digits_no_slash [of 20 "unat g"] by (simp add: simple_name_def manifestFileName_def manifestPrefix_def format_020d_def)

lemma manifest_not_current: "manifestFileName g \<noteq> currentFileName"
  by (simp add: manifestFileName_def manifestPrefix_def currentFileName_def)

lemma manifestFileName_inject [simp]: "manifestFileName g = manifestFileName h \<longleftrightarrow> g = h"
  by (simp add: manifestFileName_def)

lemma parse_manifestFileName [simp]: "parseManifestFileName (manifestFileName g) = (if 0 < g then Some g else None)"
  by (simp add: parseManifestFileName_def manifestFileName_def manifestPrefix_def manifestDigits_def strings_HasPrefix_def)

subsection \<open>The pointer file\<close>

lemma marshalCurrent_read:
  assumes "marshalCurrent name = Inr b"
  shows "decode_current b = Inr name" "length b = 45"
proof -
  have p: "parseManifestFileName name \<noteq> None" and b: "b = (currentMagic @ PutUint16 (word_of_nat (length name)) @ PutUint16 16
      @ PutUint32 (CRC32C (string_bytes name))) @ string_bytes name"
    using assms by (auto simp: marshalCurrent_def currentHeaderLen_def split: if_splits)
  have len: "length name = 29"
    using p by (auto simp: parseManifestFileName_def manifestPrefix_def manifestDigits_def split: if_splits)
  define h where "h = currentMagic @ PutUint16 29 @ PutUint16 16 @ PutUint32 (CRC32C (string_bytes name))"
  have bh: "b = h @ string_bytes name" and lh: "length h = 16" by (simp_all add: b len h_def currentMagic_def)
  have f: "slice 0 8 h = currentMagic" "Uint16 (slice 8 10 h) = 29" "Uint16 (slice 10 12 h) = 16"
    "Uint32 (slice 12 16 h) = CRC32C (string_bytes name)"
    unfolding h_def by (simp_all add: codec_simps currentMagic_def)
  have sl: "slice i j (h @ string_bytes name) = slice i j h" if "j \<le> 16" for i j
    using that lh by (simp add: slice_append slice_outside)
  show "length b = 45" using lh len by (simp add: bh)
  then show "decode_current b = Inr name"
    using p lh len by (auto simp: decode_current_def sl f currentHeaderLen_def Let_def bh)
qed

lemma marshalCurrent_manifest: "0 < g \<Longrightarrow> \<exists>b. marshalCurrent (manifestFileName g) = Inr b"
  by (simp add: marshalCurrent_def)

text \<open>The directory has \<open>m\<close> published: \<^verbatim>\<open>CURRENT\<close> names its file, which is complete.\<close>

definition dir_holds :: "json_codec \<Rightarrow> string \<Rightarrow> files \<Rightarrow> Manifest \<Rightarrow> bool" where
  "dir_holds js dir fs m \<longleftrightarrow>
     (\<exists>p b. marshalCurrent (manifestFileName (mfGeneration m)) = Inr p \<and> fs (filepath_Join dir currentFileName) = Some p
        \<and> MarshalManifest js m = Inr b \<and> fs (filepath_Join dir (manifestFileName (mfGeneration m))) = Some b)"

lemma readCurrent_name:
  assumes "dir_holds js dir fs m" "readCurrent dir fs env = (Inr name, env')"
  shows "name = manifestFileName (mfGeneration m)"
  using assms marshalCurrent_read(1) by (auto simp: dir_holds_def readCurrent_def split: prod.splits option.splits if_splits)

lemma readCurrent_quiet:
  assumes "dir_holds js dir fs m" "quiet env"
  shows "\<exists>env'. readCurrent dir fs env = (Inr (manifestFileName (mfGeneration m)), env') \<and> quiet env'"
proof -
  obtain p where p: "marshalCurrent (manifestFileName (mfGeneration m)) = Inr p" "fs (filepath_Join dir currentFileName) = Some p"
    using assms(1) by (auto simp: dir_holds_def)
  obtain e1 where e1: "os_call env = (None, e1)" "quiet e1" using os_quietE [OF assms(2)] by metis
  obtain e2 where e2: "os_call e1 = (None, e2)" "quiet e2" using os_quietE [OF e1(2)] by metis
  obtain e3 where e3: "os_call e2 = (None, e3)" "quiet e3" using os_quietE [OF e2(2)] by metis
  show ?thesis
    using p(2) e1 e2 e3 marshalCurrent_read [OF p(1)] by (simp add: readCurrent_def currentHeaderLen_def maxCurrentSize_def)
qed

lemma readManifestFile_quiet:
  assumes "MarshalManifest js m = Inr b" "fs name = Some b" "json_faithful js m" "quiet env"
  shows "\<exists>env'. readManifestFile js name fs env = (Inr m, env')"
proof -
  obtain e1 where e1: "os_call env = (None, e1)" "quiet e1" using os_quietE [OF assms(4)] by metis
  obtain e2 where e2: "os_call e1 = (None, e2)" "quiet e2" using os_quietE [OF e1(2)] by metis
  obtain e3 where e3: "os_call e2 = (None, e3)" using os_quietE [OF e2(2)] by metis
  have "32 \<le> length b \<and> length b \<le> 32 + maxManifestSize"
    by (rule MarshalManifest_Inr [OF assms(1)]) (simp add: manifestMagic_def)
  then show ?thesis
    using assms(2) e1 e2 e3 UnmarshalManifest_marshal [OF assms(3,1)] by (simp add: readManifestFile_def manifestHeaderSize_def)
qed

subsection \<open>One publication\<close>

text \<open>
  What a publication of \<open>m\<close> may do to the files: nothing that matters, or all of it.
\<close>

definition publication :: "json_codec \<Rightarrow> string \<Rightarrow> string \<Rightarrow> Manifest \<Rightarrow> bool \<Rightarrow> files \<Rightarrow> files \<Rightarrow> bool" where
  "publication js dir temp m committed fs fs' \<longleftrightarrow>
     (\<forall>n. n \<noteq> filepath_Join dir currentFileName \<longrightarrow> n \<noteq> temp \<longrightarrow> fs n \<noteq> None \<longrightarrow> fs' n = fs n)
     \<and> (if committed then dir_holds js dir fs' m
        else fs' (filepath_Join dir currentFileName) = fs (filepath_Join dir currentFileName))"

lemma publication_refl: "publication js dir temp m False fs fs"
  by (simp add: publication_def)

lemma publication_written:
  assumes "writeExclusiveSynced (filepath_Join dir (manifestFileName g)) c fs env = (r, fs1, env1)"
    and "fs2 = fs1 \<or> same_except {temp} fs1 fs2" "temp \<noteq> filepath_Join dir currentFileName"
  shows "publication js dir temp m False fs fs2"
proof -
  note w = writeExclusiveSynced_cases [OF assms(1)]
  have ne: "filepath_Join dir currentFileName \<noteq> filepath_Join dir (manifestFileName g)"
    using Join_inject [OF simple_current simple_manifest] manifest_not_current by metis
  show ?thesis unfolding publication_def
  proof (intro conjI allI impI)
    fix n assume n: "n \<noteq> filepath_Join dir currentFileName" "n \<noteq> temp" "fs n \<noteq> None"
    have "fs1 n = fs n" using w n by (cases "n = filepath_Join dir (manifestFileName g)") (auto simp: same_except_def)
    then show "fs2 n = fs n" using assms(2) n by (auto simp: same_except_def)
  qed (use w ne assms(2,3) in \<open>auto simp: same_except_def\<close>)
qed

lemma install_cases:
  assumes "(if expected = [] then installFileNoReplace temp cur fs env else atomicReplaceFile temp cur fs env) = (r, fs', env')"
    "temp \<noteq> cur"
  shows "(r = None \<and> same_except {temp, cur} fs fs' \<and> fs' cur = fs temp) \<or> (r \<noteq> None \<and> fs' = fs)"
  using assms
  by (auto simp: atomicReplaceFile_def same_except_def split: if_splits prod.splits option.splits dest!: installFileNoReplace_cases)

lemma publish_current_cases:
  assumes run: "publish_current expected nm temp cur fs env = ((name, committed, err), fs', env')" and temp: "temp \<noteq> cur"
  shows "(if committed then name = nm \<and> same_except {temp, cur} fs fs' \<and> fs' cur = fs temp
     else err \<noteq> None \<and> same_except {temp} fs fs')"
proof -
  obtain r1 fs1 e1 where i: "(if expected = [] then installFileNoReplace temp cur fs env else atomicReplaceFile temp cur fs env)
      = (r1, fs1, e1)" by (metis prod_cases3)
  note ic = install_cases [OF i temp]
  obtain r2 e2 where sd: "syncDirectory e1 = (r2, e2)" by fastforce
  show ?thesis
  proof (cases r1)
    case None
    obtain fs2 e3 where rm: "os_Remove temp fs1 e2 = (fs2, e3)" by fastforce
    have "committed" "name = nm" "fs' = fs2"
      using run i sd rm None by (cases r2; simp add: publish_current_def)+
    then show ?thesis using ic None os_Remove_same [OF rm] temp by (auto simp: same_except_def)
  next
    case (Some er)
    obtain fs2 e3 where rm: "os_Remove temp fs1 e1 = (fs2, e3)" by fastforce
    have "\<not> committed" "err \<noteq> None" "fs' = fs2"
      using run i rm Some by (auto simp: publish_current_def)
    then show ?thesis using ic Some os_Remove_same [OF rm] temp by (auto simp: same_except_def)
  qed
qed

lemma publishLocked_publication:
  assumes run: "publishLocked js ctx dir expected m temp fs env = ((name, committed, err), fs', env')"
    and temp: "temp \<noteq> filepath_Join dir currentFileName" "temp \<noteq> filepath_Join dir (manifestFileName (mfGeneration m))"
  shows "publication js dir temp m committed fs fs' \<and> (committed \<longrightarrow> name = manifestFileName (mfGeneration m))
    \<and> (\<not> committed \<longrightarrow> err \<noteq> None)"
proof (cases "\<exists>e1 b. Manifest_Validate js m = None \<and> ctx_Err ctx env = (None, e1) \<and> MarshalManifest js m = Inr b")
  case False
  then show ?thesis using run
    by (cases "Manifest_Validate js m")
       (auto simp: publishLocked_def Let_def publication_refl split: option.splits prod.splits sum.splits, metis)
next
  case True
  then obtain e1 b where pre: "Manifest_Validate js m = None" "ctx_Err ctx env = (None, e1)" and b: "MarshalManifest js m = Inr b" by blast
  let ?mf = "filepath_Join dir (manifestFileName (mfGeneration m))" and ?cur = "filepath_Join dir currentFileName"
  obtain r1 fs1 e2 where w: "writeExclusiveSynced ?mf b fs e1 = (r1, fs1, e2)" by (metis prod_cases3)
  note pw = publication_written [OF w _ temp(1), of _ js m]
  have ne: "?cur \<noteq> ?mf" using Join_inject [OF simple_current simple_manifest] manifest_not_current by metis
  show ?thesis
  proof (cases "\<exists>e3 e4 p. r1 = None \<and> syncDirectory e2 = (None, e3) \<and> ctx_Err ctx e3 = (None, e4)
      \<and> marshalCurrent (manifestFileName (mfGeneration m)) = Inr p")
    case False
    then show ?thesis using run pre b w pw [of fs1]
      by (auto simp: publishLocked_def Let_def split: option.splits prod.splits sum.splits)
  next
    case True
    then obtain e3 e4 p where s: "r1 = None" "syncDirectory e2 = (None, e3)" "ctx_Err ctx e3 = (None, e4)"
      and p: "marshalCurrent (manifestFileName (mfGeneration m)) = Inr p" by blast
    obtain r2 fs2 e5 where t: "writeTempSynced ctx temp p fs1 e4 = (r2, fs2, e5)" by (metis prod_cases3)
    note tc = writeTempSynced_cases [OF t]
    show ?thesis
    proof (cases r2)
      case (Some er)
      then show ?thesis using run pre b w s p t pw [of fs2] tc by (auto simp: publishLocked_def Let_def)
    next
      case None
      have run': "publish_current expected (manifestFileName (mfGeneration m)) temp ?cur fs2 e5 = ((name, committed, err), fs', env')"
        using run pre b w s p t None by (simp add: publishLocked_def Let_def)
      note pc = publish_current_cases [OF run' temp(1)]
      show ?thesis
      proof (cases committed)
        case False
        then have "same_except {temp} fs1 fs'" using pc tc by (auto simp: same_except_def)
        then show ?thesis using pw [of fs'] pc False by simp
      next
        case True
        note wx = writeExclusiveSynced_cases [OF w]
        have "fs' ?cur = Some p" "fs' ?mf = Some b" "\<forall>n. n \<noteq> ?cur \<longrightarrow> n \<noteq> temp \<longrightarrow> fs n \<noteq> None \<longrightarrow> fs' n = fs n"
          using pc tc wx True None s(1) temp ne by (auto simp: same_except_def)
        then show ?thesis using pc True p b by (auto simp: publication_def dir_holds_def)
      qed
    qed
  qed
qed

subsection \<open>Properties\<close>

text \<open>The manager's memory agrees with what its directory has published.\<close>

definition vm_current :: "json_codec \<Rightarrow> VersionManager \<Rightarrow> files \<Rightarrow> bool" where
  "vm_current js vm fs \<longleftrightarrow> dir_holds js (vmDir vm) fs (vmCurrent vm) \<and> vmCurrentName vm = manifestFileName (mfGeneration (vmCurrent vm))"

lemma publication_keeps:
  assumes "publication js dir temp m False fs fs'" "dir_holds js dir fs m0"
    "temp \<noteq> filepath_Join dir (manifestFileName (mfGeneration m0))"
  shows "dir_holds js dir fs' m0"
proof -
  have "filepath_Join dir (manifestFileName (mfGeneration m0)) \<noteq> filepath_Join dir currentFileName"
    using Join_inject [OF simple_manifest simple_current] manifest_not_current by metis
  then show ?thesis using assms by (auto simp: publication_def dir_holds_def)
qed

lemma publishManager_cases:
  assumes "publishManagerLocked js ctx next lock entries temp vm fs env = ((r, err), vm', fs', env')"
  obtains (refused) "vm' = vm" "fs' = fs" "r = None" "err \<noteq> None"
  | (published) g e1 name committed perr e2 e3 where "lock = Inr True" "readCurrent (vmDir vm) fs env = (Inr (vmCurrentName vm), e1)"
      "publishLocked js ctx (vmDir vm) (vmCurrentName vm) (prepareManifest next g) temp fs e2 = ((name, committed, perr), fs', e3)"
      "vm' = (if committed then vm\<lparr>vmCurrent := prepareManifest next g, vmCurrentName := name\<rparr> else vm)"
      "r = (if committed \<or> perr = None then Some (prepareManifest next g) else None)" "err = None \<longrightarrow> perr = None"
proof (cases "\<exists>e1 e2 g. lock = Inr True \<and> readCurrent (vmDir vm) fs env = (Inr (vmCurrentName vm), e1)
    \<and> nextManifestGeneration entries e1 = (Inr g, e2)")
  case False
  then have "vm' = vm \<and> fs' = fs \<and> r = None \<and> err \<noteq> None"
    using assms
    by (auto simp: publishManagerLocked_def with_close_def errors_Join_Some
        split: sum.splits prod.splits if_splits)
  then show ?thesis using refused by blast
next
  case True
  then obtain e1 e2 g where g: "lock = Inr True" "readCurrent (vmDir vm) fs env = (Inr (vmCurrentName vm), e1)"
    "nextManifestGeneration entries e1 = (Inr g, e2)" by blast
  obtain name committed perr fs1 e3 where p:
    "publishLocked js ctx (vmDir vm) (vmCurrentName vm) (prepareManifest next g) temp fs e2 = ((name, committed, perr), fs1, e3)"
    by (metis prod_cases3)
  obtain ce e4 where c: "os_call e3 = (ce, e4)" by fastforce
  have val: "publishManagerLocked js ctx next lock entries temp vm fs env =
      ((if committed \<or> perr = None then Some (prepareManifest next g) else None, errors_Join [perr, ce]),
       (if committed then vm\<lparr>vmCurrent := prepareManifest next g, vmCurrentName := name\<rparr> else vm), fs1, e4)"
    using g p c by (cases committed; cases perr) (simp_all add: publishManagerLocked_def with_close_def Let_def)
  have f: "fs' = fs1" "vm' = (if committed then vm\<lparr>vmCurrent := prepareManifest next g, vmCurrentName := name\<rparr> else vm)"
    "r = (if committed \<or> perr = None then Some (prepareManifest next g) else None)" "err = None \<longrightarrow> perr = None"
    using assms unfolding val by (auto simp: errors_Join_None)
  show ?thesis using published [OF g(1,2) p [folded f(1)] f(2-4)] .
qed

text \<open>
  C23: Publication is atomic. Take a manager that agrees with its directory and publish a successor, whatever calls fail or are
  cancelled on the way (the temporary file being a fresh name). Afterwards the directory has a complete manifest published
  and the manager agrees with it: either the manager is unchanged, or it holds the successor under a new
  generation. Success is reported only in the second case.
\<close>

theorem publication_atomic:
  assumes "vm_current js vm fs" "VersionManager_Publish js ctx next lock entries temp vm fs env = ((r, err), vm', fs', env')"
    and "temp = filepath_Join (vmDir vm) t" "simple_name t" "strings_HasPrefix t ''.current-''"
  shows "vm_current js vm' fs' \<and> (vm' = vm \<and> err \<noteq> None \<or> (\<exists>g. vmCurrent vm' = prepareManifest next g \<and> r = Some (vmCurrent vm')))"
proof -
  have ok: "dir_holds js (vmDir vm) fs (vmCurrent vm)" using assms(1) by (simp add: vm_current_def)
  have t: "temp \<noteq> filepath_Join (vmDir vm) currentFileName"
    unfolding assms(3) Join_inject [OF assms(4) simple_current] using assms(5) by (auto simp: strings_HasPrefix_def currentFileName_def)
  have tm: "temp \<noteq> filepath_Join (vmDir vm) (manifestFileName g)" for g
    unfolding assms(3) Join_inject [OF assms(4) simple_manifest] using assms(5)
    by (auto simp: strings_HasPrefix_def manifestFileName_def manifestPrefix_def)
  consider (early) "vm' = vm" "fs' = fs" "err \<noteq> None"
    | (run) e where "publishManagerLocked js ctx next lock entries temp vm fs e = ((r, err), vm', fs', env')"
    using assms(2) by (auto simp: VersionManager_Publish_def split: if_splits prod.splits option.splits)
  then show ?thesis
  proof cases
    case early
    then show ?thesis using assms(1) by simp
  next
    case run
    then show ?thesis
    proof (cases rule: publishManager_cases)
      case refused
      then show ?thesis using assms(1) by simp
    next
      case (published g e1 name committed perr e2 e3)
      let ?m = "prepareManifest next g"
      have gm: "mfGeneration ?m = g" by (simp add: prepareManifest_def)
      show ?thesis
      proof (cases "g = 0")
        case True
        then have "mfGeneration ?m = 0" using gm by simp
        then have "Manifest_Validate js ?m \<noteq> None" by (simp add: Manifest_Validate_def)
        then obtain er where "Manifest_Validate js ?m = Some er" by blast
        then have "((name, committed, perr), fs', e3) = (([], False, Some er), fs, e2)"
          using published(3) by (simp add: publishLocked_def)
        then have "\<not> committed" "fs' = fs" "perr \<noteq> None" by auto
        then show ?thesis using published(4,6) assms(1) by auto
      next
        case False
        then have g: "0 < g" by (simp add: word_gt_0)
        note pub = publishLocked_publication [OF published(3) t, unfolded gm, OF tm]
        show ?thesis
        proof (cases committed)
          case True
          then show ?thesis using pub published(4,5) by (auto simp: vm_current_def publication_def gm)
        next
          case False
          then have "dir_holds js (vmDir vm) fs' (vmCurrent vm)"
            using pub ok by (intro publication_keeps [OF _ ok tm]) auto
          then show ?thesis using False pub published(4,6) assms(1) by (auto simp: vm_current_def)
        qed
      qed
    qed
  qed
qed

text \<open>
  C24: Opening reads the published version. If a directory has a manifest published that survives the JSON codec and no call
  fails, \<^verbatim>\<open>OpenVersionManager\<close> returns a manager that holds exactly this manifest, and so agrees with the directory, whatever
  other manifest files are in it.
\<close>

theorem open_reads_published_version:
  assumes "dir_holds js dir fs m" "json_faithful js m" "quiet env" "ctx \<noteq> NilCtx"
  shows "\<exists>vm env'. OpenVersionManager js ctx dir True fs env = (Inr vm, env') \<and> vmCurrent vm = m \<and> vmDir vm = dir \<and> vm_current js vm fs"
proof -
  obtain b where b: "MarshalManifest js m = Inr b" "fs (filepath_Join dir (manifestFileName (mfGeneration m))) = Some b"
    using assms(1) by (auto simp: dir_holds_def)
  obtain e1 where e1: "ctx_Err ctx env = (None, e1)" "quiet e1" using ctx_quietE [OF assms(3)] by metis
  obtain e2 where e2: "os_call e1 = (None, e2)" "quiet e2" using os_quietE [OF e1(2)] by metis
  obtain e3 where e3: "readCurrent dir fs e2 = (Inr (manifestFileName (mfGeneration m)), e3)" "quiet e3"
    using readCurrent_quiet [OF assms(1) e2(2)] by blast
  obtain e4 where e4: "readManifestFile js (filepath_Join dir (manifestFileName (mfGeneration m))) fs e3 = (Inr m, e4)"
    using readManifestFile_quiet [of js m b fs "filepath_Join dir (manifestFileName (mfGeneration m))" e3] b assms(2) e3(2) by blast
  show ?thesis
    using assms(1,4) e1 e2 e3 e4 by (simp add: OpenVersionManager_def vm_current_def)
qed

text \<open>
  C25: A stale manager cannot publish. If the directory has a version published other than the one the manager holds (another
  manager published meanwhile), \<^verbatim>\<open>Publish\<close> fails with the conflict error once it has the lock, and neither a file nor the manager changes.
\<close>

theorem stale_publish_conflicts:
  assumes "dir_holds js (vmDir vm) fs m" "vmCurrentName vm \<noteq> manifestFileName (mfGeneration m)" "quiet env" "ctx \<noteq> NilCtx"
  shows "\<exists>err env'. VersionManager_Publish js ctx next (Inr True) entries temp vm fs env = ((None, Some err), vm, fs, env')
    \<and> errors_Is err ErrManifestConflict"
proof -
  obtain e1 where e1: "ctx_Err ctx env = (None, e1)" "quiet e1" using ctx_quietE [OF assms(3)] by metis
  obtain e2 where e2: "readCurrent (vmDir vm) fs e1 = (Inr (manifestFileName (mfGeneration m)), e2)" "quiet e2"
    using readCurrent_quiet [OF assms(1) e1(2)] by blast
  obtain ce e3 where e3: "os_call e2 = (ce, e3)" by fastforce
  show ?thesis
    using assms(2,4) e1 e2 e3
    by (simp add: VersionManager_Publish_def publishManagerLocked_def with_close_def errors_Join_Some)
qed

subsection \<open>Witnesses\<close>

definition sample_dir :: files where
  "sample_dir = [''d/CURRENT'' \<mapsto> projr (marshalCurrent (manifestFileName 1)),
     ''d/MANIFEST-00000000000000000001'' \<mapsto> projr (MarshalManifest sample_json (sample_manifest 1))]"

lemma sample_join:
  "filepath_Join ''d'' ''CURRENT'' = ''d/CURRENT''"
  "filepath_Join ''d'' ''MANIFEST-00000000000000000001'' = ''d/MANIFEST-00000000000000000001''"
  by code_simp+

lemma sample_name: "manifestFileName 1 = ''MANIFEST-00000000000000000001''"
proof -
  have "pad_digits 20 1 = ''00000000000000000001''" by code_simp
  then show ?thesis by (simp add: manifestFileName_def manifestPrefix_def format_020d_def)
qed

lemma sample_dir_holds: "dir_holds sample_json ''d'' sample_dir (sample_manifest 1)"
proof -
  have g: "mfGeneration (sample_manifest 1) = 1" by (simp add: sample_manifest_def)
  obtain p where p: "marshalCurrent (manifestFileName 1) = Inr p" using marshalCurrent_manifest [of 1] by auto
  obtain b where b: "MarshalManifest sample_json (sample_manifest 1) = Inr b"
    using sample_manifest_valid [of 1] by (auto simp: MarshalManifest_def sample_json_def maxManifestSize_def)
  show ?thesis
    unfolding dir_holds_def g using p b by (simp add: sample_dir_def currentFileName_def sample_join sample_name)
qed

abbreviation sample_vm :: VersionManager where
  "sample_vm \<equiv> \<lparr>vmDir = ''d'', vmCurrent = sample_manifest 1, vmCurrentName = manifestFileName 1\<rparr>"

lemma sample_vm_current: "vm_current sample_json sample_vm sample_dir"
  using sample_dir_holds by (simp add: vm_current_def) (simp add: sample_manifest_def)

theorem publication_atomic_witness:
  "\<exists>r err vm' fs' env'. VersionManager_Publish sample_json Ctx (sample_manifest 1) (Inr True) [] (filepath_Join ''d'' ''.current-1.tmp'')
      sample_vm sample_dir calm = ((r, err), vm', fs', env') \<and> vm_current sample_json vm' fs'"
proof -
  obtain r err vm' fs' env' where run: "VersionManager_Publish sample_json Ctx (sample_manifest 1) (Inr True) []
      (filepath_Join ''d'' ''.current-1.tmp'') sample_vm sample_dir calm = ((r, err), vm', fs', env')"
    by (metis surj_pair)
  have "vm_current sample_json vm' fs'"
    using publication_atomic [OF sample_vm_current run, of "''.current-1.tmp''"]
    by (simp add: simple_name_def strings_HasPrefix_def)
  with run show ?thesis by blast
qed

theorem open_reads_published_version_witness:
  "\<exists>vm env'. OpenVersionManager sample_json Ctx ''d'' True sample_dir calm = (Inr vm, env') \<and> vmCurrent vm = sample_manifest 1"
  using open_reads_published_version [OF sample_dir_holds sample_json_faithful, of calm Ctx] by auto

theorem stale_publish_conflicts_witness:
  "\<exists>err env'. VersionManager_Publish sample_json Ctx (sample_manifest 5) (Inr True) [] ''d/t''
      \<lparr>vmDir = ''d'', vmCurrent = sample_manifest 4, vmCurrentName = manifestFileName 4\<rparr> sample_dir calm
    = ((None, Some err), \<lparr>vmDir = ''d'', vmCurrent = sample_manifest 4, vmCurrentName = manifestFileName 4\<rparr>, sample_dir, env')
    \<and> errors_Is err ErrManifestConflict"
  using stale_publish_conflicts [of sample_json "\<lparr>vmDir = ''d'', vmCurrent = sample_manifest 4, vmCurrentName = manifestFileName 4\<rparr>"
      sample_dir "sample_manifest 1" calm Ctx] sample_dir_holds by (simp add: sample_manifest_def)

end
