(* ===== verification/Heap.thy ===== *)
theory Heap
  imports Prelude "HOL-Library.Multiset"
begin

text \<open>
  The binary heap of \<^verbatim>\<open>src/internal/ailego/container/heap.go\<close>: a slice in level order and a
  comparator. The two sift loops swap along one path of the tree; indices are natural numbers, since
  a slice of the lengths where \<open>index*2+1\<close> could wrap does not fit into memory. The contract is that of
  a priority queue over the multiset of the values, stated as a locale that other heaps of the program
  share.
\<close>

subsection \<open>The heap\<close>

record 'a Heap =
  hpValues :: "'a list"
  hpLess :: "'a \<Rightarrow> 'a \<Rightarrow> bool"

text \<open>Construction panics with a message; a nil comparator is \<open>None\<close>.\<close>

definition NewHeapWithCapacity :: "int \<Rightarrow> ('a \<Rightarrow> 'a \<Rightarrow> bool) option \<Rightarrow> string + 'a Heap" where
  "NewHeapWithCapacity capacity lt =
     (if capacity < 0 then Inl ''ailego: negative heap capacity''
      else case lt of
        None \<Rightarrow> Inl ''ailego: nil heap comparator''
      | Some lt \<Rightarrow> Inr \<lparr>hpValues = [], hpLess = lt\<rparr>)"

definition NewHeap :: "('a \<Rightarrow> 'a \<Rightarrow> bool) option \<Rightarrow> string + 'a Heap" where
  "NewHeap lt = NewHeapWithCapacity 0 lt"

definition Heap_Len :: "'a Heap \<Rightarrow> nat" where
  "Heap_Len h = length (hpValues h)"

definition exchange :: "'a list \<Rightarrow> nat \<Rightarrow> nat \<Rightarrow> 'a list" where
  "exchange vals index other = (vals[index := vals ! other])[other := vals ! index]"

definition parent :: "nat \<Rightarrow> nat" where
  "parent index = (index - 1) div 2"

lemma parent_less [termination_simp]: "0 < i \<Longrightarrow> parent i < i"
  by (auto simp: parent_def)

fun siftUp :: "('a \<Rightarrow> 'a \<Rightarrow> bool) \<Rightarrow> 'a list \<Rightarrow> nat \<Rightarrow> 'a list" where
  "siftUp lt vals index =
     (if index = 0 then vals
      else if \<not> lt (vals ! index) (vals ! parent index) then vals
      else siftUp lt (exchange vals index (parent index)) (parent index))"

declare siftUp.simps [simp del]

text \<open>The child that may replace the value at \<open>index\<close>: the right one when it comes first.\<close>

definition best_child :: "('a \<Rightarrow> 'a \<Rightarrow> bool) \<Rightarrow> 'a list \<Rightarrow> nat \<Rightarrow> nat" where
  "best_child lt vals index =
     (let left = index * 2 + 1; right = left + 1 in
      if right < length vals \<and> lt (vals ! right) (vals ! left) then right else left)"

lemma best_child_greater: "index < best_child lt vals index"
  by (simp add: best_child_def Let_def)

lemma length_exchange [simp]: "length (exchange vals index other) = length vals"
  unfolding exchange_def by simp

function siftDown :: "('a \<Rightarrow> 'a \<Rightarrow> bool) \<Rightarrow> 'a list \<Rightarrow> nat \<Rightarrow> 'a list" where
  "siftDown lt vals index =
     (if length vals \<le> index * 2 + 1 then vals
      else
        let best = best_child lt vals index in
        if \<not> lt (vals ! best) (vals ! index) then vals
        else siftDown lt (exchange vals index best) best)"
  by pat_completeness auto
termination
proof (relation "measure (\<lambda>(lt, vals, index). length vals - index)")
  fix lt :: "'a \<Rightarrow> 'a \<Rightarrow> bool" and vals :: "'a list" and index best
  assume "\<not> length vals \<le> index * 2 + 1" "best = best_child lt vals index"
  then show "((lt, exchange vals index best, best), lt, vals, index)
      \<in> measure (\<lambda>(lt, vals, index). length vals - index)"
    using best_child_greater[of index lt vals] by simp
qed simp

declare siftDown.simps [simp del]

definition Heap_Push :: "'a \<Rightarrow> 'a Heap \<Rightarrow> 'a Heap" where
  "Heap_Push value h =
     (let vals = hpValues h @ [value] in h\<lparr>hpValues := siftUp (hpLess h) vals (length vals - 1)\<rparr>)"

definition Heap_Peek :: "'a Heap \<Rightarrow> 'a option" where
  "Heap_Peek h = (if hpValues h = [] then None else Some (hpValues h ! 0))"

definition Heap_Pop :: "'a Heap \<Rightarrow> 'a option \<times> 'a Heap" where
  "Heap_Pop h =
     (if hpValues h = [] then (None, h)
      else
        let root = hpValues h ! 0;
            last = length (hpValues h) - 1;
            vals = take last ((hpValues h)[0 := hpValues h ! last]) in
        (Some root, h\<lparr>hpValues := (if vals = [] then vals else siftDown (hpLess h) vals 0)\<rparr>))"

definition Heap_Replace :: "'a \<Rightarrow> 'a Heap \<Rightarrow> 'a option \<times> 'a Heap" where
  "Heap_Replace value h =
     (if hpValues h = [] then (None, h\<lparr>hpValues := [value]\<rparr>)
      else
        let root = hpValues h ! 0 in
        (Some root, h\<lparr>hpValues := siftDown (hpLess h) ((hpValues h)[0 := value]) 0\<rparr>))"

definition Heap_Values :: "'a Heap \<Rightarrow> 'a list" where
  "Heap_Values h = hpValues h"

subsection \<open>The contract of a priority queue\<close>

text \<open>
  The comparator is a strict weak order: asymmetric, and whatever lies strictly between two vals
  is comparable to one of them.
\<close>

definition weak_order :: "('a \<Rightarrow> 'a \<Rightarrow> bool) \<Rightarrow> bool" where
  "weak_order lt \<longleftrightarrow> (\<forall>a b. lt a b \<longrightarrow> \<not> lt b a) \<and> (\<forall>a b c. lt a c \<longrightarrow> lt a b \<or> lt b c)"

lemma weak_order_asym: "weak_order lt \<Longrightarrow> lt a b \<Longrightarrow> \<not> lt b a"
  and weak_order_irrefl: "weak_order lt \<Longrightarrow> \<not> lt a a"
  and weak_order_trans: "weak_order lt \<Longrightarrow> lt a b \<Longrightarrow> lt b c \<Longrightarrow> lt a c"
  and weak_order_neg: "weak_order lt \<Longrightarrow> \<not> lt b a \<Longrightarrow> \<not> lt c b \<Longrightarrow> \<not> lt c a"
  by (unfold weak_order_def) metis+

text \<open>Removing the first value \<open>n\<close> times.\<close>

fun drain :: "('q \<Rightarrow> 'a option \<times> 'q) \<Rightarrow> nat \<Rightarrow> 'q \<Rightarrow> 'a list" where
  "drain pull 0 q = []"
| "drain pull (Suc n) q = (case pull q of (None, q) \<Rightarrow> [] | (Some x, q) \<Rightarrow> x # drain pull n q)"

locale priority_queue =
  fixes push :: "'a \<Rightarrow> 'q \<Rightarrow> 'q"
    and pull :: "'q \<Rightarrow> 'a option \<times> 'q"
    and peek :: "'q \<Rightarrow> 'a option"
    and before :: "'q \<Rightarrow> 'a \<Rightarrow> 'a \<Rightarrow> bool"
    and contents :: "'q \<Rightarrow> 'a multiset"
    and invar :: "'q \<Rightarrow> bool"
  assumes invar_order: "invar q \<Longrightarrow> weak_order (before q)"
    and push_ok: "invar q \<Longrightarrow>
          invar (push x q) \<and> contents (push x q) = add_mset x (contents q) \<and> before (push x q) = before q"
    and pop_empty: "invar q \<Longrightarrow> contents q = {#} \<Longrightarrow> pull q = (None, q)"
    and pop_first: "invar q \<Longrightarrow> contents q \<noteq> {#} \<Longrightarrow>
          \<exists>x q'. pull q = (Some x, q') \<and> peek q = Some x \<and> invar q' \<and> before q' = before q
            \<and> contents q = add_mset x (contents q') \<and> (\<forall>y\<in>#contents q. \<not> before q y x)"
begin

text \<open>Draining the queue delivers its contents in order.\<close>

lemma drain_sorted:
  assumes "invar q" and "n = size (contents q)"
  shows "mset (drain pull n q) = contents q \<and> sorted_wrt (\<lambda>a b. \<not> before q b a) (drain pull n q)"
  using assms
proof (induction n arbitrary: q)
  case (Suc n)
  then have "contents q \<noteq> {#}" by auto
  then obtain x q' where q': "pull q = (Some x, q')" "invar q'" "before q' = before q"
      "contents q = add_mset x (contents q')" and first: "\<forall>y\<in>#contents q. \<not> before q y x"
    using pop_first[OF Suc.prems(1)] by metis
  then have "n = size (contents q')" using Suc.prems(2) by simp
  with Suc.IH[OF q'(2)] q'(3) have "mset (drain pull n q') = contents q'"
      "sorted_wrt (\<lambda>a b. \<not> before q b a) (drain pull n q')" by simp_all
  moreover from this have "\<forall>y\<in>set (drain pull n q'). \<not> before q y x"
    using first q'(4) by (metis insert_iff set_mset_add_mset_insert set_mset_mset)
  ultimately show ?case by (simp add: q')
qed simp

text \<open>What is pushed in any order comes out in order.\<close>

lemma push_all:
  assumes "invar q"
  shows "invar (fold push xs q) \<and> contents (fold push xs q) = contents q + mset xs
    \<and> before (fold push xs q) = before q"
  using assms
proof (induction xs arbitrary: q)
  case (Cons x xs)
  then show ?case using push_ok[OF Cons.prems, of x] by simp
qed simp

end


subsection \<open>The sift loops restore the heap order\<close>

lemma nth_exchange:
  assumes "a < length vals" "b < length vals"
  shows "exchange vals a b ! p = vals ! (if p = a then b else if p = b then a else p)"
  using assms unfolding exchange_def by (cases "p = b") auto

lemma mset_exchange: "i < length xs \<Longrightarrow> j < length xs \<Longrightarrow> mset (exchange xs i j) = mset xs"
  by (simp add: exchange_def mset_swap)

definition heap_ok :: "('a \<Rightarrow> 'a \<Rightarrow> bool) \<Rightarrow> 'a list \<Rightarrow> bool" where
  "heap_ok lt xs \<longleftrightarrow> (\<forall>i\<in>{1..<length xs}. \<not> lt (xs ! i) (xs ! parent i))"

text \<open>Only the value at \<open>k\<close> may precede its parent; its children do not precede that parent.\<close>

definition up_ok :: "('a \<Rightarrow> 'a \<Rightarrow> bool) \<Rightarrow> 'a list \<Rightarrow> nat \<Rightarrow> bool" where
  "up_ok lt xs k \<longleftrightarrow>
     (\<forall>i\<in>{1..<length xs}. i \<noteq> k \<longrightarrow> \<not> lt (xs ! i) (xs ! parent i)) \<and>
     (0 < k \<longrightarrow> (\<forall>i\<in>{1..<length xs}. parent i = k \<longrightarrow> \<not> lt (xs ! i) (xs ! parent k)))"

text \<open>Only the children of \<open>k\<close> may precede it; they do not precede the parent of \<open>k\<close>.\<close>

definition down_ok :: "('a \<Rightarrow> 'a \<Rightarrow> bool) \<Rightarrow> 'a list \<Rightarrow> nat \<Rightarrow> bool" where
  "down_ok lt xs k \<longleftrightarrow>
     (\<forall>i\<in>{1..<length xs}. parent i \<noteq> k \<longrightarrow> \<not> lt (xs ! i) (xs ! parent i)) \<and>
     (0 < k \<longrightarrow> (\<forall>i\<in>{1..<length xs}. parent i = k \<longrightarrow> \<not> lt (xs ! i) (xs ! parent k)))"

lemma up_step:
  assumes ord: "weak_order lt" and up: "up_ok lt xs k" and k: "0 < k" "k < length xs"
    and lt: "lt (xs ! k) (xs ! parent k)"
  shows "up_ok lt (exchange xs k (parent k)) (parent k)"
proof -
  let ?p = "parent k" and ?ys = "exchange xs k (parent k)"
  have p: "?p < k" "?p < length xs" using parent_less[OF k(1)] k(2) by auto
  note nth = nth_exchange[OF k(2) p(2)]
  have ok: "\<not> lt (xs ! i) (xs ! parent i)" if "0 < i" "i < length xs" "i \<noteq> k" for i
    using up that by (auto simp: up_ok_def)
  have child: "\<not> lt (xs ! i) (xs ! ?p)" if "0 < i" "i < length xs" "parent i = k" for i
    using up that k(1) by (auto simp: up_ok_def)
  have one: "\<not> lt (?ys ! i) (?ys ! parent i)" if i: "0 < i" "i < length xs" "i \<noteq> ?p" for i
  proof (cases "i = k")
    case True
    then show ?thesis using weak_order_asym[OF ord lt] p by (simp add: nth)
  next
    case False
    have "\<not> lt (xs ! i) (xs ! k)" if "parent i = ?p"
      using ok[OF i(1,2) False] weak_order_trans[OF ord _ lt] that by auto
    then show ?thesis using False i ok[OF i(1,2) False] child[OF i(1,2)] p by (auto simp: nth)
  qed
  have two: "\<not> lt (?ys ! i) (?ys ! parent ?p)" if i: "0 < ?p" "0 < i" "i < length xs" "parent i = ?p" for i
  proof -
    have pp: "parent ?p < ?p" using i(1) by (rule parent_less)
    have up_p: "\<not> lt (xs ! ?p) (xs ! parent ?p)" using ok[of ?p] i(1) p by simp
    have "i \<noteq> ?p" using i(2,4) parent_less[of i] by simp
    then show ?thesis
      using up_p weak_order_neg[OF ord up_p, of "xs ! i"] ok[OF i(2,3)] i(4) pp p by (auto simp: nth)
  qed
  show ?thesis unfolding up_ok_def using one two by simp
qed

lemma siftUp_ok:
  assumes "weak_order lt" and "k < length xs" and "up_ok lt xs k"
  shows "heap_ok lt (siftUp lt xs k) \<and> mset (siftUp lt xs k) = mset xs"
  using assms
proof (induction lt xs k rule: siftUp.induct)
  case (1 lt xs k)
  show ?case
  proof (cases "0 < k \<and> lt (xs ! k) (xs ! parent k)")
    case True
    then have p: "parent k < length (exchange xs k (parent k))" using "1.prems" parent_less[of k] by simp
    have "up_ok lt (exchange xs k (parent k)) (parent k)" using up_step "1.prems" True by metis
    then show ?thesis
      using "1.IH"[OF _ _ "1.prems"(1) p] True "1.prems" mset_exchange[of k xs "parent k"] p
      by (simp add: siftUp.simps[of lt xs k])
  next
    case False
    then have "heap_ok lt xs" using "1.prems"(3) by (auto simp: heap_ok_def up_ok_def)
    then show ?thesis using False by (auto simp: siftUp.simps[of lt xs k])
  qed
qed


lemma child_cases: "0 < i \<Longrightarrow> parent i = k \<longleftrightarrow> i = k * 2 + 1 \<or> i = k * 2 + 2"
  by (auto simp: parent_def)

lemma best_child_first:
  assumes ord: "weak_order lt" and "k * 2 + 1 < length xs"
  shows "best_child lt xs k < length xs \<and> parent (best_child lt xs k) = k \<and>
    (\<forall>i\<in>{1..<length xs}. parent i = k \<longrightarrow> \<not> lt (xs ! i) (xs ! best_child lt xs k))"
proof -
  have "parent (k * 2 + 1) = k" "parent (k * 2 + 2) = k" by (simp_all add: parent_def)
  then show ?thesis
    using assms weak_order_irrefl[OF ord] weak_order_asym[OF ord]
    by (auto simp: best_child_def Let_def child_cases)
qed

lemma down_step:
  assumes ord: "weak_order lt" and down: "down_ok lt xs k" and k: "k * 2 + 1 < length xs"
    and lt: "lt (xs ! best_child lt xs k) (xs ! k)"
  shows "down_ok lt (exchange xs k (best_child lt xs k)) (best_child lt xs k)"
proof -
  let ?b = "best_child lt xs k" and ?ys = "exchange xs k (best_child lt xs k)"
  have b: "?b < length xs" "parent ?b = k" "k < ?b"
    using best_child_first[OF ord k] best_child_greater[of k lt xs] by auto
  have first: "\<not> lt (xs ! i) (xs ! ?b)" if "0 < i" "i < length xs" "parent i = k" for i
    using best_child_first[OF ord k] that by auto
  have "k < length xs" using k by simp
  note nth = nth_exchange[OF this b(1)]
  have ok: "\<not> lt (xs ! i) (xs ! parent i)" if "0 < i" "i < length xs" "parent i \<noteq> k" for i
    using down that by (auto simp: down_ok_def)
  have gran: "\<not> lt (xs ! i) (xs ! parent k)" if "0 < k" "0 < i" "i < length xs" "parent i = k" for i
    using down that by (auto simp: down_ok_def)
  have one: "\<not> lt (?ys ! i) (?ys ! parent i)" if i: "0 < i" "i < length xs" "parent i \<noteq> ?b" for i
  proof -
    have pi: "parent i < i" using i(1) by (rule parent_less)
    consider "i = k" | "i = ?b" | "i \<noteq> k" "i \<noteq> ?b" "parent i = k" | "i \<noteq> k" "i \<noteq> ?b" "parent i \<noteq> k"
      by blast
    then show ?thesis
    proof cases
      case 1
      then show ?thesis using gran[OF _ _ b(1) b(2)] i pi b by (auto simp: nth)
    next
      case 2
      then show ?thesis using weak_order_asym[OF ord lt] b by (auto simp: nth)
    next
      case 3
      then show ?thesis using first[OF i(1,2)] by (simp add: nth)
    next
      case 4
      then show ?thesis using ok[OF i(1,2)] i(3) by (simp add: nth)
    qed
  qed
  have two: "\<not> lt (?ys ! i) (?ys ! parent ?b)" if i: "0 < i" "i < length xs" "parent i = ?b" for i
  proof -
    have "?b < i" using parent_less[OF i(1)] i(3) by simp
    then show ?thesis using ok[OF i(1,2)] i(3) b by (auto simp: nth)
  qed
  show ?thesis unfolding down_ok_def using one two by simp
qed

lemma siftDown_ok:
  assumes "weak_order lt" and "down_ok lt xs k"
  shows "heap_ok lt (siftDown lt xs k) \<and> mset (siftDown lt xs k) = mset xs"
  using assms
proof (induction lt xs k rule: siftDown.induct)
  case (1 lt xs k)
  let ?b = "best_child lt xs k"
  consider "length xs \<le> k * 2 + 1" | "k * 2 + 1 < length xs" "lt (xs ! ?b) (xs ! k)"
    | "k * 2 + 1 < length xs" "\<not> lt (xs ! ?b) (xs ! k)" by linarith
  then show ?case
  proof cases
    case 1
    then have "heap_ok lt xs" using "1.prems"(2) child_cases by (fastforce simp: heap_ok_def down_ok_def)
    then show ?thesis using 1 by (simp add: siftDown.simps[of lt xs k])
  next
    case 2
    then have "down_ok lt (exchange xs k ?b) ?b" using down_step "1.prems" by metis
    then show ?thesis
      using "1.IH"[OF _ refl _ "1.prems"(1)] 2 best_child_first[OF "1.prems"(1) 2(1)] mset_exchange[of k xs ?b]
      by (simp add: siftDown.simps[of lt xs k] Let_def)
  next
    case 3
    have "\<not> lt (xs ! i) (xs ! k)" if "0 < i" "i < length xs" "parent i = k" for i
      using best_child_first[OF "1.prems"(1) 3(1)] 3(2) weak_order_neg[OF "1.prems"(1) 3(2)] that by auto
    then have "\<not> lt (xs ! i) (xs ! parent i)" if "0 < i" "i < length xs" for i
      using "1.prems"(2) that by (cases "parent i = k") (auto simp: down_ok_def)
    then have "heap_ok lt xs" by (simp add: heap_ok_def)
    then show ?thesis using 3 by (simp add: siftDown.simps[of lt xs k] Let_def)
  qed
qed

lemma heap_root_first:
  assumes ord: "weak_order lt" and heap: "heap_ok lt xs" and "i < length xs"
  shows "\<not> lt (xs ! i) (xs ! 0)"
  using assms(3)
proof (induction i rule: less_induct)
  case (less i)
  show ?case
  proof (cases "i = 0")
    case False
    then have "\<not> lt (xs ! parent i) (xs ! 0)" using less parent_less[of i] by simp
    moreover have "\<not> lt (xs ! i) (xs ! parent i)" using heap less.prems False by (auto simp: heap_ok_def)
    ultimately show ?thesis using weak_order_neg[OF ord] by metis
  qed (simp add: weak_order_irrefl[OF ord])
qed

subsection \<open>The heap implements the priority queue\<close>

definition heap_invar :: "'a Heap \<Rightarrow> bool" where
  "heap_invar h \<longleftrightarrow> weak_order (hpLess h) \<and> heap_ok (hpLess h) (hpValues h)"

abbreviation heap_contents :: "'a Heap \<Rightarrow> 'a multiset" where
  "heap_contents h \<equiv> mset (hpValues h)"

lemma up_ok_append: "heap_ok lt xs \<Longrightarrow> up_ok lt (xs @ [x]) (length xs)"
  unfolding up_ok_def heap_ok_def
proof (intro conjI impI ballI)
  fix i assume ok: "\<forall>i\<in>{1..<length xs}. \<not> lt (xs ! i) (xs ! parent i)"
    and i: "i \<in> {1..<length (xs @ [x])}" "i \<noteq> length xs"
  then have "i < length xs" "parent i < length xs" "0 < i" using parent_less[of i] by auto
  then show "\<not> lt ((xs @ [x]) ! i) ((xs @ [x]) ! parent i)" using ok by (simp add: nth_append)
next
  fix i assume "i \<in> {1..<length (xs @ [x])}" "parent i = length xs"
  then show "\<not> lt ((xs @ [x]) ! i) ((xs @ [x]) ! parent (length xs))" using parent_less[of i] by simp
qed

lemma down_ok_root:
  assumes "\<forall>i\<in>{1..<length ys}. 0 < parent i \<longrightarrow> \<not> lt (ys ! i) (ys ! parent i)"
  shows "down_ok lt ys 0"
  using assms by (auto simp: down_ok_def)

lemma heap_push:
  assumes "heap_invar h"
  shows "heap_invar (Heap_Push x h) \<and> heap_contents (Heap_Push x h) = add_mset x (heap_contents h)"
  using assms siftUp_ok[of "hpLess h" "length (hpValues h)" "hpValues h @ [x]"] up_ok_append[of "hpLess h" "hpValues h" x]
  by (simp add: heap_invar_def Heap_Push_def Let_def)

lemma heap_ok_nonroot:
  "heap_ok lt xs \<Longrightarrow> i \<in> {1..<length xs} \<Longrightarrow> \<not> lt (xs ! i) (xs ! parent i)"
  by (simp add: heap_ok_def)

lemma heap_replace:
  assumes "heap_invar h" and "hpValues h \<noteq> []"
  shows "\<exists>h'. Heap_Replace x h = (Some (hpValues h ! 0), h') \<and> heap_invar h' \<and> hpLess h' = hpLess h
    \<and> add_mset (hpValues h ! 0) (heap_contents h') = add_mset x (heap_contents h)"
proof -
  let ?ys = "(hpValues h)[0 := x]"
  have "down_ok (hpLess h) ?ys 0"
    using assms(1) parent_less by (intro down_ok_root) (auto simp: heap_invar_def heap_ok_def nth_list_update)
  then have "heap_ok (hpLess h) (siftDown (hpLess h) ?ys 0) \<and> mset (siftDown (hpLess h) ?ys 0) = mset ?ys"
    using assms(1) siftDown_ok by (auto simp: heap_invar_def)
  then show ?thesis using assms by (cases "hpValues h") (auto simp: Heap_Replace_def heap_invar_def)
qed

lemma heap_pop:
  assumes "heap_invar h" and "hpValues h \<noteq> []"
  shows "\<exists>h'. Heap_Pop h = (Some (hpValues h ! 0), h') \<and> heap_invar h' \<and> hpLess h' = hpLess h
    \<and> heap_contents h = add_mset (hpValues h ! 0) (heap_contents h')"
proof (cases "hpValues h" rule: rev_cases)
  case (snoc xs y)
  define ys where "ys = take (length xs) ((xs @ [y])[0 := y])"
  have ys: "ys = (if xs = [] then [] else xs[0 := y])" by (simp add: ys_def list_update_append)
  have ms: "mset (xs @ [y]) = add_mset ((xs @ [y]) ! 0) (mset ys)" by (cases xs) (simp_all add: ys)
  have "down_ok (hpLess h) ys 0"
  proof (rule down_ok_root, intro ballI impI)
    fix i assume i: "i \<in> {1..<length ys}" "0 < parent i"
    then have "xs \<noteq> []" "i < length xs" "parent i < i" "0 < i" using parent_less[of i] by (auto simp: ys split: if_splits)
    then show "\<not> hpLess h (ys ! i) (ys ! parent i)"
      using heap_ok_nonroot[of "hpLess h" "xs @ [y]" i] assms(1) snoc i(2)
      by (simp add: ys heap_invar_def nth_append)
  qed
  then have "heap_ok (hpLess h) (siftDown (hpLess h) ys 0) \<and> mset (siftDown (hpLess h) ys 0) = mset ys"
    using assms(1) siftDown_ok by (auto simp: heap_invar_def)
  then show ?thesis using assms(1) ms
    by (auto simp: Heap_Pop_def snoc heap_invar_def Let_def ys_def[symmetric] heap_ok_def[of _ "[]"])
qed (use assms in simp)

interpretation hq: priority_queue Heap_Push Heap_Pop Heap_Peek hpLess heap_contents heap_invar
proof
  fix h :: "'a Heap" and x
  assume h: "heap_invar h"
  show "weak_order (hpLess h)" using h by (simp add: heap_invar_def)
  show "heap_invar (Heap_Push x h) \<and> heap_contents (Heap_Push x h) = add_mset x (heap_contents h)
      \<and> hpLess (Heap_Push x h) = hpLess h"
    using heap_push[OF h] by (simp add: Heap_Push_def Let_def)
  show "Heap_Pop h = (None, h)" if "heap_contents h = {#}" using that by (simp add: Heap_Pop_def)
  show "\<exists>x h'. Heap_Pop h = (Some x, h') \<and> Heap_Peek h = Some x \<and> heap_invar h' \<and> hpLess h' = hpLess h
      \<and> heap_contents h = add_mset x (heap_contents h') \<and> (\<forall>y\<in>#heap_contents h. \<not> hpLess h y x)"
    if "heap_contents h \<noteq> {#}"
    using heap_pop[OF h] that h heap_root_first[of "hpLess h" "hpValues h"]
    by (auto simp: Heap_Peek_def heap_invar_def in_set_conv_nth)
qed


subsection \<open>Only comparisons of stored values matter\<close>

definition agree_on :: "'a set \<Rightarrow> ('a \<Rightarrow> 'a \<Rightarrow> bool) \<Rightarrow> ('a \<Rightarrow> 'a \<Rightarrow> bool) \<Rightarrow> bool" where
  "agree_on A lt lt' \<longleftrightarrow> (\<forall>a\<in>A. \<forall>b\<in>A. lt a b = lt' a b)"

lemma agree_onD: "agree_on A lt lt' \<Longrightarrow> a \<in> A \<Longrightarrow> b \<in> A \<Longrightarrow> lt a b = lt' a b"
  by (simp add: agree_on_def)

lemma set_exchange: "i < length xs \<Longrightarrow> j < length xs \<Longrightarrow> set (exchange xs i j) = set xs"
  by (metis mset_exchange set_mset_mset)

lemma siftUp_cong:
  assumes "agree_on (set xs) lt lt'" and "k < length xs"
  shows "siftUp lt xs k = siftUp lt' xs k"
  using assms
proof (induction lt xs k rule: siftUp.induct)
  case (1 lt xs k)
  have p: "parent k < length xs" if "0 < k" using that parent_less[of k] "1.prems"(2) by simp
  have eq: "lt (xs ! k) (xs ! parent k) = lt' (xs ! k) (xs ! parent k)" if "0 < k"
    using "1.prems" p[OF that] by (intro agree_onD) auto
  have "agree_on (set (exchange xs k (parent k))) lt lt'" if "0 < k"
    using "1.prems" p[OF that] by (simp add: set_exchange)
  then show ?case
    using "1.IH" p eq by (simp add: siftUp.simps[of _ xs k])
qed

lemma siftDown_cong:
  assumes "agree_on (set xs) lt lt'"
  shows "siftDown lt xs k = siftDown lt' xs k"
  using assms
proof (induction lt xs k rule: siftDown.induct)
  case (1 lt xs k)
  show ?case
  proof (cases "k * 2 + 1 < length xs")
    case True
    then have best: "best_child lt xs k = best_child lt' xs k"
      using "1.prems" by (auto simp: best_child_def Let_def agree_on_def)
    have b: "best_child lt xs k < length xs" using True by (simp add: best_child_def Let_def)
    then have eq: "lt (xs ! best_child lt xs k) (xs ! k) = lt' (xs ! best_child lt xs k) (xs ! k)"
      using "1.prems" True by (intro agree_onD) auto
    have "agree_on (set (exchange xs k (best_child lt xs k))) lt lt'"
      using "1.prems" b True by (simp add: set_exchange)
    then show ?thesis
      using "1.IH"[OF _ refl] True eq best by (simp add: siftDown.simps[of _ xs k] Let_def)
  qed (simp add: siftDown.simps[of _ xs k])
qed

lemma Heap_Push_cong:
  assumes "agree_on (insert x (set xs)) lt lt'"
  shows "hpValues (Heap_Push x \<lparr>hpValues = xs, hpLess = lt\<rparr>) = hpValues (Heap_Push x \<lparr>hpValues = xs, hpLess = lt'\<rparr>)"
  using siftUp_cong[of "xs @ [x]" lt lt' "length xs"] assms by (simp add: Heap_Push_def Let_def)

lemma Heap_Replace_cong:
  assumes "agree_on (insert x (set xs)) lt lt'"
  shows "hpValues (snd (Heap_Replace x \<lparr>hpValues = xs, hpLess = lt\<rparr>))
    = hpValues (snd (Heap_Replace x \<lparr>hpValues = xs, hpLess = lt'\<rparr>))"
proof -
  have "agree_on (set (xs[0 := x])) lt lt'"
    using assms set_update_subset_insert[of xs 0 x] unfolding agree_on_def by blast
  then show ?thesis using siftDown_cong[of "xs[0 := x]" lt lt' 0] by (simp add: Heap_Replace_def Let_def)
qed

subsection \<open>Reachable heaps\<close>

text \<open>The heaps a client can build from an empty one.\<close>

inductive heap_reach :: "'a Heap \<Rightarrow> 'a Heap \<Rightarrow> bool" for h0 where
  reach_new: "heap_reach h0 h0"
| reach_push: "heap_reach h0 h \<Longrightarrow> heap_reach h0 (Heap_Push x h)"
| reach_pop: "heap_reach h0 h \<Longrightarrow> heap_reach h0 (snd (Heap_Pop h))"
| reach_replace: "heap_reach h0 h \<Longrightarrow> heap_reach h0 (snd (Heap_Replace x h))"

lemma heap_invar_singleton: "weak_order lt \<Longrightarrow> heap_invar \<lparr>hpValues = [x], hpLess = lt\<rparr>"
  by (simp add: heap_invar_def heap_ok_def)

lemma heap_reach_invar:
  assumes "heap_reach h0 h" and "heap_invar h0"
  shows "heap_invar h \<and> hpLess h = hpLess h0"
  using assms
proof (induction rule: heap_reach.induct)
  case (reach_push h x)
  then show ?case using hq.push_ok by metis
next
  case (reach_pop h)
  then show ?case
    using heap_pop[of h] by (cases "hpValues h = []") (simp add: Heap_Pop_def, metis snd_conv)
next
  case (reach_replace h x)
  then show ?case
    using heap_replace[of h x]
    by (cases "hpValues h = []") (simp add: Heap_Replace_def heap_invar_def heap_ok_def, metis snd_conv)
qed simp

text \<open>
  C26: On a strict weak order, every heap built from \<open>NewHeap\<close> by any sequence of \<open>Push\<close>, \<open>Pop\<close> and
  \<open>Replace\<close> behaves as a priority queue over a multiset: \<open>Push\<close> adds one occurrence; \<open>Pop\<close> reports
  nothing exactly on the empty heap and otherwise removes and returns a value no other one precedes,
  which is the value \<open>Peek\<close> shows; \<open>Replace\<close> exchanges that value for the given one; and popping all
  values delivers exactly the contents in order.
\<close>

theorem heap_refines_priority_queue:
  assumes ord: "weak_order lt" and new: "NewHeap (Some lt) = Inr h0" and reach: "heap_reach h0 h"
  shows "heap_contents (Heap_Push x h) = add_mset x (heap_contents h) \<and>
    (case Heap_Pop h of
       (None, h') \<Rightarrow> heap_contents h = {#} \<and> h' = h \<and> Heap_Peek h = None
     | (Some v, h') \<Rightarrow> heap_contents h = add_mset v (heap_contents h')
         \<and> (\<forall>y. y \<in># heap_contents h \<longrightarrow> \<not> lt y v) \<and> Heap_Peek h = Some v) \<and>
    (case Heap_Replace x h of
       (None, h') \<Rightarrow> heap_contents h = {#} \<and> heap_contents h' = {#x#} \<and> Heap_Peek h = None
     | (Some v, h') \<Rightarrow> add_mset v (heap_contents h') = add_mset x (heap_contents h) \<and> Heap_Peek h = Some v) \<and>
    mset (drain Heap_Pop (Heap_Len h) h) = heap_contents h \<and>
    sorted_wrt (\<lambda>a b. \<not> lt b a) (drain Heap_Pop (Heap_Len h) h)"
    (is "_ \<and> ?pop \<and> ?replace \<and> _")
proof (intro conjI)
  have "heap_invar h0" "hpLess h0 = lt"
    using new ord by (auto simp: NewHeap_def NewHeapWithCapacity_def heap_invar_def heap_ok_def)
  then have h: "heap_invar h" "hpLess h = lt" using heap_reach_invar[OF reach] by auto
  show "heap_contents (Heap_Push x h) = add_mset x (heap_contents h)" using hq.push_ok[OF h(1)] by simp
  show ?pop
  proof (cases "heap_contents h = {#}")
    case True
    then show ?thesis by (simp add: hq.pop_empty[OF h(1)] Heap_Peek_def)
  next
    case False
    then obtain v h' where "Heap_Pop h = (Some v, h')" "Heap_Peek h = Some v"
        "heap_contents h = add_mset v (heap_contents h')" "\<forall>y\<in>#heap_contents h. \<not> lt y v"
      using hq.pop_first[OF h(1)] h(2) by metis
    then show ?thesis by simp
  qed
  show ?replace
    using heap_replace[OF h(1), of x]
    by (cases "hpValues h = []") (auto simp: Heap_Replace_def Heap_Peek_def)
  show "mset (drain Heap_Pop (Heap_Len h) h) = heap_contents h"
    and "sorted_wrt (\<lambda>a b. \<not> lt b a) (drain Heap_Pop (Heap_Len h) h)"
    using hq.drain_sorted[OF h(1)] h(2) by (simp_all add: Heap_Len_def)
qed

lemma weak_order_less: "weak_order ((<) :: 'a::linorder \<Rightarrow> 'a \<Rightarrow> bool)"
  by (auto simp: weak_order_def)

text \<open>Witness: pushing 3, 1 and 2 and popping once leaves 2 and 3.\<close>

theorem heap_refines_priority_queue_witness:
  "mset (drain Heap_Pop 2 (snd (Heap_Pop (Heap_Push 2 (Heap_Push 1 (Heap_Push (3::nat) \<lparr>hpValues = [], hpLess = (<)\<rparr>)))))) = {#2, 3#}
   \<and> sorted_wrt (\<lambda>a b. \<not> b < a) (drain Heap_Pop 2 (snd (Heap_Pop (Heap_Push 2 (Heap_Push 1 (Heap_Push (3::nat) \<lparr>hpValues = [], hpLess = (<)\<rparr>))))))"
proof -
  let ?start = "\<lparr>hpValues = [] :: nat list, hpLess = (<)\<rparr>"
  let ?q = "snd (Heap_Pop (Heap_Push 2 (Heap_Push 1 (Heap_Push (3::nat) ?start))))"
  have reach: "heap_reach ?start ?q"
    by (rule reach_pop, rule reach_push, rule reach_push, rule reach_push, rule reach_new)
  have new: "NewHeap (Some (<)) = Inr ?start" by (simp add: NewHeap_def NewHeapWithCapacity_def)
  have "hpValues ?q = [2, 3]" by code_simp
  then have q: "Heap_Len ?q = 2" "heap_contents ?q = {#2, 3#}" by (simp_all only: Heap_Len_def) simp_all
  show ?thesis using heap_refines_priority_queue[OF weak_order_less new reach, of 0] unfolding q by blast
qed

end
