(* ===== verification/Float32.thy ===== *)
theory Float32
  imports Prelude
begin

unbundle bit_operations_syntax

text \<open>
  Comparison of 32-bit floating-point numbers, on their bit patterns. A \<open>float32\<close> value is
  represented by \<open>math.Float32bits\<close>; arithmetic is not modelled, only what the search code decides with
  \<open>==\<close>, \<open><\<close>, \<open><=\<close> and the classification of \<^verbatim>\<open>src/internal/ailego/math/distance.go\<close>. NaN compares
  false with everything, the two zeros are equal, all other patterns are ordered by sign and magnitude.
\<close>

type_synonym f32 = u32

definition f32_mag :: "f32 \<Rightarrow> int" where
  "f32_mag b = uint (b AND 0x7fffffff)"

definition f32_key :: "f32 \<Rightarrow> int" where
  "f32_key b = (if bit b 31 then - f32_mag b else f32_mag b)"

definition f32_nan :: "f32 \<Rightarrow> bool" where
  "f32_nan b \<longleftrightarrow> 0x7f800000 < f32_mag b"

definition f32_eq :: "f32 \<Rightarrow> f32 \<Rightarrow> bool" where
  "f32_eq a b \<longleftrightarrow> \<not> f32_nan a \<and> \<not> f32_nan b \<and> f32_key a = f32_key b"

definition f32_lt :: "f32 \<Rightarrow> f32 \<Rightarrow> bool" where
  "f32_lt a b \<longleftrightarrow> \<not> f32_nan a \<and> \<not> f32_nan b \<and> f32_key a < f32_key b"

definition f32_le :: "f32 \<Rightarrow> f32 \<Rightarrow> bool" where
  "f32_le a b \<longleftrightarrow> \<not> f32_nan a \<and> \<not> f32_nan b \<and> f32_key a \<le> f32_key b"

text \<open>The classification predicates of the source.\<close>

definition float32IsNaN :: "f32 \<Rightarrow> bool" where
  "float32IsNaN value \<longleftrightarrow> \<not> f32_eq value value"

definition float32IsInf :: "f32 \<Rightarrow> bool" where
  "float32IsInf value \<longleftrightarrow> value AND 0x7fffffff = 0x7f800000"

definition finite32 :: "f32 \<Rightarrow> bool" where
  "finite32 value \<longleftrightarrow> \<not> float32IsNaN value \<and> \<not> float32IsInf value"

fun validate_elements :: "f32 list \<Rightarrow> error option" where
  "validate_elements [] = None"
| "validate_elements (value # rest) =
     (if \<not> finite32 value then Some (Sentinel ErrNonFiniteVector) else validate_elements rest)"

definition ValidateDense :: "f32 list \<Rightarrow> nat \<Rightarrow> error option" where
  "ValidateDense vector dimension =
     (if length vector \<noteq> dimension then Some (Sentinel ErrDimensionMismatch)
      else if length vector = 0 then Some (Sentinel ErrEmptyVector)
      else validate_elements vector)"

lemma float32IsNaN_iff [simp]: "float32IsNaN v \<longleftrightarrow> f32_nan v"
  by (simp add: float32IsNaN_def f32_eq_def)

lemma finite32_iff: "finite32 v \<longleftrightarrow> f32_mag v < 0x7f800000"
proof -
  have "v AND 0x7fffffff = 0x7f800000 \<longleftrightarrow> uint (v AND 0x7fffffff) = uint (0x7f800000 :: u32)"
    by (simp only: word_uint_eq_iff)
  then show ?thesis
    by (auto simp: finite32_def float32IsInf_def f32_nan_def f32_mag_def)
qed

text \<open>A vector passes exactly when it has the dimension, is not empty and all values are finite.\<close>

lemma validate_elements_None: "validate_elements vs = None \<longleftrightarrow> (\<forall>v\<in>set vs. finite32 v)"
  by (induction vs) auto

lemma ValidateDense_None:
  "ValidateDense vector dimension = None
     \<longleftrightarrow> length vector = dimension \<and> vector \<noteq> [] \<and> (\<forall>v\<in>set vector. finite32 v)"
  by (auto simp: ValidateDense_def validate_elements_None)

end
