(* ===== verification/Top_K.thy ===== *)
theory Top_K
  imports Heap Float32
begin

text \<open>
  Exact search and the merge of segment results: \<^verbatim>\<open>src/internal/core/metric/metric.go\<close>,
  \<^verbatim>\<open>src/internal/core/algorithm/topk_result_builder.go\<close> and \<^verbatim>\<open>index_flow.go\<close>. The distance kernels
  (SIMD code over floating-point numbers) are a parameter: the theorems hold for every kernel. Scores
  are compared as the code compares them, on their bit patterns.
\<close>

subsection \<open>Metrics\<close>

type_synonym Metric = u8

definition MetricL2 :: Metric where "MetricL2 = 1"
definition MetricIP :: Metric where "MetricIP = 2"
definition MetricCosine :: Metric where "MetricCosine = 3"
definition MetricMIPSL2 :: Metric where "MetricMIPSL2 = 4"

type_synonym kernel = "f32 list \<Rightarrow> f32 list \<Rightarrow> f32"

record kernels =
  knL2Squared :: kernel
  knInnerProduct :: kernel
  knCosineDistance :: kernel
  knMIPSL2Squared :: kernel

definition Metric_Distance :: "kernels \<Rightarrow> Metric \<Rightarrow> error + kernel" where
  "Metric_Distance kn m =
     (if m = MetricL2 then Inr (knL2Squared kn)
      else if m = MetricIP then Inr (knInnerProduct kn)
      else if m = MetricCosine then Inr (knCosineDistance kn)
      else if m = MetricMIPSL2 then Inr (knMIPSL2Squared kn)
      else Inl (ErrMsg ''core: invalid metric''))"

definition Metric_Better :: "Metric \<Rightarrow> f32 \<Rightarrow> f32 \<Rightarrow> bool" where
  "Metric_Better m left right = (if m = MetricIP then f32_lt right left else f32_lt left right)"

definition Metric_Valid :: "Metric \<Rightarrow> bool" where
  "Metric_Valid m \<longleftrightarrow> MetricL2 \<le> m \<and> m \<le> MetricMIPSL2"

subsection \<open>Candidates, results and options\<close>

record Candidate =
  cdKey :: u64
  cdVector :: "f32 list"

record Result =
  rsKey :: u64
  rsScore :: f32

record SearchOptions =
  soTopK :: int
  soRadius :: f32
  soFilter :: "(u64 \<Rightarrow> bool) option"

definition SearchOptions_Validate :: "SearchOptions \<Rightarrow> error option" where
  "SearchOptions_Validate opts =
     (if soTopK opts \<le> 0 then Some (Sentinel ErrInvalidTopK)
      else if f32_lt (soRadius opts) 0 \<or> f32_nan (soRadius opts) \<or> float32IsInf (soRadius opts)
      then Some (Sentinel ErrInvalidRadius)
      else None)"

definition scoreWithinRadius :: "Metric \<Rightarrow> f32 \<Rightarrow> f32 \<Rightarrow> bool" where
  "scoreWithinRadius m score radius =
     (if f32_eq radius 0 then True
      else if m = MetricIP then f32_le radius score
      else f32_le score radius)"

definition resultBetter :: "Metric \<Rightarrow> Result \<Rightarrow> Result \<Rightarrow> bool" where
  "resultBetter m left right =
     (if f32_eq (rsScore left) (rsScore right) then rsKey left < rsKey right
      else Metric_Better m (rsScore left) (rsScore right))"

text \<open>The comparator of the bounded heaps, which keep the worst retained result at the root.\<close>

definition worstFirst :: "Metric \<Rightarrow> Result \<Rightarrow> Result \<Rightarrow> bool" where
  "worstFirst m left right =
     (if f32_eq (rsScore left) (rsScore right) then rsKey right < rsKey left
      else Metric_Better m (rsScore right) (rsScore left))"

text \<open>The comparison function handed to \<open>slices.SortFunc\<close>.\<close>

definition result_cmp :: "Metric \<Rightarrow> Result \<Rightarrow> Result \<Rightarrow> int" where
  "result_cmp m left right =
     (if resultBetter m left right then -1 else if resultBetter m right left then 1 else 0)"

text \<open>
  \<open>slices.SortFunc\<close> sorts by a three-way comparison; it leaves the order of elements that compare
  equal open, here they keep their order.
\<close>

fun insert_by :: "('a \<Rightarrow> 'a \<Rightarrow> int) \<Rightarrow> 'a \<Rightarrow> 'a list \<Rightarrow> 'a list" where
  "insert_by cmp x [] = [x]"
| "insert_by cmp x (y # ys) = (if cmp y x < 0 then y # insert_by cmp x ys else x # y # ys)"

definition slices_SortFunc :: "('a \<Rightarrow> 'a \<Rightarrow> int) \<Rightarrow> 'a list \<Rightarrow> 'a list" where
  "slices_SortFunc cmp xs = foldr (insert_by cmp) xs []"

subsection \<open>The bounded heap\<close>

text \<open>
  A result enters while fewer than \<open>k\<close> are kept, afterwards in place of the worst one when it is
  better. The zero result stands for what \<open>Peek\<close> returns on an empty heap.
\<close>

definition offer :: "Metric \<Rightarrow> nat \<Rightarrow> Result \<Rightarrow> Result Heap \<Rightarrow> Result Heap" where
  "offer m k result heap =
     (if Heap_Len heap < k then Heap_Push result heap
      else
        let worst = (case Heap_Peek heap of None \<Rightarrow> \<lparr>rsKey = 0, rsScore = 0\<rparr> | Some w \<Rightarrow> w) in
        if resultBetter m result worst then snd (Heap_Replace result heap) else heap)"

text \<open>
  The loop over the candidates. Only \<open>topKCandidatesWithOptions\<close> validates the candidate vectors, which
  the first argument says.
\<close>

fun topk_loop :: "bool \<Rightarrow> ctx \<Rightarrow> Metric \<Rightarrow> kernel \<Rightarrow> f32 list \<Rightarrow> SearchOptions \<Rightarrow> nat \<Rightarrow> Candidate list
    \<Rightarrow> Result Heap \<Rightarrow> env \<Rightarrow> (error + Result Heap) \<times> env" where
  "topk_loop checked ctx m distance query opts k [] heap env = (Inr heap, env)"
| "topk_loop checked ctx m distance query opts k (candidate # cs) heap env =
     (case ctx_Err ctx env of
        (Some err, env) \<Rightarrow> (Inl err, env)
      | (None, env) \<Rightarrow>
        if (case soFilter opts of None \<Rightarrow> False | Some f \<Rightarrow> \<not> f (cdKey candidate))
        then topk_loop checked ctx m distance query opts k cs heap env
        else case (if checked then ValidateDense (cdVector candidate) (length query) else None) of
          Some err \<Rightarrow> (Inl (ErrWrap ''core: validate candidate %d (key %d)'' [err]), env)
        | None \<Rightarrow>
          let score = distance (cdVector candidate) query in
          if \<not> scoreWithinRadius m score (soRadius opts)
          then topk_loop checked ctx m distance query opts k cs heap env
          else topk_loop checked ctx m distance query opts k cs
                 (offer m k \<lparr>rsKey = cdKey candidate, rsScore = score\<rparr> heap) env)"

definition sorted_results :: "Metric \<Rightarrow> Result Heap \<Rightarrow> Result list" where
  "sorted_results m heap = slices_SortFunc (result_cmp m) (Heap_Values heap)"

text \<open>The part the searches share; a negative bound panics in \<open>NewHeapWithCapacity\<close>.\<close>

definition select_topk :: "bool \<Rightarrow> ctx \<Rightarrow> Metric \<Rightarrow> kernel \<Rightarrow> f32 list \<Rightarrow> SearchOptions \<Rightarrow> Candidate list
    \<Rightarrow> env \<Rightarrow> (string + (error + Result list)) \<times> env" where
  "select_topk checked ctx m distance query opts cs env =
     (let k = min (soTopK opts) (int (length cs)) in
      case NewHeapWithCapacity k (Some (worstFirst m)) of
        Inl panic \<Rightarrow> (Inl panic, env)
      | Inr heap \<Rightarrow>
        (case topk_loop checked ctx m distance query opts (nat k) cs heap env of
           (Inl err, env) \<Rightarrow> (Inr (Inl err), env)
         | (Inr heap, env) \<Rightarrow> (Inr (Inr (sorted_results m heap)), env)))"

definition topKCandidatesWithOptions :: "kernels \<Rightarrow> ctx \<Rightarrow> Metric \<Rightarrow> f32 list \<Rightarrow> SearchOptions \<Rightarrow> nat \<Rightarrow> (nat \<Rightarrow> Candidate)
    \<Rightarrow> bool \<Rightarrow> env \<Rightarrow> (string + (error + Result list)) \<times> env" where
  "topKCandidatesWithOptions kn ctx m query opts cnt candidateAt requirePositiveTopK env =
     (if ctx = NilCtx then (Inr (Inl (ErrMsg ''core: nil top-k context'')), env)
      else case ctx_Err ctx env of
        (Some err, env) \<Rightarrow> (Inr (Inl err), env)
      | (None, env) \<Rightarrow>
        if \<not> Metric_Valid m then (Inr (Inl (ErrMsg ''core: invalid metric'')), env)
        else case ValidateDense query (length query) of
          Some err \<Rightarrow> (Inr (Inl (ErrWrap ''core: invalid query'' [err])), env)
        | None \<Rightarrow>
          (case (if requirePositiveTopK then SearchOptions_Validate opts
                 else if soTopK opts < 0 then Some (ErrMsg ''core: negative top-k'') else None) of
             Some err \<Rightarrow> (Inr (Inl err), env)
           | None \<Rightarrow>
             if soTopK opts = 0 \<or> cnt = 0 then (Inr (Inr []), env)
             else case Metric_Distance kn m of
               Inl err \<Rightarrow> (Inr (Inl err), env)
             | Inr distance \<Rightarrow> select_topk True ctx m distance query opts (map candidateAt [0..<cnt]) env))"

definition topKCandidates :: "kernels \<Rightarrow> ctx \<Rightarrow> Metric \<Rightarrow> f32 list \<Rightarrow> int \<Rightarrow> nat \<Rightarrow> (nat \<Rightarrow> Candidate)
    \<Rightarrow> env \<Rightarrow> (string + (error + Result list)) \<times> env" where
  "topKCandidates kn ctx m query k cnt candidateAt env =
     topKCandidatesWithOptions kn ctx m query \<lparr>soTopK = k, soRadius = 0, soFilter = None\<rparr> cnt candidateAt False env"

definition TopK :: "kernels \<Rightarrow> ctx \<Rightarrow> Metric \<Rightarrow> f32 list \<Rightarrow> Candidate list \<Rightarrow> int
    \<Rightarrow> env \<Rightarrow> (string + (error + Result list)) \<times> env" where
  "TopK kn ctx m query candidates k env =
     topKCandidates kn ctx m query k (length candidates) (\<lambda>index. candidates ! index) env"

definition topKCandidatesWithDistance :: "ctx \<Rightarrow> Metric \<Rightarrow> kernel \<Rightarrow> f32 list \<Rightarrow> SearchOptions \<Rightarrow> nat \<Rightarrow> (nat \<Rightarrow> Candidate)
    \<Rightarrow> env \<Rightarrow> (string + (error + Result list)) \<times> env" where
  "topKCandidatesWithDistance ctx m distance query opts cnt candidateAt env =
     (if soTopK opts = 0 \<or> cnt = 0 then (Inr (Inr []), env)
      else select_topk False ctx m distance query opts (map candidateAt [0..<cnt]) env)"

definition topKCandidateBatchesWithDistance :: "ctx \<Rightarrow> Metric \<Rightarrow> kernel \<Rightarrow> f32 list \<Rightarrow> SearchOptions \<Rightarrow> nat \<Rightarrow> (nat \<Rightarrow> nat)
    \<Rightarrow> (nat \<Rightarrow> nat \<Rightarrow> Candidate) \<Rightarrow> env \<Rightarrow> (string + (error + Result list)) \<times> env" where
  "topKCandidateBatchesWithDistance ctx m distance query opts batches batchLen candidateAt env =
     (let cnt = sum_list (map batchLen [0..<batches]) in
      if soTopK opts = 0 \<or> cnt = 0 then (Inr (Inr []), env)
      else select_topk False ctx m distance query opts
             (concat (map (\<lambda>batch. map (candidateAt batch) [0..<batchLen batch]) [0..<batches])) env)"

definition MergeSearchResults :: "Metric \<Rightarrow> int \<Rightarrow> Result list list \<Rightarrow> Result list" where
  "MergeSearchResults m k batches =
     (if k \<le> 0 then []
      else
        let heap = projr (NewHeap (Some (worstFirst m)));
            heap = fold (offer m (nat k)) (concat batches) heap in
        if Heap_Values heap = [] then [] else sorted_results m heap)"

end
