(* ===== verification/Top_K_Properties.thy ===== *)
theory Top_K_Properties
  imports Top_K "HOL-Library.Product_Lexorder"
begin

text \<open>
  The bounded heap keeps the best results: for scores that are numbers, \<open>resultBetter\<close> is the order of
  a rank, and the loop keeps the \<open>k\<close> results of least rank. Merging the best results of the segments
  gives the best results of the whole.
\<close>

subsection \<open>The specification\<close>

text \<open>
  \<open>rs\<close> are the \<open>k\<close> best of \<open>xs\<close>: as many as there are up to \<open>k\<close>, taken from \<open>xs\<close>, best first, and
  nothing that was left out is better than anything kept.
\<close>

definition best_of :: "('a \<Rightarrow> 'a \<Rightarrow> bool) \<Rightarrow> nat \<Rightarrow> 'a list \<Rightarrow> 'a list \<Rightarrow> bool" where
  "best_of better k xs rs \<longleftrightarrow> length rs = min k (length xs) \<and> mset rs \<subseteq># mset xs
     \<and> sorted_wrt (\<lambda>a b. \<not> better b a) rs
     \<and> (\<forall>a\<in>#mset xs - mset rs. \<forall>b\<in>#mset rs. \<not> better a b)"

subsection \<open>Ranks\<close>

definition result_rank :: "Metric \<Rightarrow> Result \<Rightarrow> int \<times> u64" where
  "result_rank m r = ((if m = MetricIP then - f32_key (rsScore r) else f32_key (rsScore r)), rsKey r)"

abbreviation numeric :: "Result \<Rightarrow> bool" where
  "numeric r \<equiv> \<not> f32_nan (rsScore r)"

lemma resultBetter_rank:
  "numeric a \<Longrightarrow> numeric b \<Longrightarrow> resultBetter m a b \<longleftrightarrow> result_rank m a < result_rank m b"
  by (auto simp: resultBetter_def f32_eq_def f32_lt_def Metric_Better_def result_rank_def less_prod_def)

lemma worstFirst_rank:
  "numeric a \<Longrightarrow> numeric b \<Longrightarrow> worstFirst m a b \<longleftrightarrow> result_rank m b < result_rank m a"
  by (auto simp: worstFirst_def f32_eq_def f32_lt_def Metric_Better_def result_rank_def less_prod_def)

abbreviation by_rank :: "('a \<Rightarrow> 'b::linorder) \<Rightarrow> 'a \<Rightarrow> 'a \<Rightarrow> bool" where
  "by_rank f a b \<equiv> f b < f a"

lemma weak_order_rank: "weak_order (by_rank f)"
  by (auto simp: weak_order_def)

subsection \<open>What a bounded heap keeps\<close>

definition keeps :: "('a \<Rightarrow> 'b::linorder) \<Rightarrow> nat \<Rightarrow> 'a list \<Rightarrow> 'a multiset \<Rightarrow> bool" where
  "keeps f k seen K \<longleftrightarrow> size K = min k (length seen) \<and> K \<subseteq># mset seen
     \<and> (\<forall>a\<in>#mset seen - K. \<forall>b\<in>#K. f b \<le> f a)"

text \<open>What was left out, as a multiset \<open>R\<close> of its own.\<close>

lemma keeps_iff:
  "keeps f k seen K \<longleftrightarrow>
     (\<exists>R. mset seen = K + R \<and> size K = min k (length seen) \<and> (\<forall>a\<in>#R. \<forall>b\<in>#K. f b \<le> f a))"
  by (auto simp: keeps_def mset_subset_eq_exists_conv)

lemma keeps_room:
  assumes "keeps f k seen K" and "size K < k"
  shows "keeps f k (seen @ [x]) (add_mset x K)"
proof -
  obtain R where R: "mset seen = K + R" "size K = min k (length seen)" using assms(1) by (auto simp: keeps_iff)
  then have "size R = 0" using assms(2) size_mset[of seen] by simp
  then show ?thesis using R assms(2) by (simp add: keeps_iff)
qed

lemma keeps_full:
  assumes "keeps f k seen (add_mset w K)" and "\<forall>y\<in>#K. f y \<le> f w" and "size (add_mset w K) = k" and "f w \<le> f x"
  shows "keeps f k (seen @ [x]) (add_mset w K)"
proof -
  obtain R where R: "mset seen = add_mset w K + R" "size (add_mset w K) = min k (length seen)"
      "\<forall>a\<in>#R. \<forall>b\<in>#add_mset w K. f b \<le> f a" using assms(1) by (auto simp: keeps_iff)
  have "\<forall>a\<in>#add_mset x R. \<forall>b\<in>#add_mset w K. f b \<le> f a" using R(3) assms(2,4) by (auto intro: order.trans)
  moreover have "mset (seen @ [x]) = add_mset w K + add_mset x R" using R(1) by simp
  ultimately show ?thesis using R(2) assms(3) unfolding keeps_iff by (intro exI[of _ "add_mset x R"]) simp
qed

lemma keeps_exchange:
  assumes keep: "keeps f k seen (add_mset w K)" and "\<forall>y\<in>#K. f y \<le> f w" and "size (add_mset w K) = k" and "f x < f w"
  shows "keeps f k (seen @ [x]) (add_mset x K)"
proof -
  obtain R where R: "mset seen = add_mset w K + R" "size (add_mset w K) = min k (length seen)"
      "\<forall>a\<in>#R. \<forall>b\<in>#add_mset w K. f b \<le> f a" using assms(1) by (auto simp: keeps_iff)
  have "\<forall>a\<in>#R. f x \<le> f a" using R(3) assms(4) by (meson less_imp_le order.trans union_single_eq_member)
  then have "\<forall>a\<in>#add_mset w R. \<forall>b\<in>#add_mset x K. f b \<le> f a" using R(3) assms(2,4) by auto
  moreover have "mset (seen @ [x]) = add_mset x K + add_mset w R" using R(1) by simp
  ultimately show ?thesis using R(2) assms(3) unfolding keeps_iff by (intro exI[of _ "add_mset w R"]) simp
qed

text \<open>The step of the loop, on ranks.\<close>

definition offer_rank :: "('a \<Rightarrow> 'b::linorder) \<Rightarrow> nat \<Rightarrow> 'a \<Rightarrow> 'a list \<Rightarrow> 'a list" where
  "offer_rank f k x xs =
     (if length xs < k then hpValues (Heap_Push x \<lparr>hpValues = xs, hpLess = by_rank f\<rparr>)
      else if f x < f (xs ! 0) then hpValues (snd (Heap_Replace x \<lparr>hpValues = xs, hpLess = by_rank f\<rparr>)) else xs)"

definition rank_heap :: "('a \<Rightarrow> 'b::linorder) \<Rightarrow> nat \<Rightarrow> 'a list \<Rightarrow> 'a list \<Rightarrow> bool" where
  "rank_heap f k seen xs \<longleftrightarrow> heap_ok (by_rank f) xs \<and> keeps f k seen (mset xs)"

lemma offer_rank_keeps:
  assumes "0 < k" and heap: "rank_heap f k seen xs"
  shows "rank_heap f k (seen @ [x]) (offer_rank f k x xs)"
proof -
  let ?h = "\<lparr>hpValues = xs, hpLess = by_rank f\<rparr>"
  have inv: "heap_invar ?h" and keep: "keeps f k seen (mset xs)"
    using heap by (auto simp: rank_heap_def heap_invar_def weak_order_rank)
  show ?thesis
  proof (cases "length xs < k")
    case True
    then show ?thesis
      using heap_push[OF inv, of x] keeps_room[OF keep, of x]
      by (simp add: rank_heap_def offer_rank_def heap_invar_def Heap_Push_def Let_def)
  next
    case False
    then have size: "length xs = k" using keep by (auto simp: keeps_def)
    then obtain w ys where xs: "xs = w # ys" using assms(1) by (cases xs) auto
    have le: "\<forall>y\<in>#mset ys. f y \<le> f w"
      using heap_root_first[OF weak_order_rank, of f xs] inv xs by (force simp: heap_invar_def in_set_conv_nth)
    have keep_w: "keeps f k seen (add_mset w (mset ys))" "size (add_mset w (mset ys)) = k" using keep xs size by simp_all
    show ?thesis
    proof (cases "f x < f w")
      case True
      obtain h' where h': "Heap_Replace x ?h = (Some (xs ! 0), h')" "heap_invar h'" "hpLess h' = by_rank f"
          "add_mset w (heap_contents h') = add_mset x (mset xs)"
        using heap_replace[OF inv, of x] xs by auto
      then have "heap_contents h' = add_mset x (mset ys)" using xs by (simp add: add_mset_commute)
      then show ?thesis
        using keeps_exchange[OF keep_w(1) le keep_w(2) True] h' size True xs
        by (simp add: rank_heap_def offer_rank_def heap_invar_def)
    next
      case False
      then show ?thesis
        using keeps_full[OF keep_w(1) le keep_w(2), of x] size xs heap
        by (auto simp: rank_heap_def offer_rank_def not_less)
    qed
  qed
qed

lemma fold_offer_rank:
  assumes "0 < k" and "rank_heap f k seen xs"
  shows "rank_heap f k (seen @ rs) (fold (offer_rank f k) rs xs)"
  using assms(2)
proof (induction rs arbitrary: seen xs)
  case (Cons r rs)
  then show ?case using Cons.IH[OF offer_rank_keeps[OF assms(1) Cons.prems]] by simp
qed simp


subsection \<open>The code's comparisons are comparisons of ranks\<close>

abbreviation worst_heap :: "Metric \<Rightarrow> Result list \<Rightarrow> Result Heap" where
  "worst_heap m xs \<equiv> \<lparr>hpValues = xs, hpLess = worstFirst m\<rparr>"

lemma agree_rank: "\<forall>r\<in>A. numeric r \<Longrightarrow> agree_on A (worstFirst m) (by_rank (result_rank m))"
  by (simp add: agree_on_def worstFirst_rank)

lemma heap_less_kept: "hpLess (Heap_Push x h) = hpLess h" "hpLess (snd (Heap_Replace x h)) = hpLess h"
  by (simp_all add: Heap_Push_def Heap_Replace_def Let_def)

lemma heap_eqI: "hpValues h = xs \<Longrightarrow> hpLess h = lt \<Longrightarrow> h = \<lparr>hpValues = xs, hpLess = lt\<rparr>"
  by simp

lemma offer_eq:
  assumes "0 < k" and num: "\<forall>r\<in>insert x (set xs). numeric r"
  shows "offer m k x (worst_heap m xs) = worst_heap m (offer_rank (result_rank m) k x xs)"
proof -
  note agree = agree_rank[OF num, of m]
  have "resultBetter m x (xs ! 0) \<longleftrightarrow> result_rank m x < result_rank m (xs ! 0)" if "xs \<noteq> []"
    using num that by (intro resultBetter_rank) auto
  then show ?thesis
    using assms(1) Heap_Push_cong[OF agree] Heap_Replace_cong[OF agree]
    by (intro heap_eqI) (auto simp: offer_def offer_rank_def Heap_Len_def Heap_Peek_def Let_def heap_less_kept)
qed

lemma rank_heap_seen: "rank_heap f k seen xs \<Longrightarrow> set xs \<subseteq> set seen"
  unfolding rank_heap_def keeps_def by (metis mset_subset_eqD set_mset_mset subsetI)

lemma fold_offer:
  assumes "0 < k" and "rank_heap (result_rank m) k seen xs" and "\<forall>r\<in>set (seen @ rs). numeric r"
  shows "\<exists>ys. fold (offer m k) rs (worst_heap m xs) = worst_heap m ys \<and> rank_heap (result_rank m) k (seen @ rs) ys"
  using assms(2,3)
proof (induction rs arbitrary: seen xs)
  case (Cons r rs)
  have "\<forall>q\<in>insert r (set xs). numeric q" using rank_heap_seen[OF Cons.prems(1)] Cons.prems(2) by auto
  then show ?case
    using Cons.IH[OF offer_rank_keeps[OF assms(1) Cons.prems(1), of r]] Cons.prems(2) offer_eq[OF assms(1)] by simp
qed auto

subsection \<open>Sorting\<close>

lemma mset_insert_by: "mset (insert_by cmp x ys) = add_mset x (mset ys)"
  by (induction ys) auto

lemma mset_SortFunc: "mset (slices_SortFunc cmp xs) = mset xs"
  unfolding slices_SortFunc_def by (induction xs) (simp_all add: mset_insert_by)

lemma insert_by_sorted:
  fixes f :: "'a \<Rightarrow> 'b::linorder"
  assumes "\<forall>y\<in>set ys. cmp y x < 0 \<longleftrightarrow> f y < f x" and "sorted_wrt (\<lambda>a b. f a \<le> f b) ys"
  shows "sorted_wrt (\<lambda>a b. f a \<le> f b) (insert_by cmp x ys)"
  using assms
proof (induction ys)
  case (Cons y ys)
  have "set (insert_by cmp x ys) = insert x (set ys)" using mset_insert_by[of cmp x ys] by (metis set_mset_add_mset_insert set_mset_mset)
  then show ?case using Cons by (auto intro: order.trans)
qed simp

lemma SortFunc_sorted:
  fixes f :: "'a \<Rightarrow> 'b::linorder"
  assumes "\<forall>a\<in>set xs. \<forall>b\<in>set xs. cmp a b < 0 \<longleftrightarrow> f a < f b"
  shows "sorted_wrt (\<lambda>a b. f a \<le> f b) (slices_SortFunc cmp xs)"
  using assms
proof (induction xs)
  case (Cons x xs)
  have "set (slices_SortFunc cmp xs) = set xs" by (metis mset_SortFunc set_mset_mset)
  then show ?case using Cons insert_by_sorted[of "slices_SortFunc cmp xs" cmp x f]
    by (simp add: slices_SortFunc_def)
qed (simp add: slices_SortFunc_def)

lemma sorted_results_best:
  assumes heap: "rank_heap (result_rank m) k seen ys" and num: "\<forall>r\<in>set seen. numeric r"
  shows "best_of (resultBetter m) k seen (sorted_results m (worst_heap m ys))"
proof -
  let ?rs = "sorted_results m (worst_heap m ys)"
  have ms: "mset ?rs = mset ys" by (simp add: sorted_results_def Heap_Values_def mset_SortFunc)
  have "set ?rs \<subseteq> set seen" using rank_heap_seen[OF heap] ms by (metis set_mset_mset)
  then have num_rs: "\<forall>r\<in>set ?rs. numeric r" using num by blast
  have "\<forall>r\<in>set ys. numeric r" using rank_heap_seen[OF heap] num by blast
  then have "\<forall>a\<in>set ys. \<forall>b\<in>set ys. result_cmp m a b < 0 \<longleftrightarrow> result_rank m a < result_rank m b"
    by (auto simp: result_cmp_def resultBetter_rank)
  then have "sorted_wrt (\<lambda>a b. result_rank m a \<le> result_rank m b) ?rs"
    using SortFunc_sorted by (simp add: sorted_results_def Heap_Values_def)
  then have "sorted_wrt (\<lambda>a b. \<not> resultBetter m b a) ?rs"
    by (rule sorted_wrt_mono_rel[rotated]) (use num_rs in \<open>auto simp: resultBetter_rank not_less\<close>)
  moreover have "\<not> resultBetter m a b" if "a \<in># mset seen - mset ?rs" "b \<in># mset ?rs" for a b
  proof -
    have "result_rank m b \<le> result_rank m a" using heap that unfolding ms by (simp add: rank_heap_def keeps_def)
    then show ?thesis using that num num_rs by (auto simp: resultBetter_rank not_less dest: in_diffD)
  qed
  moreover have "length ?rs = min k (length seen)" "mset ?rs \<subseteq># mset seen"
    using heap mset_eq_length[OF ms] unfolding ms by (simp_all add: rank_heap_def keeps_def)
  ultimately show ?thesis unfolding best_of_def by blast
qed

lemma rank_heap_empty: "rank_heap f k [] []"
  by (simp add: rank_heap_def keeps_def heap_ok_def)


subsection \<open>Exact search\<close>

text \<open>The candidates that pass the filter, and the results of those within the radius.\<close>

definition passing :: "SearchOptions \<Rightarrow> Candidate list \<Rightarrow> Candidate list" where
  "passing opts cs = filter (\<lambda>c. case soFilter opts of None \<Rightarrow> True | Some f \<Rightarrow> f (cdKey c)) cs"

definition eligible :: "Metric \<Rightarrow> kernel \<Rightarrow> f32 list \<Rightarrow> SearchOptions \<Rightarrow> Candidate list \<Rightarrow> Result list" where
  "eligible m distance query opts cs =
     filter (\<lambda>r. scoreWithinRadius m (rsScore r) (soRadius opts))
       (map (\<lambda>c. \<lparr>rsKey = cdKey c, rsScore = distance (cdVector c) query\<rparr>) (passing opts cs))"

lemma passing_Cons: "passing opts (c # cs) =
    (if case soFilter opts of None \<Rightarrow> True | Some f \<Rightarrow> f (cdKey c) then c # passing opts cs else passing opts cs)"
  by (simp add: passing_def)

lemma topk_loop_quiet:
  assumes "quiet env"
    and "checked \<longrightarrow> (\<forall>c\<in>set (passing opts cs). ValidateDense (cdVector c) (length query) = None)"
  shows "\<exists>env'. topk_loop checked ctx m distance query opts k cs heap env
    = (Inr (fold (offer m k) (eligible m distance query opts cs) heap), env') \<and> quiet env'"
  using assms
proof (induction cs arbitrary: heap env)
  case (Cons c cs)
  obtain env' where env': "ctx_Err ctx env = (None, env')" "quiet env'" using ctx_quietE[OF Cons.prems(1)] by metis
  have IH: "\<exists>env''. topk_loop checked ctx m distance query opts k cs h env'
      = (Inr (fold (offer m k) (eligible m distance query opts cs) h), env'') \<and> quiet env''" for h
    using Cons.IH[OF env'(2)] Cons.prems(2) by (simp add: passing_Cons split: if_splits)
  have valid: "checked \<and> (case soFilter opts of None \<Rightarrow> True | Some f \<Rightarrow> f (cdKey c)) \<longrightarrow>
      ValidateDense (cdVector c) (length query) = None"
    using Cons.prems(2) by (auto simp: passing_Cons)
  show ?case
    using IH valid env'(1) by (auto simp: eligible_def passing_Cons Let_def split: option.splits)
qed (simp add: eligible_def passing_def)

lemma length_eligible: "length (eligible m distance query opts cs) \<le> length cs"
proof -
  have "length (eligible m distance query opts cs) \<le> length (passing opts cs)"
    using length_filter_le by (auto simp: eligible_def intro: order.trans)
  also have "\<dots> \<le> length cs" by (simp add: passing_def)
  finally show ?thesis .
qed

lemma best_of_bound:
  assumes "length xs \<le> n"
  shows "best_of better (min k n) xs rs = best_of better k xs rs"
  using assms by (simp add: best_of_def min_def)

text \<open>Offering results to a heap bounded by the request and by the number of candidates keeps the best.\<close>

lemma bounded_heap_best:
  assumes k: "0 < topk" "0 < n" and len: "length rs \<le> n" and num: "\<forall>r\<in>set rs. numeric r"
  shows "best_of (resultBetter m) (nat topk) rs
    (sorted_results m (fold (offer m (nat (min topk (int n)))) rs (worst_heap m [])))"
proof -
  have pos: "0 < nat (min topk (int n))" using k by auto
  obtain ys where ys: "fold (offer m (nat (min topk (int n)))) rs (worst_heap m []) = worst_heap m ys"
      "rank_heap (result_rank m) (nat (min topk (int n))) rs ys"
    using fold_offer[where m = m and rs = rs, OF pos rank_heap_empty] num by auto
  have "nat (min topk (int n)) = min (nat topk) n" by (auto simp: min_def)
  then show ?thesis using sorted_results_best[OF ys(2) num] best_of_bound[OF len] ys(1) by simp
qed

lemma select_topk_exact:
  assumes env: "quiet env" and k: "0 < soTopK opts" "cs \<noteq> []"
    and valid: "checked \<longrightarrow> (\<forall>c\<in>set (passing opts cs). ValidateDense (cdVector c) (length query) = None)"
    and num: "\<forall>r\<in>set (eligible m distance query opts cs). numeric r"
  shows "\<exists>rs env'. select_topk checked ctx m distance query opts cs env = (Inr (Inr rs), env')
    \<and> best_of (resultBetter m) (nat (soTopK opts)) (eligible m distance query opts cs) rs"
proof -
  obtain env' where "topk_loop checked ctx m distance query opts (nat (min (soTopK opts) (int (length cs)))) cs (worst_heap m []) env
      = (Inr (fold (offer m (nat (min (soTopK opts) (int (length cs))))) (eligible m distance query opts cs) (worst_heap m [])), env')"
    using topk_loop_quiet[OF env valid] by metis
  moreover have "\<not> min (soTopK opts) (int (length cs)) < 0" "0 < length cs" using k by auto
  ultimately show ?thesis
    using bounded_heap_best[OF k(1) _ length_eligible num, of m] k
    by (simp add: select_topk_def NewHeapWithCapacity_def Let_def del: min_less_iff_disj)
qed

lemma Metric_Valid_Distance: "Metric_Valid m \<Longrightarrow> \<exists>d. Metric_Distance kn m = Inr d"
proof -
  assume "Metric_Valid m"
  then have "1 \<le> unat m" "unat m \<le> 4" unfolding Metric_Valid_def MetricL2_def MetricMIPSL2_def word_le_nat_alt by simp_all
  then have "unat m = unat (1 :: u8) \<or> unat m = unat (2 :: u8) \<or> unat m = unat (3 :: u8) \<or> unat m = unat (4 :: u8)"
    by auto
  then show ?thesis
    unfolding word_unat_eq_iff[symmetric]
    by (auto simp: Metric_Distance_def MetricL2_def MetricIP_def MetricCosine_def MetricMIPSL2_def)
qed

text \<open>
  C27: Exact search is exact. For a valid metric, query, options and candidate vectors, with no
  cancellation and no score that is NaN, \<open>topKCandidatesWithOptions\<close> returns, best first with ties by
  ascending key, the top-k best of all candidates that pass the filter and lie within the radius.
\<close>

theorem exact_search_returns_best:
  assumes "ctx \<noteq> NilCtx" and "quiet env" and "Metric_Valid m" and "Metric_Distance kn m = Inr distance"
    and "ValidateDense query (length query) = None" and "SearchOptions_Validate opts = None"
    and "\<forall>c\<in>set (passing opts (map candidateAt [0..<n])). ValidateDense (cdVector c) (length query) = None"
    and "\<forall>r\<in>set (eligible m distance query opts (map candidateAt [0..<n])). numeric r"
  shows "\<exists>rs env'. topKCandidatesWithOptions kn ctx m query opts n candidateAt required env = (Inr (Inr rs), env')
    \<and> best_of (resultBetter m) (nat (soTopK opts)) (eligible m distance query opts (map candidateAt [0..<n])) rs"
proof -
  obtain env' where env': "ctx_Err ctx env = (None, env')" "quiet env'" using ctx_quietE[OF assms(2)] by metis
  have k: "0 < soTopK opts" using assms(6) by (simp add: SearchOptions_Validate_def split: if_splits)
  have empty: "best_of (resultBetter m) (nat (soTopK opts)) (eligible m distance query opts []) []"
    by (simp add: best_of_def eligible_def passing_def)
  have "\<exists>rs env''. select_topk True ctx m distance query opts (map candidateAt [0..<n]) env' = (Inr (Inr rs), env'')
      \<and> best_of (resultBetter m) (nat (soTopK opts)) (eligible m distance query opts (map candidateAt [0..<n])) rs" if "0 < n"
    using select_topk_exact[OF env'(2) k, where cs = "map candidateAt [0..<n]" and checked = True] that assms(7,8) by simp
  then show ?thesis
    using assms k env' empty by (cases "n = 0") (auto simp: topKCandidatesWithOptions_def)
qed

text \<open>
  Witness: of three one-dimensional candidates scored by their own value, the two largest under the
  inner product are returned, the larger first.
\<close>

definition sample_kernels :: kernels where
  "sample_kernels = \<lparr>knL2Squared = \<lambda>v q. hd v, knInnerProduct = \<lambda>v q. hd v, knCosineDistance = \<lambda>v q. hd v,
     knMIPSL2Squared = \<lambda>v q. hd v\<rparr>"

definition sample_candidates :: "Candidate list" where
  "sample_candidates = [\<lparr>cdKey = 7, cdVector = [0x3f800000]\<rparr>, \<lparr>cdKey = 5, cdVector = [0x40400000]\<rparr>,
     \<lparr>cdKey = 9, cdVector = [0x40000000]\<rparr>]"

definition sample_options :: SearchOptions where
  "sample_options = \<lparr>soTopK = 2, soRadius = 0, soFilter = None\<rparr>"

lemma sample_eligible: "eligible MetricIP (\<lambda>v q. hd v) [0x3f800000] sample_options (map ((!) sample_candidates) [0..<3])
    = [\<lparr>rsKey = 7, rsScore = 0x3f800000\<rparr>, \<lparr>rsKey = 5, rsScore = 0x40400000\<rparr>, \<lparr>rsKey = 9, rsScore = 0x40000000\<rparr>]"
  by code_simp

theorem exact_search_returns_best_witness:
  "\<exists>rs env'. topKCandidatesWithOptions sample_kernels Ctx MetricIP [0x3f800000] sample_options 3 ((!) sample_candidates) True calm
      = (Inr (Inr rs), env')
    \<and> best_of (resultBetter MetricIP) 2
        [\<lparr>rsKey = 7, rsScore = 0x3f800000\<rparr>, \<lparr>rsKey = 5, rsScore = 0x40400000\<rparr>, \<lparr>rsKey = 9, rsScore = 0x40000000\<rparr>] rs"
proof -
  have "Metric_Valid MetricIP" "ValidateDense [0x3f800000] (length [0x3f800000 :: f32]) = None"
      "SearchOptions_Validate sample_options = None"
      "list_all (\<lambda>c. ValidateDense (cdVector c) (length [0x3f800000 :: f32]) = None)
         (passing sample_options (map ((!) sample_candidates) [0..<3]))"
    by code_simp+
  moreover have "Metric_Distance sample_kernels MetricIP = Inr (\<lambda>v q. hd v)"
    by (simp add: Metric_Distance_def sample_kernels_def MetricIP_def MetricL2_def)
  moreover have "list_all numeric (eligible MetricIP (\<lambda>v q. hd v) [0x3f800000] sample_options (map ((!) sample_candidates) [0..<3]))"
    by code_simp
  moreover have "nat (soTopK sample_options) = 2" by (simp add: sample_options_def)
  ultimately show ?thesis
    using exact_search_returns_best[where env = calm and ctx = Ctx and m = MetricIP and kn = sample_kernels
        and distance = "\<lambda>v q. hd v" and query = "[0x3f800000]" and opts = sample_options
        and candidateAt = "(!) sample_candidates" and n = 3 and required = True]
    unfolding sample_eligible list_all_iff by simp
qed


subsection \<open>Merging the results of segments\<close>

text \<open>What a segment leaves out cannot be among the best of all segments.\<close>

lemma sum_diff_mset:
  assumes "list_all2 (\<lambda>xs b. mset b \<subseteq># mset xs) xss bs" and "a \<in># mset (concat xss) - mset (concat bs)"
  shows "\<exists>xs b. (xs, b) \<in> set (zip xss bs) \<and> a \<in># mset xs - mset b"
  using assms
proof (induction rule: list_all2_induct)
  case (Cons xs xss b bs)
  obtain r where "mset xs = mset b + r" using Cons.hyps(1) by (metis subset_mset.add_diff_inverse)
  then have "a \<in># r \<or> a \<in># mset (concat xss) - mset (concat bs)"
    using Cons.prems by (simp add: in_diff_count) (metis add_0 not_in_iff)
  then show ?case using Cons.IH \<open>mset xs = mset b + r\<close> by (metis add_diff_cancel_left' list.set_intros zip_Cons_Cons)
qed simp

lemma best_of_merge:
  assumes parts: "list_all2 (best_of (\<lambda>a b. f a < f b) k) xss bs"
    and merged: "best_of (\<lambda>a b. f a < (f b :: 'b::linorder)) k (concat bs) rs"
  shows "best_of (\<lambda>a b. f a < f b) k (concat xss) rs"
proof -
  have subs: "list_all2 (\<lambda>xs b. mset b \<subseteq># mset xs) xss bs"
    using parts by (rule list_all2_mono) (simp add: best_of_def)
  then have sub: "mset (concat bs) \<subseteq># mset (concat xss)"
    by (induction rule: list_all2_induct) (auto intro: subset_mset.add_mono)
  have rs: "mset rs \<subseteq># mset (concat bs)" "length rs = min k (length (concat bs))"
    using merged by (simp_all add: best_of_def)
  have local_out: "length rs = k \<and> (\<forall>b\<in>#mset rs. f b \<le> f a)"
    if out: "a \<in># mset (concat xss) - mset (concat bs)" for a
  proof -
    obtain xs b where xb: "(xs, b) \<in> set (zip xss bs)" "a \<in># mset xs - mset b" using sum_diff_mset[OF subs out] by auto
    then have best: "best_of (\<lambda>a b. f a < f b) k xs b" using parts by (auto simp: list_all2_iff)
    have "length b < length xs"
      using best xb(2) by (metis best_of_def diff_empty mset_subset_size size_mset subset_mset.le_neq_trans
          cancel_comm_monoid_add_class.diff_cancel empty_iff set_mset_empty)
    then have kb: "length b = k" using best by (auto simp: best_of_def)
    have "b \<in> set bs" using xb(1) by (rule set_zip_rightD)
    then have b_in: "mset b \<subseteq># mset (concat bs)" by (induction bs) (auto intro: subset_mset.add_increasing subset_mset.add_increasing2)
    then have full: "length rs = k" using kb rs(2) size_mset_mono[OF b_in] by simp
    have le_a: "f c \<le> f a" if "c \<in># mset b" for c using best xb(2) that by (auto simp: best_of_def not_less)
    have "f r \<le> f a" if r: "r \<in># mset rs" for r
    proof (rule ccontr)
      assume "\<not> f r \<le> f a"
      have "mset b \<subseteq># mset rs"
      proof (rule ccontr)
        assume "\<not> mset b \<subseteq># mset rs"
        then obtain c where c: "count (mset rs) c < count (mset b) c" by (meson leI subseteq_mset_def)
        then have "c \<in># mset b" by (metis count_greater_zero_iff gr_zeroI not_less_zero)
        have "c \<in># mset (concat bs) - mset rs"
          using c b_in by (metis in_diff_count le_less_trans mset_subset_eq_count not_le)
        then have "f r \<le> f c" using merged r by (auto simp: best_of_def not_less)
        then show False using le_a[OF \<open>c \<in># mset b\<close>] \<open>\<not> f r \<le> f a\<close> by simp
      qed
      then have "mset b = mset rs" using kb full by (metis mset_subset_size nat_neq_iff size_mset subset_mset.le_neq_trans)
      then show False using le_a r \<open>\<not> f r \<le> f a\<close> by simp
    qed
    then show ?thesis using full by simp
  qed
  have "\<not> f a < f b" if "a \<in># mset (concat xss) - mset rs" "b \<in># mset rs" for a b
  proof -
    have "a \<in># mset (concat xss) - mset (concat bs) \<or> a \<in># mset (concat bs) - mset rs"
      using that(1) by (auto simp: in_diff_count)
    then show ?thesis using local_out merged that(2) by (auto simp: best_of_def not_less)
  qed
  moreover have "length rs = min k (length (concat xss))"
  proof (cases "mset (concat xss) = mset (concat bs)")
    case True
    then show ?thesis using rs(2) by (metis size_mset)
  next
    case False
    then obtain a where "a \<in># mset (concat xss) - mset (concat bs)"
      using sub by (metis multiset_nonemptyE subset_mset.diff_add add_0)
    then have "length rs = k" using local_out by blast
    moreover have "length (concat bs) \<le> length (concat xss)" using size_mset_mono[OF sub] by (simp only: size_mset)
    ultimately show ?thesis using rs(2) by linarith
  qed
  moreover have "mset rs \<subseteq># mset (concat xss)" using rs(1) sub by (rule subset_mset.order_trans)
  ultimately show ?thesis using merged by (simp add: best_of_def)
qed


lemma best_of_cong:
  assumes "\<And>a b. a \<in> set xs \<Longrightarrow> b \<in> set xs \<Longrightarrow> lt a b = lt' a b" and "best_of lt k xs rs"
  shows "best_of lt' k xs rs"
proof -
  have sub: "set rs \<subseteq> set xs" using assms(2) by (metis best_of_def mset_subset_eqD set_mset_mset subsetI)
  have "sorted_wrt (\<lambda>a b. \<not> lt' b a) rs"
    by (rule sorted_wrt_mono_rel[where P = "\<lambda>a b. \<not> lt b a"])
      (use assms sub in \<open>auto simp: best_of_def\<close>)
  moreover have "\<not> lt' a b" if "a \<in># mset xs - mset rs" "b \<in># mset rs" for a b
    using assms that sub by (metis best_of_def in_diffD set_mset_mset subsetD)
  ultimately show ?thesis using assms(2) by (simp add: best_of_def)
qed

lemma best_of_set: "best_of lt k xs rs \<Longrightarrow> set rs \<subseteq> set xs"
  by (metis best_of_def mset_subset_eqD set_mset_mset subsetI)

lemma distinct_submset: "mset rs \<subseteq># mset xs \<Longrightarrow> distinct xs \<Longrightarrow> distinct rs"
proof -
  assume "mset rs \<subseteq># mset xs" "distinct xs"
  then obtain zs where "mset xs = mset (rs @ zs)" by (metis ex_mset mset_append mset_subset_eq_exists_conv)
  then show ?thesis using \<open>distinct xs\<close> mset_eq_imp_distinct_iff by fastforce
qed

text \<open>With pairwise different ranks the best results are determined, whatever the order of the input.\<close>

lemma best_of_unique:
  fixes f :: "'a \<Rightarrow> 'b::linorder"
  assumes rs: "best_of (\<lambda>a b. f a < f b) k xs rs" and qs: "best_of (\<lambda>a b. f a < f b) k ys qs"
    and perm: "mset ys = mset xs" and dist: "distinct (map f xs)"
  shows "rs = qs"
proof -
  have distinct: "distinct rs" "distinct qs" and inj: "inj_on f (set xs)"
    using rs qs dist distinct_submset[of rs xs] distinct_submset[of qs xs] perm by (auto simp: best_of_def distinct_map)
  have sub: "set rs \<subseteq> set xs" "set qs \<subseteq> set xs" using best_of_set[OF rs] best_of_set[OF qs] perm by (metis set_mset_mset)+
  have len: "length rs = length qs" using rs qs perm by (metis best_of_def size_mset)
  have out: "f b \<le> f a" if "a \<in> set xs" "a \<notin> set zs" "b \<in> set zs" "best_of (\<lambda>a b. f a < f b) k us zs" "mset us = mset xs" for a b zs us
  proof -
    have "a \<in># mset us - mset zs" using that by (simp add: in_diff_count not_in_iff flip: count_mset_0_iff) 
    then show ?thesis using that by (auto simp: best_of_def not_less)
  qed
  have "set rs \<subseteq> set qs"
  proof
    fix a assume a: "a \<in> set rs"
    show "a \<in> set qs"
    proof (rule ccontr)
      assume na: "a \<notin> set qs"
      have "card (set rs) = card (set qs)" using distinct len by (simp add: distinct_card)
      then obtain b where b: "b \<in> set qs" "b \<notin> set rs" using a na by (metis card_subset_eq finite_set subsetI)
      have "f b \<le> f a" using out[OF _ na b(1) qs perm] a sub by auto
      moreover have "f a \<le> f b" using out[OF _ b(2) a rs refl] b(1) sub by auto
      ultimately show False using inj a b sub by (metis antisym inj_onD subsetD)
    qed
  qed
  then have "set rs = set qs" using distinct len by (metis card_subset_eq distinct_card finite_set)
  moreover have "sorted (map f rs)" "sorted (map f qs)"
    using rs qs by (simp_all add: best_of_def sorted_map not_less)
  ultimately have "map f rs = map f qs"
    using distinct inj sub by (intro sorted_distinct_set_unique) (auto simp: distinct_map intro: inj_on_subset)
  then show ?thesis using inj sub by (metis inj_on_map_eq_map inj_on_subset sup.idem sup.mono sup_least)
qed


lemma best_of_rank_iff:
  assumes "\<forall>r\<in>set xs. numeric r"
  shows "best_of (resultBetter m) k xs rs \<longleftrightarrow> best_of (\<lambda>a b. result_rank m a < result_rank m b) k xs rs"
  using best_of_cong[of xs "resultBetter m" "\<lambda>a b. result_rank m a < result_rank m b" k rs]
    best_of_cong[of xs "\<lambda>a b. result_rank m a < result_rank m b" "resultBetter m" k rs] assms
  by (auto simp: resultBetter_rank)

lemma merge_best:
  assumes "0 < k" and num: "\<forall>r\<in>set (concat batches). numeric r"
  shows "best_of (resultBetter m) (nat k) (concat batches) (MergeSearchResults m k batches)"
proof -
  have pos: "0 < nat k" using assms(1) by simp
  obtain ys where ys: "fold (offer m (nat k)) (concat batches) (worst_heap m []) = worst_heap m ys"
      "rank_heap (result_rank m) (nat k) (concat batches) ys"
    using fold_offer[where m = m and rs = "concat batches", OF pos rank_heap_empty] num by auto
  have "MergeSearchResults m k batches = sorted_results m (worst_heap m ys)"
    using assms(1) ys(1)
    by (simp add: MergeSearchResults_def NewHeap_def NewHeapWithCapacity_def Let_def Heap_Values_def sorted_results_def
        slices_SortFunc_def)
  then show ?thesis using sorted_results_best[OF ys(2) num] by simp
qed

lemma best_parts_sub:
  assumes "list_all2 (best_of lt k) xss batches"
  shows "mset (concat batches) \<subseteq># mset (concat xss)"
  using assms by (induction rule: list_all2_induct) (auto simp: best_of_def intro: subset_mset.add_mono)

lemma merge_parts:
  assumes k: "0 < k" and num: "\<forall>r\<in>set (concat xss). numeric r"
    and parts: "list_all2 (best_of (resultBetter m) (nat k)) xss batches"
  shows "best_of (resultBetter m) (nat k) (concat xss) (MergeSearchResults m k batches)"
proof -
  have "list_all2 (best_of (\<lambda>a b. result_rank m a < result_rank m b) (nat k)) xss batches"
    by (rule list.rel_mono_strong[OF parts]) (use num in \<open>simp add: best_of_rank_iff\<close>)
  moreover have "\<forall>r\<in>set (concat batches). numeric r"
    using num mset_subset_eqD[OF best_parts_sub[OF parts]] by (metis set_mset_mset)
  ultimately show ?thesis
    using merge_best[OF k] best_of_rank_iff best_of_merge num by metis
qed

text \<open>
  C28: Merging is exact and deterministic. When every segment delivers the \<open>k\<close> best of its own results
  and no score is NaN, \<open>MergeSearchResults\<close> delivers the \<open>k\<close> best of all segments together; and when the
  keys are pairwise different, every order of the segments gives the same answer.
\<close>

theorem merge_of_segments_is_global:
  assumes k: "0 < k" and num: "\<forall>r\<in>set (concat xss). numeric r"
    and parts: "list_all2 (best_of (resultBetter m) (nat k)) xss batches"
    and perm: "mset batches' = mset batches"
  shows "best_of (resultBetter m) (nat k) (concat xss) (MergeSearchResults m k batches)
    \<and> (distinct (map rsKey (concat xss)) \<longrightarrow> MergeSearchResults m k batches' = MergeSearchResults m k batches)"
proof (intro conjI impI)
  show "best_of (resultBetter m) (nat k) (concat xss) (MergeSearchResults m k batches)"
    using k num parts by (rule merge_parts)
  assume keys: "distinct (map rsKey (concat xss))"
  note sub = best_parts_sub[OF parts]
  have "mset (concat bs) = sum_mset (image_mset mset (mset bs))" for bs :: "Result list list"
    by (induction bs) simp_all
  then have perm_c: "mset (concat batches') = mset (concat batches)" using perm by simp
  have num_b: "\<forall>r\<in>set (concat batches). numeric r" using num mset_subset_eqD[OF sub] by (metis set_mset_mset)
  then have num_b': "\<forall>r\<in>set (concat batches'). numeric r" using perm_c by (metis set_mset_mset)
  have "distinct (map rsKey (concat batches))"
    by (rule distinct_submset[OF _ keys]) (simp only: mset_map image_mset_subseteq_mono[OF sub])
  then have "distinct (map (result_rank m) (concat batches))"
    by (auto simp: distinct_map inj_on_def result_rank_def)
  moreover note merge_best[OF k num_b, of m, unfolded best_of_rank_iff[OF num_b]]
    merge_best[OF k num_b', of m, unfolded best_of_rank_iff[OF num_b']]
  ultimately show "MergeSearchResults m k batches' = MergeSearchResults m k batches"
    using best_of_unique perm_c by metis
qed

text \<open>Witness: two segments of two and one results, of which two are kept.\<close>

definition sample_segments :: "Result list list" where
  "sample_segments = [[\<lparr>rsKey = 1, rsScore = 0x3f800000\<rparr>, \<lparr>rsKey = 2, rsScore = 0x40400000\<rparr>],
     [\<lparr>rsKey = 3, rsScore = 0x40000000\<rparr>]]"

theorem merge_of_segments_is_global_witness:
  "best_of (resultBetter MetricL2) 2 (concat sample_segments) (MergeSearchResults MetricL2 2 sample_segments)
   \<and> MergeSearchResults MetricL2 2 (rev sample_segments) = MergeSearchResults MetricL2 2 sample_segments"
proof -
  have "list_all numeric (concat sample_segments)" "distinct (map rsKey (concat sample_segments))"
    by code_simp+
  moreover have "list_all2 (best_of (resultBetter MetricL2) (nat 2)) sample_segments sample_segments"
  proof -
    have "\<not> resultBetter MetricL2 \<lparr>rsKey = 2, rsScore = 0x40400000\<rparr> \<lparr>rsKey = 1, rsScore = 0x3f800000\<rparr>" by code_simp
    then show ?thesis by (simp add: sample_segments_def best_of_def)
  qed
  ultimately show ?thesis
    using merge_of_segments_is_global[where k = 2 and m = MetricL2 and xss = sample_segments
        and batches = sample_segments and batches' = "rev sample_segments"]
    by (simp add: list_all_iff)
qed

end
