(* ===== verification/Parallel.thy ===== *)
theory Parallel
  imports Prelude "HOL-Library.Multiset"
begin

text \<open>
  \<open>ParallelFor\<close> of \<^verbatim>\<open>src/internal/ailego/parallel/thread_pool.go\<close>: worker goroutines claim indices from
  an atomic counter and call a function on each. The goroutines interleave at their atomic actions:
  the check of the group context, the increment of the counter, and the call together with what it
  writes. The package \<open>errgroup\<close> is a parameter with its documented behaviour as hypothesis.
\<close>

subsection \<open>The error group\<close>

text \<open>
  A function passed to \<open>Go\<close> returns with or without an error; \<open>Wait\<close> reports the first error; the
  derived context is cancelled once an error was returned, or when the parent context is.
\<close>

record 'g errgroup =
  egNew :: 'g
  egReturn :: "error option \<Rightarrow> 'g \<Rightarrow> 'g"
  egCancel :: "error \<Rightarrow> 'g \<Rightarrow> 'g"
  egCtxErr :: "'g \<Rightarrow> error option"
  egWait :: "'g \<Rightarrow> error option"

definition errgroup_ok :: "'g errgroup \<Rightarrow> bool" where
  "errgroup_ok eg \<longleftrightarrow> egWait eg (egNew eg) = None
     \<and> (\<forall>r g. egWait eg (egReturn eg r g) = (case egWait eg g of Some err \<Rightarrow> Some err | None \<Rightarrow> r))
     \<and> (\<forall>err g. egWait eg (egCancel eg err g) = egWait eg g)
     \<and> egCtxErr eg (egNew eg) = None
     \<and> (\<forall>g. egCtxErr eg (egReturn eg None g) = egCtxErr eg g)
     \<and> (\<forall>err g. egCtxErr eg (egReturn eg (Some err) g) \<noteq> None)
     \<and> (\<forall>err g. egCtxErr eg (egCancel eg err g) \<noteq> None)"

subsection \<open>Start\<close>

text \<open>
  The checks before the goroutines start: an early return, or the number of workers. \<open>procs\<close> is
  \<open>GOMAXPROCS\<close>.
\<close>

definition parallel_workers :: "nat \<Rightarrow> int \<Rightarrow> bool \<Rightarrow> int \<Rightarrow> error option + nat" where
  "parallel_workers procs n fn_nil workers =
     (if n < 0 then Inl (Some (ErrMsg ''ailego: negative parallel range''))
      else if n = 0 then Inl None
      else if fn_nil then Inl (Some (ErrMsg ''ailego: nil parallel function''))
      else
        let workers = (if workers \<le> 0 then int procs else workers) in
        Inr (nat (if workers > n then n else workers)))"

subsection \<open>Interleaved workers\<close>

text \<open>A worker is about to check the context, to claim an index, to call the function, or has returned.\<close>

datatype worker = Check | Claim | Call nat | Done

record ('g, 's) pool =
  plNext :: nat
  plWorkers :: "worker list"
  plGroup :: 'g
  plShared :: 's
  plCalls :: "nat list"

text \<open>
  \<open>fn i s (r, s')\<close> says that the call on index \<open>i\<close> may return \<open>r\<close> and change the shared state from \<open>s\<close> to
  \<open>s'\<close>. \<open>plCalls\<close> records the finished calls.
\<close>

inductive worker_step :: "'g errgroup \<Rightarrow> (nat \<Rightarrow> 's \<Rightarrow> error option \<times> 's \<Rightarrow> bool) \<Rightarrow> nat \<Rightarrow> ('g, 's) pool \<Rightarrow> ('g, 's) pool \<Rightarrow> bool"
  for eg fn n where
  check_cancelled: "w < length (plWorkers p) \<Longrightarrow> plWorkers p ! w = Check \<Longrightarrow> egCtxErr eg (plGroup p) = Some err \<Longrightarrow>
     worker_step eg fn n p (p\<lparr>plWorkers := (plWorkers p)[w := Done], plGroup := egReturn eg (Some err) (plGroup p)\<rparr>)"
| check_live: "w < length (plWorkers p) \<Longrightarrow> plWorkers p ! w = Check \<Longrightarrow> egCtxErr eg (plGroup p) = None \<Longrightarrow>
     worker_step eg fn n p (p\<lparr>plWorkers := (plWorkers p)[w := Claim]\<rparr>)"
| claim_index: "w < length (plWorkers p) \<Longrightarrow> plWorkers p ! w = Claim \<Longrightarrow> plNext p < n \<Longrightarrow>
     worker_step eg fn n p (p\<lparr>plNext := plNext p + 1, plWorkers := (plWorkers p)[w := Call (plNext p)]\<rparr>)"
| claim_nothing: "w < length (plWorkers p) \<Longrightarrow> plWorkers p ! w = Claim \<Longrightarrow> n \<le> plNext p \<Longrightarrow>
     worker_step eg fn n p (p\<lparr>plNext := plNext p + 1, plWorkers := (plWorkers p)[w := Done],
       plGroup := egReturn eg None (plGroup p)\<rparr>)"
| call_failed: "w < length (plWorkers p) \<Longrightarrow> plWorkers p ! w = Call i \<Longrightarrow> fn i (plShared p) (Some err, s) \<Longrightarrow>
     worker_step eg fn n p (p\<lparr>plWorkers := (plWorkers p)[w := Done], plGroup := egReturn eg (Some err) (plGroup p),
       plShared := s, plCalls := plCalls p @ [i]\<rparr>)"
| call_succeeded: "w < length (plWorkers p) \<Longrightarrow> plWorkers p ! w = Call i \<Longrightarrow> fn i (plShared p) (None, s) \<Longrightarrow>
     worker_step eg fn n p (p\<lparr>plWorkers := (plWorkers p)[w := Check], plShared := s, plCalls := plCalls p @ [i]\<rparr>)"

text \<open>
  A run counts the steps of the workers; between them the caller's context may be cancelled.
\<close>

inductive pool_run :: "'g errgroup \<Rightarrow> (nat \<Rightarrow> 's \<Rightarrow> error option \<times> 's \<Rightarrow> bool) \<Rightarrow> nat \<Rightarrow> ('g, 's) pool \<Rightarrow> nat \<Rightarrow> ('g, 's) pool \<Rightarrow> bool"
  for eg fn n start where
  pool_start: "pool_run eg fn n start 0 start"
| pool_worker: "pool_run eg fn n start c p \<Longrightarrow> worker_step eg fn n p q \<Longrightarrow> pool_run eg fn n start (Suc c) q"
| pool_cancel: "pool_run eg fn n start c p \<Longrightarrow> pool_run eg fn n start c (p\<lparr>plGroup := egCancel eg err (plGroup p)\<rparr>)"

definition pool_init :: "'g errgroup \<Rightarrow> nat \<Rightarrow> 's \<Rightarrow> ('g, 's) pool" where
  "pool_init eg workers s = \<lparr>plNext = 0, plWorkers = replicate workers Check, plGroup = egNew eg, plShared = s, plCalls = []\<rparr>"

definition pool_finished :: "('g, 's) pool \<Rightarrow> bool" where
  "pool_finished p \<longleftrightarrow> (\<forall>w\<in>set (plWorkers p). w = Done)"

text \<open>The outcomes of \<open>ParallelFor\<close>: the error \<open>Wait\<close> reports, with the shared state the calls left.\<close>

inductive ParallelFor :: "'g errgroup \<Rightarrow> nat \<Rightarrow> int \<Rightarrow> int \<Rightarrow> (nat \<Rightarrow> 's \<Rightarrow> error option \<times> 's \<Rightarrow> bool) option \<Rightarrow> 's
    \<Rightarrow> error option \<times> 's \<Rightarrow> bool"
  for eg procs n workers where
  parallel_early: "parallel_workers procs n (fn = None) workers = Inl r \<Longrightarrow> ParallelFor eg procs n workers fn s (r, s)"
| parallel_wait: "parallel_workers procs n False workers = Inr k \<Longrightarrow>
     pool_run eg fn (nat n) (pool_init eg k s) c p \<Longrightarrow> pool_finished p \<Longrightarrow>
     ParallelFor eg procs n workers (Some fn) s (egWait eg (plGroup p), plShared p)"

inductive_simps ParallelFor_iff: "ParallelFor eg procs n workers (Some fn) s (r, s')"


subsection \<open>Every index is claimed once\<close>

definition open_call :: "worker \<Rightarrow> nat multiset" where
  "open_call w = (case w of Call i \<Rightarrow> {#i#} | _ \<Rightarrow> {#})"

definition open_calls :: "worker list \<Rightarrow> nat multiset" where
  "open_calls ws = sum_mset (image_mset open_call (mset ws))"

lemma open_call_simps [simp]:
  "open_call Check = {#}" "open_call Claim = {#}" "open_call Done = {#}" "open_call (Call i) = {#i#}"
  by (simp_all add: open_call_def)

lemma open_calls_update:
  assumes "w < length ws"
  shows "open_call (ws ! w) + open_calls (ws[w := v]) = open_call v + open_calls ws"
proof -
  define M where "M = mset ws - {#ws ! w#}"
  have "mset ws = add_mset (ws ! w) M" using assms by (simp add: M_def)
  moreover have "mset (ws[w := v]) = add_mset v M" using assms unfolding M_def by (rule mset_update)
  ultimately show ?thesis by (simp add: open_calls_def)
qed

lemma open_calls_keep:
  assumes "w < length ws" and "open_call (ws ! w) = open_call v"
  shows "open_calls (ws[w := v]) = open_calls ws"
  using open_calls_update[OF assms(1), of v] assms(2) by simp

definition pool_inv :: "'g errgroup \<Rightarrow> nat \<Rightarrow> ('g, 's) pool \<Rightarrow> bool" where
  "pool_inv eg n p \<longleftrightarrow> open_calls (plWorkers p) + mset (plCalls p) = mset [0..<min (plNext p) n]
     \<and> (egWait eg (plGroup p) = None \<longrightarrow> Done \<in> set (plWorkers p) \<longrightarrow> n \<le> plNext p)"

lemma errgroup_okD:
  assumes "errgroup_ok eg"
  shows "egWait eg (egNew eg) = None" "egWait eg (egReturn eg None g) = egWait eg g"
    "egWait eg (egReturn eg (Some err) g) \<noteq> None" "egWait eg (egCancel eg err g) = egWait eg g"
  using assms by (auto simp: errgroup_ok_def split: option.splits)

lemma in_set_update: "x \<in> set (xs[w := v]) \<Longrightarrow> x = v \<or> x \<in> set xs"
  using set_update_subset_insert[of xs w v] by blast

lemma worker_step_inv:
  assumes "errgroup_ok eg" and "worker_step eg fn n p q" and "pool_inv eg n p"
  shows "pool_inv eg n q \<and> length (plWorkers q) = length (plWorkers p)"
  using assms(2,3)
proof (induction rule: worker_step.induct)
  case (check_cancelled w p err)
  then show ?case using open_calls_keep[of w "plWorkers p" Done]
    by (simp add: pool_inv_def errgroup_okD(3)[OF assms(1)])
next
  case (check_live w p)
  then show ?case using open_calls_keep[of w "plWorkers p" Claim] in_set_update[of Done "plWorkers p" w Claim]
    by (auto simp: pool_inv_def)
next
  case (claim_index w p)
  have "open_calls ((plWorkers p)[w := Call (plNext p)]) = add_mset (plNext p) (open_calls (plWorkers p))"
    using open_calls_update[OF claim_index(1), of "Call (plNext p)"] claim_index(2) by simp
  moreover have "mset [0..<min (plNext p + 1) n] = add_mset (plNext p) (mset [0..<min (plNext p) n])"
    using claim_index(3) by simp
  ultimately show ?case using claim_index in_set_update[of Done "plWorkers p" w "Call (plNext p)"]
    by (auto simp: pool_inv_def)
next
  case (claim_nothing w p)
  then show ?case using open_calls_keep[of w "plWorkers p" Done] by (simp add: pool_inv_def)
next
  case (call_failed w p i err s)
  have "open_calls (plWorkers p) = add_mset i (open_calls ((plWorkers p)[w := Done]))"
    using open_calls_update[OF call_failed(1), of Done] call_failed(2) by simp
  then show ?case using call_failed by (simp add: pool_inv_def errgroup_okD(3)[OF assms(1)])
next
  case (call_succeeded w p i s)
  have "open_calls (plWorkers p) = add_mset i (open_calls ((plWorkers p)[w := Check]))"
    using open_calls_update[OF call_succeeded(1), of Check] call_succeeded(2) by simp
  then show ?case using call_succeeded in_set_update[of Done "plWorkers p" w Check] by (auto simp: pool_inv_def)
qed

lemma pool_run_inv:
  assumes "errgroup_ok eg" and "pool_run eg fn n start c p" and "pool_inv eg n start"
  shows "pool_inv eg n p \<and> length (plWorkers p) = length (plWorkers start)"
  using assms(2,3)
proof (induction rule: pool_run.induct)
  case (pool_worker c p q)
  then show ?case using worker_step_inv[OF assms(1) pool_worker.hyps(2)] by simp
next
  case (pool_cancel c p err)
  then show ?case using errgroup_okD(4)[OF assms(1)] by (simp add: pool_inv_def)
qed simp

lemma pool_init_inv: "pool_inv eg n (pool_init eg k s)"
proof -
  have "Done \<notin> set (replicate k Check)" by (cases k) auto
  moreover have "open_calls (replicate k Check) = {#}" by (induction k) (simp_all add: open_calls_def)
  ultimately show ?thesis by (simp add: pool_inv_def pool_init_def)
qed

lemma parallel_workers_pos:
  "parallel_workers procs n b workers = Inr k \<Longrightarrow> 0 < procs \<Longrightarrow> 0 < k \<and> 0 < n"
  by (auto simp: parallel_workers_def Let_def split: if_splits)

lemma pool_calls:
  assumes ok: "errgroup_ok eg" and run: "pool_run eg fn n (pool_init eg k s) c p"
  shows "distinct (plCalls p)" and "set (plCalls p) \<subseteq> {0..<n}"
    and "0 < k \<Longrightarrow> pool_finished p \<Longrightarrow> egWait eg (plGroup p) = None \<Longrightarrow> mset (plCalls p) = mset [0..<n]"
proof -
  have inv: "open_calls (plWorkers p) + mset (plCalls p) = mset [0..<min (plNext p) n]"
      "egWait eg (plGroup p) = None \<Longrightarrow> Done \<in> set (plWorkers p) \<Longrightarrow> n \<le> plNext p"
    and len: "length (plWorkers p) = k"
    using pool_run_inv[OF ok run pool_init_inv] by (auto simp: pool_inv_def pool_init_def)
  have sub: "mset (plCalls p) \<subseteq># mset [0..<min (plNext p) n]" using inv(1) by (metis mset_subset_eq_add_right)
  then obtain zs where zs: "mset [0..<min (plNext p) n] = mset (plCalls p @ zs)"
    by (metis ex_mset mset_append mset_subset_eq_exists_conv)
  show "distinct (plCalls p)" using mset_eq_imp_distinct_iff[OF zs] by simp
  show "set (plCalls p) \<subseteq> {0..<n}" using mset_eq_setD[OF zs] by auto
  show "mset (plCalls p) = mset [0..<n]" if "0 < k" "pool_finished p" "egWait eg (plGroup p) = None"
  proof -
    have all: "plWorkers p = replicate k Done" using that(2) len by (simp add: pool_finished_def replicate_eqI)
    then have "min (plNext p) n = n" using inv(2) that by simp
    moreover have "open_calls (replicate k Done) = {#}" by (induction k) (simp_all add: open_calls_def)
    ultimately show ?thesis using inv(1) all by simp
  qed
qed

text \<open>
  C29: However the goroutines of \<open>ParallelFor\<close> interleave and whenever the context is cancelled, no
  index is processed twice and none outside the range; and when all workers have returned and \<open>Wait\<close>
  reports no error, every index of the range was processed exactly once.
\<close>

theorem parallel_for_each_index_once:
  assumes "errgroup_ok eg" and "parallel_workers procs n False workers = Inr k" and "0 < procs"
    and "pool_run eg fn (nat n) (pool_init eg k s) c p"
  shows "distinct (plCalls p) \<and> set (plCalls p) \<subseteq> {0..<nat n}
    \<and> (pool_finished p \<and> egWait eg (plGroup p) = None \<longrightarrow> mset (plCalls p) = mset [0..<nat n])"
  using pool_calls[OF assms(1,4)] parallel_workers_pos[OF assms(2,3)] by blast

text \<open>Witness: one worker on a range of one index, with a group that follows the documentation.\<close>

definition sample_group :: "(error option \<times> error option) errgroup" where
  "sample_group = \<lparr>egNew = (None, None),
     egReturn = (\<lambda>r (w, c). (if w = None then r else w, if c = None then r else c)),
     egCancel = (\<lambda>err (w, c). (w, Some err)), egCtxErr = snd, egWait = fst\<rparr>"

lemma sample_group_ok: "errgroup_ok sample_group"
  by (auto simp: errgroup_ok_def sample_group_def split: option.splits)

definition sample_call :: "nat \<Rightarrow> nat list \<Rightarrow> error option \<times> nat list \<Rightarrow> bool" where
  "sample_call i s r \<longleftrightarrow> r = (None, i # s)"

definition sample_end :: "(error option \<times> error option, nat list) pool" where
  "sample_end = \<lparr>plNext = 2, plWorkers = [Done], plGroup = (None, None), plShared = [0], plCalls = [0]\<rparr>"

text \<open>One worker on one index: check, claim, call, check, claim.\<close>

lemma single_run:
  assumes "fn 0 s (None, s')"
  shows "pool_run sample_group fn 1 (pool_init sample_group 1 s) 5
    \<lparr>plNext = 2, plWorkers = [Done], plGroup = (None, None), plShared = s', plCalls = [0]\<rparr>"
proof -
  let ?pool = "\<lambda>next w s cs. \<lparr>plNext = next, plWorkers = [w], plGroup = (None, None), plShared = s, plCalls = cs\<rparr>"
  have start: "pool_init sample_group 1 s = ?pool 0 Check s []" by (simp add: pool_init_def sample_group_def)
  note step = worker_step.intros[where eg = sample_group and fn = fn and n = 1 and w = 0]
  have "worker_step sample_group fn 1 (?pool 0 Check s []) (?pool 0 Claim s [])"
    using step(2)[of "?pool 0 Check s []"] by (simp add: sample_group_def)
  moreover have "worker_step sample_group fn 1 (?pool 0 Claim s []) (?pool 1 (Call 0) s [])"
    using step(3)[of "?pool 0 Claim s []"] by simp
  moreover have "worker_step sample_group fn 1 (?pool 1 (Call 0) s []) (?pool 1 Check s' [0])"
    using step(6)[of "?pool 1 (Call 0) s []" 0 s'] assms by simp
  moreover have "worker_step sample_group fn 1 (?pool 1 Check s' [0]) (?pool 1 Claim s' [0])"
    using step(2)[of "?pool 1 Check s' [0]"] by (simp add: sample_group_def)
  moreover have "worker_step sample_group fn 1 (?pool 1 Claim s' [0]) (?pool 2 Done s' [0])"
    using step(4)[of "?pool 1 Claim s' [0]"] by (simp add: sample_group_def numeral_2_eq_2)
  ultimately have "pool_run sample_group fn 1 (?pool 0 Check s []) (Suc (Suc (Suc (Suc (Suc 0))))) (?pool 2 Done s' [0])"
    by (blast intro: pool_start pool_worker)
  then show ?thesis unfolding start by (simp add: numeral_eq_Suc)
qed

lemma single_parallel:
  assumes "fn 0 s (None, s')"
  shows "ParallelFor sample_group 1 1 0 (Some fn) s (None, s')"
proof -
  have "parallel_workers 1 1 False 0 = Inr 1" by (simp add: parallel_workers_def)
  moreover have "pool_run sample_group fn (nat 1) (pool_init sample_group 1 s) 5
      \<lparr>plNext = 2, plWorkers = [Done], plGroup = (None, None), plShared = s', plCalls = [0]\<rparr>"
    using single_run[of fn s s'] assms by simp
  ultimately show ?thesis
    using parallel_wait[of 1 1 0 1 sample_group fn s 5] by (force simp: pool_finished_def sample_group_def)
qed

lemma sample_run: "pool_run sample_group sample_call 1 (pool_init sample_group 1 []) 5 sample_end"
  unfolding sample_end_def using single_run[of sample_call] by (simp add: sample_call_def)

theorem parallel_for_each_index_once_witness:
  "distinct (plCalls sample_end) \<and> set (plCalls sample_end) \<subseteq> {0..<nat 1} \<and> mset (plCalls sample_end) = mset [0..<nat 1]"
proof -
  have "parallel_workers 4 1 False 0 = Inr 1" by (simp add: parallel_workers_def)
  moreover have "pool_run sample_group sample_call (nat 1) (pool_init sample_group 1 []) 5 sample_end" using sample_run by simp
  moreover have "pool_finished sample_end \<and> egWait sample_group (plGroup sample_end) = None"
    by (simp add: pool_finished_def sample_end_def sample_group_def)
  ultimately show ?thesis using parallel_for_each_index_once[OF sample_group_ok, of 4 1 0 1] by (metis zero_less_numeral)
qed

subsection \<open>Termination\<close>

definition worker_weight :: "worker \<Rightarrow> nat" where
  "worker_weight w = (case w of Check \<Rightarrow> 2 | Claim \<Rightarrow> 1 | Call i \<Rightarrow> 3 | Done \<Rightarrow> 0)"

lemma worker_weight_simps [simp]:
  "worker_weight Check = 2" "worker_weight Claim = 1" "worker_weight (Call i) = 3" "worker_weight Done = 0"
  by (simp_all add: worker_weight_def)

text \<open>The steps that are left: three for each unclaimed index and those of the workers.\<close>

definition pool_work :: "nat \<Rightarrow> ('g, 's) pool \<Rightarrow> nat" where
  "pool_work n p = 3 * (n - plNext p) + sum_list (map worker_weight (plWorkers p))"

lemma weight_update:
  "w < length ws \<Longrightarrow> sum_list (map worker_weight (ws[w := v])) + worker_weight (ws ! w)
     = sum_list (map worker_weight ws) + worker_weight v"
proof (induction ws arbitrary: w)
  case (Cons x ws)
  then show ?case by (cases w) auto
qed simp

lemma worker_step_work: "worker_step eg fn n p q \<Longrightarrow> pool_work n q < pool_work n p"
proof (induction rule: worker_step.induct)
  case (check_cancelled w p err)
  then show ?case using weight_update[of w "plWorkers p" Done] by (simp add: pool_work_def)
next
  case (check_live w p)
  then show ?case using weight_update[of w "plWorkers p" Claim] by (simp add: pool_work_def)
next
  case (claim_index w p)
  then show ?case using weight_update[of w "plWorkers p" "Call (plNext p)"] by (simp add: pool_work_def)
next
  case (claim_nothing w p)
  then show ?case using weight_update[of w "plWorkers p" Done] by (simp add: pool_work_def)
next
  case (call_failed w p i err s)
  then show ?case using weight_update[of w "plWorkers p" Done] by (simp add: pool_work_def)
next
  case (call_succeeded w p i s)
  then show ?case using weight_update[of w "plWorkers p" Check] by (simp add: pool_work_def)
qed

lemma pool_run_work: "pool_run eg fn n start c p \<Longrightarrow> c + pool_work n p \<le> pool_work n start"
proof (induction rule: pool_run.induct)
  case (pool_worker c p q)
  then show ?case using worker_step_work[OF pool_worker.hyps(2)] by simp
qed (simp_all add: pool_work_def)

lemma worker_progress:
  assumes "\<not> pool_finished p" and "\<And>i s. \<exists>r. fn i s r"
  shows "\<exists>q. worker_step eg fn n p q"
proof -
  obtain w where w: "w < length (plWorkers p)" "plWorkers p ! w \<noteq> Done"
    using assms(1) by (auto simp: pool_finished_def in_set_conv_nth)
  show ?thesis
  proof (cases "plWorkers p ! w")
    case Check
    then show ?thesis using check_cancelled[OF w(1) Check] check_live[OF w(1) Check]
      by (cases "egCtxErr eg (plGroup p)") blast+
  next
    case Claim
    then show ?thesis using claim_index[OF w(1) Claim] claim_nothing[OF w(1) Claim]
      by (cases "plNext p < n") (blast, simp add: not_less, blast)
  next
    case (Call i)
    obtain r s where "fn i (plShared p) (r, s)" using assms(2) by (metis surj_pair)
    then show ?thesis using call_failed[OF w(1) Call] call_succeeded[OF w(1) Call] by (cases r) blast+
  qed (use w in simp)
qed

text \<open>
  C30: \<open>ParallelFor\<close> terminates. When every call returns, no schedule makes more than three steps per
  index and two per worker, and as long as a worker has not returned some worker can take a step.
\<close>

theorem parallel_for_terminates:
  assumes "pool_run eg fn n (pool_init eg k s) c p" and "\<And>i s. \<exists>r. fn i s r"
  shows "c \<le> 3 * n + 2 * k \<and> (pool_finished p \<or> (\<exists>q. worker_step eg fn n p q))"
proof -
  have "pool_work n (pool_init eg k s) = 3 * n + 2 * k" by (simp add: pool_work_def pool_init_def sum_list_replicate)
  then have "c \<le> 3 * n + 2 * k" using pool_run_work[OF assms(1)] by simp
  then show ?thesis using worker_progress[of p fn eg n] assms(2) by blast
qed

theorem parallel_for_terminates_witness:
  "(5 :: nat) \<le> 3 * 1 + 2 * 1 \<and> (pool_finished sample_end \<or> (\<exists>q. worker_step sample_group sample_call 1 sample_end q))"
  by (rule parallel_for_terminates[OF sample_run]) (simp add: sample_call_def)

subsection \<open>Collecting one result per index\<close>

text \<open>
  The tasks of the callers write the result of index \<open>i\<close> to slot \<open>i\<close> of a shared slice: \<open>task i\<close> says
  what the search on index \<open>i\<close> may answer.
\<close>

definition store_result :: "(nat \<Rightarrow> error + 'r \<Rightarrow> bool) \<Rightarrow> nat \<Rightarrow> 'r list \<Rightarrow> error option \<times> 'r list \<Rightarrow> bool" where
  "store_result task i s out \<longleftrightarrow>
     (\<exists>err. task i (Inl err) \<and> out = (Some err, s)) \<or> (\<exists>r. task i (Inr r) \<and> out = (None, s[i := r]))"

definition collected :: "'g errgroup \<Rightarrow> (nat \<Rightarrow> error + 'r \<Rightarrow> bool) \<Rightarrow> nat \<Rightarrow> ('g, 'r list) pool \<Rightarrow> bool" where
  "collected eg task len p \<longleftrightarrow> length (plShared p) = len
     \<and> (egWait eg (plGroup p) = None \<longrightarrow> (\<forall>i\<in>set (plCalls p). i < len \<longrightarrow> task i (Inr (plShared p ! i))))"

lemma worker_step_collected:
  assumes ok: "errgroup_ok eg" and "worker_step eg (store_result task) n p q" and "collected eg task len p"
  shows "collected eg task len q"
  using assms(2,3)
proof (induction rule: worker_step.induct)
  case (call_succeeded w p i s)
  then obtain r where r: "task i (Inr r)" "s = (plShared p)[i := r]" by (auto simp: store_result_def)
  have "task j (Inr ((plShared p)[i := r] ! j))" if "j < len" "task j (Inr (plShared p ! j)) \<or> j = i" for j
    using that r(1) call_succeeded.prems by (cases "j = i") (auto simp: collected_def)
  then show ?case using call_succeeded r by (auto simp: collected_def)
qed (auto simp: collected_def errgroup_okD[OF ok] store_result_def)

lemma pool_run_collected:
  assumes "errgroup_ok eg" and "pool_run eg (store_result task) n start c p" and "collected eg task len start"
  shows "collected eg task len p"
  using assms(2,3)
proof (induction rule: pool_run.induct)
  case (pool_worker c p q)
  then show ?case using worker_step_collected[OF assms(1)] by blast
qed (auto simp: collected_def errgroup_okD[OF assms(1)])

lemma parallel_collects:
  assumes ok: "errgroup_ok eg" and "0 < procs"
    and run: "ParallelFor eg procs (int len) workers (Some (store_result task)) s (None, s')" and len: "length s = len"
  shows "length s' = len \<and> (\<forall>i<len. task i (Inr (s' ! i)))"
proof -
  consider "parallel_workers procs (int len) False workers = Inl None" "s' = s"
    | k c p where "parallel_workers procs (int len) False workers = Inr k" "pool_finished p"
        "pool_run eg (store_result task) len (pool_init eg k s) c p" "egWait eg (plGroup p) = None" "s' = plShared p"
    using run unfolding ParallelFor_iff by auto
  then show ?thesis
  proof cases
    case 1
    then have "len = 0" by (auto simp: parallel_workers_def Let_def split: if_splits)
    then show ?thesis using 1 len by simp
  next
    case (2 k c p)
    have "collected eg task len (pool_init eg k s)" using len by (simp add: collected_def pool_init_def)
    then have col: "collected eg task len p" using pool_run_collected[OF ok 2(3)] by simp
    have "mset (plCalls p) = mset [0..<len]"
      using pool_calls(3)[OF ok 2(3)] parallel_workers_pos[OF 2(1) assms(2)] 2 by simp
    then have "set (plCalls p) = {0..<len}" by (metis mset_eq_setD set_upt)
    then show ?thesis using col 2 by (auto simp: collected_def)
  qed
qed

end
