(* ===== verification/Query_Flow.thy ===== *)
theory Query_Flow
  imports Top_K_Properties Parallel
begin

text \<open>
  Segmented queries of \<^verbatim>\<open>src/internal/core/algorithm/index_flow.go\<close> and the batch of queries of
  \<^verbatim>\<open>topk_result_builder.go\<close>: the searches of the segments run on \<open>ParallelFor\<close>, each writes the slot of
  its segment, and the results are merged. The outcome depends on the schedule and on when the context
  is cancelled, so each query is the relation of its possible outcomes.
\<close>

subsection \<open>Searchers\<close>

text \<open>The interfaces \<open>DenseQuerySearcher\<close> and \<open>SparseQuerySearcher\<close>: a metric, and what a search may answer.\<close>

record 'q searcher =
  srMetric :: Metric
  srSearch :: "'q \<Rightarrow> SearchOptions \<Rightarrow> error + Result list \<Rightarrow> bool"

record SparseVector =
  svIndices :: "u32 list"
  svValues :: "f32 list"

definition dense_task :: "Metric \<Rightarrow> (f32 list) searcher option list \<Rightarrow> f32 list \<Rightarrow> SearchOptions \<Rightarrow> nat \<Rightarrow> error + Result list \<Rightarrow> bool" where
  "dense_task m searchers query opts index out =
     (case searchers ! index of
        None \<Rightarrow> out = Inl (ErrMsg ''nil dense query searcher'')
      | Some searcher \<Rightarrow>
          if srMetric searcher \<noteq> m then out = Inl (ErrMsg ''metric %d does not match query metric %d'')
          else srSearch searcher query opts out)"

definition sparse_task :: "SparseVector searcher option list \<Rightarrow> SparseVector \<Rightarrow> SearchOptions \<Rightarrow> nat \<Rightarrow> error + Result list \<Rightarrow> bool" where
  "sparse_task searchers query opts index out =
     (case searchers ! index of
        None \<Rightarrow> out = Inl (ErrMsg ''nil sparse query searcher'')
      | Some searcher \<Rightarrow>
          if srMetric searcher \<noteq> MetricIP then out = Inl (ErrMsg ''sparse searcher uses unsupported metric %d'')
          else srSearch searcher query opts out)"

subsection \<open>Queries\<close>

definition QueryDense :: "'g errgroup \<Rightarrow> nat \<Rightarrow> ctx \<Rightarrow> Metric \<Rightarrow> (f32 list) searcher option list \<Rightarrow> f32 list \<Rightarrow> SearchOptions \<Rightarrow> int
    \<Rightarrow> env \<Rightarrow> error + Result list \<Rightarrow> bool" where
  "QueryDense eg procs ctx m searchers query opts workers env out =
     (if ctx = NilCtx then out = Inl (ErrMsg ''core: nil dense query context'')
      else case ctx_Err ctx env of
        (Some err, env) \<Rightarrow> out = Inl err
      | (None, env) \<Rightarrow>
        if \<not> Metric_Valid m then out = Inl (ErrMsg ''core: invalid metric'')
        else case SearchOptions_Validate opts of
          Some err \<Rightarrow> out = Inl err
        | None \<Rightarrow>
          \<exists>r batches.
            ParallelFor eg procs (int (length searchers)) workers (Some (store_result (dense_task m searchers query opts)))
              (replicate (length searchers) []) (r, batches)
            \<and> out = (case r of Some err \<Rightarrow> Inl (ErrWrap ''core: dense segment query'' [err])
                     | None \<Rightarrow> Inr (MergeSearchResults m (soTopK opts) batches)))"

definition QuerySparse :: "'g errgroup \<Rightarrow> nat \<Rightarrow> ctx \<Rightarrow> SparseVector searcher option list \<Rightarrow> SparseVector \<Rightarrow> SearchOptions \<Rightarrow> int
    \<Rightarrow> env \<Rightarrow> error + Result list \<Rightarrow> bool" where
  "QuerySparse eg procs ctx searchers query opts workers env out =
     (if ctx = NilCtx then out = Inl (ErrMsg ''core: nil sparse query context'')
      else case ctx_Err ctx env of
        (Some err, env) \<Rightarrow> out = Inl err
      | (None, env) \<Rightarrow>
        (case SearchOptions_Validate opts of
          Some err \<Rightarrow> out = Inl err
        | None \<Rightarrow>
          \<exists>r batches.
            ParallelFor eg procs (int (length searchers)) workers (Some (store_result (sparse_task searchers query opts)))
              (replicate (length searchers) []) (r, batches)
            \<and> out = (case r of Some err \<Rightarrow> Inl (ErrWrap ''core: sparse segment query'' [err])
                     | None \<Rightarrow> Inr (MergeSearchResults MetricIP (soTopK opts) batches))))"

text \<open>Each query of a batch runs \<open>TopK\<close> in an environment of its own.\<close>

definition batch_task :: "kernels \<Rightarrow> ctx \<Rightarrow> Metric \<Rightarrow> f32 list list \<Rightarrow> Candidate list \<Rightarrow> int \<Rightarrow> nat \<Rightarrow> error + Result list \<Rightarrow> bool" where
  "batch_task kn ctx m queries candidates k index out \<longleftrightarrow>
     (\<exists>env env' r. TopK kn ctx m (queries ! index) candidates k env = (Inr r, env')
        \<and> out = (case r of Inl err \<Rightarrow> Inl (ErrWrap ''core: query %d'' [err]) | Inr rs \<Rightarrow> Inr rs))"

definition BatchTopK :: "'g errgroup \<Rightarrow> nat \<Rightarrow> kernels \<Rightarrow> ctx \<Rightarrow> Metric \<Rightarrow> f32 list list \<Rightarrow> Candidate list \<Rightarrow> int \<Rightarrow> int
    \<Rightarrow> env \<Rightarrow> error + Result list list \<Rightarrow> bool" where
  "BatchTopK eg procs kn ctx m queries candidates k workers env out =
     (if ctx = NilCtx then out = Inl (ErrMsg ''core: nil batch top-k context'')
      else case ctx_Err ctx env of
        (Some err, env) \<Rightarrow> out = Inl err
      | (None, env) \<Rightarrow>
          \<exists>r results.
            ParallelFor eg procs (int (length queries)) workers (Some (store_result (batch_task kn ctx m queries candidates k)))
              (replicate (length queries) []) (r, results)
            \<and> out = (case r of Some err \<Rightarrow> Inl err | None \<Rightarrow> Inr results))"

subsection \<open>Queries over exact segments are exact\<close>

text \<open>
  A segment searcher that answers with the best results of its own documents \<open>xs\<close>.
\<close>

definition exact_searcher :: "Metric \<Rightarrow> 'q \<Rightarrow> SearchOptions \<Rightarrow> Result list \<Rightarrow> 'q searcher option \<Rightarrow> bool" where
  "exact_searcher m query opts xs s \<longleftrightarrow>
     (\<forall>searcher rs. s = Some searcher \<longrightarrow> srSearch searcher query opts (Inr rs) \<longrightarrow>
        best_of (resultBetter m) (nat (soTopK opts)) xs rs)"

lemma dense_task_exact:
  "exact_searcher m query opts xs (searchers ! i) \<Longrightarrow> dense_task m searchers query opts i (Inr rs) \<Longrightarrow>
     best_of (resultBetter m) (nat (soTopK opts)) xs rs"
  by (auto simp: exact_searcher_def dense_task_def split: option.splits if_splits)

lemma sparse_task_exact:
  "exact_searcher MetricIP query opts xs (searchers ! i) \<Longrightarrow> sparse_task searchers query opts i (Inr rs) \<Longrightarrow>
     best_of (resultBetter MetricIP) (nat (soTopK opts)) xs rs"
  by (auto simp: exact_searcher_def sparse_task_def split: option.splits if_splits)

lemma collected_best:
  assumes ok: "errgroup_ok eg" "0 < procs"
    and run: "ParallelFor eg procs (int (length xss)) workers (Some (store_result task)) (replicate (length xss) []) (None, batches)"
    and exact: "\<And>i rs. i < length xss \<Longrightarrow> task i (Inr rs) \<Longrightarrow> best_of (resultBetter m) (nat k) (xss ! i) rs"
    and k: "0 < k" and num: "\<forall>r\<in>set (concat xss). numeric r"
  shows "best_of (resultBetter m) (nat k) (concat xss) (MergeSearchResults m k batches)"
proof -
  have "length batches = length xss" "\<forall>i<length xss. task i (Inr (batches ! i))"
    using parallel_collects[OF ok run] by simp_all
  then have "list_all2 (best_of (resultBetter m) (nat k)) xss batches" using exact by (simp add: list_all2_conv_all_nth)
  then show ?thesis using merge_parts[OF k num] by simp
qed

lemma SearchOptions_positive: "SearchOptions_Validate opts = None \<Longrightarrow> 0 < soTopK opts"
  by (simp add: SearchOptions_Validate_def split: if_splits)

text \<open>
  C31: A dense query that answers without error returns the best results of the whole collection: when
  every segment's searcher delivers the best of its own documents and no score is NaN, then whatever the
  number of workers and the interleaving of the segment searches, the answer is the top-k of all segments.
\<close>

theorem query_dense_is_exact:
  assumes ok: "errgroup_ok eg" "0 < procs"
    and segments: "list_all2 (exact_searcher m query opts) xss searchers"
    and num: "\<forall>r\<in>set (concat xss). numeric r"
    and out: "QueryDense eg procs ctx m searchers query opts workers env (Inr rs)"
  shows "best_of (resultBetter m) (nat (soTopK opts)) (concat xss) rs"
proof -
  have len: "length xss = length searchers" using segments by (rule list_all2_lengthD)
  obtain batches where valid: "SearchOptions_Validate opts = None"
    and run: "ParallelFor eg procs (int (length searchers)) workers (Some (store_result (dense_task m searchers query opts)))
              (replicate (length searchers) []) (None, batches)"
    and rs: "rs = MergeSearchResults m (soTopK opts) batches"
    using out by (auto simp: QueryDense_def split: if_splits prod.splits option.splits)
  have "best_of (resultBetter m) (nat (soTopK opts)) (xss ! i) q"
    if "i < length xss" "dense_task m searchers query opts i (Inr q)" for i q
    using that segments by (intro dense_task_exact) (auto simp: list_all2_conv_all_nth)
  then show ?thesis
    unfolding rs using collected_best[OF ok run[folded len] _ SearchOptions_positive[OF valid] num] by blast
qed


text \<open>Witness: one segment with one document.\<close>

definition sample_searcher :: "(f32 list) searcher" where
  "sample_searcher = \<lparr>srMetric = MetricL2, srSearch = \<lambda>q opts out. out = Inr [\<lparr>rsKey = 4, rsScore = 0\<rparr>]\<rparr>"

theorem query_dense_is_exact_witness:
  "\<exists>rs. QueryDense sample_group 1 Ctx MetricL2 [Some sample_searcher] [0] sample_options 0 calm (Inr rs)
    \<and> best_of (resultBetter MetricL2) 2 [\<lparr>rsKey = 4, rsScore = 0\<rparr>] rs"
proof -
  let ?r = "\<lparr>rsKey = 4, rsScore = 0 :: f32\<rparr>"
  have "store_result (dense_task MetricL2 [Some sample_searcher] [0] sample_options) 0 [[]] (None, [[?r]])"
    by (simp add: store_result_def dense_task_def sample_searcher_def)
  then have "ParallelFor sample_group 1 1 0 (Some (store_result (dense_task MetricL2 [Some sample_searcher] [0] sample_options)))
      [[]] (None, [[?r]])" by (rule single_parallel)
  moreover have "Metric_Valid MetricL2" "SearchOptions_Validate sample_options = None" by code_simp+
  moreover have "ctx_Err Ctx calm = (None, calm)" by (simp add: ctx_Err_def calm_def)
  ultimately have out: "QueryDense sample_group 1 Ctx MetricL2 [Some sample_searcher] [0] sample_options 0 calm
      (Inr (MergeSearchResults MetricL2 (soTopK sample_options) [[?r]]))"
    unfolding QueryDense_def by force
  have "list_all2 (exact_searcher MetricL2 [0] sample_options) [[?r]] [Some sample_searcher]"
    by (simp add: exact_searcher_def sample_searcher_def sample_options_def best_of_def)
  moreover have "list_all numeric (concat [[?r]])" by code_simp
  ultimately show ?thesis
    using query_dense_is_exact[OF sample_group_ok _ _ _ out, of "[[?r]]"] out
    by (auto simp: list_all_iff sample_options_def)
qed

end
