(* ===== verification/Float16.thy ===== *)
theory Float16
  imports Float32
begin

text \<open>
  The conversions between binary32 and binary16 bit patterns of
  \<^verbatim>\<open>src/internal/ailego/utility/float_helper.go\<close>, on words of the width the code uses.
\<close>

type_synonym f16 = u16

text \<open>Round to nearest, ties to even, of a value whose low bits are cut off.\<close>

definition round_even :: "u32 \<Rightarrow> u32 \<Rightarrow> u32 \<Rightarrow> bool" where
  "round_even rounded remainder halfway \<longleftrightarrow> halfway < remainder \<or> (remainder = halfway \<and> rounded AND 1 \<noteq> 0)"

definition Float32ToFloat16Bits :: "f32 \<Rightarrow> f16" where
  "Float32ToFloat16Bits bits =
     (let sign = ucast (drop_bit 16 bits) AND 0x8000 :: u16;
          exponent32 = uint (drop_bit 23 bits AND 0xff);
          mantissa = bits AND 0x7fffff in
      if exponent32 = 0xff then
        if mantissa = 0 then sign OR 0x7c00
        else
          let payload = ucast (drop_bit 13 mantissa) :: u16;
              payload = (if payload = 0 then 1 else payload) in
          sign OR 0x7c00 OR payload
      else
        let exponent16 = exponent32 - 127 + 15 in
        if 31 \<le> exponent16 then sign OR 0x7c00
        else if exponent16 \<le> 0 then
          if exponent16 < -10 then sign
          else
            let mantissa = mantissa OR 0x800000;
                shift = nat (14 - exponent16);
                rounded = drop_bit shift mantissa;
                remainder = mantissa AND (push_bit shift 1 - 1);
                halfway = push_bit (shift - 1) 1;
                rounded = (if round_even rounded remainder halfway then rounded + 1 else rounded) in
            sign OR ucast rounded
        else
          let rounded = drop_bit 13 mantissa;
              remainder = mantissa AND 0x1fff in
          if round_even rounded remainder 0x1000 then
            if rounded + 1 = 0x400 then
              if 31 \<le> exponent16 + 1 then sign OR 0x7c00
              else sign OR word_of_int (push_bit 10 (exponent16 + 1)) OR ucast (0 :: u32)
            else sign OR word_of_int (push_bit 10 exponent16) OR ucast (rounded + 1)
          else sign OR word_of_int (push_bit 10 exponent16) OR ucast rounded)"

text \<open>
  The loop that normalizes a subnormal significand. It is entered with a significand between 1 and
  \<open>0x3ff\<close>; the second test only makes the function total.
\<close>

function normalize16 :: "u32 \<Rightarrow> int \<Rightarrow> u32 \<times> int" where
  "normalize16 mantissa exponent32 =
     (if mantissa AND 0x400 \<noteq> 0 then (mantissa, exponent32)
      else if mantissa = 0 \<or> 0x400 \<le> mantissa then (mantissa, exponent32)
      else normalize16 (push_bit 1 mantissa) (exponent32 - 1))"
  by pat_completeness auto
termination
proof (relation "measure (\<lambda>(m, e). 0x400 - unat m)")
  fix m :: u32 and e :: int
  assume "\<not> (m = 0 \<or> 0x400 \<le> m)"
  then have m: "m \<noteq> 0" "unat m < 0x400" by (auto simp: word_le_nat_alt)
  then have "unat (push_bit 1 m) = 2 * unat m" using unat_mult_lem[of m 2] by (simp add: push_bit_eq_mult)
  moreover have "0 < unat m" using m(1) by (simp add: unat_gt_0)
  ultimately show "((push_bit 1 m, e - 1), (m, e)) \<in> measure (\<lambda>(m, e). 0x400 - unat m)" using m(2) by simp
qed simp

declare normalize16.simps [simp del]

definition Float16BitsToFloat32 :: "f16 \<Rightarrow> f32" where
  "Float16BitsToFloat32 bits =
     (let sign = push_bit 16 (ucast (bits AND 0x8000)) :: u32;
          exponent = ucast (drop_bit 10 bits) AND 0x1f :: u32;
          mantissa = ucast (bits AND 0x03ff) :: u32 in
      if exponent = 0 then
        if mantissa = 0 then sign
        else (case normalize16 mantissa (127 - 14) of
          (mantissa, exponent32) \<Rightarrow>
            sign OR push_bit 23 (word_of_int exponent32) OR push_bit 13 (mantissa AND 0x3ff))
      else if exponent = 0x1f then sign OR 0x7f800000 OR push_bit 13 mantissa
      else sign OR push_bit 23 (exponent + (127 - 15)) OR push_bit 13 mantissa)"


subsection \<open>Bits of the fields\<close>

lemma bit_fields:
  "bit (0x7fffff :: int) n \<longleftrightarrow> n < 23" "bit (0xff :: int) n \<longleftrightarrow> n < 8" "bit (0x1fff :: int) n \<longleftrightarrow> n < 13"
  "bit (0x3ff :: int) n \<longleftrightarrow> n < 10" "bit (0x1f :: int) n \<longleftrightarrow> n < 5" 
  "bit (0x8000 :: int) n \<longleftrightarrow> n = 15" "bit (0x400 :: int) n \<longleftrightarrow> n = 10" "bit (0x800000 :: int) n \<longleftrightarrow> n = 23"
  "bit (0x7c00 :: int) n \<longleftrightarrow> 10 \<le> n \<and> n < 15" "bit (0x7f800000 :: int) n \<longleftrightarrow> 23 \<le> n \<and> n < 31"
proof -
  have masks: "(0x7fffff :: int) = mask 23" "(0xff :: int) = mask 8" "(0x1fff :: int) = mask 13" "(0x3ff :: int) = mask 10"
    "(0x1f :: int) = mask 5" "(0x8000 :: int) = 2 ^ 15" "(0x400 :: int) = 2 ^ 10"
    "(0x800000 :: int) = 2 ^ 23" "(0x7c00 :: int) = push_bit 10 (mask 5)" "(0x7f800000 :: int) = push_bit 23 (mask 8)"
    by (simp_all add: mask_eq_exp_minus_1 push_bit_eq_mult)
  show "bit (0x7fffff :: int) n \<longleftrightarrow> n < 23" "bit (0xff :: int) n \<longleftrightarrow> n < 8" "bit (0x1fff :: int) n \<longleftrightarrow> n < 13"
    "bit (0x3ff :: int) n \<longleftrightarrow> n < 10" "bit (0x1f :: int) n \<longleftrightarrow> n < 5"
    unfolding masks(1-5) bit_mask_iff by auto
  show "bit (0x8000 :: int) n \<longleftrightarrow> n = 15" "bit (0x400 :: int) n \<longleftrightarrow> n = 10" "bit (0x800000 :: int) n \<longleftrightarrow> n = 23"
    unfolding masks(6-8) bit_exp_iff by auto
  show "bit (0x7c00 :: int) n \<longleftrightarrow> 10 \<le> n \<and> n < 15" "bit (0x7f800000 :: int) n \<longleftrightarrow> 23 \<le> n \<and> n < 31"
    unfolding masks(9-10) bit_push_bit_iff bit_mask_iff by auto
qed

abbreviation sign32 :: "f16 \<Rightarrow> f32" where
  "sign32 h \<equiv> push_bit 16 (ucast (h AND 0x8000))"

definition pack32 :: "f16 \<Rightarrow> u32 \<Rightarrow> u32 \<Rightarrow> f32" where
  "pack32 h e m = sign32 h OR push_bit 23 e OR push_bit 13 m"

lemma field_bits:
  "(e :: u32) AND 0xff = e \<Longrightarrow> bit e n \<Longrightarrow> n < 8" "(m :: u32) AND 0x3ff = m \<Longrightarrow> bit m n \<Longrightarrow> n < 10"
proof -
  show "n < 8" if "e AND 0xff = e" "bit e n"
  proof -
    have "bit (e AND 0xff) n" using that by simp
    then show ?thesis by (simp add: bit_simps bit_fields)
  qed
  show "n < 10" if "m AND 0x3ff = m" "bit m n"
  proof -
    have "bit (m AND 0x3ff) n" using that by simp
    then show ?thesis by (simp add: bit_simps bit_fields)
  qed
qed

lemma pack32_fields:
  assumes "e AND 0xff = e" and "m AND 0x3ff = m"
  shows "drop_bit 23 (pack32 h e m) AND 0xff = e" "pack32 h e m AND 0x7fffff = push_bit 13 m"
    "ucast (drop_bit 16 (pack32 h e m)) AND 0x8000 = h AND (0x8000 :: u16)"
proof -
  note bits = field_bits(1)[OF assms(1)] field_bits(2)[OF assms(2)]
  show "drop_bit 23 (pack32 h e m) AND 0xff = e" unfolding pack32_def
    by (rule bit_word_eqI) (auto simp: bit_simps bit_fields dest: bits)
  show "pack32 h e m AND 0x7fffff = push_bit 13 m" unfolding pack32_def
    by (rule bit_word_eqI) (auto simp: bit_simps bit_fields dest: bits)
  show "ucast (drop_bit 16 (pack32 h e m)) AND 0x8000 = h AND (0x8000 :: u16)" unfolding pack32_def
    by (rule bit_word_eqI) (auto simp: bit_simps bit_fields dest: bits)
qed

lemma pack16_fields:
  "(h AND 0x8000) OR push_bit 10 (ucast (ucast (drop_bit 10 h) AND 0x1f :: u32)) OR ucast (ucast (h AND 0x03ff) :: u32) = (h :: f16)"
  by (rule bit_word_eqI) (auto simp: bit_simps bit_fields)

lemma bit_unat: "bit (m :: u32) n \<longleftrightarrow> odd (unat m div 2 ^ n)"
proof -
  have "bit (unat m) n \<longleftrightarrow> bit m n" by (simp add: bit_unsigned_iff)
  then show ?thesis by (simp add: bit_iff_odd)
qed

lemma and_0x400: "(m :: u32) AND 0x400 = 0 \<longleftrightarrow> \<not> bit m 10"
proof -
  have "m AND 2 ^ 10 = 0 \<longleftrightarrow> \<not> bit m 10" by (rule and_exp_eq_0_iff_not_bit)
  then show ?thesis by simp
qed

lemma normalize16_shift:
  assumes "0 < unat m" and "unat m < 0x400"
  shows "\<exists>k. 1 \<le> k \<and> k \<le> 10 \<and> 0x400 \<le> unat m * 2 ^ k \<and> unat m * 2 ^ k < 0x800
    \<and> normalize16 m e = (push_bit k m, e - int k)"
  using assms
proof (induction m e rule: normalize16.induct)
  case (1 m e)
  have nb: "m AND 0x400 = 0" using "1.prems"(2) by (simp add: and_0x400 bit_unat)
  have ge: "\<not> (m = 0 \<or> 0x400 \<le> m)" using "1.prems" by (auto simp: word_le_nat_alt)
  have dbl: "unat (push_bit 1 m) = 2 * unat m"
    using unat_mult_lem[of m 2] "1.prems"(2) by (simp add: push_bit_eq_mult)
  have rec: "normalize16 m e = normalize16 (push_bit 1 m) (e - 1)"
    using nb ge by (subst normalize16.simps) simp
  show ?case
  proof (cases "2 * unat m < 0x400")
    case True
    then obtain k where k: "1 \<le> k" "k \<le> 10" "0x400 \<le> 2 * unat m * 2 ^ k" "2 * unat m * 2 ^ k < 0x800"
        "normalize16 (push_bit 1 m) (e - 1) = (push_bit k (push_bit 1 m), e - 1 - int k)"
      using "1.IH"[of] nb ge dbl "1.prems" by auto
    have "k < 10" 
    proof (rule ccontr)
      assume "\<not> k < 10"
      then have "k = 10" using k(2) by simp
      then show False using k(4) "1.prems"(1) by simp
    qed
    moreover have "push_bit k (push_bit 1 m) = push_bit (Suc k) m" by (simp add: push_bit_push_bit)
    ultimately show ?thesis using k rec by (intro exI[of _ "Suc k"]) (simp add: ac_simps)
  next
    case False
    have "2 * unat m div 1024 = 1" using False "1.prems"(2) by (intro div_nat_eqI) auto
    then have "bit (push_bit 1 m) 10" using bit_unat[of "push_bit 1 m" 10] dbl by simp
    then have "normalize16 (push_bit 1 m) (e - 1) = (push_bit 1 m, e - 1)"
      using and_0x400[of "push_bit 1 m"] by (subst normalize16.simps) simp
    then show ?thesis using rec False "1.prems" by (intro exI[of _ 1]) simp
  qed
qed


lemma exponent_field: "(ucast (drop_bit 10 (h :: f16)) AND 0x1f :: u32) AND 0xff = ucast (drop_bit 10 h) AND 0x1f"
  and mantissa_field: "(ucast ((h :: f16) AND 0x03ff) :: u32) AND 0x3ff = ucast (h AND 0x03ff)"
  by (rule bit_word_eqI, auto simp: bit_simps bit_fields)+

lemma drop_push_13: "(m :: u32) AND 0x3ff = m \<Longrightarrow> drop_bit 13 (push_bit 13 m) = m"
  by (rule bit_word_eqI) (auto simp: bit_simps dest: field_bits(2))

lemma push_13_zero: "(m :: u32) AND 0x3ff = m \<Longrightarrow> push_bit 13 m = 0 \<longleftrightarrow> m = 0"
  using drop_push_13[of m] by (metis drop_bit_of_0 push_bit_of_0)

text \<open>The cases of the half-precision value by its exponent.\<close>

lemma to16_special:
  assumes "m AND 0x3ff = m"
  shows "Float32ToFloat16Bits (pack32 h 0xff m) = (h AND 0x8000) OR 0x7c00 OR ucast m"
proof -
  have e: "(0xff :: u32) AND 0xff = 0xff" by simp
  note f = pack32_fields[OF e assms, of h]
  have "ucast m = (0 :: u16) \<longleftrightarrow> m = 0"
  proof -
    have "(ucast (ucast m :: u16) :: u32) = m" by (rule bit_word_eqI) (auto simp: bit_simps dest: field_bits(2)[OF assms])
    then show ?thesis by (metis unsigned_0)
  qed
  then show ?thesis using push_13_zero[OF assms]
    unfolding Float32ToFloat16Bits_def Let_def f drop_push_13[OF assms] by (simp add: or.assoc)
qed

lemma uint_exponent: "0 \<le> e \<Longrightarrow> e < 256 \<Longrightarrow> uint (word_of_int e :: u32) = e"
  by (simp only: uint_word_of_int) simp

lemma exponent_small: "0 \<le> e \<Longrightarrow> e < 256 \<Longrightarrow> (word_of_int e :: u32) AND 0xff = word_of_int e"
proof -
  assume e: "0 \<le> e" "e < 256"
  have "uint ((word_of_int e :: u32) AND 0xff) = take_bit 8 e"
    using uint_exponent[OF e] by (simp only: unsigned_and_eq take_bit_eq_mask) (simp add: mask_eq_exp_minus_1)
  also have "\<dots> = e" using e by (simp add: take_bit_int_eq_self)
  finally show ?thesis using uint_exponent[OF e] by (simp add: word_uint_eq_iff)
qed

lemma to16_normal:
  assumes "m AND 0x3ff = m" and "0 < e" and "e < 31"
  shows "Float32ToFloat16Bits (pack32 h (word_of_int (e + 112)) m) = (h AND 0x8000) OR word_of_int (push_bit 10 e) OR ucast m"
proof -
  have u: "uint (word_of_int (e + 112) :: u32) = e + 112" using assms by (intro uint_exponent) auto
  have "(word_of_int (e + 112) :: u32) AND 0xff = word_of_int (e + 112)" using assms by (intro exponent_small) auto
  note f = pack32_fields[OF this assms(1), of h]
  have "push_bit 13 m AND 0x1fff = 0" by (rule bit_word_eqI) (auto simp: bit_simps bit_fields)
  then show ?thesis using assms(2,3)
    unfolding Float32ToFloat16Bits_def Let_def f(1) f(2) f(3) drop_push_13[OF assms(1)] u by (simp add: round_even_def or.assoc)
qed


lemma to16_zero: "Float32ToFloat16Bits (pack32 h 0 0) = h AND 0x8000"
proof -
  have z: "(0 :: u32) AND 0xff = 0" "(0 :: u32) AND 0x3ff = 0" by simp_all
  note f = pack32_fields[OF z, of h]
  show ?thesis unfolding Float32ToFloat16Bits_def Let_def f by simp
qed

lemma to16_subnormal:
  assumes m: "m AND 0x3ff = m" and k: "1 \<le> k" "k \<le> 10" "0x400 \<le> unat m * 2 ^ k" "unat m * 2 ^ k < 0x800"
  shows "Float32ToFloat16Bits (pack32 h (word_of_int (113 - int k)) (push_bit k m AND 0x3ff)) = (h AND 0x8000) OR ucast m"
proof -
  define q where "q = push_bit k m"
  have u: "uint (word_of_int (113 - int k) :: u32) = 113 - int k" using k(1,2) by (intro uint_exponent) auto
  have e: "(word_of_int (113 - int k) :: u32) AND 0xff = word_of_int (113 - int k)" using k(1,2) by (intro exponent_small) auto
  have mm: "(q AND 0x3ff) AND 0x3ff = q AND 0x3ff" by (simp add: and.assoc)
  note f = pack32_fields[OF e mm, of h]
  have un: "unat q = unat m * 2 ^ k"
    unfolding q_def unsigned_push_bit_eq using k(4) by (simp add: push_bit_eq_mult take_bit_nat_eq_self)
  have "unat q div 2 ^ 10 = 1" using k(3,4) un by (intro div_nat_eqI) auto
  then have top: "bit q 10" by (simp add: bit_unat)
  have low: "n \<le> 10" if "bit q n" for n
  proof (rule ccontr)
    assume "\<not> n \<le> 10"
    then have "(2 :: nat) ^ 11 \<le> 2 ^ n" by (intro power_increasing) auto
    then have "unat q div 2 ^ n = 0" using k(4) un by simp
    then show False using that by (simp add: bit_unat)
  qed
  have hid: "push_bit 13 (q AND 0x3ff) OR 0x800000 = push_bit 13 q"
  proof (rule bit_word_eqI)
    fix n :: nat assume "n < LENGTH(32)"
    then show "bit (push_bit 13 (q AND 0x3ff) OR 0x800000) n = bit (push_bit 13 q) n"
      using top low[of "n - 13"] by (auto simp: bit_simps bit_fields simp del: push_bit_and)
  qed
  have shift: "push_bit 13 q = push_bit (13 + k) m" by (simp add: q_def push_bit_push_bit)
  have dr: "drop_bit (13 + k) (push_bit (13 + k) m) = m"
  proof (rule bit_word_eqI)
    fix i
    have "13 + k + i < 32" if "bit m i"
    proof -
      have "i < 10" using field_bits(2)[OF m that] .
      then have "bit q (k + i)" using that k(2) by (simp add: q_def bit_simps)
      then show ?thesis using low[of "k + i"] by simp
    qed
    then show "bit (drop_bit (13 + k) (push_bit (13 + k) m)) i = bit m i" by (auto simp: bit_simps)
  qed
  have rem: "push_bit (13 + k) m AND (push_bit (13 + k) 1 - 1) = 0"
    by (rule bit_word_eqI) (auto simp: bit_simps push_bit_of_1 simp flip: mask_eq_exp_minus_1)
  have hw: "(0 :: u32) \<noteq> push_bit (13 + k - 1) 1"
  proof -
    have "bit (push_bit (13 + k - 1) 1 :: u32) (13 + k - 1)" using k by (simp add: bit_simps)
    then show ?thesis by (metis bit_0_eq bot_apply bot_bool_def)
  qed
  have sh: "nat (14 - (113 - int k - 127 + 15)) = 13 + k" using k(1,2) by simp
  show ?thesis using k(1,2) hw
    unfolding q_def[symmetric] Float32ToFloat16Bits_def Let_def f u hid shift sh dr rem
    by (simp add: round_even_def)
qed

lemma round_trip16: "Float32ToFloat16Bits (Float16BitsToFloat32 h) = h"
proof -
  define e where "e = (ucast (drop_bit 10 h) AND 0x1f :: u32)"
  define m where "m = (ucast (h AND 0x03ff) :: u32)"
  have m: "m AND 0x3ff = m" unfolding m_def by (rule mantissa_field)
  have h: "(h AND 0x8000) OR push_bit 10 (ucast e) OR ucast m = h" unfolding e_def m_def by (rule pack16_fields)
  have "e \<le> 0x1f" unfolding e_def by (rule word_and_le1)
  then have e32: "0 \<le> uint e" "uint e < 32" by (simp_all add: word_le_def)
  have e_int: "e = word_of_int (uint e)" by simp
  have exp0: "e = 0 \<longleftrightarrow> uint e = 0" "e = 0x1f \<longleftrightarrow> uint e = 31" by (simp_all add: word_uint_eq_iff)
  have to32: "Float16BitsToFloat32 h =
      (if e = 0 then if m = 0 then sign32 h
         else (case normalize16 m 113 of (q, x) \<Rightarrow> sign32 h OR push_bit 23 (word_of_int x) OR push_bit 13 (q AND 0x3ff))
       else if e = 0x1f then sign32 h OR 0x7f800000 OR push_bit 13 m
       else sign32 h OR push_bit 23 (e + 112) OR push_bit 13 m)"
    unfolding Float16BitsToFloat32_def Let_def e_def m_def by simp
  consider (zero) "e = 0" "m = 0" | (sub) "e = 0" "m \<noteq> 0" | (special) "e = 0x1f" | (normal) "0 < uint e" "uint e < 31"
    using e32 exp0 by linarith
  then show ?thesis
  proof cases
    case zero
    then show ?thesis using to16_zero[of h] h by (simp add: to32 pack32_def)
  next
    case sub
    have "m \<le> 0x3ff" using m word_and_le1[of m "0x3ff"] by simp
    then have "unat m < 0x400" by (simp add: word_le_nat_alt)
    moreover have "0 < unat m" using sub(2) by (simp add: unat_gt_0)
    ultimately obtain k where k: "1 \<le> k" "k \<le> 10" "0x400 \<le> unat m * 2 ^ k" "unat m * 2 ^ k < 0x800"
        "normalize16 m 113 = (push_bit k m, 113 - int k)" using normalize16_shift by metis
    then show ?thesis using to16_subnormal[OF m k(1-4), of h] sub h by (simp add: to32 pack32_def)
  next
    case special
    have "push_bit 23 (0xff :: u32) = 0x7f800000" by simp
    moreover have "push_bit 10 (ucast (0x1f :: u32)) = (0x7c00 :: u16)" by simp
    ultimately show ?thesis using to16_special[OF m, of h] special h by (simp add: to32 pack32_def or.assoc)
  next
    case normal
    have "e + 112 = word_of_int (uint e + 112)" by (subst e_int) (simp only: of_int_add of_int_numeral)
    then have "Float16BitsToFloat32 h = pack32 h (word_of_int (uint e + 112)) m"
      using normal exp0 by (simp add: to32 pack32_def)
    moreover have "(word_of_int (push_bit 10 (uint e)) :: u16) = push_bit 10 (ucast e)"
      by (rule bit_word_eqI) (auto simp: bit_simps)
    ultimately show ?thesis using to16_normal[OF m normal, of h] h by simp
  qed
qed

text \<open>
  C32: Half precision survives the round trip: for every one of the binary16 bit patterns (zeros,
  subnormal and normal numbers, infinities, and NaNs with their payloads) expanding it to binary32 and
  converting back gives the same pattern.
\<close>

theorem float16_round_trip: "Float32ToFloat16Bits (Float16BitsToFloat32 h) = h"
  by (rule round_trip16)

end
