(* ===== verification/Flat_Index.thy ===== *)
theory Flat_Index
  imports Top_K Float16
begin

text \<open>
  The dense Flat index of \<^verbatim>\<open>src/internal/core/algorithm/flat_algorithm.go\<close>: keys, vectors in one of four
  layouts (binary32, contiguous binary16, binary16 in blocks of 256 rows, binary16 rows), magnitudes for
  the cosine metric and a map from key to position. The kernels of \<open>mathutil\<close> and \<open>mathbatch\<close> are
  parameters. Capacities of slices are not represented.
\<close>

subsection \<open>Kernels\<close>

record flat_kernels =
  fkDense :: kernels
  fkL2SquaredFP16 :: "f16 list \<Rightarrow> f16 list \<Rightarrow> f32"
  fkInnerProductFP16 :: "f16 list \<Rightarrow> f16 list \<Rightarrow> f32"
  fkCosineDistanceFP16 :: "f16 list \<Rightarrow> f16 list \<Rightarrow> f32"
  fkMIPSL2SquaredFP16 :: "f16 list \<Rightarrow> f16 list \<Rightarrow> f32"
  fkL2Magnitude :: "f32 list \<Rightarrow> f32"
  fkL2MagnitudeFP16 :: "f16 list \<Rightarrow> f32"
  fkCosineWithMagnitudes :: "f32 list \<Rightarrow> f32 list \<Rightarrow> f32 \<Rightarrow> f32 \<Rightarrow> f32"
  fkCosineWithMagnitudesFP16 :: "f16 list \<Rightarrow> f16 list \<Rightarrow> f32 \<Rightarrow> f32 \<Rightarrow> f32"
  fkInnerProducts2 :: "f32 list \<Rightarrow> f32 list \<Rightarrow> f32 list \<Rightarrow> f32 \<times> f32"
  fkInnerProducts4 :: "f32 list \<Rightarrow> f32 list \<Rightarrow> f32 list \<Rightarrow> f32 list \<Rightarrow> f32 list \<Rightarrow> f32 \<times> f32 \<times> f32 \<times> f32"
  fkSquaredEuclideanDistances2 :: "f32 list \<Rightarrow> f32 list \<Rightarrow> f32 list \<Rightarrow> f32 \<times> f32"
  fkSquaredEuclideanDistances4 :: "f32 list \<Rightarrow> f32 list \<Rightarrow> f32 list \<Rightarrow> f32 list \<Rightarrow> f32 list \<Rightarrow> f32 \<times> f32 \<times> f32 \<times> f32"
  fkCosineDistances2 :: "f32 list \<Rightarrow> f32 list \<Rightarrow> f32 list \<Rightarrow> f32 \<Rightarrow> f32 \<Rightarrow> f32 \<Rightarrow> f32 \<times> f32"
  fkCosineDistances4 :: "f32 list \<Rightarrow> f32 list \<Rightarrow> f32 list \<Rightarrow> f32 list \<Rightarrow> f32 list \<Rightarrow> f32 \<Rightarrow> f32 \<Rightarrow> f32 \<Rightarrow> f32 \<Rightarrow> f32
    \<Rightarrow> f32 \<times> f32 \<times> f32 \<times> f32"

definition denseDistances2 :: "flat_kernels \<Rightarrow> Metric \<Rightarrow> f32 list \<Rightarrow> f32 list \<Rightarrow> f32 list \<Rightarrow> f32 \<times> f32" where
  "denseDistances2 kn m query a b =
     (if m = MetricIP then fkInnerProducts2 kn query a b else fkSquaredEuclideanDistances2 kn query a b)"

definition denseDistances4 :: "flat_kernels \<Rightarrow> Metric \<Rightarrow> f32 list \<Rightarrow> f32 list \<Rightarrow> f32 list \<Rightarrow> f32 list \<Rightarrow> f32 list
    \<Rightarrow> f32 \<times> f32 \<times> f32 \<times> f32" where
  "denseDistances4 kn m query a b c d =
     (if m = MetricIP then fkInnerProducts4 kn query a b c d else fkSquaredEuclideanDistances4 kn query a b c d)"

definition denseDistanceFP16 :: "flat_kernels \<Rightarrow> Metric \<Rightarrow> error + (f16 list \<Rightarrow> f16 list \<Rightarrow> f32)" where
  "denseDistanceFP16 kn m =
     (if m = MetricL2 then Inr (fkL2SquaredFP16 kn)
      else if m = MetricIP then Inr (fkInnerProductFP16 kn)
      else if m = MetricCosine then Inr (fkCosineDistanceFP16 kn)
      else if m = MetricMIPSL2 then Inr (fkMIPSL2SquaredFP16 kn)
      else Inl (ErrMsg ''core: invalid metric''))"

subsection \<open>The index\<close>

record DenseFlatIndex =
  fiDimension :: nat
  fiMetric :: Metric
  fiFP16 :: bool
  fiKeys :: "u64 list"
  fiVectors :: "f32 list"
  fiVectorsFP16 :: "f16 list"
  fiChunks :: "f16 list list option"
  fiRows :: "f16 list list option"
  fiMagnitudes :: "f32 list"
  fiPositions :: "u64 \<rightharpoonup> nat"

definition denseFP16ChunkRows :: nat where "denseFP16ChunkRows = 256"

definition maxPlatformInt :: nat where "maxPlatformInt = 2 ^ 63 - 1"

definition newDenseFlatIndex :: "int \<Rightarrow> Metric \<Rightarrow> bool \<Rightarrow> error + DenseFlatIndex" where
  "newDenseFlatIndex dimension m fp16 =
     (if dimension \<le> 0 then Inl (wrapf ErrInvalidDimension ''got %d'')
      else if \<not> Metric_Valid m then Inl (ErrMsg ''core: invalid metric'')
      else Inr \<lparr>fiDimension = nat dimension, fiMetric = m, fiFP16 = fp16, fiKeys = [], fiVectors = [], fiVectorsFP16 = [],
                fiChunks = None, fiRows = None, fiMagnitudes = [], fiPositions = Map.empty\<rparr>)"

definition NewDenseFlatIndex :: "int \<Rightarrow> Metric \<Rightarrow> error + DenseFlatIndex" where
  "NewDenseFlatIndex dimension m = newDenseFlatIndex dimension m False"

definition NewDenseFlatIndexFP16 :: "int \<Rightarrow> Metric \<Rightarrow> error + DenseFlatIndex" where
  "NewDenseFlatIndexFP16 dimension m = newDenseFlatIndex dimension m True"

definition NewChunkedDenseFlatIndexFP16 :: "int \<Rightarrow> Metric \<Rightarrow> error + DenseFlatIndex" where
  "NewChunkedDenseFlatIndexFP16 dimension m =
     (if dimension > int (maxPlatformInt div denseFP16ChunkRows) then Inl (Sentinel ErrDenseCapacity)
      else case newDenseFlatIndex dimension m True of
        Inl err \<Rightarrow> Inl err
      | Inr i \<Rightarrow> Inr (i\<lparr>fiChunks := Some []\<rparr>))"

definition fp16Row :: "DenseFlatIndex \<Rightarrow> nat \<Rightarrow> f16 list" where
  "fp16Row i position =
     (case fiRows i of
        Some rows \<Rightarrow> rows ! position
      | None \<Rightarrow>
        (case fiChunks i of
           Some chunks \<Rightarrow>
             let start = (position mod denseFP16ChunkRows) * fiDimension i in
             slice start (start + fiDimension i) (chunks ! (position div denseFP16ChunkRows))
         | None \<Rightarrow>
             let start = position * fiDimension i in
             slice start (start + fiDimension i) (fiVectorsFP16 i)))"

text \<open>\<open>copy\<close> into the part of a slice that starts at \<open>start\<close> and has \<open>len\<close> elements.\<close>

definition copy_into :: "nat \<Rightarrow> nat \<Rightarrow> 'a list \<Rightarrow> 'a list \<Rightarrow> 'a list" where
  "copy_into start len src dst = take start dst @ take len src @ drop (start + length (take len src)) dst"

text \<open>Called after the key has been appended.\<close>

definition appendFP16 :: "f16 list \<Rightarrow> DenseFlatIndex \<Rightarrow> DenseFlatIndex" where
  "appendFP16 vector i =
     (case fiRows i of
        Some rows \<Rightarrow> i\<lparr>fiRows := Some (rows @ [vector])\<rparr>
      | None \<Rightarrow>
        (case fiChunks i of
           None \<Rightarrow> i\<lparr>fiVectorsFP16 := fiVectorsFP16 i @ vector\<rparr>
         | Some chunks \<Rightarrow>
             let position = length (fiKeys i) - 1;
                 chunks = (if position mod denseFP16ChunkRows = 0
                           then chunks @ [replicate (denseFP16ChunkRows * fiDimension i) 0] else chunks);
                 block = position div denseFP16ChunkRows;
                 start = (position mod denseFP16ChunkRows) * fiDimension i in
             i\<lparr>fiChunks := Some (chunks[block := copy_into start (fiDimension i) vector (chunks ! block)])\<rparr>))"

fun fp16_elements :: "f32 list \<Rightarrow> error + f16 list" where
  "fp16_elements [] = Inr []"
| "fp16_elements (value # vals) =
     (let bits = Float32ToFloat16Bits value in
      if float32IsInf (Float16BitsToFloat32 bits) then Inl (wrapf ErrQuantizationOverflow ''at element %d'')
      else case fp16_elements vals of Inl err \<Rightarrow> Inl err | Inr rest \<Rightarrow> Inr (bits # rest))"

definition denseVectorFP16 :: "f32 list \<Rightarrow> error + f16 list" where
  "denseVectorFP16 vector = fp16_elements vector"

definition float32VectorFromFP16 :: "f16 list \<Rightarrow> f32 list" where
  "float32VectorFromFP16 vector = map Float16BitsToFloat32 vector"

definition validateDenseVectorFP16 :: "f16 list \<Rightarrow> nat \<Rightarrow> error option" where
  "validateDenseVectorFP16 vector dimension =
     (if length vector \<noteq> dimension then Some (wrapf ErrInvalidDimension ''got %d, want %d'')
      else if list_ex (\<lambda>bits. bits AND 0x7c00 = 0x7c00) vector then Some (Sentinel ErrNonFiniteVector)
      else None)"

subsection \<open>Adding and reading vectors\<close>

text \<open>The key is registered at the next position, with the magnitude a cosine index keeps.\<close>

definition register_key :: "u64 \<Rightarrow> DenseFlatIndex \<Rightarrow> DenseFlatIndex" where
  "register_key key i = i\<lparr>fiPositions := (fiPositions i)(key \<mapsto> length (fiKeys i)), fiKeys := fiKeys i @ [key]\<rparr>"

definition add_magnitude :: "f32 \<Rightarrow> DenseFlatIndex \<Rightarrow> DenseFlatIndex" where
  "add_magnitude magnitude i =
     (if fiMetric i = MetricCosine then i\<lparr>fiMagnitudes := fiMagnitudes i @ [magnitude]\<rparr> else i)"

definition DenseFlatIndex_Add :: "flat_kernels \<Rightarrow> ctx \<Rightarrow> u64 \<Rightarrow> f32 list \<Rightarrow> DenseFlatIndex \<Rightarrow> env
    \<Rightarrow> error option \<times> DenseFlatIndex \<times> env" where
  "DenseFlatIndex_Add kn ctx key vector i env =
     (if ctx = NilCtx then (Some (ErrMsg ''core: nil dense Flat add context''), i, env)
      else case ctx_Err ctx env of
        (Some err, env) \<Rightarrow> (Some err, i, env)
      | (None, env) \<Rightarrow>
        if length vector \<noteq> fiDimension i then (Some (wrapf ErrInvalidDimension ''got %d, want %d''), i, env)
        else case ValidateDense vector (fiDimension i) of
          Some err \<Rightarrow> (Some (ErrWrap ''core: validate dense Flat vector'' [err]), i, env)
        | None \<Rightarrow>
          (case (if fiFP16 i then denseVectorFP16 vector else Inr []) of
             Inl err \<Rightarrow> (Some (ErrWrap ''core: encode dense Flat FP16 vector'' [err]), i, env)
           | Inr vectorFP16 \<Rightarrow>
             let magnitude = (if fiFP16 i then fkL2MagnitudeFP16 kn vectorFP16 else fkL2Magnitude kn vector) in
             (case ctx_Err ctx env of
                (Some err, env) \<Rightarrow> (Some err, i, env)
              | (None, env) \<Rightarrow>
                if fiPositions i key \<noteq> None then (Some (wrapf ErrDuplicateKey ''%d''), i, env)
                else
                  let i = register_key key i;
                      i = (if fiFP16 i then appendFP16 vectorFP16 i else i\<lparr>fiVectors := fiVectors i @ vector\<rparr>) in
                  (None, add_magnitude magnitude i, env))))"

definition addFP16 :: "flat_kernels \<Rightarrow> ctx \<Rightarrow> u64 \<Rightarrow> f16 list \<Rightarrow> bool \<Rightarrow> DenseFlatIndex \<Rightarrow> env
    \<Rightarrow> error option \<times> DenseFlatIndex \<times> env" where
  "addFP16 kn ctx key vector borrow i env =
     (if ctx = NilCtx then (Some (ErrMsg ''core: nil dense Flat add context''), i, env)
      else case ctx_Err ctx env of
        (Some err, env) \<Rightarrow> (Some err, i, env)
      | (None, env) \<Rightarrow>
        if \<not> fiFP16 i then (Some (ErrMsg ''core: AddFP16 requires a native FP16 Flat index''), i, env)
        else case validateDenseVectorFP16 vector (fiDimension i) of
          Some err \<Rightarrow> (Some err, i, env)
        | None \<Rightarrow>
          let magnitude = fkL2MagnitudeFP16 kn vector in
          (case ctx_Err ctx env of
             (Some err, env) \<Rightarrow> (Some err, i, env)
           | (None, env) \<Rightarrow>
             if fiPositions i key \<noteq> None then (Some (wrapf ErrDuplicateKey ''%d''), i, env)
             else if borrow \<and> fiRows i = None
             then (Some (ErrMsg ''core: borrowed FP16 input requires a row-backed Flat index''), i, env)
             else if maxPlatformInt div fiDimension i \<le> length (fiKeys i) then (Some (Sentinel ErrDenseCapacity), i, env)
             else
               let i = register_key key i;
                   i = (if borrow then i\<lparr>fiRows := map_option (\<lambda>rows. rows @ [take (fiDimension i) vector]) (fiRows i)\<rparr>
                        else appendFP16 vector i) in
               (None, add_magnitude magnitude i, env)))"

definition DenseFlatIndex_AddFP16 :: "flat_kernels \<Rightarrow> ctx \<Rightarrow> u64 \<Rightarrow> f16 list \<Rightarrow> DenseFlatIndex \<Rightarrow> env
    \<Rightarrow> error option \<times> DenseFlatIndex \<times> env" where
  "DenseFlatIndex_AddFP16 kn ctx key vector i env = addFP16 kn ctx key vector False i env"

definition DenseFlatIndex_AddBorrowedFP16 :: "flat_kernels \<Rightarrow> ctx \<Rightarrow> u64 \<Rightarrow> f16 list \<Rightarrow> DenseFlatIndex \<Rightarrow> env
    \<Rightarrow> error option \<times> DenseFlatIndex \<times> env" where
  "DenseFlatIndex_AddBorrowedFP16 kn ctx key vector i env = addFP16 kn ctx key vector True i env"

definition DenseFlatIndex_Vector :: "DenseFlatIndex \<Rightarrow> u64 \<Rightarrow> f32 list option" where
  "DenseFlatIndex_Vector i key =
     (case fiPositions i key of
        None \<Rightarrow> None
      | Some position \<Rightarrow>
          if fiFP16 i then Some (map Float16BitsToFloat32 (fp16Row i position))
          else let start = position * fiDimension i in Some (slice start (start + fiDimension i) (fiVectors i)))"

text \<open>\<open>Reserve\<close> only allocates: it fails on an unrepresentable size and changes nothing.\<close>

definition DenseFlatIndex_Reserve :: "int \<Rightarrow> DenseFlatIndex \<Rightarrow> error option" where
  "DenseFlatIndex_Reserve n i =
     (if n < 0 \<or> (0 < n \<and> n > int (maxPlatformInt div fiDimension i)) then Some (Sentinel ErrDenseCapacity) else None)"


subsection \<open>Building from rows and from candidates\<close>

fun borrow_rows :: "flat_kernels \<Rightarrow> ctx \<Rightarrow> (u64 \<times> f16 list) list \<Rightarrow> DenseFlatIndex \<Rightarrow> env
    \<Rightarrow> (error + DenseFlatIndex) \<times> env" where
  "borrow_rows kn ctx [] i env = (Inr i, env)"
| "borrow_rows kn ctx ((key, row) # rows) i env =
     (case ctx_Err ctx env of
        (Some err, env) \<Rightarrow> (Inl err, env)
      | (None, env) \<Rightarrow>
        (case validateDenseVectorFP16 row (fiDimension i) of
           Some err \<Rightarrow> (Inl err, env)
         | None \<Rightarrow>
           if fiPositions i key \<noteq> None then (Inl (Sentinel ErrDuplicateKey), env)
           else
             let i = register_key key i;
                 i = i\<lparr>fiRows := map_option (\<lambda>rs. rs @ [take (fiDimension i) row]) (fiRows i)\<rparr> in
             borrow_rows kn ctx rows (add_magnitude (fkL2MagnitudeFP16 kn row) i) env))"

definition NewDenseFlatIndexFP16FromBorrowedRows :: "flat_kernels \<Rightarrow> ctx \<Rightarrow> int \<Rightarrow> Metric \<Rightarrow> u64 list \<Rightarrow> f16 list list \<Rightarrow> env
    \<Rightarrow> (error + DenseFlatIndex) \<times> env" where
  "NewDenseFlatIndexFP16FromBorrowedRows kn ctx dimension m keys rows env =
     (if ctx = NilCtx then (Inl (ErrMsg ''core: nil dense Flat build context''), env)
      else case ctx_Err ctx env of
        (Some err, env) \<Rightarrow> (Inl err, env)
      | (None, env) \<Rightarrow>
        (case newDenseFlatIndex dimension m True of
           Inl err \<Rightarrow> (Inl err, env)
         | Inr i \<Rightarrow>
           if length keys \<noteq> length rows then (Inl (Sentinel ErrInvalidDimension), env)
           else borrow_rows kn ctx (zip keys rows) (i\<lparr>fiRows := Some []\<rparr>) env))"

text \<open>The loop over validated candidates; the context is checked at every 1024th of them.\<close>

fun flat_candidates :: "flat_kernels \<Rightarrow> ctx \<Rightarrow> bool \<Rightarrow> nat \<Rightarrow> Candidate list \<Rightarrow> DenseFlatIndex \<Rightarrow> env
    \<Rightarrow> (error + DenseFlatIndex) \<times> env" where
  "flat_candidates kn ctx fp16 position [] i env = (Inr i, env)"
| "flat_candidates kn ctx fp16 position (candidate # cs) i env =
     (case (if position mod 1024 = 0 then ctx_Err ctx env else (None, env)) of
        (Some err, env) \<Rightarrow> (Inl err, env)
      | (None, env) \<Rightarrow>
        if length (cdVector candidate) \<noteq> fiDimension i
        then (Inl (wrapf ErrInvalidDimension ''candidate %d has %d, want %d''), env)
        else if fiPositions i (cdKey candidate) \<noteq> None then (Inl (wrapf ErrDuplicateKey ''%d''), env)
        else
          let i = register_key (cdKey candidate) i in
          if fp16 then
            (case denseVectorFP16 (cdVector candidate) of
               Inl err \<Rightarrow> (Inl (ErrWrap ''core: encode dense Flat FP16 candidate %d'' [err]), env)
             | Inr vector \<Rightarrow>
                 flat_candidates kn ctx fp16 (position + 1) cs
                   (add_magnitude (fkL2MagnitudeFP16 kn vector) (i\<lparr>fiVectorsFP16 := fiVectorsFP16 i @ vector\<rparr>)) env)
          else
            flat_candidates kn ctx fp16 (position + 1) cs
              (add_magnitude (fkL2Magnitude kn (cdVector candidate)) (i\<lparr>fiVectors := fiVectors i @ cdVector candidate\<rparr>)) env)"

definition newDenseFlatIndexFromValidatedCandidates :: "flat_kernels \<Rightarrow> ctx \<Rightarrow> int \<Rightarrow> Metric \<Rightarrow> Candidate list \<Rightarrow> bool \<Rightarrow> env
    \<Rightarrow> (error + DenseFlatIndex) \<times> env" where
  "newDenseFlatIndexFromValidatedCandidates kn ctx dimension m candidates fp16 env =
     (if ctx = NilCtx then (Inl (ErrMsg ''core: nil dense Flat build context''), env)
      else case ctx_Err ctx env of
        (Some err, env) \<Rightarrow> (Inl err, env)
      | (None, env) \<Rightarrow>
        (case newDenseFlatIndex dimension m fp16 of
           Inl err \<Rightarrow> (Inl err, env)
         | Inr i \<Rightarrow>
           if candidates \<noteq> [] \<and> maxPlatformInt div fiDimension i < length candidates
           then (Inl (Sentinel ErrDenseCapacity), env)
           else flat_candidates kn ctx fp16 0 candidates i env))"

definition NewDenseFlatIndexFromValidatedCandidates :: "flat_kernels \<Rightarrow> ctx \<Rightarrow> int \<Rightarrow> Metric \<Rightarrow> Candidate list \<Rightarrow> env
    \<Rightarrow> (error + DenseFlatIndex) \<times> env" where
  "NewDenseFlatIndexFromValidatedCandidates kn ctx dimension m candidates env =
     newDenseFlatIndexFromValidatedCandidates kn ctx dimension m candidates False env"

definition NewDenseFlatIndexFP16FromValidatedCandidates :: "flat_kernels \<Rightarrow> ctx \<Rightarrow> int \<Rightarrow> Metric \<Rightarrow> Candidate list \<Rightarrow> env
    \<Rightarrow> (error + DenseFlatIndex) \<times> env" where
  "NewDenseFlatIndexFP16FromValidatedCandidates kn ctx dimension m candidates env =
     newDenseFlatIndexFromValidatedCandidates kn ctx dimension m candidates True env"

subsection \<open>The builder\<close>

record DenseFlatIndexBuilder =
  fbIndex :: DenseFlatIndex
  fbBuilt :: bool

definition NewDenseFlatBuilder :: "int \<Rightarrow> Metric \<Rightarrow> error + DenseFlatIndexBuilder" where
  "NewDenseFlatBuilder dimension m =
     (case NewDenseFlatIndex dimension m of
        Inl err \<Rightarrow> Inl err
      | Inr i \<Rightarrow> Inr \<lparr>fbIndex = i, fbBuilt = False\<rparr>)"

definition DenseFlatIndexBuilder_Add :: "flat_kernels \<Rightarrow> ctx \<Rightarrow> u64 \<Rightarrow> f32 list \<Rightarrow> DenseFlatIndexBuilder \<Rightarrow> env
    \<Rightarrow> error option \<times> DenseFlatIndexBuilder \<times> env" where
  "DenseFlatIndexBuilder_Add kn ctx key vector b env =
     (if fbBuilt b then (Some (Sentinel ErrBuilderClosed), b, env)
      else case DenseFlatIndex_Add kn ctx key vector (fbIndex b) env of
        (err, i, env) \<Rightarrow> (err, b\<lparr>fbIndex := i\<rparr>, env))"

definition DenseFlatIndexBuilder_Build :: "ctx \<Rightarrow> DenseFlatIndexBuilder \<Rightarrow> env
    \<Rightarrow> (error + DenseFlatIndex) \<times> DenseFlatIndexBuilder \<times> env" where
  "DenseFlatIndexBuilder_Build ctx b env =
     (if ctx = NilCtx then (Inl (ErrMsg ''core: nil dense Flat build context''), b, env)
      else case ctx_Err ctx env of
        (Some err, env) \<Rightarrow> (Inl err, b, env)
      | (None, env) \<Rightarrow>
        if fbBuilt b then (Inl (Sentinel ErrBuilderClosed), b, env)
        else (Inr (fbIndex b), b\<lparr>fbBuilt := True\<rparr>, env))"

end
