(* ===== verification/Flat_Search.thy ===== *)
theory Flat_Search
  imports Flat_Index
begin

text \<open>
  Searching the dense Flat index: the binary16 scan, the cosine scan and the scan in groups of four with
  batched kernels, and the plain scan, all over a bounded heap.
\<close>

subsection \<open>Retaining results\<close>

definition retainDenseResult :: "nat \<Rightarrow> Metric \<Rightarrow> f32 \<Rightarrow> Result \<Rightarrow> Result Heap \<Rightarrow> Result Heap" where
  "retainDenseResult k m radius result heap =
     (if \<not> scoreWithinRadius m (rsScore result) radius then heap else offer m k result heap)"

definition retainCosineResult :: "nat \<Rightarrow> Result \<Rightarrow> Result Heap \<Rightarrow> Result Heap" where
  "retainCosineResult k result heap = offer MetricCosine k result heap"

abbreviation rejects :: "SearchOptions \<Rightarrow> u64 \<Rightarrow> bool" where
  "rejects opts key \<equiv> (case soFilter opts of None \<Rightarrow> False | Some f \<Rightarrow> \<not> f key)"

text \<open>
  Every scan ends the same way; a negative bound panics in \<open>NewHeapWithCapacity\<close>.
\<close>

definition flat_scan :: "Metric \<Rightarrow> SearchOptions \<Rightarrow> nat
    \<Rightarrow> (nat \<Rightarrow> Result Heap \<Rightarrow> env \<Rightarrow> (error + Result Heap) \<times> env) \<Rightarrow> env \<Rightarrow> (string + (error + Result list)) \<times> env" where
  "flat_scan m opts n loop env =
     (let k = min (soTopK opts) (int n) in
      case NewHeapWithCapacity k (Some (worstFirst m)) of
        Inl panic \<Rightarrow> (Inl panic, env)
      | Inr heap \<Rightarrow>
        (case loop (nat k) heap env of
           (Inl err, env) \<Rightarrow> (Inr (Inl err), env)
         | (Inr heap, env) \<Rightarrow> (Inr (Inr (sorted_results m heap)), env)))"

subsection \<open>The binary16 scan\<close>

definition score_fp16 :: "flat_kernels \<Rightarrow> DenseFlatIndex \<Rightarrow> (f16 list \<Rightarrow> f16 list \<Rightarrow> f32) \<Rightarrow> f16 list \<Rightarrow> f32 \<Rightarrow> nat \<Rightarrow> f32" where
  "score_fp16 kn i distance query queryMagnitude position =
     (let candidate = fp16Row i position in
      if fiMetric i = MetricCosine
      then fkCosineWithMagnitudesFP16 kn candidate query (fiMagnitudes i ! position) queryMagnitude
      else distance candidate query)"

fun fp16_loop :: "ctx \<Rightarrow> Metric \<Rightarrow> SearchOptions \<Rightarrow> (nat \<Rightarrow> f32) \<Rightarrow> nat \<Rightarrow> (nat \<times> u64) list \<Rightarrow> Result Heap \<Rightarrow> env
    \<Rightarrow> (error + Result Heap) \<times> env" where
  "fp16_loop ctx m opts score k [] heap env = (Inr heap, env)"
| "fp16_loop ctx m opts score k ((position, key) # rest) heap env =
     (case ctx_Err ctx env of
        (Some err, env) \<Rightarrow> (Inl err, env)
      | (None, env) \<Rightarrow>
        if rejects opts key then fp16_loop ctx m opts score k rest heap env
        else fp16_loop ctx m opts score k rest
               (retainDenseResult k m (soRadius opts) \<lparr>rsKey = key, rsScore = score position\<rparr> heap) env)"

definition searchFP16 :: "flat_kernels \<Rightarrow> ctx \<Rightarrow> f16 list \<Rightarrow> SearchOptions \<Rightarrow> DenseFlatIndex \<Rightarrow> env
    \<Rightarrow> (string + (error + Result list)) \<times> env" where
  "searchFP16 kn ctx query opts i env =
     (if soTopK opts = 0 \<or> fiKeys i = [] then (Inr (Inr []), env)
      else case denseDistanceFP16 kn (fiMetric i) of
        Inl err \<Rightarrow> (Inr (Inl err), env)
      | Inr distance \<Rightarrow>
          let queryMagnitude = (if fiMetric i = MetricCosine then fkL2MagnitudeFP16 kn query else 0) in
          flat_scan (fiMetric i) opts (length (fiKeys i))
            (\<lambda>k. fp16_loop ctx (fiMetric i) opts (score_fp16 kn i distance query queryMagnitude) k
                   (enumerate 0 (fiKeys i))) env)"

subsection \<open>The scans over binary32 vectors\<close>

text \<open>The rows of the index: key, vector and magnitude of every position.\<close>

definition flat_vector :: "DenseFlatIndex \<Rightarrow> nat \<Rightarrow> f32 list" where
  "flat_vector i position = slice (position * fiDimension i) (position * fiDimension i + fiDimension i) (fiVectors i)"

definition flat_rows :: "DenseFlatIndex \<Rightarrow> (u64 \<times> f32 list) list" where
  "flat_rows i = map (\<lambda>position. (fiKeys i ! position, flat_vector i position)) [0..<length (fiKeys i)]"

text \<open>
  Groups of four rows, then one group of two, then at most one row, whose kernel gets the query as
  first argument.
\<close>

fun batched_loop :: "flat_kernels \<Rightarrow> ctx \<Rightarrow> Metric \<Rightarrow> f32 list \<Rightarrow> f32 \<Rightarrow> nat \<Rightarrow> (u64 \<times> f32 list) list \<Rightarrow> Result Heap \<Rightarrow> env
    \<Rightarrow> (error + Result Heap) \<times> env" where
  "batched_loop kn ctx m query radius k ((ka, a) # (kb, b) # (kc, c) # (kd, d) # rest) heap env =
     (case ctx_Err ctx env of
        (Some err, env) \<Rightarrow> (Inl err, env)
      | (None, env) \<Rightarrow>
        (case denseDistances4 kn m query a b c d of
           (sa, sb, sc, sd) \<Rightarrow>
             let heap = retainDenseResult k m radius \<lparr>rsKey = ka, rsScore = sa\<rparr> heap;
                 heap = retainDenseResult k m radius \<lparr>rsKey = kb, rsScore = sb\<rparr> heap;
                 heap = retainDenseResult k m radius \<lparr>rsKey = kc, rsScore = sc\<rparr> heap;
                 heap = retainDenseResult k m radius \<lparr>rsKey = kd, rsScore = sd\<rparr> heap in
             batched_loop kn ctx m query radius k rest heap env))"
| "batched_loop kn ctx m query radius k rows heap env =
     (case (case rows of
              (ka, a) # (kb, b) # rest \<Rightarrow>
                (case denseDistances2 kn m query a b of
                   (sa, sb) \<Rightarrow>
                     let heap = retainDenseResult k m radius \<lparr>rsKey = ka, rsScore = sa\<rparr> heap;
                         heap = retainDenseResult k m radius \<lparr>rsKey = kb, rsScore = sb\<rparr> heap in
                     (rest, heap))
            | _ \<Rightarrow> (rows, heap)) of
        (rest, heap) \<Rightarrow>
          (case rest of
             [] \<Rightarrow> (Inr heap, env)
           | (key, v) # _ \<Rightarrow>
               (case Metric_Distance (fkDense kn) m of
                  Inl _ \<Rightarrow> (Inr heap, env)
                | Inr distance \<Rightarrow>
                    (Inr (retainDenseResult k m radius \<lparr>rsKey = key, rsScore = distance query v\<rparr> heap), env))))"

definition searchDenseBatched :: "flat_kernels \<Rightarrow> ctx \<Rightarrow> f32 list \<Rightarrow> SearchOptions \<Rightarrow> DenseFlatIndex \<Rightarrow> env
    \<Rightarrow> (string + (error + Result list)) \<times> env" where
  "searchDenseBatched kn ctx query opts i env =
     (if soTopK opts = 0 \<or> fiKeys i = [] then (Inr (Inr []), env)
      else flat_scan (fiMetric i) opts (length (fiKeys i))
             (\<lambda>k. batched_loop kn ctx (fiMetric i) query (soRadius opts) k (flat_rows i)) env)"

subsection \<open>The cosine scan\<close>

type_synonym cosine_row = "u64 \<times> f32 list \<times> f32"

definition cosine_rows :: "DenseFlatIndex \<Rightarrow> cosine_row list" where
  "cosine_rows i = map (\<lambda>position. (fiKeys i ! position, flat_vector i position, fiMagnitudes i ! position)) [0..<length (fiKeys i)]"

definition keep_cosine :: "nat \<Rightarrow> f32 \<Rightarrow> Result \<Rightarrow> Result Heap \<Rightarrow> Result Heap" where
  "keep_cosine k radius result heap =
     (if scoreWithinRadius MetricCosine (rsScore result) radius then retainCosineResult k result heap else heap)"

text \<open>The batched part, only taken without a filter: what it leaves goes to the single loop.\<close>

fun cosine_batches :: "flat_kernels \<Rightarrow> ctx \<Rightarrow> f32 list \<Rightarrow> f32 \<Rightarrow> f32 \<Rightarrow> nat \<Rightarrow> cosine_row list \<Rightarrow> Result Heap \<Rightarrow> env
    \<Rightarrow> (error + cosine_row list \<times> Result Heap) \<times> env" where
  "cosine_batches kn ctx query qm radius k ((ka, a, ma) # (kb, b, mb) # (kc, c, mc) # (kd, d, md) # rest) heap env =
     (case ctx_Err ctx env of
        (Some err, env) \<Rightarrow> (Inl err, env)
      | (None, env) \<Rightarrow>
        (case fkCosineDistances4 kn query a b c d qm ma mb mc md of
           (sa, sb, sc, sd) \<Rightarrow>
             let heap = keep_cosine k radius \<lparr>rsKey = ka, rsScore = sa\<rparr> heap;
                 heap = keep_cosine k radius \<lparr>rsKey = kb, rsScore = sb\<rparr> heap;
                 heap = keep_cosine k radius \<lparr>rsKey = kc, rsScore = sc\<rparr> heap;
                 heap = keep_cosine k radius \<lparr>rsKey = kd, rsScore = sd\<rparr> heap in
             cosine_batches kn ctx query qm radius k rest heap env))"
| "cosine_batches kn ctx query qm radius k ((ka, a, ma) # (kb, b, mb) # rest) heap env =
     (case fkCosineDistances2 kn query a b qm ma mb of
        (sa, sb) \<Rightarrow>
          let heap = keep_cosine k radius \<lparr>rsKey = ka, rsScore = sa\<rparr> heap;
              heap = keep_cosine k radius \<lparr>rsKey = kb, rsScore = sb\<rparr> heap in
          (Inr (rest, heap), env))"
| "cosine_batches kn ctx query qm radius k rows heap env = (Inr (rows, heap), env)"

fun cosine_loop :: "flat_kernels \<Rightarrow> ctx \<Rightarrow> f32 list \<Rightarrow> f32 \<Rightarrow> SearchOptions \<Rightarrow> nat \<Rightarrow> cosine_row list \<Rightarrow> Result Heap \<Rightarrow> env
    \<Rightarrow> (error + Result Heap) \<times> env" where
  "cosine_loop kn ctx query qm opts k [] heap env = (Inr heap, env)"
| "cosine_loop kn ctx query qm opts k ((key, v, mag) # rest) heap env =
     (case ctx_Err ctx env of
        (Some err, env) \<Rightarrow> (Inl err, env)
      | (None, env) \<Rightarrow>
        if rejects opts key then cosine_loop kn ctx query qm opts k rest heap env
        else
          let score = fkCosineWithMagnitudes kn v query mag qm in
          if \<not> scoreWithinRadius MetricCosine score (soRadius opts) then cosine_loop kn ctx query qm opts k rest heap env
          else cosine_loop kn ctx query qm opts k rest
                 (retainCosineResult k \<lparr>rsKey = key, rsScore = score\<rparr> heap) env)"

definition searchCosine :: "flat_kernels \<Rightarrow> ctx \<Rightarrow> f32 list \<Rightarrow> SearchOptions \<Rightarrow> DenseFlatIndex \<Rightarrow> env
    \<Rightarrow> (string + (error + Result list)) \<times> env" where
  "searchCosine kn ctx query opts i env =
     (if soTopK opts = 0 \<or> fiKeys i = [] then (Inr (Inr []), env)
      else
        let qm = fkL2Magnitude kn query in
        flat_scan MetricCosine opts (length (fiKeys i))
          (\<lambda>k heap env.
             case (if soFilter opts = None then cosine_batches kn ctx query qm (soRadius opts) k (cosine_rows i) heap env
                   else (Inr (cosine_rows i, heap), env)) of
               (Inl err, env) \<Rightarrow> (Inl err, env)
             | (Inr (rest, heap), env) \<Rightarrow> cosine_loop kn ctx query qm opts k rest heap env) env)"

subsection \<open>Search\<close>

definition DenseFlatIndex_search :: "flat_kernels \<Rightarrow> ctx \<Rightarrow> f32 list \<Rightarrow> SearchOptions \<Rightarrow> bool \<Rightarrow> DenseFlatIndex \<Rightarrow> env
    \<Rightarrow> (string + (error + Result list)) \<times> env" where
  "DenseFlatIndex_search kn ctx query opts requirePositiveTopK i env =
     (if ctx = NilCtx then (Inr (Inl (ErrMsg ''core: nil dense Flat search context'')), env)
      else case ctx_Err ctx env of
        (Some err, env) \<Rightarrow> (Inr (Inl err), env)
      | (None, env) \<Rightarrow>
        if length query \<noteq> fiDimension i then (Inr (Inl (wrapf ErrInvalidDimension ''query has %d, want %d'')), env)
        else case ValidateDense query (fiDimension i) of
          Some err \<Rightarrow> (Inr (Inl (ErrWrap ''core: validate dense Flat query'' [err])), env)
        | None \<Rightarrow>
          (case (if requirePositiveTopK then SearchOptions_Validate opts
                 else if soTopK opts < 0 then Some (ErrMsg ''core: negative top-k'') else None) of
             Some err \<Rightarrow> (Inr (Inl err), env)
           | None \<Rightarrow>
             if fiFP16 i then
               (case denseVectorFP16 query of
                  Inl err \<Rightarrow> (Inr (Inl (ErrWrap ''core: encode dense Flat FP16 query'' [err])), env)
                | Inr queryFP16 \<Rightarrow> searchFP16 kn ctx queryFP16 opts i env)
             else if fiMetric i = MetricCosine then searchCosine kn ctx query opts i env
             else if (fiMetric i = MetricL2 \<or> fiMetric i = MetricIP) \<and> soFilter opts = None
             then searchDenseBatched kn ctx query opts i env
             else case Metric_Distance (fkDense kn) (fiMetric i) of
               Inl err \<Rightarrow> (Inr (Inl err), env)
             | Inr distance \<Rightarrow>
                 topKCandidatesWithDistance ctx (fiMetric i) distance query opts (length (fiKeys i))
                   (\<lambda>position. \<lparr>cdKey = fiKeys i ! position, cdVector = flat_vector i position\<rparr>) env))"

definition DenseFlatIndex_Search :: "flat_kernels \<Rightarrow> ctx \<Rightarrow> f32 list \<Rightarrow> int \<Rightarrow> DenseFlatIndex \<Rightarrow> env
    \<Rightarrow> (string + (error + Result list)) \<times> env" where
  "DenseFlatIndex_Search kn ctx query k i env =
     DenseFlatIndex_search kn ctx query \<lparr>soTopK = k, soRadius = 0, soFilter = None\<rparr> False i env"

definition DenseFlatIndex_SearchWithOptions :: "flat_kernels \<Rightarrow> ctx \<Rightarrow> f32 list \<Rightarrow> SearchOptions \<Rightarrow> DenseFlatIndex \<Rightarrow> env
    \<Rightarrow> (string + (error + Result list)) \<times> env" where
  "DenseFlatIndex_SearchWithOptions kn ctx query opts i env = DenseFlatIndex_search kn ctx query opts True i env"

end
