(* ===== verification/Kernels.thy ===== *)
theory Kernels
  imports Flat_Index
begin

unbundle bit_operations_syntax

text \<open>
  The portable distance kernels of \<^verbatim>\<open>src/internal/ailego/math/distance.go\<close> and
  \<^verbatim>\<open>src/internal/ailego/math_batch/distance.go\<close>, over the rounding operations of the platform. Vectors
  are read by index, so a right operand that is too short is the runtime's index panic (None). The
  assembly kernels that replace these on some machines are not modelled.
\<close>

subsection \<open>Arithmetic\<close>

text \<open>
  The rounding operations: \<open>foMulAdd s x y\<close> is the result of \<open>s += x * y\<close>, which the compiler may fuse;
  \<open>foSqrt\<close> is \<open>float32(math.Sqrt(float64(x)))\<close>.
\<close>

record float_ops =
  foMulAdd :: "f32 \<Rightarrow> f32 \<Rightarrow> f32 \<Rightarrow> f32"
  foSub :: "f32 \<Rightarrow> f32 \<Rightarrow> f32"
  foMul :: "f32 \<Rightarrow> f32 \<Rightarrow> f32"
  foDiv :: "f32 \<Rightarrow> f32 \<Rightarrow> f32"
  foSqrt :: "f32 \<Rightarrow> f32"

text \<open>What IEEE arithmetic promises of them: products commute, and a square does not depend on the sign.\<close>

definition float_ops_ok :: "float_ops \<Rightarrow> bool" where
  "float_ops_ok fo \<longleftrightarrow>
     (\<forall>s x y. foMulAdd fo s x y = foMulAdd fo s y x) \<and> (\<forall>x y. foMul fo x y = foMul fo y x)
   \<and> (\<forall>s x y. foMulAdd fo s (foSub fo x y) (foSub fo x y) = foMulAdd fo s (foSub fo y x) (foSub fo y x))"

abbreviation f32_one :: f32 where "f32_one \<equiv> 0x3f800000"
abbreviation f32_minus_one :: f32 where "f32_minus_one \<equiv> 0xbf800000"
abbreviation f32_two :: f32 where "f32_two \<equiv> 0x40000000"

text \<open>The builtins \<open>min\<close> and \<open>max\<close>: NaN wins, and the negative zero is below the positive one.\<close>

definition f32_max :: "f32 \<Rightarrow> f32 \<Rightarrow> f32" where
  "f32_max a b = (if f32_nan a then a else if f32_nan b then b
     else if f32_lt a b then b else if f32_lt b a then a else a AND b)"

definition f32_min :: "f32 \<Rightarrow> f32 \<Rightarrow> f32" where
  "f32_min a b = (if f32_nan a then a else if f32_nan b then b
     else if f32_lt a b then a else if f32_lt b a then b else a OR b)"

subsection \<open>Loops over one pair of vectors\<close>

text \<open>The loop \<open>for index, leftValue := range left\<close> with a read of \<open>right[index]\<close>.\<close>

primrec pair_loop :: "('s \<Rightarrow> 'a \<Rightarrow> 'a \<Rightarrow> 's) \<Rightarrow> 'a list \<Rightarrow> nat \<Rightarrow> 'a list \<Rightarrow> 's \<Rightarrow> 's option" where
  "pair_loop step [] index right s = Some s"
| "pair_loop step (leftValue # left) index right s =
     (if index < length right then pair_loop step left (index + 1) right (step s leftValue (right ! index)) else None)"

definition squaredEuclideanScalar :: "float_ops \<Rightarrow> f32 list \<Rightarrow> f32 list \<Rightarrow> f32 option" where
  "squaredEuclideanScalar fo left right =
     pair_loop (\<lambda>s leftValue rightValue.
       let difference = foSub fo leftValue rightValue in foMulAdd fo s difference difference) left 0 right 0"

definition innerProductScalar :: "float_ops \<Rightarrow> f32 list \<Rightarrow> f32 list \<Rightarrow> f32 option" where
  "innerProductScalar fo left right = pair_loop (foMulAdd fo) left 0 right 0"

definition dotNormsScalar :: "float_ops \<Rightarrow> f32 list \<Rightarrow> f32 list \<Rightarrow> (f32 \<times> f32 \<times> f32) option" where
  "dotNormsScalar fo left right =
     pair_loop (\<lambda>(dot, leftNorm, rightNorm) leftValue rightValue.
       (foMulAdd fo dot leftValue rightValue, foMulAdd fo leftNorm leftValue leftValue,
        foMulAdd fo rightNorm rightValue rightValue)) left 0 right (0, 0, 0)"

subsection \<open>Distances\<close>

definition L2Squared :: "float_ops \<Rightarrow> f32 list \<Rightarrow> f32 list \<Rightarrow> f32 option" where
  "L2Squared fo left right = squaredEuclideanScalar fo left right"

definition InnerProduct :: "float_ops \<Rightarrow> f32 list \<Rightarrow> f32 list \<Rightarrow> f32 option" where
  "InnerProduct fo left right = innerProductScalar fo left right"

definition cosineDistanceFromProduct :: "float_ops \<Rightarrow> f32 \<Rightarrow> f32 \<Rightarrow> f32 \<Rightarrow> f32" where
  "cosineDistanceFromProduct fo product leftMagnitude rightMagnitude =
     (if f32_eq leftMagnitude 0 \<and> f32_eq rightMagnitude 0 then 0
      else if f32_eq leftMagnitude 0 \<or> f32_eq rightMagnitude 0 then f32_one
      else
        let cosine = foDiv fo product (foMul fo leftMagnitude rightMagnitude);
            cosine = f32_min f32_one (f32_max f32_minus_one cosine) in
        foSub fo f32_one cosine)"

definition CosineDistance :: "float_ops \<Rightarrow> f32 list \<Rightarrow> f32 list \<Rightarrow> f32 option" where
  "CosineDistance fo left right =
     (case dotNormsScalar fo left right of
        None \<Rightarrow> None
      | Some (inner, leftNorm, rightNorm) \<Rightarrow>
          if f32_eq leftNorm 0 \<and> f32_eq rightNorm 0 then Some 0
          else if f32_eq leftNorm 0 \<or> f32_eq rightNorm 0 then Some f32_one
          else
            let leftMagnitude = foSqrt fo leftNorm;
                rightMagnitude = foSqrt fo rightNorm;
                cosine = foDiv fo inner (foMul fo leftMagnitude rightMagnitude);
                cosine = f32_min f32_one (f32_max f32_minus_one cosine) in
            Some (foSub fo f32_one cosine))"

definition MIPSL2Squared :: "float_ops \<Rightarrow> f32 list \<Rightarrow> f32 list \<Rightarrow> f32 option" where
  "MIPSL2Squared fo left right =
     (case dotNormsScalar fo left right of
        None \<Rightarrow> None
      | Some (inner, leftNorm, rightNorm) \<Rightarrow>
          let denominator = f32_max leftNorm rightNorm in
          if f32_eq denominator 0 then Some 0
          else Some (foSub fo f32_two (foDiv fo (foMul fo f32_two inner) denominator)))"

definition magnitude_of :: "float_ops \<Rightarrow> f32 option \<Rightarrow> f32 option" where
  "magnitude_of fo product =
     map_option (\<lambda>norm. foSqrt fo (if f32_lt norm 0 then 0 else norm)) product"

definition L2Magnitude :: "float_ops \<Rightarrow> f32 list \<Rightarrow> f32 option" where
  "L2Magnitude fo vector = magnitude_of fo (innerProductScalar fo vector vector)"

definition CosineDistanceWithMagnitudes :: "float_ops \<Rightarrow> f32 list \<Rightarrow> f32 list \<Rightarrow> f32 \<Rightarrow> f32 \<Rightarrow> f32 option" where
  "CosineDistanceWithMagnitudes fo left right leftMagnitude rightMagnitude =
     (if f32_eq leftMagnitude 0 \<and> f32_eq rightMagnitude 0 then Some 0
      else if f32_eq leftMagnitude 0 \<or> f32_eq rightMagnitude 0 then Some f32_one
      else map_option (\<lambda>product. cosineDistanceFromProduct fo product leftMagnitude rightMagnitude)
             (innerProductScalar fo left right))"

subsection \<open>Distances of binary16 vectors\<close>

definition squaredEuclideanFP16Scalar :: "float_ops \<Rightarrow> f16 list \<Rightarrow> f16 list \<Rightarrow> f32 option" where
  "squaredEuclideanFP16Scalar fo left right =
     pair_loop (\<lambda>s leftBits rightBits.
       let leftValue = Float16BitsToFloat32 leftBits;
           rightValue = Float16BitsToFloat32 rightBits;
           difference = foSub fo leftValue rightValue in foMulAdd fo s difference difference) left 0 right 0"

definition innerProductFP16Scalar :: "float_ops \<Rightarrow> f16 list \<Rightarrow> f16 list \<Rightarrow> f32 option" where
  "innerProductFP16Scalar fo left right =
     pair_loop (\<lambda>s leftBits rightBits.
       let leftValue = Float16BitsToFloat32 leftBits;
           rightValue = Float16BitsToFloat32 rightBits in foMulAdd fo s leftValue rightValue) left 0 right 0"

definition dotNormsFP16Scalar :: "float_ops \<Rightarrow> f16 list \<Rightarrow> f16 list \<Rightarrow> (f32 \<times> f32 \<times> f32) option" where
  "dotNormsFP16Scalar fo left right =
     pair_loop (\<lambda>(dot, leftNorm, rightNorm) leftBits rightBits.
       let leftValue = Float16BitsToFloat32 leftBits;
           rightValue = Float16BitsToFloat32 rightBits in
       (foMulAdd fo dot leftValue rightValue, foMulAdd fo leftNorm leftValue leftValue,
        foMulAdd fo rightNorm rightValue rightValue)) left 0 right (0, 0, 0)"

definition L2SquaredFP16 :: "float_ops \<Rightarrow> f16 list \<Rightarrow> f16 list \<Rightarrow> f32 option" where
  "L2SquaredFP16 fo left right = squaredEuclideanFP16Scalar fo left right"

definition InnerProductFP16 :: "float_ops \<Rightarrow> f16 list \<Rightarrow> f16 list \<Rightarrow> f32 option" where
  "InnerProductFP16 fo left right = innerProductFP16Scalar fo left right"

definition CosineDistanceFP16 :: "float_ops \<Rightarrow> f16 list \<Rightarrow> f16 list \<Rightarrow> f32 option" where
  "CosineDistanceFP16 fo left right =
     (case dotNormsFP16Scalar fo left right of
        None \<Rightarrow> None
      | Some (inner, leftNorm, rightNorm) \<Rightarrow>
          if f32_eq leftNorm 0 \<and> f32_eq rightNorm 0 then Some 0
          else if f32_eq leftNorm 0 \<or> f32_eq rightNorm 0 then Some f32_one
          else Some (cosineDistanceFromProduct fo inner (foSqrt fo leftNorm) (foSqrt fo rightNorm)))"

definition MIPSL2SquaredFP16 :: "float_ops \<Rightarrow> f16 list \<Rightarrow> f16 list \<Rightarrow> f32 option" where
  "MIPSL2SquaredFP16 fo left right =
     (case dotNormsFP16Scalar fo left right of
        None \<Rightarrow> None
      | Some (inner, leftNorm, rightNorm) \<Rightarrow>
          let denominator = f32_max leftNorm rightNorm in
          if f32_eq denominator 0 then Some 0
          else Some (foSub fo f32_two (foDiv fo (foMul fo f32_two inner) denominator)))"

definition L2MagnitudeFP16 :: "float_ops \<Rightarrow> f16 list \<Rightarrow> f32 option" where
  "L2MagnitudeFP16 fo vector = magnitude_of fo (innerProductFP16Scalar fo vector vector)"

definition CosineDistanceWithMagnitudesFP16 :: "float_ops \<Rightarrow> f16 list \<Rightarrow> f16 list \<Rightarrow> f32 \<Rightarrow> f32 \<Rightarrow> f32 option" where
  "CosineDistanceWithMagnitudesFP16 fo left right leftMagnitude rightMagnitude =
     map_option (\<lambda>product. cosineDistanceFromProduct fo product leftMagnitude rightMagnitude)
       (innerProductFP16Scalar fo left right)"

end
