(* ===== verification/Batch_Kernels.thy ===== *)
theory Batch_Kernels
  imports Kernels
begin

text \<open>
  The one-to-many kernels of \<^verbatim>\<open>src/internal/ailego/math_batch/distance.go\<close> in their portable form, and
  that they score every candidate as the single-vector kernels do. An \<open>output\<close> argument is a slice that is
  overwritten from its start; writing past its end is the runtime's panic (None).
\<close>

subsection \<open>Two and four candidates at a time\<close>

primrec pair_loop2 :: "('s \<Rightarrow> 'a \<Rightarrow> 'a \<Rightarrow> 's) \<Rightarrow> 'a list \<Rightarrow> nat \<Rightarrow> 'a list \<Rightarrow> 'a list \<Rightarrow> 's \<times> 's \<Rightarrow> ('s \<times> 's) option" where
  "pair_loop2 step [] index first second s = Some s"
| "pair_loop2 step (queryValue # query) index first second s =
     (if index < length first \<and> index < length second then
        pair_loop2 step query (index + 1) first second
          (step (fst s) queryValue (first ! index), step (snd s) queryValue (second ! index))
      else None)"

primrec pair_loop4 :: "('s \<Rightarrow> 'a \<Rightarrow> 'a \<Rightarrow> 's) \<Rightarrow> 'a list \<Rightarrow> nat \<Rightarrow> 'a list \<Rightarrow> 'a list \<Rightarrow> 'a list \<Rightarrow> 'a list
    \<Rightarrow> 's \<times> 's \<times> 's \<times> 's \<Rightarrow> ('s \<times> 's \<times> 's \<times> 's) option" where
  "pair_loop4 step [] index first second third fourth s = Some s"
| "pair_loop4 step (queryValue # query) index first second third fourth s =
     (if index < length first \<and> index < length second \<and> index < length third \<and> index < length fourth then
        pair_loop4 step query (index + 1) first second third fourth
          (case s of (a, b, c, d) \<Rightarrow>
             (step a queryValue (first ! index), step b queryValue (second ! index),
              step c queryValue (third ! index), step d queryValue (fourth ! index)))
      else None)"

abbreviation square_step :: "float_ops \<Rightarrow> f32 \<Rightarrow> f32 \<Rightarrow> f32 \<Rightarrow> f32" where
  "square_step fo s queryValue value \<equiv>
     (let difference = foSub fo queryValue value in foMulAdd fo s difference difference)"

definition InnerProducts2 :: "float_ops \<Rightarrow> f32 list \<Rightarrow> f32 list \<Rightarrow> f32 list \<Rightarrow> (f32 \<times> f32) option" where
  "InnerProducts2 fo query first second = pair_loop2 (foMulAdd fo) query 0 first second (0, 0)"

definition InnerProducts4 :: "float_ops \<Rightarrow> f32 list \<Rightarrow> f32 list \<Rightarrow> f32 list \<Rightarrow> f32 list \<Rightarrow> f32 list
    \<Rightarrow> (f32 \<times> f32 \<times> f32 \<times> f32) option" where
  "InnerProducts4 fo query first second third fourth =
     pair_loop4 (foMulAdd fo) query 0 first second third fourth (0, 0, 0, 0)"

definition SquaredEuclideanDistances2 :: "float_ops \<Rightarrow> f32 list \<Rightarrow> f32 list \<Rightarrow> f32 list \<Rightarrow> (f32 \<times> f32) option" where
  "SquaredEuclideanDistances2 fo query first second = pair_loop2 (square_step fo) query 0 first second (0, 0)"

definition SquaredEuclideanDistances4 :: "float_ops \<Rightarrow> f32 list \<Rightarrow> f32 list \<Rightarrow> f32 list \<Rightarrow> f32 list \<Rightarrow> f32 list
    \<Rightarrow> (f32 \<times> f32 \<times> f32 \<times> f32) option" where
  "SquaredEuclideanDistances4 fo query first second third fourth =
     pair_loop4 (square_step fo) query 0 first second third fourth (0, 0, 0, 0)"

definition EuclideanDistances2 :: "float_ops \<Rightarrow> f32 list \<Rightarrow> f32 list \<Rightarrow> f32 list \<Rightarrow> (f32 \<times> f32) option" where
  "EuclideanDistances2 fo query first second =
     map_option (\<lambda>(a, b). (foSqrt fo a, foSqrt fo b)) (SquaredEuclideanDistances2 fo query first second)"

definition EuclideanDistances4 :: "float_ops \<Rightarrow> f32 list \<Rightarrow> f32 list \<Rightarrow> f32 list \<Rightarrow> f32 list \<Rightarrow> f32 list
    \<Rightarrow> (f32 \<times> f32 \<times> f32 \<times> f32) option" where
  "EuclideanDistances4 fo query first second third fourth =
     map_option (\<lambda>(a, b, c, d). (foSqrt fo a, foSqrt fo b, foSqrt fo c, foSqrt fo d))
       (SquaredEuclideanDistances4 fo query first second third fourth)"

definition CosineDistances2WithMagnitudes :: "float_ops \<Rightarrow> f32 list \<Rightarrow> f32 list \<Rightarrow> f32 list \<Rightarrow> f32 \<Rightarrow> f32 \<Rightarrow> f32
    \<Rightarrow> (f32 \<times> f32) option" where
  "CosineDistances2WithMagnitudes fo query first second queryMagnitude firstMagnitude secondMagnitude =
     map_option (\<lambda>(firstProduct, secondProduct).
         (cosineDistanceFromProduct fo firstProduct queryMagnitude firstMagnitude,
          cosineDistanceFromProduct fo secondProduct queryMagnitude secondMagnitude))
       (InnerProducts2 fo query first second)"

definition CosineDistances4WithMagnitudes :: "float_ops \<Rightarrow> f32 list \<Rightarrow> f32 list \<Rightarrow> f32 list \<Rightarrow> f32 list \<Rightarrow> f32 list
    \<Rightarrow> f32 \<Rightarrow> f32 \<Rightarrow> f32 \<Rightarrow> f32 \<Rightarrow> f32 \<Rightarrow> (f32 \<times> f32 \<times> f32 \<times> f32) option" where
  "CosineDistances4WithMagnitudes fo query first second third fourth
      queryMagnitude firstMagnitude secondMagnitude thirdMagnitude fourthMagnitude =
     map_option (\<lambda>(firstProduct, secondProduct, thirdProduct, fourthProduct).
         (cosineDistanceFromProduct fo firstProduct queryMagnitude firstMagnitude,
          cosineDistanceFromProduct fo secondProduct queryMagnitude secondMagnitude,
          cosineDistanceFromProduct fo thirdProduct queryMagnitude thirdMagnitude,
          cosineDistanceFromProduct fo fourthProduct queryMagnitude fourthMagnitude))
       (InnerProducts4 fo query first second third fourth)"

subsection \<open>One query against many candidates\<close>

text \<open>The scores in the order they are written: groups of four, one group of two, one single candidate.\<close>

fun batch_scores :: "('q \<Rightarrow> 'v \<Rightarrow> 'v \<Rightarrow> ('s \<times> 's) option) \<Rightarrow> ('q \<Rightarrow> 'v \<Rightarrow> 'v \<Rightarrow> 'v \<Rightarrow> 'v \<Rightarrow> ('s \<times> 's \<times> 's \<times> 's) option)
    \<Rightarrow> ('q \<Rightarrow> 'v \<Rightarrow> 's option) \<Rightarrow> 'q \<Rightarrow> 'v list \<Rightarrow> 's list option" where
  "batch_scores batch2 batch4 single query (a # b # c # d # rest) =
     (case batch4 query a b c d of
        None \<Rightarrow> None
      | Some (sa, sb, sc, sd) \<Rightarrow>
          map_option (\<lambda>ss. sa # sb # sc # sd # ss) (batch_scores batch2 batch4 single query rest))"
| "batch_scores batch2 batch4 single query rest =
     (case (case rest of
              a # b # rest \<Rightarrow> map_option (\<lambda>(sa, sb). ([sa, sb], rest)) (batch2 query a b)
            | _ \<Rightarrow> Some ([], rest)) of
        None \<Rightarrow> None
      | Some (ss, []) \<Rightarrow> Some ss
      | Some (ss, a # _) \<Rightarrow> map_option (\<lambda>s. ss @ [s]) (single query a))"

definition write_output :: "'s list option \<Rightarrow> 's list \<Rightarrow> 's list option" where
  "write_output scores output =
     (case scores of
        None \<Rightarrow> None
      | Some ss \<Rightarrow> if length ss \<le> length output then Some (ss @ drop (length ss) output) else None)"

definition batchOneToMany :: "f32 list \<Rightarrow> f32 list list \<Rightarrow> f32 list
    \<Rightarrow> (f32 list \<Rightarrow> f32 list \<Rightarrow> f32 list \<Rightarrow> (f32 \<times> f32) option)
    \<Rightarrow> (f32 list \<Rightarrow> f32 list \<Rightarrow> f32 list \<Rightarrow> f32 list \<Rightarrow> f32 list \<Rightarrow> (f32 \<times> f32 \<times> f32 \<times> f32) option)
    \<Rightarrow> (f32 list \<Rightarrow> f32 list \<Rightarrow> f32 option) \<Rightarrow> f32 list option" where
  "batchOneToMany query candidates output batch2 batch4 single =
     write_output (batch_scores batch2 batch4 single query candidates) output"

definition InnerProducts :: "float_ops \<Rightarrow> f32 list \<Rightarrow> f32 list list \<Rightarrow> f32 list \<Rightarrow> f32 list option" where
  "InnerProducts fo query candidates output =
     batchOneToMany query candidates output (InnerProducts2 fo) (InnerProducts4 fo) (InnerProduct fo)"

definition SquaredEuclideanDistances :: "float_ops \<Rightarrow> f32 list \<Rightarrow> f32 list list \<Rightarrow> f32 list \<Rightarrow> f32 list option" where
  "SquaredEuclideanDistances fo query candidates output =
     batchOneToMany query candidates output (SquaredEuclideanDistances2 fo) (SquaredEuclideanDistances4 fo) (L2Squared fo)"

text \<open>The second loop rewrites the first \<open>len(candidates)\<close> elements of the output.\<close>

definition EuclideanDistances :: "float_ops \<Rightarrow> f32 list \<Rightarrow> f32 list list \<Rightarrow> f32 list \<Rightarrow> f32 list option" where
  "EuclideanDistances fo query candidates output =
     map_option (\<lambda>out. map (foSqrt fo) (take (length candidates) out) @ drop (length candidates) out)
       (SquaredEuclideanDistances fo query candidates output)"

definition CosineDistancesWithMagnitudes :: "float_ops \<Rightarrow> f32 list \<Rightarrow> f32 list list \<Rightarrow> f32 \<Rightarrow> f32 list \<Rightarrow> f32 list
    \<Rightarrow> f32 list option" where
  "CosineDistancesWithMagnitudes fo query candidates queryMagnitude candidateMagnitudes output =
     (case InnerProducts fo query candidates output of
        None \<Rightarrow> None
      | Some out \<Rightarrow>
          if length candidateMagnitudes < length candidates then None
          else Some (map (\<lambda>(product, magnitude). cosineDistanceFromProduct fo product queryMagnitude magnitude)
                 (zip (take (length candidates) out) candidateMagnitudes) @ drop (length candidates) out))"

subsection \<open>Four binary16 candidates at a time\<close>

definition fp16_scalar4 :: "(f16 list \<Rightarrow> f16 list \<Rightarrow> f32 option) \<Rightarrow> f16 list \<Rightarrow> f16 list \<Rightarrow> f16 list \<Rightarrow> f16 list \<Rightarrow> f16 list
    \<Rightarrow> f32 list \<Rightarrow> f32 list option" where
  "fp16_scalar4 single query first second third fourth output =
     (case (single query first, single query second, single query third, single query fourth) of
        (Some a, Some b, Some c, Some d) \<Rightarrow> write_output (Some [a, b, c, d]) output
      | _ \<Rightarrow> None)"

definition SquaredEuclideanDistances4FP16 :: "float_ops \<Rightarrow> f16 list \<Rightarrow> f16 list \<Rightarrow> f16 list \<Rightarrow> f16 list \<Rightarrow> f16 list
    \<Rightarrow> f32 list \<Rightarrow> f32 list option" where
  "SquaredEuclideanDistances4FP16 fo = fp16_scalar4 (L2SquaredFP16 fo)"

definition InnerProducts4FP16 :: "float_ops \<Rightarrow> f16 list \<Rightarrow> f16 list \<Rightarrow> f16 list \<Rightarrow> f16 list \<Rightarrow> f16 list
    \<Rightarrow> f32 list \<Rightarrow> f32 list option" where
  "InnerProducts4FP16 fo = fp16_scalar4 (InnerProductFP16 fo)"

definition CosineDistances4FP16 :: "float_ops \<Rightarrow> f16 list \<Rightarrow> f16 list \<Rightarrow> f16 list \<Rightarrow> f16 list \<Rightarrow> f16 list
    \<Rightarrow> f32 list \<Rightarrow> f32 list option" where
  "CosineDistances4FP16 fo = fp16_scalar4 (CosineDistanceFP16 fo)"

definition MIPSL2SquaredDistances4FP16 :: "float_ops \<Rightarrow> f16 list \<Rightarrow> f16 list \<Rightarrow> f16 list \<Rightarrow> f16 list \<Rightarrow> f16 list
    \<Rightarrow> f32 list \<Rightarrow> f32 list option" where
  "MIPSL2SquaredDistances4FP16 fo = fp16_scalar4 (MIPSL2SquaredFP16 fo)"

definition CosineDistances4WithMagnitudesFP16 :: "float_ops \<Rightarrow> f16 list \<Rightarrow> f16 list \<Rightarrow> f16 list \<Rightarrow> f16 list \<Rightarrow> f16 list
    \<Rightarrow> f32 \<Rightarrow> f32 \<Rightarrow> f32 \<Rightarrow> f32 \<Rightarrow> f32 \<Rightarrow> f32 list \<Rightarrow> f32 list option" where
  "CosineDistances4WithMagnitudesFP16 fo query first second third fourth qm m1 m2 m3 m4 output =
     map_option (\<lambda>out. map (\<lambda>(product, magnitude). cosineDistanceFromProduct fo product qm magnitude)
         (zip (take 4 out) [m1, m2, m3, m4]) @ drop 4 out)
       (InnerProducts4FP16 fo query first second third fourth output)"


subsection \<open>The kernels the Flat index calls\<close>

text \<open>
  The Flat index only calls kernels on vectors of its own dimension, where no read is out of range: there
  each portable kernel is the total function it computes.
\<close>

definition scalar_kernels :: "float_ops \<Rightarrow> kernels" where
  "scalar_kernels fo = \<lparr>knL2Squared = \<lambda>l r. the (L2Squared fo l r), knInnerProduct = \<lambda>l r. the (InnerProduct fo l r),
     knCosineDistance = \<lambda>l r. the (CosineDistance fo l r), knMIPSL2Squared = \<lambda>l r. the (MIPSL2Squared fo l r)\<rparr>"

definition scalar_flat_kernels :: "float_ops \<Rightarrow> flat_kernels" where
  "scalar_flat_kernels fo = \<lparr>fkDense = scalar_kernels fo,
     fkL2SquaredFP16 = \<lambda>l r. the (L2SquaredFP16 fo l r), fkInnerProductFP16 = \<lambda>l r. the (InnerProductFP16 fo l r),
     fkCosineDistanceFP16 = \<lambda>l r. the (CosineDistanceFP16 fo l r), fkMIPSL2SquaredFP16 = \<lambda>l r. the (MIPSL2SquaredFP16 fo l r),
     fkL2Magnitude = \<lambda>v. the (L2Magnitude fo v), fkL2MagnitudeFP16 = \<lambda>v. the (L2MagnitudeFP16 fo v),
     fkCosineWithMagnitudes = \<lambda>l r lm rm. the (CosineDistanceWithMagnitudes fo l r lm rm),
     fkCosineWithMagnitudesFP16 = \<lambda>l r lm rm. the (CosineDistanceWithMagnitudesFP16 fo l r lm rm),
     fkInnerProducts2 = \<lambda>q a b. the (InnerProducts2 fo q a b),
     fkInnerProducts4 = \<lambda>q a b c d. the (InnerProducts4 fo q a b c d),
     fkSquaredEuclideanDistances2 = \<lambda>q a b. the (SquaredEuclideanDistances2 fo q a b),
     fkSquaredEuclideanDistances4 = \<lambda>q a b c d. the (SquaredEuclideanDistances4 fo q a b c d),
     fkCosineDistances2 = \<lambda>q a b qm ma mb. the (CosineDistances2WithMagnitudes fo q a b qm ma mb),
     fkCosineDistances4 = \<lambda>q a b c d qm ma mb mc md. the (CosineDistances4WithMagnitudes fo q a b c d qm ma mb mc md)\<rparr>"

text \<open>A concrete arithmetic with the laws: the ring of the bit patterns.\<close>

definition ring_ops :: float_ops where
  "ring_ops = \<lparr>foMulAdd = \<lambda>s x y. s + x * y, foSub = (-), foMul = (*), foDiv = \<lambda>x y. x, foSqrt = \<lambda>x. x\<rparr>"

lemma ring_ops_ok: "float_ops_ok ring_ops"
  by (simp add: float_ops_ok_def ring_ops_def algebra_simps)

subsection \<open>The loops agree\<close>

lemma pair_loop_fold: "pair_loop step left index right s =
    (if left = [] \<or> index + length left \<le> length right then Some (fold (\<lambda>(x, y) s. step s x y) (zip left (drop index right)) s) else None)"
proof (induction left arbitrary: index s)
  case (Cons x left)
  show ?case
  proof (cases "index < length right")
    case True
    then have "drop index right = right ! index # drop (Suc index) right" by (simp add: Cons_nth_drop_Suc)
    then show ?thesis using True Cons.IH by (cases left) simp_all
  qed simp
qed simp

lemma pair_loop_swap:
  assumes "length left = length right" and "\<And>s x y. step s x y = step s y x"
  shows "pair_loop step left 0 right s = pair_loop step right 0 left s"
proof -
  have "fold (\<lambda>(x, y) s. step s x y) (zip left right) s = fold (\<lambda>(x, y) s. step s x y) (zip right left) s"
    using assms(1)
  proof (induction left right arbitrary: s rule: list_induct2)
    case (Cons x xs y ys)
    then show ?case by (simp add: assms(2)[of s x y])
  qed simp
  then show ?thesis using assms(1) by (simp add: pair_loop_fold)
qed

lemma pair_loop2_single: "pair_loop2 step query index first second s =
    (case (pair_loop step query index first (fst s), pair_loop step query index second (snd s)) of
       (Some a, Some b) \<Rightarrow> Some (a, b) | _ \<Rightarrow> None)"
proof (induction query arbitrary: index s)
  case (Cons q query)
  show ?case by (auto simp: Cons.IH split: option.splits)
qed (simp add: prod.expand)

lemma pair_loop4_single: "pair_loop4 step query index first second third fourth (sa, sb, sc, sd) =
    (case (pair_loop step query index first sa, pair_loop step query index second sb,
           pair_loop step query index third sc, pair_loop step query index fourth sd) of
       (Some a, Some b, Some c, Some d) \<Rightarrow> Some (a, b, c, d) | _ \<Rightarrow> None)"
proof (induction query arbitrary: index sa sb sc sd)
  case (Cons q query)
  show ?case by (auto simp: Cons.IH split: option.splits)
qed simp

lemma batch_scores_those:
  assumes "\<And>a b. batch2 q a b = (case (single q a, single q b) of (Some x, Some y) \<Rightarrow> Some (x, y) | _ \<Rightarrow> None)"
    and "\<And>a b c d. batch4 q a b c d = (case (single q a, single q b, single q c, single q d) of
          (Some x, Some y, Some z, Some w) \<Rightarrow> Some (x, y, z, w) | _ \<Rightarrow> None)"
  shows "batch_scores batch2 batch4 single q cs = those (map (single q) cs)"
  using assms
  by (induction batch2 batch4 single q cs rule: batch_scores.induct) (auto simp: option.map_comp comp_def split: option.splits)


lemma those_Some: "those xs = Some ys \<longleftrightarrow> xs = map Some ys"
  by (induction xs arbitrary: ys) (auto split: option.splits simp: map_eq_Cons_conv)

text \<open>A loop whose right operands are long enough returns.\<close>

lemma pair_loop_returns: "length left \<le> length right \<Longrightarrow> \<exists>r. pair_loop step left 0 right s = Some r"
  by (simp add: pair_loop_fold)

lemma map_returns: "(\<And>v. v \<in> set cs \<Longrightarrow> \<exists>r. f v = Some r) \<Longrightarrow> \<exists>ss. map f cs = map Some ss"
proof (induction cs)
  case (Cons c cs)
  then obtain r ss where "f c = Some r" "map f cs = map Some ss" by (meson list.set_intros)
  then show ?case by (intro exI[of _ "r # ss"]) simp
qed simp

lemma batchOneToMany_single:
  assumes "\<And>a b. batch2 q a b = (case (single q a, single q b) of (Some x, Some y) \<Rightarrow> Some (x, y) | _ \<Rightarrow> None)"
    and "\<And>a b c d. batch4 q a b c d = (case (single q a, single q b, single q c, single q d) of
          (Some x, Some y, Some z, Some w) \<Rightarrow> Some (x, y, z, w) | _ \<Rightarrow> None)"
    and "map (single q) cs = map Some ss" and "length cs \<le> length output"
  shows "batchOneToMany q cs output batch2 batch4 single = Some (ss @ drop (length cs) output)"
proof -
  have "length ss = length cs" using arg_cong[OF assms(3), of length] by simp
  then show ?thesis
    using batch_scores_those[of batch2 q single batch4, OF assms(1,2), of cs] those_Some[of "map (single q) cs" ss] assms(3,4)
    by (simp add: batchOneToMany_def write_output_def)
qed

lemma InnerProducts_single:
  assumes "map (InnerProduct fo q) cs = map Some ss" and "length cs \<le> length output"
  shows "InnerProducts fo q cs output = Some (ss @ drop (length cs) output)"
  unfolding InnerProducts_def
  by (rule batchOneToMany_single[where single = "InnerProduct fo", OF _ _ assms])
    (simp_all add: InnerProducts2_def InnerProducts4_def InnerProduct_def innerProductScalar_def pair_loop2_single pair_loop4_single)

lemma cosine_from_product: "innerProductScalar fo q v = Some product \<Longrightarrow>
    CosineDistanceWithMagnitudes fo q v qm mag = Some (cosineDistanceFromProduct fo product qm mag)"
  by (simp add: CosineDistanceWithMagnitudes_def cosineDistanceFromProduct_def)

text \<open>
  C36: The one-to-many kernels score like the single-vector kernels. For candidates that cover the query
  and an output with room, \<open>InnerProducts\<close>, \<open>SquaredEuclideanDistances\<close> and
  \<open>CosineDistancesWithMagnitudes\<close> write for every candidate exactly the value of the single-vector kernel,
  whatever the rounding of the arithmetic, and leave the rest of the output alone.
\<close>

theorem batched_kernels_match_single:
  assumes "\<forall>v\<in>set cs. length query \<le> length v" and "length cs \<le> length output" and "length mags = length cs"
  shows "\<exists>ips l2s cosines.
      map (InnerProduct fo query) cs = map Some ips
    \<and> InnerProducts fo query cs output = Some (ips @ drop (length cs) output)
    \<and> map (L2Squared fo query) cs = map Some l2s
    \<and> SquaredEuclideanDistances fo query cs output = Some (l2s @ drop (length cs) output)
    \<and> map (\<lambda>(v, mag). CosineDistanceWithMagnitudes fo query v qm mag) (zip cs mags) = map Some cosines
    \<and> CosineDistancesWithMagnitudes fo query cs qm mags output = Some (cosines @ drop (length cs) output)"
proof -
  have "\<exists>r. InnerProduct fo query v = Some r" "\<exists>r. L2Squared fo query v = Some r" if "v \<in> set cs" for v
    using assms(1) that pair_loop_returns[of query v]
    by (simp_all add: InnerProduct_def innerProductScalar_def L2Squared_def squaredEuclideanScalar_def)
  then obtain ips l2s where ips: "map (InnerProduct fo query) cs = map Some ips" and l2s: "map (L2Squared fo query) cs = map Some l2s"
    using map_returns[of cs "InnerProduct fo query"] map_returns[of cs "L2Squared fo query"] by blast
  have l2: "SquaredEuclideanDistances fo query cs output = Some (l2s @ drop (length cs) output)"
    unfolding SquaredEuclideanDistances_def
    by (rule batchOneToMany_single[where single = "L2Squared fo", OF _ _ l2s assms(2)])
      (simp_all add: SquaredEuclideanDistances2_def SquaredEuclideanDistances4_def L2Squared_def squaredEuclideanScalar_def
        pair_loop2_single pair_loop4_single)
  have len: "length ips = length cs" using arg_cong[OF ips, of length] by simp
  define cosines where "cosines = map (\<lambda>(product, mag). cosineDistanceFromProduct fo product qm mag) (zip ips mags)"
  have "CosineDistanceWithMagnitudes fo query (cs ! p) qm (mags ! p) = Some (cosineDistanceFromProduct fo (ips ! p) qm (mags ! p))"
    if "p < length cs" for p
    using arg_cong[OF ips, of "\<lambda>xs. xs ! p"] that len by (intro cosine_from_product) (simp add: InnerProduct_def)
  then have "map (\<lambda>(v, mag). CosineDistanceWithMagnitudes fo query v qm mag) (zip cs mags) = map Some cosines"
    using len assms(3) by (intro nth_equalityI) (simp_all add: cosines_def)
  moreover have "CosineDistancesWithMagnitudes fo query cs qm mags output = Some (cosines @ drop (length cs) output)"
    using InnerProducts_single[OF ips assms(2)] len assms(3) by (simp add: CosineDistancesWithMagnitudes_def cosines_def)
  ultimately show ?thesis using ips l2s l2 InnerProducts_single[OF ips assms(2)] by blast
qed

theorem batched_kernels_match_single_witness:
  "InnerProducts ring_ops [1, 2] [[3, 4], [5, 6], [7, 8]] [9, 9, 9, 9] = Some [11, 17, 23, 9]"
proof -
  have "\<exists>ips. map (InnerProduct ring_ops [1, 2]) [[3, 4], [5, 6], [7, 8]] = map Some ips
    \<and> InnerProducts ring_ops [1, 2] [[3, 4], [5, 6], [7, 8]] [9, 9, 9, 9] = Some (ips @ drop 3 [9, 9, 9, 9])"
    using batched_kernels_match_single[of "[[3, 4], [5, 6], [7, 8]]" "[1, 2]" "[9, 9, 9, 9]" "[1, 1, 1]" ring_ops 1] by auto
  then show ?thesis by (auto simp: InnerProduct_def innerProductScalar_def ring_ops_def map_eq_Cons_conv)
qed

end
