(* ===== verification/Flat_Invariant.thy ===== *)
theory Flat_Invariant
  imports Flat_Search Batch_Kernels
begin

text \<open>
  The representation invariant of the dense Flat index: the position map is the inverse of the key list,
  each layout has exactly one row per key, and a cosine index the magnitude of every row. Every operation keeps
  it, adding a vector keeps every other row and stores the new one.
\<close>

subsection \<open>Rows in one contiguous slice\<close>

definition row_at :: "nat \<Rightarrow> nat \<Rightarrow> 'a list \<Rightarrow> 'a list" where
  "row_at dim p xs = slice (p * dim) (p * dim + dim) xs"

lemma row_bound: "p < n \<Longrightarrow> p * dim + dim \<le> n * (dim :: nat)"
  using mult_le_mono1[of "Suc p" n dim] by simp

lemma length_row_at [simp]: "p < n \<Longrightarrow> length xs = n * dim \<Longrightarrow> length (row_at dim p xs) = dim"
  using row_bound[of p n dim] by (simp add: row_at_def)

lemma row_at_append_old: "p < n \<Longrightarrow> length xs = n * dim \<Longrightarrow> row_at dim p (xs @ ys) = row_at dim p xs"
  using row_bound[of p n dim] by (simp add: row_at_def slice_def)

lemma row_at_append_new: "length xs = n * dim \<Longrightarrow> length v = dim \<Longrightarrow> row_at dim n (xs @ v) = v"
  by (simp add: row_at_def slice_def)

text \<open>Overwriting one row of a block.\<close>

lemma length_copy_into: "start + len \<le> length dst \<Longrightarrow> length src = len \<Longrightarrow> length (copy_into start len src dst) = length dst"
  by (simp add: copy_into_def)

lemma row_copy_same: "length src = dim \<Longrightarrow> p * dim + dim \<le> length dst \<Longrightarrow> row_at dim p (copy_into (p * dim) dim src dst) = src"
  by (simp add: row_at_def copy_into_def slice_def)

lemma row_copy_other:
  assumes "length src = dim" and "p < n" "r < n" "length dst = n * dim" and "r \<noteq> p"
  shows "row_at dim r (copy_into (p * dim) dim src dst) = row_at dim r dst"
proof -
  have b: "p * dim + dim \<le> n * dim" "r * dim + dim \<le> n * dim" using row_bound[OF assms(2)] row_bound[OF assms(3)] .
  from assms(5) consider "Suc r \<le> p" | "Suc p \<le> r" by linarith
  then show ?thesis
  proof cases
    case 1
    then have "r * dim + dim \<le> p * dim" using mult_le_mono1[OF 1, of dim] by simp
    then show ?thesis using assms(1,4) b by (simp add: row_at_def copy_into_def slice_def drop_take min.absorb1)
  next
    case 2
    then have le: "p * dim + dim \<le> r * dim" using mult_le_mono1[OF 2, of dim] by simp
    define e where "e = r * dim - (p * dim + dim)"
    have "r * dim = p * dim + dim + e" using le by (simp add: e_def)
    moreover have "min (n * dim) (p * dim) = p * dim" using b(1) by simp
    ultimately show ?thesis using assms(1,4) b
      by (simp add: row_at_def copy_into_def slice_def add.commute add.left_commute)
  qed
qed

subsection \<open>The invariant\<close>

definition positions_ok :: "u64 list \<Rightarrow> (u64 \<rightharpoonup> nat) \<Rightarrow> bool" where
  "positions_ok keys m \<longleftrightarrow> (\<forall>key p. m key = Some p \<longleftrightarrow> p < length keys \<and> keys ! p = key)"

definition blocks_for :: "nat \<Rightarrow> nat" where
  "blocks_for n = (n + denseFP16ChunkRows - 1) div denseFP16ChunkRows"

definition rows_ok :: "DenseFlatIndex \<Rightarrow> bool" where
  "rows_ok i \<longleftrightarrow>
     (if \<not> fiFP16 i then length (fiVectors i) = length (fiKeys i) * fiDimension i
      else case fiRows i of
        Some rows \<Rightarrow> length rows = length (fiKeys i) \<and> list_all (\<lambda>row. length row = fiDimension i) rows
      | None \<Rightarrow>
        (case fiChunks i of
           Some chunks \<Rightarrow> length chunks = blocks_for (length (fiKeys i))
             \<and> list_all (\<lambda>chunk. length chunk = denseFP16ChunkRows * fiDimension i) chunks
         | None \<Rightarrow> length (fiVectorsFP16 i) = length (fiKeys i) * fiDimension i))"

definition flat_ok :: "DenseFlatIndex \<Rightarrow> bool" where
  "flat_ok i \<longleftrightarrow> 0 < fiDimension i \<and> Metric_Valid (fiMetric i) \<and> positions_ok (fiKeys i) (fiPositions i) \<and> rows_ok i
     \<and> (fiMetric i = MetricCosine \<longrightarrow> length (fiMagnitudes i) = length (fiKeys i))"

text \<open>The magnitudes of a cosine index are those the kernel computes of the rows in store.\<close>

definition row_magnitude :: "flat_kernels \<Rightarrow> DenseFlatIndex \<Rightarrow> nat \<Rightarrow> f32" where
  "row_magnitude kn i p =
     (if fiFP16 i then fkL2MagnitudeFP16 kn (fp16Row i p) else fkL2Magnitude kn (flat_vector i p))"

definition magnitudes_ok :: "flat_kernels \<Rightarrow> DenseFlatIndex \<Rightarrow> bool" where
  "magnitudes_ok kn i \<longleftrightarrow>
     (fiMetric i = MetricCosine \<longrightarrow> fiMagnitudes i = map (row_magnitude kn i) [0..<length (fiKeys i)])"

text \<open>The row of a position in whatever layout the index has, as the searches and \<open>Vector\<close> read it.\<close>

definition stored_row :: "DenseFlatIndex \<Rightarrow> nat \<Rightarrow> f32 list" where
  "stored_row i p = (if fiFP16 i then map Float16BitsToFloat32 (fp16Row i p) else flat_vector i p)"

lemma positions_distinct: "positions_ok keys m \<Longrightarrow> distinct keys"
  unfolding positions_ok_def distinct_conv_nth by (metis option.inject)

lemma absent_key:
  assumes "positions_ok keys m" "m key = None"
  shows "key \<notin> set keys"
proof
  assume "key \<in> set keys"
  then obtain p where "p < length keys" "keys ! p = key" by (auto simp: in_set_conv_nth)
  then show False using assms(1)[unfolded positions_ok_def, rule_format, of key p] assms(2) by simp
qed

lemma positions_add:
  assumes "positions_ok keys m" "m key = None"
  shows "positions_ok (keys @ [key]) (m(key \<mapsto> length keys))"
proof -
  have "p < length keys \<Longrightarrow> keys ! p \<noteq> key" for p using absent_key[OF assms] nth_mem[of p keys] by metis
  then show ?thesis using assms(1) by (auto simp: positions_ok_def nth_append less_Suc_eq)
qed

lemma Vector_stored: "flat_ok i \<Longrightarrow> p < length (fiKeys i) \<Longrightarrow> DenseFlatIndex_Vector i (fiKeys i ! p) = Some (stored_row i p)"
proof -
  assume "flat_ok i" "p < length (fiKeys i)"
  then have "fiPositions i (fiKeys i ! p) = Some p" by (simp add: flat_ok_def positions_ok_def)
  then show ?thesis by (simp add: DenseFlatIndex_Vector_def stored_row_def flat_vector_def Let_def)
qed

lemma Vector_absent: "flat_ok i \<Longrightarrow> key \<notin> set (fiKeys i) \<Longrightarrow> DenseFlatIndex_Vector i key = None"
  by (cases "fiPositions i key") (auto simp: flat_ok_def positions_ok_def DenseFlatIndex_Vector_def)

lemma flat_vector_row: "flat_vector i p = row_at (fiDimension i) p (fiVectors i)"
  by (simp add: flat_vector_def row_at_def)

lemma length_flat_vector: "flat_ok i \<Longrightarrow> \<not> fiFP16 i \<Longrightarrow> p < length (fiKeys i) \<Longrightarrow> length (flat_vector i p) = fiDimension i"
  by (simp add: flat_ok_def rows_ok_def flat_vector_row)

subsection \<open>Appending a binary16 row\<close>

lemma fp16Row_chunk: "fiRows i = None \<Longrightarrow> fiChunks i = Some chunks \<Longrightarrow>
    fp16Row i p = row_at (fiDimension i) (p mod denseFP16ChunkRows) (chunks ! (p div denseFP16ChunkRows))"
  by (simp add: fp16Row_def row_at_def Let_def)

lemma fp16Row_flat: "fiRows i = None \<Longrightarrow> fiChunks i = None \<Longrightarrow> fp16Row i p = row_at (fiDimension i) p (fiVectorsFP16 i)"
  by (simp add: fp16Row_def row_at_def Let_def)

lemma blocks_for_alt: "blocks_for n = n div denseFP16ChunkRows + (if n mod denseFP16ChunkRows = 0 then 0 else 1)"
proof -
  define q r where "q = n div 256" and "r = n mod 256"
  have n: "n = 256 * q + r" and r: "r < 256" by (simp_all add: q_def r_def)
  have "(n + 255) div 256 = q + (r + 255) div 256" by (simp add: n add.assoc)
  moreover have "(r + 255) div 256 = (if r = 0 then 0 else 1)" using r by (auto intro!: div_nat_eqI)
  ultimately show ?thesis by (simp add: blocks_for_def denseFP16ChunkRows_def q_def r_def)
qed

lemma blocks_for_Suc: "blocks_for (Suc n) = blocks_for n + (if n mod denseFP16ChunkRows = 0 then 1 else 0)"
proof -
  have "(Suc n + 256 - 1) div 256 = n div 256 + 1" by simp
  then show ?thesis unfolding blocks_for_alt[of n] by (simp add: blocks_for_def denseFP16ChunkRows_def)
qed

lemma block_index: "p < n \<Longrightarrow> p div denseFP16ChunkRows < blocks_for n"
  unfolding blocks_for_def denseFP16ChunkRows_def by (simp; linarith)

text \<open>
  The blocks after a row is written at position \<open>n\<close>, a zeroed block having been added when \<open>n\<close> starts one.
\<close>

lemma chunk_append:
  fixes n dim :: nat
  defines "grown \<equiv> \<lambda>chunks. if n mod denseFP16ChunkRows = 0 then chunks @ [replicate (denseFP16ChunkRows * dim) 0] else chunks"
  defines "written \<equiv> \<lambda>v chunks. (grown chunks)[n div denseFP16ChunkRows :=
      copy_into (n mod denseFP16ChunkRows * dim) dim v (grown chunks ! (n div denseFP16ChunkRows))]"
  assumes len: "length chunks = blocks_for n" "list_all (\<lambda>c. length c = denseFP16ChunkRows * dim) chunks" and v: "length v = dim"
  shows "length (written v chunks) = blocks_for (Suc n)"
    and "list_all (\<lambda>c. length c = denseFP16ChunkRows * dim) (written v chunks)"
    and "row_at dim (n mod denseFP16ChunkRows) (written v chunks ! (n div denseFP16ChunkRows)) = v"
    and "p < n \<Longrightarrow> row_at dim (p mod denseFP16ChunkRows) (written v chunks ! (p div denseFP16ChunkRows))
      = row_at dim (p mod denseFP16ChunkRows) (chunks ! (p div denseFP16ChunkRows))"
proof -
  let ?b = "n div denseFP16ChunkRows" and ?r = "n mod denseFP16ChunkRows"
  have pos: "0 < denseFP16ChunkRows" by (simp add: denseFP16ChunkRows_def)
  have lg: "length (grown chunks) = blocks_for (Suc n)"
    using len(1) by (simp add: grown_def blocks_for_Suc)
  have ag: "list_all (\<lambda>c. length c = denseFP16ChunkRows * dim) (grown chunks)" using len(2) by (simp add: grown_def)
  have b: "?b < length (grown chunks)" using block_index[of n "Suc n"] lg by simp
  have lb: "length (grown chunks ! ?b) = denseFP16ChunkRows * dim" using ag b by (simp add: list_all_length)
  have room: "?r * dim + dim \<le> denseFP16ChunkRows * dim" by (rule row_bound) (simp add: pos)
  show "length (written v chunks) = blocks_for (Suc n)" by (simp add: written_def lg)
  show "list_all (\<lambda>c. length c = denseFP16ChunkRows * dim) (written v chunks)"
    using ag lb room v by (auto simp: written_def list_all_iff length_copy_into dest!: set_update_subset_insert[THEN subsetD])
  show "row_at dim ?r (written v chunks ! ?b) = v"
    using b lb room v by (simp add: written_def row_copy_same)
  assume p: "p < n"
  have old: "grown chunks ! (p div denseFP16ChunkRows) = chunks ! (p div denseFP16ChunkRows)"
    using block_index[OF p] len(1) by (simp add: grown_def nth_append)
  show "row_at dim (p mod denseFP16ChunkRows) (written v chunks ! (p div denseFP16ChunkRows))
      = row_at dim (p mod denseFP16ChunkRows) (chunks ! (p div denseFP16ChunkRows))"
  proof (cases "p div denseFP16ChunkRows = ?b")
    case True
    then have "p mod denseFP16ChunkRows \<noteq> ?r" using p by (metis div_mult_mod_eq less_irrefl)
    then show ?thesis
      using row_copy_other[OF v, of ?r denseFP16ChunkRows "p mod denseFP16ChunkRows" "grown chunks ! ?b"] True b lb pos old
      by (simp add: written_def)
  next
    case False
    then show ?thesis using old by (simp add: written_def)
  qed
qed


subsection \<open>Adding one vector\<close>

text \<open>The index after a row has been stored under a new key, with its magnitude \<open>g\<close>.\<close>

definition stores :: "DenseFlatIndex \<Rightarrow> u64 \<Rightarrow> f32 list \<Rightarrow> f32 \<Rightarrow> DenseFlatIndex \<Rightarrow> bool" where
  "stores i key row g i' \<longleftrightarrow> flat_ok i' \<and> fiKeys i' = fiKeys i @ [key] \<and> key \<notin> set (fiKeys i)
     \<and> stored_row i' (length (fiKeys i)) = row \<and> (\<forall>p < length (fiKeys i). stored_row i' p = stored_row i p)
     \<and> fiMetric i' = fiMetric i \<and> fiFP16 i' = fiFP16 i
     \<and> (fiMetric i = MetricCosine \<longrightarrow> fiMagnitudes i' = fiMagnitudes i @ [g])"

text \<open>The kernel's magnitude of a row as it is stored.\<close>

definition stored_magnitude :: "flat_kernels \<Rightarrow> bool \<Rightarrow> f32 list \<Rightarrow> f32" where
  "stored_magnitude kn fp16 row =
     (if fp16 then fkL2MagnitudeFP16 kn (map Float32ToFloat16Bits row) else fkL2Magnitude kn row)"

lemma map_round_trip16 [simp]: "map (Float32ToFloat16Bits \<circ> Float16BitsToFloat32) row = row"
  by (simp add: comp_def round_trip16)

lemma row_magnitude_stored: "row_magnitude kn i p = stored_magnitude kn (fiFP16 i) (stored_row i p)"
  by (simp add: row_magnitude_def stored_magnitude_def stored_row_def)

lemma stores_magnitudes:
  assumes "stores i key row (stored_magnitude kn (fiFP16 i) row) i'" "magnitudes_ok kn i"
  shows "magnitudes_ok kn i'"
proof -
  have "row_magnitude kn i' p = row_magnitude kn i p" if "p < length (fiKeys i)" for p
    using assms(1) that by (simp add: row_magnitude_stored stores_def)
  then show ?thesis using assms by (simp add: magnitudes_ok_def stores_def row_magnitude_stored)
qed

lemma register_key_sel [simp]:
  "fiKeys (register_key key i) = fiKeys i @ [key]" "fiDimension (register_key key i) = fiDimension i"
  "fiMetric (register_key key i) = fiMetric i" "fiFP16 (register_key key i) = fiFP16 i"
  "fiRows (register_key key i) = fiRows i" "fiChunks (register_key key i) = fiChunks i"
  "fiVectors (register_key key i) = fiVectors i" "fiVectorsFP16 (register_key key i) = fiVectorsFP16 i"
  "fiMagnitudes (register_key key i) = fiMagnitudes i"
  "fiPositions (register_key key i) = (fiPositions i)(key \<mapsto> length (fiKeys i))"
  by (simp_all add: register_key_def)

lemma add_magnitude_sel [simp]:
  "fiKeys (add_magnitude g i) = fiKeys i" "fiDimension (add_magnitude g i) = fiDimension i"
  "fiMetric (add_magnitude g i) = fiMetric i" "fiFP16 (add_magnitude g i) = fiFP16 i"
  "fiRows (add_magnitude g i) = fiRows i" "fiChunks (add_magnitude g i) = fiChunks i"
  "fiVectors (add_magnitude g i) = fiVectors i" "fiVectorsFP16 (add_magnitude g i) = fiVectorsFP16 i"
  "fiPositions (add_magnitude g i) = fiPositions i" "fp16Row (add_magnitude g i) = fp16Row i"
  by (simp_all add: add_magnitude_def fp16Row_def fun_eq_iff split: option.splits)

text \<open>
  Whatever writes the row, the key, the position and the magnitude are added alike: it remains to show that
  the layout has one more row.
\<close>

lemma stores_layout:
  assumes ok: "flat_ok i" "fiPositions i key = None"
    and same: "fiDimension i' = fiDimension i" "fiMetric i' = fiMetric i" "fiFP16 i' = fiFP16 i"
      "fiKeys i' = fiKeys i @ [key]" "fiPositions i' = (fiPositions i)(key \<mapsto> length (fiKeys i))"
      "fiMagnitudes i' = fiMagnitudes i"
    and rows: "rows_ok i'" "stored_row i' (length (fiKeys i)) = row"
      "\<And>p. p < length (fiKeys i) \<Longrightarrow> stored_row i' p = stored_row i p"
  shows "stores i key row g (add_magnitude g i')"
proof -
  have key: "key \<notin> set (fiKeys i)" using absent_key[of "fiKeys i" "fiPositions i" key] ok by (simp add: flat_ok_def)
  have "stored_row (add_magnitude g i') p = stored_row i' p" for p
    by (simp add: stored_row_def flat_vector_def)
  moreover have "rows_ok (add_magnitude g i')" using rows(1) by (simp add: rows_ok_def split: option.splits)
  ultimately show ?thesis
    using ok same rows(2,3) key positions_add[of "fiKeys i" "fiPositions i" key]
    by (auto simp: stores_def flat_ok_def add_magnitude_def)
qed

lemma stores_fp32:
  assumes "flat_ok i" "fiPositions i key = None" "\<not> fiFP16 i" "length v = fiDimension i"
  shows "stores i key v g (add_magnitude g ((register_key key i)\<lparr>fiVectors := fiVectors (register_key key i) @ v\<rparr>))"
proof -
  have len: "length (fiVectors i) = length (fiKeys i) * fiDimension i" using assms(1,3) by (simp add: flat_ok_def rows_ok_def)
  show ?thesis
    by (rule stores_layout[OF assms(1,2)])
      (use len assms(3,4) in \<open>simp_all add: rows_ok_def stored_row_def flat_vector_row row_at_append_old[OF _ len] row_at_append_new[OF len]\<close>)
qed

lemma stores_rows:
  assumes "flat_ok i" "fiPositions i key = None" "fiFP16 i" "fiRows i = Some rows" "length v = fiDimension i"
  shows "stores i key (map Float16BitsToFloat32 v) g (add_magnitude g ((register_key key i)\<lparr>fiRows := Some (rows @ [v])\<rparr>))"
proof -
  have len: "length rows = length (fiKeys i)" "list_all (\<lambda>row. length row = fiDimension i) rows"
    using assms(1,3,4) by (simp_all add: flat_ok_def rows_ok_def)
  show ?thesis
    by (rule stores_layout[OF assms(1,2)])
      (use len assms(3-5) in \<open>simp_all add: rows_ok_def stored_row_def fp16Row_def nth_append\<close>)
qed

lemma stores_append:
  assumes "flat_ok i" "fiPositions i key = None" "fiFP16 i" "length v = fiDimension i"
  shows "stores i key (map Float16BitsToFloat32 v) g (add_magnitude g (appendFP16 v (register_key key i)))"
proof (cases "fiRows i")
  case (Some rows)
  then show ?thesis using stores_rows[OF assms(1-3) Some assms(4)] by (simp add: appendFP16_def)
next
  case rows: None
  show ?thesis
  proof (cases "fiChunks i")
    case None
    have len: "length (fiVectorsFP16 i) = length (fiKeys i) * fiDimension i"
      using assms(1,3) rows None by (simp add: flat_ok_def rows_ok_def)
    show ?thesis
      by (rule stores_layout[OF assms(1,2)])
        (use len assms(3,4) rows None in \<open>simp_all add: appendFP16_def rows_ok_def stored_row_def fp16Row_flat
          row_at_append_old[OF _ len] row_at_append_new[OF len]\<close>)
  next
    case (Some chunks)
    have len: "length chunks = blocks_for (length (fiKeys i))"
        "list_all (\<lambda>c. length c = denseFP16ChunkRows * fiDimension i) chunks"
      using assms(1,3) rows Some by (simp_all add: flat_ok_def rows_ok_def)
    let ?n = "length (fiKeys i)"
    let ?grown = "if ?n mod denseFP16ChunkRows = 0 then chunks @ [replicate (denseFP16ChunkRows * fiDimension i) 0] else chunks"
    define ch where "ch = ?grown[?n div denseFP16ChunkRows :=
      copy_into (?n mod denseFP16ChunkRows * fiDimension i) (fiDimension i) v (?grown ! (?n div denseFP16ChunkRows))]"
    note ch = chunk_append[OF len assms(4), folded ch_def]
    have "appendFP16 v (register_key key i) = (register_key key i)\<lparr>fiChunks := Some ch\<rparr>"
      by (simp add: appendFP16_def rows Some Let_def ch_def)
    then show ?thesis
      by (intro stores_layout[OF assms(1,2)])
        (simp_all add: ch assms(3) rows Some rows_ok_def stored_row_def fp16Row_chunk)
  qed
qed


lemma stores_lookup:
  assumes "flat_ok i" "stores i key row g i'"
  shows "DenseFlatIndex_Vector i' key = Some row"
    and "other \<noteq> key \<Longrightarrow> DenseFlatIndex_Vector i' other = DenseFlatIndex_Vector i other"
proof -
  have ok: "flat_ok i'" and keys: "fiKeys i' = fiKeys i @ [key]" using assms(2) by (simp_all add: stores_def)
  show "DenseFlatIndex_Vector i' key = Some row"
    using Vector_stored[OF ok, of "length (fiKeys i)"] assms(2) by (simp add: stores_def)
  assume "other \<noteq> key"
  show "DenseFlatIndex_Vector i' other = DenseFlatIndex_Vector i other"
  proof (cases "other \<in> set (fiKeys i)")
    case True
    then obtain p where p: "p < length (fiKeys i)" "other = fiKeys i ! p" by (auto simp: in_set_conv_nth)
    then show ?thesis
      using Vector_stored[OF ok, of p] Vector_stored[OF assms(1), of p] assms(2) keys by (simp add: stores_def nth_append)
  next
    case False
    then show ?thesis using Vector_absent[OF ok] Vector_absent[OF assms(1)] keys \<open>other \<noteq> key\<close> by simp
  qed
qed

lemma fp16_elements_map: "fp16_elements vector = Inr bits \<Longrightarrow> bits = map Float32ToFloat16Bits vector"
  by (induction vector arbitrary: bits) (auto simp: Let_def split: if_splits sum.splits)

abbreviation added_row :: "DenseFlatIndex \<Rightarrow> f32 list \<Rightarrow> f32 list" where
  "added_row i vector \<equiv> (if fiFP16 i then map (\<lambda>x. Float16BitsToFloat32 (Float32ToFloat16Bits x)) vector else vector)"

lemma Add_stores:
  assumes "flat_ok i" "DenseFlatIndex_Add kn ctx key vector i env = (None, i', env')"
  shows "stores i key (added_row i vector) (stored_magnitude kn (fiFP16 i) (added_row i vector)) i'"
proof (cases "fiFP16 i")
  case True
  obtain bits where new: "fiPositions i key = None" "length vector = fiDimension i" "denseVectorFP16 vector = Inr bits"
      "i' = add_magnitude (fkL2MagnitudeFP16 kn bits) (appendFP16 bits (register_key key i))"
    using assms(2) True by (auto simp: DenseFlatIndex_Add_def Let_def split: if_splits sum.splits option.splits prod.splits)
  then have bits: "bits = map Float32ToFloat16Bits vector" using fp16_elements_map by (simp add: denseVectorFP16_def)
  then have "stored_magnitude kn True (added_row i vector) = fkL2MagnitudeFP16 kn bits"
    using True by (simp add: stored_magnitude_def comp_def round_trip16)
  then show ?thesis
    using stores_append[OF assms(1) new(1) True, of bits "fkL2MagnitudeFP16 kn bits"] new(2,4) True bits by (simp add: comp_def)
next
  case False
  have new: "fiPositions i key = None" "length vector = fiDimension i"
      "i' = add_magnitude (fkL2Magnitude kn vector) ((register_key key i)\<lparr>fiVectors := fiVectors (register_key key i) @ vector\<rparr>)"
    using assms(2) False by (auto simp: DenseFlatIndex_Add_def Let_def split: if_splits sum.splits option.splits prod.splits)
  then show ?thesis
    using stores_fp32[OF assms(1) new(1) False new(2), of "fkL2Magnitude kn vector"] False by (simp add: stored_magnitude_def)
qed

lemma addFP16_stores:
  assumes "flat_ok i" "addFP16 kn ctx key vector borrow i env = (None, i', env')"
  shows "stores i key (map Float16BitsToFloat32 vector) (fkL2MagnitudeFP16 kn vector) i' \<and> fiFP16 i"
proof -
  have new: "fiPositions i key = None" "length vector = fiDimension i" "fiFP16 i" "borrow \<longrightarrow> fiRows i \<noteq> None"
    and g: "i' = add_magnitude (fkL2MagnitudeFP16 kn vector) (if borrow
        then (register_key key i)\<lparr>fiRows := map_option (\<lambda>rows. rows @ [vector]) (fiRows i)\<rparr>
        else appendFP16 vector (register_key key i))"
    using assms(2)
    by (auto simp: addFP16_def validateDenseVectorFP16_def Let_def split: if_splits option.splits prod.splits)
  show ?thesis
  proof (cases borrow)
    case True
    then obtain rows where "fiRows i = Some rows" using new(4) by auto
    then show ?thesis using stores_rows[OF assms(1) new(1,3) _ new(2)] g True new(3) by simp
  next
    case False
    then show ?thesis using stores_append[OF assms(1) new(1,3,2)] g new(3) by simp
  qed
qed

lemma Add_failed: "DenseFlatIndex_Add kn ctx key vector i env = (Some err, i', env') \<Longrightarrow> i' = i"
  by (auto simp: DenseFlatIndex_Add_def Let_def split: if_splits sum.splits option.splits prod.splits)

lemma addFP16_failed: "addFP16 kn ctx key vector borrow i env = (Some err, i', env') \<Longrightarrow> i' = i"
  by (auto simp: addFP16_def Let_def split: if_splits option.splits prod.splits)


text \<open>
  C34: Adding to a Flat index is an insertion. An \<open>Add\<close> that succeeds stores the vector under a key that was
  not there, exactly in a binary32 index and rounded to binary16 and back otherwise, and leaves every other
  key's vector as it was, in every layout; one that fails changes nothing; the invariant is kept.
\<close>

theorem flat_add_lookup:
  assumes "flat_ok i" and "DenseFlatIndex_Add kn ctx key vector i env = (err, i', env')"
  shows "flat_ok i' \<and>
    (case err of
       Some _ \<Rightarrow> i' = i
     | None \<Rightarrow> DenseFlatIndex_Vector i key = None
         \<and> DenseFlatIndex_Vector i' key =
             Some (if fiFP16 i then map (\<lambda>x. Float16BitsToFloat32 (Float32ToFloat16Bits x)) vector else vector)
         \<and> (\<forall>other. other = key \<or> DenseFlatIndex_Vector i' other = DenseFlatIndex_Vector i other))"
proof (cases err)
  case None
  then have st: "stores i key (added_row i vector) (stored_magnitude kn (fiFP16 i) (added_row i vector)) i'"
    using Add_stores[OF assms(1)] assms(2) by simp
  then have "flat_ok i'" "key \<notin> set (fiKeys i)" by (simp_all add: stores_def)
  then show ?thesis
    using None stores_lookup[OF assms(1) st] Vector_absent[OF assms(1)] by auto
next
  case (Some e)
  then show ?thesis using Add_failed[of kn ctx key vector i env e i' env'] assms by simp
qed

subsection \<open>Reachable indexes\<close>

text \<open>Every index the constructors and the operations of the package can produce.\<close>

inductive flat_reach :: "flat_kernels \<Rightarrow> DenseFlatIndex \<Rightarrow> bool" for kn where
  new: "NewDenseFlatIndex dimension m = Inr i \<Longrightarrow> flat_reach kn i"
| fp16: "NewDenseFlatIndexFP16 dimension m = Inr i \<Longrightarrow> flat_reach kn i"
| chunked: "NewChunkedDenseFlatIndexFP16 dimension m = Inr i \<Longrightarrow> flat_reach kn i"
| borrowed: "NewDenseFlatIndexFP16FromBorrowedRows kn ctx dimension m keys rows env = (Inr i, env') \<Longrightarrow> flat_reach kn i"
| add: "flat_reach kn i \<Longrightarrow> DenseFlatIndex_Add kn ctx key vector i env = (err, i', env') \<Longrightarrow> flat_reach kn i'"
| add_fp16: "flat_reach kn i \<Longrightarrow> DenseFlatIndex_AddFP16 kn ctx key bits i env = (err, i', env') \<Longrightarrow> flat_reach kn i'"
| add_borrowed: "flat_reach kn i \<Longrightarrow> DenseFlatIndex_AddBorrowedFP16 kn ctx key bits i env = (err, i', env') \<Longrightarrow> flat_reach kn i'"
| validated: "NewDenseFlatIndexFromValidatedCandidates kn ctx dimension m cs env = (Inr i, env') \<Longrightarrow> flat_reach kn i"
| validated_fp16: "NewDenseFlatIndexFP16FromValidatedCandidates kn ctx dimension m cs env = (Inr i, env') \<Longrightarrow> flat_reach kn i"

lemma new_ok:
  assumes "newDenseFlatIndex dimension m fp16 = Inr i"
  shows "flat_ok i" "magnitudes_ok kn i" "fiKeys i = []" "fiFP16 i = fp16" "fiRows i = None" "fiChunks i = None"
  using assms by (auto simp: newDenseFlatIndex_def flat_ok_def positions_ok_def rows_ok_def magnitudes_ok_def split: if_splits)

lemma empty_layout:
  assumes "newDenseFlatIndex dimension m True = Inr i"
  shows "flat_ok (i\<lparr>fiRows := Some []\<rparr>)" "flat_ok (i\<lparr>fiChunks := Some []\<rparr>)"
    "magnitudes_ok kn (i\<lparr>fiRows := Some []\<rparr>)" "magnitudes_ok kn (i\<lparr>fiChunks := Some []\<rparr>)"
  using new_ok[OF assms] by (simp_all add: flat_ok_def rows_ok_def blocks_for_def denseFP16ChunkRows_def magnitudes_ok_def)

lemma stored_fp16:
  assumes "stores i key (map Float16BitsToFloat32 bits) (fkL2MagnitudeFP16 kn bits) i'" "fiFP16 i" "magnitudes_ok kn i"
  shows "flat_ok i' \<and> magnitudes_ok kn i'"
  using assms stores_magnitudes[of i key "map Float16BitsToFloat32 bits" kn i'] by (simp add: stored_magnitude_def stores_def)

lemma Add_keeps:
  assumes "flat_ok i" "magnitudes_ok kn i" "DenseFlatIndex_Add kn ctx key vector i env = (err, i', env')"
  shows "flat_ok i' \<and> magnitudes_ok kn i'"
proof (cases err)
  case None
  then have st: "stores i key (added_row i vector) (stored_magnitude kn (fiFP16 i) (added_row i vector)) i'"
    using Add_stores[OF assms(1)] assms(3) by simp
  then show ?thesis using stores_magnitudes[OF st assms(2)] by (simp add: stores_def)
qed (use Add_failed assms in blast)

lemma addFP16_keeps:
  assumes "flat_ok i" "magnitudes_ok kn i" "addFP16 kn ctx key vector borrow i env = (err, i', env')"
  shows "flat_ok i' \<and> magnitudes_ok kn i'"
proof (cases err)
  case None
  then have "addFP16 kn ctx key vector borrow i env = (None, i', env')" using assms(3) by simp
  from addFP16_stores[OF assms(1) this] show ?thesis using stored_fp16 assms(2) by blast
qed (use addFP16_failed assms in blast)

lemma borrow_rows_ok:
  "borrow_rows kn ctx rows i env = (Inr i', env') \<Longrightarrow> flat_ok i \<and> magnitudes_ok kn i \<Longrightarrow> fiFP16 i \<Longrightarrow> fiRows i \<noteq> None
     \<Longrightarrow> flat_ok i' \<and> magnitudes_ok kn i'"
proof (induction rows arbitrary: i env)
  case (Cons kr rows)
  obtain key row where kr: "kr = (key, row)" by (cases kr)
  obtain old where old: "fiRows i = Some old" using Cons.prems(4) by auto
  let ?next = "add_magnitude (fkL2MagnitudeFP16 kn row) ((register_key key i)\<lparr>fiRows := Some (old @ [row])\<rparr>)"
  obtain env1 where free: "fiPositions i key = None" and len: "length row = fiDimension i"
      and rest: "borrow_rows kn ctx rows ?next env1 = (Inr i', env')"
    using Cons.prems(1) old
    by (auto simp: kr validateDenseVectorFP16_def Let_def split: if_splits option.splits prod.splits)
  have "stores i key (map Float16BitsToFloat32 row) (fkL2MagnitudeFP16 kn row) ?next"
    using stores_rows[OF _ free Cons.prems(3) old len] Cons.prems(2) by blast
  then have "flat_ok ?next \<and> magnitudes_ok kn ?next" using stored_fp16 Cons.prems(2,3) by blast
  then show ?case using Cons.IH[OF rest] Cons.prems(3) by simp
qed simp

lemma flat_candidates_ok:
  "flat_candidates kn ctx fp16 position cs i env = (Inr i', env') \<Longrightarrow> flat_ok i \<and> magnitudes_ok kn i \<Longrightarrow> fiFP16 i = fp16
     \<Longrightarrow> fiRows i = None \<Longrightarrow> fiChunks i = None \<Longrightarrow> flat_ok i' \<and> magnitudes_ok kn i'"
proof (induction cs arbitrary: i env position)
  case (Cons c cs)
  have new: "fiPositions i (cdKey c) = None" "length (cdVector c) = fiDimension i"
    using Cons.prems(1) by (auto simp: Let_def split: if_splits option.splits prod.splits sum.splits)
  show ?case
  proof (cases fp16)
    case True
    then obtain bits env1 where bits: "denseVectorFP16 (cdVector c) = Inr bits"
        and rest: "flat_candidates kn ctx fp16 (position + 1) cs
          (add_magnitude (fkL2MagnitudeFP16 kn bits) (appendFP16 bits (register_key (cdKey c) i))) env1 = (Inr i', env')"
      using Cons.prems by (auto simp: appendFP16_def Let_def split: if_splits option.splits prod.splits sum.splits)
    have "length bits = fiDimension i" using bits new(2) fp16_elements_map[of "cdVector c" bits] by (simp add: denseVectorFP16_def)
    then have "stores i (cdKey c) (map Float16BitsToFloat32 bits) (fkL2MagnitudeFP16 kn bits)
        (add_magnitude (fkL2MagnitudeFP16 kn bits) (appendFP16 bits (register_key (cdKey c) i)))"
      using stores_append[OF _ new(1)] Cons.prems(2,3) True by blast
    note st = stored_fp16[OF this]
    show ?thesis using Cons.IH[OF rest] st Cons.prems(2-5) True by (simp add: appendFP16_def)
  next
    case False
    then obtain env1 where rest: "flat_candidates kn ctx fp16 (position + 1) cs
          (add_magnitude (fkL2Magnitude kn (cdVector c)) ((register_key (cdKey c) i)
             \<lparr>fiVectors := fiVectors (register_key (cdKey c) i) @ cdVector c\<rparr>)) env1 = (Inr i', env')"
      using Cons.prems by (auto simp: Let_def split: if_splits option.splits prod.splits sum.splits)
    let ?next = "add_magnitude (fkL2Magnitude kn (cdVector c)) ((register_key (cdKey c) i)
        \<lparr>fiVectors := fiVectors (register_key (cdKey c) i) @ cdVector c\<rparr>)"
    have st: "stores i (cdKey c) (cdVector c) (fkL2Magnitude kn (cdVector c)) ?next"
      using stores_fp32[OF _ new(1) _ new(2)] Cons.prems(2,3) False by blast
    moreover have "stored_magnitude kn (fiFP16 i) (cdVector c) = fkL2Magnitude kn (cdVector c)"
      using Cons.prems(3) False by (simp add: stored_magnitude_def)
    ultimately have "magnitudes_ok kn ?next" using stores_magnitudes Cons.prems(2) by metis
    then show ?thesis using Cons.IH[OF rest] st Cons.prems(3-5) False by (simp add: stores_def)
  qed
qed simp


text \<open>
  C35: The Flat index is always well formed. In every index that the constructors and any sequence of
  \<open>Add\<close>, \<open>AddFP16\<close> and \<open>AddBorrowedFP16\<close> produce, the keys are distinct, every key has a row of exactly the
  dimension, the position map and the layout in use fit the key list, and a cosine index holds for every row the
  magnitude that the kernel in use computes of it.
\<close>

theorem flat_reachable_ok:
  assumes "flat_reach kn i"
  shows "flat_ok i \<and> distinct (fiKeys i) \<and> magnitudes_ok kn i"
proof -
  have "flat_ok i \<and> magnitudes_ok kn i"
    using assms
  proof (induction rule: flat_reach.induct)
    case (chunked dimension m i)
    then show ?case by (auto simp: NewChunkedDenseFlatIndexFP16_def empty_layout split: if_splits sum.splits)
  next
    case (borrowed ctx dimension m keys rows env i env')
    then obtain i0 env0 where new: "newDenseFlatIndex dimension m True = Inr i0"
      "borrow_rows kn ctx (zip keys rows) (i0\<lparr>fiRows := Some []\<rparr>) env0 = (Inr i, env')"
      by (auto simp: NewDenseFlatIndexFP16FromBorrowedRows_def split: if_splits sum.splits option.splits prod.splits)
    show ?case using borrow_rows_ok[OF new(2)] empty_layout[OF new(1)] new_ok[OF new(1)] by simp
  next
    case (add i ctx key vector env err i' env')
    then show ?case using Add_keeps by blast
  next
    case (add_fp16 i ctx key bits env err i' env')
    then show ?case using addFP16_keeps unfolding DenseFlatIndex_AddFP16_def by blast
  next
    case (add_borrowed i ctx key bits env err i' env')
    then show ?case using addFP16_keeps unfolding DenseFlatIndex_AddBorrowedFP16_def by blast
  next
    case (validated ctx dimension m cs env i env')
    then obtain i0 env0 where new: "newDenseFlatIndex dimension m False = Inr i0" "flat_candidates kn ctx False 0 cs i0 env0 = (Inr i, env')"
      by (auto simp: NewDenseFlatIndexFromValidatedCandidates_def newDenseFlatIndexFromValidatedCandidates_def
          split: if_splits sum.splits option.splits prod.splits)
    show ?case using flat_candidates_ok[OF new(2)] new_ok[OF new(1)] by simp
  next
    case (validated_fp16 ctx dimension m cs env i env')
    then obtain i0 env0 where new: "newDenseFlatIndex dimension m True = Inr i0" "flat_candidates kn ctx True 0 cs i0 env0 = (Inr i, env')"
      by (auto simp: NewDenseFlatIndexFP16FromValidatedCandidates_def newDenseFlatIndexFromValidatedCandidates_def
          split: if_splits sum.splits option.splits prod.splits)
    show ?case using flat_candidates_ok[OF new(2)] new_ok[OF new(1)] by simp
  qed (auto simp: NewDenseFlatIndex_def NewDenseFlatIndexFP16_def new_ok)
  then show ?thesis using positions_distinct by (auto simp: flat_ok_def)
qed

end
