(* ===== verification/Sparse_Index.thy ===== *)
theory Sparse_Index
  imports Query_Flow Flat_Invariant
begin

unbundle bit_operations_syntax

text \<open>
  Sparse vectors: \<open>SparseInnerProduct\<close> of \<^verbatim>\<open>src/internal/ailego/math/distance.go\<close> and the sparse Flat index of
  \<^verbatim>\<open>src/internal/core/algorithm/flat_algorithm.go\<close>, which keeps its vectors in compressed sparse rows. The
  \<open>float64\<close> accumulation is a parameter.
\<close>

subsection \<open>The inner product of sparse vectors\<close>

type_synonym f64 = u64

text \<open>\<open>soMulAdd s x y\<close> is \<open>s += float64(x) * float64(y)\<close>, \<open>soRound\<close> the conversion \<open>float32(value)\<close>.\<close>

record sparse_ops =
  soMulAdd :: "f64 \<Rightarrow> f32 \<Rightarrow> f32 \<Rightarrow> f64"
  soRound :: "f64 \<Rightarrow> f32"

definition f64_finite :: "f64 \<Rightarrow> bool" where
  "f64_finite v \<longleftrightarrow> v AND 0x7ff0000000000000 \<noteq> 0x7ff0000000000000"

definition finiteScore :: "sparse_ops \<Rightarrow> f64 \<Rightarrow> error + f32" where
  "finiteScore so value =
     (let score = soRound so value in
      if \<not> f64_finite value \<or> \<not> finite32 score then Inl (Sentinel ErrNonFiniteVector) else Inr score)"

fun validate_pairs :: "u32 option \<Rightarrow> (u32 \<times> f32) list \<Rightarrow> error option" where
  "validate_pairs previous [] = None"
| "validate_pairs previous ((index, value) # rest) =
     (if \<not> finite32 value then Some (Sentinel ErrNonFiniteVector)
      else if (case previous of None \<Rightarrow> False | Some p \<Rightarrow> index \<le> p) then Some (Sentinel ErrInvalidSparseOrder)
      else validate_pairs (Some index) rest)"

definition validateSparse :: "SparseVector \<Rightarrow> error option" where
  "validateSparse v =
     (if length (svIndices v) \<noteq> length (svValues v) then Some (Sentinel ErrDimensionMismatch)
      else validate_pairs None (zip (svIndices v) (svValues v)))"

fun sparse_merge :: "sparse_ops \<Rightarrow> (u32 \<times> f32) list \<Rightarrow> (u32 \<times> f32) list \<Rightarrow> f64 \<Rightarrow> f64" where
  "sparse_merge so ((i, x) # left) ((j, y) # right) s =
     (if i < j then sparse_merge so left ((j, y) # right) s
      else if j < i then sparse_merge so ((i, x) # left) right s
      else sparse_merge so left right (soMulAdd so s x y))"
| "sparse_merge so left right s = s"

definition SparseInnerProduct :: "sparse_ops \<Rightarrow> SparseVector \<Rightarrow> SparseVector \<Rightarrow> error + f32" where
  "SparseInnerProduct so left right =
     (case validateSparse left of
        Some err \<Rightarrow> Inl err
      | None \<Rightarrow>
        (case validateSparse right of
           Some err \<Rightarrow> Inl err
         | None \<Rightarrow>
             finiteScore so (sparse_merge so (zip (svIndices left) (svValues left)) (zip (svIndices right) (svValues right)) 0)))"

text \<open>The call that only validates a vector: its product with the empty vector.\<close>

abbreviation empty_sparse :: SparseVector where
  "empty_sparse \<equiv> \<lparr>svIndices = [], svValues = []\<rparr>"

subsection \<open>The index\<close>

record SparseFlatIndex =
  spKeys :: "u64 list"
  spOffsets :: "nat list"
  spIndices :: "u32 list"
  spValues :: "f32 list"
  spPositions :: "u64 \<rightharpoonup> nat"

definition NewSparseFlatIndex :: "Metric \<Rightarrow> error + SparseFlatIndex" where
  "NewSparseFlatIndex m =
     (if m \<noteq> MetricIP then Inl (ErrMsg ''core: sparse Flat supports only inner product, got metric %d'')
      else Inr \<lparr>spKeys = [], spOffsets = [0], spIndices = [], spValues = [], spPositions = Map.empty\<rparr>)"

definition AddSparse :: "sparse_ops \<Rightarrow> ctx \<Rightarrow> u64 \<Rightarrow> SparseVector \<Rightarrow> SparseFlatIndex \<Rightarrow> env
    \<Rightarrow> error option \<times> SparseFlatIndex \<times> env" where
  "AddSparse so ctx key vector i env =
     (if ctx = NilCtx then (Some (ErrMsg ''core: nil sparse Flat add context''), i, env)
      else case ctx_Err ctx env of
        (Some err, env) \<Rightarrow> (Some err, i, env)
      | (None, env) \<Rightarrow>
        (case SparseInnerProduct so vector empty_sparse of
           Inl err \<Rightarrow> (Some (ErrWrap ''core: validate sparse Flat vector'' [err]), i, env)
         | Inr _ \<Rightarrow>
           (case ctx_Err ctx env of
              (Some err, env) \<Rightarrow> (Some err, i, env)
            | (None, env) \<Rightarrow>
              if spPositions i key \<noteq> None then (Some (wrapf ErrDuplicateKey ''%d''), i, env)
              else
                (None, i\<lparr>spPositions := (spPositions i)(key \<mapsto> length (spKeys i)), spKeys := spKeys i @ [key],
                  spIndices := spIndices i @ svIndices vector, spValues := spValues i @ svValues vector,
                  spOffsets := spOffsets i @ [length (spIndices i @ svIndices vector)]\<rparr>, env))))"

definition sparse_row :: "SparseFlatIndex \<Rightarrow> nat \<Rightarrow> SparseVector" where
  "sparse_row i position =
     (let start = spOffsets i ! position; stop = spOffsets i ! (position + 1) in
      \<lparr>svIndices = slice start stop (spIndices i), svValues = slice start stop (spValues i)\<rparr>)"

definition SparseFlatIndex_SparseVector :: "SparseFlatIndex \<Rightarrow> u64 \<Rightarrow> SparseVector option" where
  "SparseFlatIndex_SparseVector i key =
     (case spPositions i key of None \<Rightarrow> None | Some position \<Rightarrow> Some (sparse_row i position))"

subsection \<open>Search\<close>

definition sparse_worstFirst :: "Result \<Rightarrow> Result \<Rightarrow> bool" where
  "sparse_worstFirst left right =
     (if f32_eq (rsScore left) (rsScore right) then rsKey right < rsKey left else f32_lt (rsScore left) (rsScore right))"

fun sparse_loop :: "sparse_ops \<Rightarrow> ctx \<Rightarrow> SparseVector \<Rightarrow> SearchOptions \<Rightarrow> nat \<Rightarrow> (u64 \<times> SparseVector) list \<Rightarrow> Result Heap \<Rightarrow> env
    \<Rightarrow> (error + Result Heap) \<times> env" where
  "sparse_loop so ctx query opts k [] heap env = (Inr heap, env)"
| "sparse_loop so ctx query opts k ((key, row) # rest) heap env =
     (case ctx_Err ctx env of
        (Some err, env) \<Rightarrow> (Inl err, env)
      | (None, env) \<Rightarrow>
        if rejects opts key then sparse_loop so ctx query opts k rest heap env
        else case SparseInnerProduct so row query of
          Inl err \<Rightarrow> (Inl (ErrWrap ''core: score sparse candidate %d (key %d)'' [err]), env)
        | Inr score \<Rightarrow>
            if \<not> scoreWithinRadius MetricIP score (soRadius opts) then sparse_loop so ctx query opts k rest heap env
            else sparse_loop so ctx query opts k rest (offer MetricIP k \<lparr>rsKey = key, rsScore = score\<rparr> heap) env)"

definition sparse_rows :: "SparseFlatIndex \<Rightarrow> (u64 \<times> SparseVector) list" where
  "sparse_rows i = map (\<lambda>position. (spKeys i ! position, sparse_row i position)) [0..<length (spKeys i)]"

definition searchSparse :: "sparse_ops \<Rightarrow> ctx \<Rightarrow> SparseVector \<Rightarrow> SearchOptions \<Rightarrow> bool \<Rightarrow> SparseFlatIndex \<Rightarrow> env
    \<Rightarrow> (error + Result list) \<times> env" where
  "searchSparse so ctx query opts requirePositiveTopK i env =
     (if ctx = NilCtx then (Inl (ErrMsg ''core: nil sparse Flat search context''), env)
      else case ctx_Err ctx env of
        (Some err, env) \<Rightarrow> (Inl err, env)
      | (None, env) \<Rightarrow>
        (case (if requirePositiveTopK then SearchOptions_Validate opts
               else if soTopK opts < 0 then Some (ErrMsg ''core: negative top-k'') else None) of
           Some err \<Rightarrow> (Inl err, env)
         | None \<Rightarrow>
           (case SparseInnerProduct so query empty_sparse of
              Inl err \<Rightarrow> (Inl (ErrWrap ''core: validate sparse Flat query'' [err]), env)
            | Inr _ \<Rightarrow>
              if soTopK opts = 0 \<or> spKeys i = [] then (Inr [], env)
              else
                let k = (if int (length (spKeys i)) < soTopK opts then int (length (spKeys i)) else soTopK opts) in
                (case sparse_loop so ctx query opts (nat k) (sparse_rows i)
                        (projr (NewHeap (Some sparse_worstFirst))) env of
                   (Inl err, env) \<Rightarrow> (Inl err, env)
                 | (Inr heap, env) \<Rightarrow> (Inr (sorted_results MetricIP heap), env)))))"

definition SearchSparse :: "sparse_ops \<Rightarrow> ctx \<Rightarrow> SparseVector \<Rightarrow> int \<Rightarrow> SparseFlatIndex \<Rightarrow> env \<Rightarrow> (error + Result list) \<times> env" where
  "SearchSparse so ctx query k i env = searchSparse so ctx query \<lparr>soTopK = k, soRadius = 0, soFilter = None\<rparr> False i env"

definition SearchSparseWithOptions :: "sparse_ops \<Rightarrow> ctx \<Rightarrow> SparseVector \<Rightarrow> SearchOptions \<Rightarrow> SparseFlatIndex \<Rightarrow> env
    \<Rightarrow> (error + Result list) \<times> env" where
  "SearchSparseWithOptions so ctx query opts i env = searchSparse so ctx query opts True i env"

subsection \<open>The builder\<close>

record SparseFlatIndexBuilder =
  sbIndex :: SparseFlatIndex
  sbBuilt :: bool

definition NewSparseFlatBuilder :: "Metric \<Rightarrow> error + SparseFlatIndexBuilder" where
  "NewSparseFlatBuilder m =
     (case NewSparseFlatIndex m of Inl err \<Rightarrow> Inl err | Inr i \<Rightarrow> Inr \<lparr>sbIndex = i, sbBuilt = False\<rparr>)"

definition SparseFlatIndexBuilder_AddSparse :: "sparse_ops \<Rightarrow> ctx \<Rightarrow> u64 \<Rightarrow> SparseVector \<Rightarrow> SparseFlatIndexBuilder \<Rightarrow> env
    \<Rightarrow> error option \<times> SparseFlatIndexBuilder \<times> env" where
  "SparseFlatIndexBuilder_AddSparse so ctx key vector b env =
     (if sbBuilt b then (Some (Sentinel ErrBuilderClosed), b, env)
      else case AddSparse so ctx key vector (sbIndex b) env of (err, i, env) \<Rightarrow> (err, b\<lparr>sbIndex := i\<rparr>, env))"

definition SparseFlatIndexBuilder_Build :: "ctx \<Rightarrow> SparseFlatIndexBuilder \<Rightarrow> env
    \<Rightarrow> (error + SparseFlatIndex) \<times> SparseFlatIndexBuilder \<times> env" where
  "SparseFlatIndexBuilder_Build ctx b env =
     (if ctx = NilCtx then (Inl (ErrMsg ''core: nil sparse Flat build context''), b, env)
      else case ctx_Err ctx env of
        (Some err, env) \<Rightarrow> (Inl err, b, env)
      | (None, env) \<Rightarrow>
        if sbBuilt b then (Inl (Sentinel ErrBuilderClosed), b, env)
        else (Inr (sbIndex b), b\<lparr>sbBuilt := True\<rparr>, env))"

end
