(* ===== verification/Flat_Properties.thy ===== *)
theory Flat_Properties
  imports Flat_Invariant Top_K_Properties
begin

text \<open>
  The four scans of the Flat index return the best results under the scores of the kernels installed,
  whatever these compute: which kernel scores a row, the one for four rows, the one for two or the single
  one, depends on its position and on the filter only. With the portable kernels every score is that of the
  single kernel.
\<close>

subsection \<open>One score per position\<close>

text \<open>The score of a position with the single-vector kernel of its layout and metric.\<close>

definition flat_score :: "flat_kernels \<Rightarrow> DenseFlatIndex \<Rightarrow> f32 list \<Rightarrow> nat \<Rightarrow> f32" where
  "flat_score kn i query position =
     (if fiFP16 i then
        score_fp16 kn i (projr (denseDistanceFP16 kn (fiMetric i))) (projr (denseVectorFP16 query))
          (if fiMetric i = MetricCosine then fkL2MagnitudeFP16 kn (projr (denseVectorFP16 query)) else 0) position
      else if fiMetric i = MetricCosine then
        fkCosineWithMagnitudes kn (flat_vector i position) query (fiMagnitudes i ! position) (fkL2Magnitude kn query)
      else projr (Metric_Distance (fkDense kn) (fiMetric i)) (flat_vector i position) query)"

text \<open>
  The scores of a scan without filter: full groups of four rows go to one kernel, two of the rows that
  remain to another, the last one to the single kernel.
\<close>

fun grouped_scores :: "('r \<Rightarrow> 'r \<Rightarrow> 'r \<Rightarrow> 'r \<Rightarrow> f32 \<times> f32 \<times> f32 \<times> f32) \<Rightarrow> ('r \<Rightarrow> 'r \<Rightarrow> f32 \<times> f32) \<Rightarrow> ('r \<Rightarrow> f32) \<Rightarrow> 'r list \<Rightarrow> f32 list" where
  "grouped_scores four two one (a # b # c # d # rest) =
     (case four a b c d of (sa, sb, sc, sd) \<Rightarrow> sa # sb # sc # sd # grouped_scores four two one rest)"
| "grouped_scores four two one (a # b # rest) = (case two a b of (sa, sb) \<Rightarrow> sa # sb # map one rest)"
| "grouped_scores four two one rows = map one rows"

definition batched_scores :: "flat_kernels \<Rightarrow> DenseFlatIndex \<Rightarrow> f32 list \<Rightarrow> f32 list" where
  "batched_scores kn i query =
     grouped_scores (denseDistances4 kn (fiMetric i) query) (denseDistances2 kn (fiMetric i) query)
       (projr (Metric_Distance (fkDense kn) (fiMetric i)) query) (map (flat_vector i) [0..<length (fiKeys i)])"

definition cosine_scores :: "flat_kernels \<Rightarrow> DenseFlatIndex \<Rightarrow> f32 list \<Rightarrow> f32 list" where
  "cosine_scores kn i query =
     (let qm = fkL2Magnitude kn query in
      grouped_scores (\<lambda>(a, ma) (b, mb) (c, mc) (d, md). fkCosineDistances4 kn query a b c d qm ma mb mc md)
        (\<lambda>(a, ma) (b, mb). fkCosineDistances2 kn query a b qm ma mb)
        (\<lambda>(v, mag). fkCosineWithMagnitudes kn v query mag qm)
        (map (\<lambda>p. (flat_vector i p, fiMagnitudes i ! p)) [0..<length (fiKeys i)]))"

text \<open>The score a search gives to a position, and the results that are eligible under these scores.\<close>

definition scan_score :: "flat_kernels \<Rightarrow> DenseFlatIndex \<Rightarrow> f32 list \<Rightarrow> SearchOptions \<Rightarrow> nat \<Rightarrow> f32" where
  "scan_score kn i query opts position =
     (if fiFP16 i \<or> soFilter opts \<noteq> None then flat_score kn i query position
      else if fiMetric i = MetricCosine then cosine_scores kn i query ! position
      else if fiMetric i = MetricL2 \<or> fiMetric i = MetricIP then batched_scores kn i query ! position
      else flat_score kn i query position)"

definition eligible_by :: "(nat \<Rightarrow> f32) \<Rightarrow> DenseFlatIndex \<Rightarrow> SearchOptions \<Rightarrow> Result list" where
  "eligible_by score i opts =
     filter (\<lambda>r. scoreWithinRadius (fiMetric i) (rsScore r) (soRadius opts))
       (map (\<lambda>p. \<lparr>rsKey = fiKeys i ! p, rsScore = score p\<rparr>)
         (filter (\<lambda>p. \<not> rejects opts (fiKeys i ! p)) [0..<length (fiKeys i)]))"

text \<open>
  On vectors of the index's dimension the batched kernels compute in each component what the
  single-vector kernel computes.
\<close>

definition batch_kernels_agree :: "nat \<Rightarrow> flat_kernels \<Rightarrow> bool" where
  "batch_kernels_agree n kn \<longleftrightarrow>
     (\<forall>q a b. length q = n \<and> length a = n \<and> length b = n \<longrightarrow>
        fkInnerProducts2 kn q a b = (knInnerProduct (fkDense kn) a q, knInnerProduct (fkDense kn) b q)
      \<and> fkSquaredEuclideanDistances2 kn q a b = (knL2Squared (fkDense kn) a q, knL2Squared (fkDense kn) b q)
      \<and> knInnerProduct (fkDense kn) q a = knInnerProduct (fkDense kn) a q
      \<and> knL2Squared (fkDense kn) q a = knL2Squared (fkDense kn) a q
      \<and> (\<forall>qm ma mb. fkCosineDistances2 kn q a b qm ma mb =
           (fkCosineWithMagnitudes kn a q ma qm, fkCosineWithMagnitudes kn b q mb qm)))
   \<and> (\<forall>q a b c d. length q = n \<and> length a = n \<and> length b = n \<and> length c = n \<and> length d = n \<longrightarrow>
        fkInnerProducts4 kn q a b c d = (knInnerProduct (fkDense kn) a q, knInnerProduct (fkDense kn) b q,
          knInnerProduct (fkDense kn) c q, knInnerProduct (fkDense kn) d q)
      \<and> fkSquaredEuclideanDistances4 kn q a b c d = (knL2Squared (fkDense kn) a q, knL2Squared (fkDense kn) b q,
          knL2Squared (fkDense kn) c q, knL2Squared (fkDense kn) d q)
      \<and> (\<forall>qm ma mb mc md. fkCosineDistances4 kn q a b c d qm ma mb mc md =
          (fkCosineWithMagnitudes kn a q ma qm, fkCosineWithMagnitudes kn b q mb qm,
           fkCosineWithMagnitudes kn c q mc qm, fkCosineWithMagnitudes kn d q md qm)))"

text \<open>Lists in groups of four.\<close>

lemma four_induct:
  assumes "P []" and "\<And>a. P [a]" and "\<And>a b. P [a, b]" and "\<And>a b c. P [a, b, c]"
    and "\<And>a b c d rest. P rest \<Longrightarrow> P (a # b # c # d # rest)"
  shows "P xs"
  using assms by induction_schema (pat_completeness, lexicographic_order)

subsection \<open>Every loop offers the eligible results in order\<close>

abbreviation within :: "Metric \<Rightarrow> f32 \<Rightarrow> Result \<Rightarrow> bool" where
  "within m radius r \<equiv> scoreWithinRadius m (rsScore r) radius"

lemma retain_fold: "fold (retainDenseResult k m radius) rs heap = fold (offer m k) (filter (within m radius) rs) heap"
  by (induction rs arbitrary: heap) (simp_all add: retainDenseResult_def)

lemma keep_cosine_retain: "keep_cosine k radius = retainDenseResult k MetricCosine radius"
  by (auto simp: fun_eq_iff keep_cosine_def retainCosineResult_def retainDenseResult_def)

lemma fp16_loop_quiet:
  assumes "quiet env"
  shows "\<exists>env'. fp16_loop ctx m opts score k rows heap env =
    (Inr (fold (retainDenseResult k m (soRadius opts))
       (map (\<lambda>(p, key). \<lparr>rsKey = key, rsScore = score p\<rparr>) (filter (\<lambda>(p, key). \<not> rejects opts key) rows)) heap), env')"
  using assms
proof (induction rows arbitrary: heap env)
  case (Cons row rows)
  obtain p key where row: "row = (p, key)" by (cases row) auto
  obtain env' where "ctx_Err ctx env = (None, env')" "quiet env'" using ctx_quietE[OF Cons.prems] by metis
  then show ?case using Cons.IH[of env'] by (auto simp: row split: option.splits)
qed simp

lemma length_grouped_scores [simp]: "length (grouped_scores four two one rows) = length rows"
  by (induction rows rule: four_induct) (auto split: prod.splits)

abbreviation results :: "u64 list \<Rightarrow> f32 list \<Rightarrow> Result list" where
  "results keys scores \<equiv> map2 (\<lambda>key s. \<lparr>rsKey = key, rsScore = s\<rparr>) keys scores"

lemma batched_loop_quiet:
  assumes "quiet env" and d: "Metric_Distance (fkDense kn) m = Inr distance"
  shows "\<exists>env'. batched_loop kn ctx m query radius k rows heap env =
    (Inr (fold (retainDenseResult k m radius) (results (map fst rows)
       (grouped_scores (denseDistances4 kn m query) (denseDistances2 kn m query) (distance query) (map snd rows))) heap), env')"
  using assms(1)
proof (induction rows arbitrary: heap env rule: four_induct)
  case (5 ra rb rc rd rest)
  obtain env' where "ctx_Err ctx env = (None, env')" "quiet env'" using ctx_quietE[OF "5.prems"(1)] by metis
  then show ?case using "5.IH"[of env'] by (cases ra, cases rb, cases rc, cases rd) (simp add: Let_def split: prod.splits)
qed (auto simp: d split: prod.splits)

lemma cosine_loop_quiet:
  assumes "quiet env"
  shows "\<exists>env'. cosine_loop kn ctx query qm opts k rows heap env =
    (Inr (fold (retainDenseResult k MetricCosine (soRadius opts))
       (map (\<lambda>(key, v, mag). \<lparr>rsKey = key, rsScore = fkCosineWithMagnitudes kn v query mag qm\<rparr>)
         (filter (\<lambda>(key, v, mag). \<not> rejects opts key) rows)) heap), env')"
  using assms
proof (induction rows arbitrary: heap env)
  case (Cons row rows)
  obtain key v mag where row: "row = (key, v, mag)" by (cases row) auto
  obtain env' where "ctx_Err ctx env = (None, env')" "quiet env'" using ctx_quietE[OF Cons.prems] by metis
  then show ?case using Cons.IH[of env']
    by (auto simp: row Let_def retainDenseResult_def retainCosineResult_def split: option.splits)
qed simp

text \<open>What the batches leave is scored one by one.\<close>

lemma cosine_batches_quiet:
  fixes kn query qm
  defines "one \<equiv> \<lambda>(v, mag). fkCosineWithMagnitudes kn v query mag qm"
  defines "scores \<equiv> grouped_scores (\<lambda>(a, ma) (b, mb) (c, mc) (d, md). fkCosineDistances4 kn query a b c d qm ma mb mc md)
      (\<lambda>(a, ma) (b, mb). fkCosineDistances2 kn query a b qm ma mb) one"
  assumes "quiet env"
  shows "\<exists>pre rest ss env'. cosine_batches kn ctx query qm radius k rows heap env =
      (Inr (rest, fold (retainDenseResult k MetricCosine radius) (results (map fst pre) ss) heap), env')
    \<and> rows = pre @ rest \<and> length ss = length pre \<and> scores (map snd rows) = ss @ map one (map snd rest) \<and> quiet env'"
  using assms(3)
proof (induction rows arbitrary: heap env rule: four_induct)
  case 1
  then show ?case by (auto simp: scores_def)
next
  case (2 ra)
  then show ?case by (cases ra) (auto simp: scores_def)
next
  case (3 ra rb)
  obtain sa sb where "fkCosineDistances2 kn query (fst (snd ra)) (fst (snd rb)) qm (snd (snd ra)) (snd (snd rb)) = (sa, sb)" by fastforce
  then show ?case using 3
    by (cases ra, cases rb) (auto simp: scores_def Let_def keep_cosine_retain intro!: exI[of _ "[ra, rb]"] exI[of _ "[sa, sb]"])
next
  case (4 ra rb rc)
  obtain sa sb where "fkCosineDistances2 kn query (fst (snd ra)) (fst (snd rb)) qm (snd (snd ra)) (snd (snd rb)) = (sa, sb)" by fastforce
  then show ?case using 4
    by (cases ra, cases rb, cases rc) (auto simp: scores_def Let_def keep_cosine_retain intro!: exI[of _ "[ra, rb]"] exI[of _ "[sa, sb]"])
next
  case (5 ra rb rc rd rest)
  obtain env1 where env1: "ctx_Err ctx env = (None, env1)" "quiet env1" using ctx_quietE[OF "5.prems"(1)] by metis
  obtain sa sb sc sd where four: "fkCosineDistances4 kn query (fst (snd ra)) (fst (snd rb)) (fst (snd rc)) (fst (snd rd)) qm
      (snd (snd ra)) (snd (snd rb)) (snd (snd rc)) (snd (snd rd)) = (sa, sb, sc, sd)" by (metis surj_pair)
  define h where "h = fold (retainDenseResult k MetricCosine radius) (results (map fst [ra, rb, rc, rd]) [sa, sb, sc, sd]) heap"
  obtain pre left ss env2 where IH: "cosine_batches kn ctx query qm radius k rest h env1 =
      (Inr (left, fold (retainDenseResult k MetricCosine radius) (results (map fst pre) ss) h), env2)"
    "rest = pre @ left" "length ss = length pre" "scores (map snd rest) = ss @ map one (map snd left)" "quiet env2"
    using "5.IH"[OF env1(2), of h] by blast
  have eq: "cosine_batches kn ctx query qm radius k (ra # rb # rc # rd # rest) heap env = cosine_batches kn ctx query qm radius k rest h env1"
    using four by (cases ra, cases rb, cases rc, cases rd) (simp add: Let_def keep_cosine_retain env1(1) h_def)
  have "scores (map snd (ra # rb # rc # rd # rest)) = [sa, sb, sc, sd] @ scores (map snd rest)"
    using four by (cases ra, cases rb, cases rc, cases rd) (simp add: scores_def)
  note sc = this
  show ?case unfolding eq IH(1) sc IH(4)
    by (rule exI[of _ "[ra, rb, rc, rd] @ pre"], rule exI[of _ left], rule exI[of _ "[sa, sb, sc, sd] @ ss"], rule exI[of _ env2])
      (simp add: IH(2-5) h_def)
qed

subsection \<open>The scans are exact\<close>

lemma flat_scan_best:
  assumes "0 < soTopK opts" "0 < n" and "length rs \<le> n" and "\<forall>r\<in>set rs. numeric r"
    and "\<And>k heap. \<exists>env'. loop k heap env = (Inr (fold (offer m k) rs heap), env')"
  shows "\<exists>out env'. flat_scan m opts n loop env = (Inr (Inr out), env')
    \<and> best_of (resultBetter m) (nat (soTopK opts)) rs out"
proof -
  obtain env' where "loop (nat (min (soTopK opts) (int n))) (worst_heap m []) env
      = (Inr (fold (offer m (nat (min (soTopK opts) (int n)))) rs (worst_heap m [])), env')" using assms(5) by metis
  moreover have "\<not> min (soTopK opts) (int n) < 0" using assms(1) by auto
  ultimately show ?thesis
    using bounded_heap_best[OF assms(1-4), of m] assms(1,2)
    by (simp add: flat_scan_def NewHeapWithCapacity_def Let_def del: min_less_iff_disj)
qed

lemma length_eligible_by: "length (eligible_by score i opts) \<le> length (fiKeys i)"
proof -
  have "length (eligible_by score i opts) \<le> length (filter (\<lambda>p. \<not> rejects opts (fiKeys i ! p)) [0..<length (fiKeys i)])"
    unfolding eligible_by_def by (rule order.trans[OF length_filter_le]) simp
  also have "\<dots> \<le> length (fiKeys i)" using length_filter_le[of _ "[0..<length (fiKeys i)]"] by simp
  finally show ?thesis .
qed

lemma results_scores:
  assumes "length ss = length keys"
  shows "results keys ss = map (\<lambda>p. \<lparr>rsKey = keys ! p, rsScore = ss ! p\<rparr>) [0..<length keys]"
  using assms by (intro nth_equalityI) simp_all

text \<open>What each loop folds over is the list of eligible results.\<close>

lemma eligible_enumerate:
  "map (\<lambda>(p, key). \<lparr>rsKey = key, rsScore = score p\<rparr>) (filter (\<lambda>(p, key). \<not> rejects opts key) (enumerate 0 keys))
   = map (\<lambda>p. \<lparr>rsKey = keys ! p, rsScore = score p\<rparr>) (filter (\<lambda>p. \<not> rejects opts (keys ! p)) [0..<length keys])"
proof -
  have "enumerate 0 keys = map (\<lambda>p. (p, keys ! p)) [0..<length keys]"
    by (rule nth_equalityI) (simp_all add: nth_enumerate_eq)
  then show ?thesis by (simp add: filter_map comp_def)
qed

lemma eligible_rows:
  "map (\<lambda>(key, row). \<lparr>rsKey = key, rsScore = f row\<rparr>) (filter (\<lambda>(key, row). \<not> rejects opts key)
     (map (\<lambda>p. (keys ! p, g p)) [0..<length keys]))
   = map (\<lambda>p. \<lparr>rsKey = keys ! p, rsScore = f (g p)\<rparr>) (filter (\<lambda>p. \<not> rejects opts (keys ! p)) [0..<length keys])"
  by (simp add: filter_map comp_def)

lemma denseVectorFP16_ok: "denseVectorFP16 query = Inr q \<Longrightarrow> projr (denseVectorFP16 query) = q"
  by simp

lemma search_fp16_best:
  assumes "quiet env" "0 < soTopK opts" "fiKeys i \<noteq> []" "fiFP16 i" "Metric_Valid (fiMetric i)"
    and q: "denseVectorFP16 query = Inr q" and num: "\<forall>r\<in>set (eligible_by (scan_score kn i query opts) i opts). numeric r"
  shows "\<exists>out env'. searchFP16 kn ctx q opts i env = (Inr (Inr out), env')
    \<and> best_of (resultBetter (fiMetric i)) (nat (soTopK opts)) (eligible_by (scan_score kn i query opts) i opts) out"
proof -
  obtain d where d: "denseDistanceFP16 kn (fiMetric i) = Inr d"
    using Metric_Valid_Distance[OF assms(5), of undefined] by (auto simp: Metric_Distance_def denseDistanceFP16_def split: if_splits)
  let ?score = "score_fp16 kn i d q (if fiMetric i = MetricCosine then fkL2MagnitudeFP16 kn q else 0)"
  have score: "scan_score kn i query opts = ?score" using assms(4) q d by (simp add: fun_eq_iff scan_score_def flat_score_def)
  have "\<exists>env'. fp16_loop ctx (fiMetric i) opts ?score k (enumerate 0 (fiKeys i)) heap env
      = (Inr (fold (offer (fiMetric i) k) (eligible_by (scan_score kn i query opts) i opts) heap), env')" for k heap
    using fp16_loop_quiet[OF assms(1), of ctx "fiMetric i" opts ?score k "enumerate 0 (fiKeys i)" heap]
    unfolding eligible_enumerate retain_fold eligible_by_def score .
  then show ?thesis
    using flat_scan_best[OF assms(2) _ length_eligible_by num] assms(2,3) d by (simp add: searchFP16_def)
qed

lemma search_batched_best:
  assumes "quiet env" "0 < soTopK opts" "fiKeys i \<noteq> []" "\<not> fiFP16 i"
    and m: "fiMetric i = MetricL2 \<or> fiMetric i = MetricIP" and "soFilter opts = None"
    and num: "\<forall>r\<in>set (eligible_by (scan_score kn i query opts) i opts). numeric r"
  shows "\<exists>out env'. searchDenseBatched kn ctx query opts i env = (Inr (Inr out), env')
    \<and> best_of (resultBetter (fiMetric i)) (nat (soTopK opts)) (eligible_by (scan_score kn i query opts) i opts) out"
proof -
  obtain d where d: "Metric_Distance (fkDense kn) (fiMetric i) = Inr d"
    using m by (auto simp: Metric_Distance_def MetricL2_def MetricIP_def)
  have score: "scan_score kn i query opts p = batched_scores kn i query ! p" for p
    using assms(4,6) m by (auto simp: scan_score_def MetricL2_def MetricIP_def MetricCosine_def)
  have rows: "map fst (flat_rows i) = fiKeys i" "map snd (flat_rows i) = map (flat_vector i) [0..<length (fiKeys i)]"
    by (simp_all add: flat_rows_def comp_def map_nth)
  have "length (batched_scores kn i query) = length (fiKeys i)" by (simp add: batched_scores_def)
  note res = results_scores[OF this]
  have "\<exists>env'. batched_loop kn ctx (fiMetric i) query (soRadius opts) k (flat_rows i) heap env
      = (Inr (fold (offer (fiMetric i) k) (eligible_by (scan_score kn i query opts) i opts) heap), env')" for k heap
    using batched_loop_quiet[OF assms(1) d, of ctx query "soRadius opts" k "flat_rows i" heap] assms(6) d res
    by (simp add: rows retain_fold eligible_by_def score batched_scores_def)
  then show ?thesis
    using flat_scan_best[OF assms(2) _ length_eligible_by num] assms(2,3) by (simp add: searchDenseBatched_def)
qed

lemma search_cosine_best:
  assumes "quiet env" "0 < soTopK opts" "fiKeys i \<noteq> []" "\<not> fiFP16 i" "fiMetric i = MetricCosine"
    and num: "\<forall>r\<in>set (eligible_by (scan_score kn i query opts) i opts). numeric r"
  shows "\<exists>out env'. searchCosine kn ctx query opts i env = (Inr (Inr out), env')
    \<and> best_of (resultBetter MetricCosine) (nat (soTopK opts)) (eligible_by (scan_score kn i query opts) i opts) out"
proof -
  let ?qm = "fkL2Magnitude kn query" and ?elig = "eligible_by (scan_score kn i query opts) i opts"
  let ?one = "\<lambda>(v, mag). fkCosineWithMagnitudes kn v query mag ?qm"
  let ?loop = "\<lambda>k heap env. case (if soFilter opts = None then cosine_batches kn ctx query ?qm (soRadius opts) k (cosine_rows i) heap env
                   else (Inr (cosine_rows i, heap), env)) of
               (Inl err, env) \<Rightarrow> (Inl err, env)
             | (Inr (rest, heap), env) \<Rightarrow> cosine_loop kn ctx query ?qm opts k rest heap env"
  have rows: "map fst (cosine_rows i) = fiKeys i"
      "map snd (cosine_rows i) = map (\<lambda>p. (flat_vector i p, fiMagnitudes i ! p)) [0..<length (fiKeys i)]"
    by (simp_all add: cosine_rows_def comp_def map_nth)
  have one_rows: "map (\<lambda>(key, v, mag). \<lparr>rsKey = key, rsScore = fkCosineWithMagnitudes kn v query mag ?qm\<rparr>) rest
      = results (map fst rest) (map ?one (map snd rest))" for rest :: "cosine_row list"
    by (induction rest) auto
  have "\<exists>env'. ?loop k heap env = (Inr (fold (offer MetricCosine k) ?elig heap), env')" for k heap
  proof (cases "soFilter opts")
    case None
    let ?keep = "retainDenseResult k MetricCosine (soRadius opts)"
    obtain pre rest ss env1 where one: "cosine_batches kn ctx query ?qm (soRadius opts) k (cosine_rows i) heap env =
        (Inr (rest, fold ?keep (results (map fst pre) ss) heap), env1)"
      "cosine_rows i = pre @ rest" "length ss = length pre" "cosine_scores kn i query = ss @ map ?one (map snd rest)" "quiet env1"
      using cosine_batches_quiet[OF assms(1), of kn ctx query ?qm "soRadius opts" k "cosine_rows i" heap]
      unfolding rows cosine_scores_def Let_def by blast
    let ?rest = "results (map fst rest) (map ?one (map snd rest))"
    obtain env2 where loop: "cosine_loop kn ctx query ?qm opts k rest (fold ?keep (results (map fst pre) ss) heap) env1
        = (Inr (fold ?keep ?rest (fold ?keep (results (map fst pre) ss) heap)), env2)"
      using cosine_loop_quiet[OF one(5), of kn ctx query ?qm opts k rest] None unfolding one_rows[symmetric] by fastforce
    have keys: "fiKeys i = map fst pre @ map fst rest" using rows(1) one(2) by simp
    have split: "results (fiKeys i) (cosine_scores kn i query) = results (map fst pre) ss @ ?rest"
      unfolding keys one(4) using one(3) by simp
    have "length (cosine_scores kn i query) = length (fiKeys i)" by (simp add: cosine_scores_def Let_def)
    note res = results_scores[OF this]
    have elig: "filter (within MetricCosine (soRadius opts)) (results (fiKeys i) (cosine_scores kn i query)) = ?elig"
      using None assms(4,5) unfolding res by (simp add: eligible_by_def scan_score_def)
    have "fold ?keep ?rest (fold ?keep (results (map fst pre) ss) heap) = fold (offer MetricCosine k) ?elig heap"
      unfolding elig[symmetric] retain_fold[symmetric] split by simp
    then show ?thesis using None one(1) loop by simp
  next
    case (Some f)
    have "?elig = filter (within MetricCosine (soRadius opts))
        (map (\<lambda>(key, v, mag). \<lparr>rsKey = key, rsScore = fkCosineWithMagnitudes kn v query mag ?qm\<rparr>)
          (filter (\<lambda>(key, v, mag). \<not> rejects opts key) (cosine_rows i)))"
      using Some assms(4,5) by (simp add: eligible_by_def scan_score_def flat_score_def cosine_rows_def filter_map comp_def)
    then show ?thesis
      using cosine_loop_quiet[OF assms(1), of kn ctx query ?qm opts k "cosine_rows i" heap] Some by (simp add: retain_fold)
  qed
  then have "\<exists>out env'. flat_scan MetricCosine opts (length (fiKeys i)) ?loop env = (Inr (Inr out), env')
    \<and> best_of (resultBetter MetricCosine) (nat (soTopK opts)) ?elig out"
    by (rule flat_scan_best[OF assms(2) _ length_eligible_by num, where loop = ?loop, rotated]) (simp add: assms(3))
  then show ?thesis using assms(2,3) by (simp add: searchCosine_def Let_def)
qed

lemma search_plain_best:
  assumes "quiet env" "0 < soTopK opts" "fiKeys i \<noteq> []" "\<not> fiFP16 i" "fiMetric i \<noteq> MetricCosine"
    and plain: "soFilter opts \<noteq> None \<or> \<not> (fiMetric i = MetricL2 \<or> fiMetric i = MetricIP)"
    and d: "Metric_Distance (fkDense kn) (fiMetric i) = Inr d"
    and num: "\<forall>r\<in>set (eligible_by (scan_score kn i query opts) i opts). numeric r"
  shows "\<exists>out env'. topKCandidatesWithDistance ctx (fiMetric i) d query opts (length (fiKeys i))
       (\<lambda>p. \<lparr>cdKey = fiKeys i ! p, cdVector = flat_vector i p\<rparr>) env = (Inr (Inr out), env')
    \<and> best_of (resultBetter (fiMetric i)) (nat (soTopK opts)) (eligible_by (scan_score kn i query opts) i opts) out"
proof -
  let ?cs = "map (\<lambda>p. \<lparr>cdKey = fiKeys i ! p, cdVector = flat_vector i p\<rparr>) [0..<length (fiKeys i)]"
  have "scan_score kn i query opts p = d (flat_vector i p) query" for p
    using assms(4,5) plain d by (auto simp: scan_score_def flat_score_def)
  then have elig: "eligible (fiMetric i) d query opts ?cs = eligible_by (scan_score kn i query opts) i opts"
    by (simp add: eligible_def passing_def eligible_by_def filter_map comp_def option.case_eq_if)
  show ?thesis
    using select_topk_exact[where checked = False and cs = ?cs and m = "fiMetric i" and distance = d and query = query,
        OF assms(1,2)] num assms(2,3)
    by (simp add: elig topKCandidatesWithDistance_def)
qed

lemma search_best:
  assumes "ctx \<noteq> NilCtx" and "quiet env" and "flat_ok i"
    and "ValidateDense query (fiDimension i) = None" and "fiFP16 i \<longrightarrow> denseVectorFP16 query = Inr q"
    and "0 < soTopK opts" and "SearchOptions_Validate opts = None"
    and "\<forall>r\<in>set (eligible_by (scan_score kn i query opts) i opts). numeric r"
  shows "\<exists>out env'. DenseFlatIndex_search kn ctx query opts positive i env = (Inr (Inr out), env')
    \<and> best_of (resultBetter (fiMetric i)) (nat (soTopK opts)) (eligible_by (scan_score kn i query opts) i opts) out"
proof -
  have len: "length query = fiDimension i" using assms(4) by (auto simp: ValidateDense_def split: if_splits)
  have valid: "Metric_Valid (fiMetric i)" using assms(3) by (simp add: flat_ok_def)
  obtain env1 where ctx: "ctx_Err ctx env = (None, env1)" "quiet env1" using ctx_quietE[OF assms(2)] by metis
  obtain d where d: "Metric_Distance (fkDense kn) (fiMetric i) = Inr d" using Metric_Valid_Distance valid by metis
  have opts: "(if positive then SearchOptions_Validate opts
      else if soTopK opts < 0 then Some (ErrMsg ''core: negative top-k'') else None) = None"
    using assms(6,7) by simp
  show ?thesis
  proof (cases "fiKeys i = []")
    case True
    then show ?thesis using assms(1,4,5) len ctx opts d
      by (simp add: DenseFlatIndex_search_def searchFP16_def searchCosine_def searchDenseBatched_def
          topKCandidatesWithDistance_def eligible_by_def best_of_def)
  next
    case False
    note best = search_fp16_best[where kn = kn, OF ctx(2) assms(6) False _ valid] search_cosine_best[where kn = kn, OF ctx(2) assms(6) False]
      search_batched_best[where kn = kn, OF ctx(2) assms(6) False] search_plain_best[OF ctx(2) assms(6) False _ _ _ d]
    show ?thesis using best[where query = query] assms(1,4,5,8) len ctx(1) opts d
      by (auto simp: DenseFlatIndex_search_def)
  qed
qed

subsection \<open>The portable kernels\<close>

lemma scalar_kernels_agree:
  assumes "float_ops_ok fo"
  shows "batch_kernels_agree n (scalar_flat_kernels fo)"
proof -
  have dot: "innerProductScalar fo q v = innerProductScalar fo v q" if "length q = n" "length v = n" for q v
    unfolding innerProductScalar_def
    by (rule pair_loop_swap) (use that assms in \<open>auto simp: float_ops_ok_def\<close>)
  have l2: "squaredEuclideanScalar fo q v = squaredEuclideanScalar fo v q" if "length q = n" "length v = n" for q v
    unfolding squaredEuclideanScalar_def
    by (rule pair_loop_swap) (use that assms in \<open>auto simp: float_ops_ok_def Let_def\<close>)
  have mul: "foMul fo x y = foMul fo y x" for x y using assms by (simp add: float_ops_ok_def)
  have returns: "\<exists>r. innerProductScalar fo q v = Some r" "\<exists>r. squaredEuclideanScalar fo q v = Some r"
    if "length q = n" "length v = n" for q v
    using that by (simp_all add: innerProductScalar_def squaredEuclideanScalar_def pair_loop_returns)
  have cos: "cosineDistanceFromProduct fo p a b = cosineDistanceFromProduct fo p b a" for p a b
    by (auto simp: cosineDistanceFromProduct_def mul)
  have two: "InnerProducts2 fo q a b = Some (the (innerProductScalar fo q a), the (innerProductScalar fo q b))"
      "SquaredEuclideanDistances2 fo q a b = Some (the (squaredEuclideanScalar fo q a), the (squaredEuclideanScalar fo q b))"
    if "length q = n" "length a = n" "length b = n" for q a b
    using returns[of q a] returns[of q b] that
    by (auto simp: InnerProducts2_def SquaredEuclideanDistances2_def pair_loop2_single innerProductScalar_def squaredEuclideanScalar_def)
  have four: "InnerProducts4 fo q a b c d = Some (the (innerProductScalar fo q a), the (innerProductScalar fo q b),
        the (innerProductScalar fo q c), the (innerProductScalar fo q d))"
      "SquaredEuclideanDistances4 fo q a b c d = Some (the (squaredEuclideanScalar fo q a), the (squaredEuclideanScalar fo q b),
        the (squaredEuclideanScalar fo q c), the (squaredEuclideanScalar fo q d))"
    if "length q = n" "length a = n" "length b = n" "length c = n" "length d = n" for q a b c d
    using returns[of q a] returns[of q b] returns[of q c] returns[of q d] that
    by (auto simp: InnerProducts4_def SquaredEuclideanDistances4_def pair_loop4_single innerProductScalar_def squaredEuclideanScalar_def)
  have single: "the (CosineDistanceWithMagnitudes fo v q ma qm) = cosineDistanceFromProduct fo (the (innerProductScalar fo q v)) qm ma"
    if "length q = n" "length v = n" for q v qm ma
  proof -
    note len = that
    obtain r where r: "innerProductScalar fo v q = Some r" using returns(1)[of v q] len by auto
    then show ?thesis using cosine_from_product[OF r, of ma qm] dot[OF len] cos[of r ma qm] by simp
  qed
  show ?thesis
    by (simp add: batch_kernels_agree_def scalar_flat_kernels_def scalar_kernels_def InnerProduct_def L2Squared_def
        CosineDistances2WithMagnitudes_def CosineDistances4WithMagnitudes_def two four single dot l2)
qed


lemma grouped_scores_map:
  assumes "\<And>a b c d. {a, b, c, d} \<subseteq> set rows \<Longrightarrow> four a b c d = (f a, f b, f c, f d)"
    and "\<And>a b. {a, b} \<subseteq> set rows \<Longrightarrow> two a b = (f a, f b)" and "\<And>a. a \<in> set rows \<Longrightarrow> one a = f a"
  shows "grouped_scores four two one rows = map f rows"
  using assms by (induction rows rule: four_induct) simp_all

lemma portable_scores:
  assumes agree: "batch_kernels_agree (fiDimension i) kn" and ok: "flat_ok i" "length query = fiDimension i" and p: "p < length (fiKeys i)"
  shows "scan_score kn i query opts p = flat_score kn i query p"
proof -
  have len: "length (flat_vector i p) = fiDimension i" if "\<not> fiFP16 i" "p < length (fiKeys i)" for p
    using length_flat_vector[OF ok(1)] that .
  have "cosine_scores kn i query = map (\<lambda>p. fkCosineWithMagnitudes kn (flat_vector i p) query (fiMagnitudes i ! p) (fkL2Magnitude kn query)) [0..<length (fiKeys i)]"
    if "\<not> fiFP16 i"
    unfolding cosine_scores_def Let_def
    by (subst grouped_scores_map[where f = "\<lambda>(v, mag). fkCosineWithMagnitudes kn v query mag (fkL2Magnitude kn query)"])
      (use agree ok(2) len that in \<open>auto simp: batch_kernels_agree_def\<close>)
  moreover have "batched_scores kn i query = map (\<lambda>p. projr (Metric_Distance (fkDense kn) (fiMetric i)) (flat_vector i p) query) [0..<length (fiKeys i)]"
    if "\<not> fiFP16 i" "fiMetric i = MetricL2 \<or> fiMetric i = MetricIP"
    unfolding batched_scores_def
    by (subst grouped_scores_map[where f = "\<lambda>v. projr (Metric_Distance (fkDense kn) (fiMetric i)) v query"])
      (use agree ok(2) len that in \<open>auto simp: batch_kernels_agree_def denseDistances4_def denseDistances2_def
        Metric_Distance_def MetricIP_def MetricL2_def\<close>)
  ultimately show ?thesis using p by (auto simp: scan_score_def flat_score_def)
qed

lemma eligible_by_cong: "(\<And>p. p < length (fiKeys i) \<Longrightarrow> f p = g p) \<Longrightarrow> eligible_by f i opts = eligible_by g i opts"
  unfolding eligible_by_def by (rule arg_cong[where f = "filter _"]) simp

text \<open>
  C33: Flat search is exact on every path. On a well-formed index, for a valid query and positive top-k, with no
  cancellation and no NaN score, \<open>search\<close> returns the best results among the keys that pass the filter and
  lie within the radius, whichever of the binary16, cosine, batched or plain scans it takes and whatever the
  kernels compute: each row is scored once, by the kernel for four rows, for two or for one that its position
  selects. When the portable kernels are in use, these scores are the ones the single-vector kernel gives to every row,
  whatever the rounding, so that the answer does not depend on the path.
\<close>

theorem flat_search_exact:
  assumes "ctx \<noteq> NilCtx" and "quiet env" and "flat_ok i"
    and "ValidateDense query (fiDimension i) = None" and "fiFP16 i \<longrightarrow> denseVectorFP16 query = Inr q"
    and "0 < soTopK opts" and "SearchOptions_Validate opts = None"
    and "\<forall>r\<in>set (eligible_by (scan_score kn i query opts) i opts). numeric r"
  shows "(\<exists>out env'. DenseFlatIndex_search kn ctx query opts positive i env = (Inr (Inr out), env')
      \<and> best_of (resultBetter (fiMetric i)) (nat (soTopK opts)) (eligible_by (scan_score kn i query opts) i opts) out)
    \<and> (\<forall>fo. float_ops_ok fo \<and> kn = scalar_flat_kernels fo \<longrightarrow>
         eligible_by (scan_score kn i query opts) i opts = eligible_by (flat_score kn i query) i opts)"
proof -
  have "length query = fiDimension i" using assms(4) by (auto simp: ValidateDense_def split: if_splits)
  then have "eligible_by (scan_score kn i query opts) i opts = eligible_by (flat_score kn i query) i opts"
    if "float_ops_ok fo" "kn = scalar_flat_kernels fo" for fo
    using portable_scores scalar_kernels_agree that assms(3) by (intro eligible_by_cong) blast
  then show ?thesis using search_best[OF assms] by blast
qed


text \<open>
  Witness: with the portable kernels over the ring of bit patterns, the closest two of three vectors.
\<close>

definition sample_flat :: DenseFlatIndex where
  "sample_flat = \<lparr>fiDimension = 2, fiMetric = MetricL2, fiFP16 = False, fiKeys = [7, 5, 9],
     fiVectors = [10, 20, 11, 22, 30, 40], fiVectorsFP16 = [], fiChunks = None, fiRows = None, fiMagnitudes = [],
     fiPositions = [7 \<mapsto> 0, 5 \<mapsto> 1, 9 \<mapsto> 2]\<rparr>"

lemma sample_flat_ok: "flat_ok sample_flat"
proof -
  have "positions_ok [] Map.empty" by (simp add: positions_ok_def)
  then have "positions_ok [7] [7 \<mapsto> 0]" using positions_add[of "[]" Map.empty 7] by simp
  then have "positions_ok [7, 5] [7 \<mapsto> 0, 5 \<mapsto> 1]" using positions_add[of "[7]" "[7 \<mapsto> 0]" 5] by simp
  then have "positions_ok [7, 5, 9] [7 \<mapsto> 0, 5 \<mapsto> 1, 9 \<mapsto> 2]"
    using positions_add[of "[7, 5]" "[7 \<mapsto> 0, 5 \<mapsto> 1]" 9] by (simp flip: numeral_2_eq_2)
  then show ?thesis
    by (simp add: flat_ok_def sample_flat_def rows_ok_def Metric_Valid_def MetricL2_def MetricMIPSL2_def MetricCosine_def)
qed

lemma sample_flat_eligible:
  "eligible_by (flat_score (scalar_flat_kernels ring_ops) sample_flat [11, 21]) sample_flat sample_options
     = [\<lparr>rsKey = 7, rsScore = 2\<rparr>, \<lparr>rsKey = 5, rsScore = 1\<rparr>, \<lparr>rsKey = 9, rsScore = 722\<rparr>]"
  by code_simp

theorem flat_search_exact_witness:
  "\<exists>out env'. DenseFlatIndex_search (scalar_flat_kernels ring_ops) Ctx [11, 21] sample_options True sample_flat calm = (Inr (Inr out), env')
     \<and> best_of (resultBetter MetricL2) 2 [\<lparr>rsKey = 7, rsScore = 2\<rparr>, \<lparr>rsKey = 5, rsScore = 1\<rparr>, \<lparr>rsKey = 9, rsScore = 722\<rparr>] out"
proof -
  let ?kn = "scalar_flat_kernels ring_ops"
  have "ValidateDense [11, 21] 2 = None" "SearchOptions_Validate sample_options = None"
      "list_all numeric (eligible_by (scan_score ?kn sample_flat [11, 21] sample_options) sample_flat sample_options)"
    by code_simp+
  moreover have "fiDimension sample_flat = 2" "fiMetric sample_flat = MetricL2" "\<not> fiFP16 sample_flat"
      "soTopK sample_options = 2" by (simp_all add: sample_flat_def sample_options_def)
  ultimately have "(\<exists>out env'. DenseFlatIndex_search ?kn Ctx [11, 21] sample_options True sample_flat calm = (Inr (Inr out), env')
      \<and> best_of (resultBetter MetricL2) 2 (eligible_by (scan_score ?kn sample_flat [11, 21] sample_options) sample_flat sample_options) out)
    \<and> (\<forall>fo. float_ops_ok fo \<and> ?kn = scalar_flat_kernels fo \<longrightarrow>
         eligible_by (scan_score ?kn sample_flat [11, 21] sample_options) sample_flat sample_options
           = eligible_by (flat_score ?kn sample_flat [11, 21]) sample_flat sample_options)"
    using flat_search_exact[where ctx = Ctx and env = calm and kn = ?kn and i = sample_flat
        and query = "[11, 21]" and opts = sample_options and positive = True] sample_flat_ok
    unfolding list_all_iff by simp
  then show ?thesis using ring_ops_ok unfolding sample_flat_eligible by metis
qed

theorem flat_add_lookup_witness:
  "\<exists>i' env'. DenseFlatIndex_Add (scalar_flat_kernels ring_ops) Ctx 4 [8, 9] sample_flat calm = (None, i', env')
     \<and> DenseFlatIndex_Vector i' 4 = Some [8, 9] \<and> DenseFlatIndex_Vector i' 5 = Some [11, 22]"
proof -
  obtain err i' env' where add: "DenseFlatIndex_Add (scalar_flat_kernels ring_ops) Ctx 4 [8, 9] sample_flat calm = (err, i', env')"
    by (metis surj_pair)
  have "fst (DenseFlatIndex_Add (scalar_flat_kernels ring_ops) Ctx 4 [8, 9] sample_flat calm) = None"
       "DenseFlatIndex_Vector sample_flat 5 = Some [11, 22]" "\<not> fiFP16 sample_flat"
    by code_simp+
  then show ?thesis
    using flat_add_lookup[OF sample_flat_ok add] add by (auto dest: spec[of _ 5])
qed

theorem flat_reachable_ok_witness:
  "\<exists>i i' env'. NewChunkedDenseFlatIndexFP16 2 MetricCosine = Inr i
     \<and> DenseFlatIndex_Add (scalar_flat_kernels ring_ops) Ctx 4 [0x3f800000, 0] i calm = (None, i', env')
     \<and> fiKeys i' = [4] \<and> flat_ok i' \<and> fiMagnitudes i' = [fkL2MagnitudeFP16 (scalar_flat_kernels ring_ops) (fp16Row i' 0)]"
proof -
  let ?kn = "scalar_flat_kernels ring_ops"
  define i where "i = projr (NewChunkedDenseFlatIndexFP16 2 MetricCosine)"
  have new: "NewChunkedDenseFlatIndexFP16 2 MetricCosine = Inr i"
    by (simp add: i_def NewChunkedDenseFlatIndexFP16_def newDenseFlatIndex_def maxPlatformInt_def denseFP16ChunkRows_def
        Metric_Valid_def MetricCosine_def MetricL2_def MetricMIPSL2_def)
  obtain err i' env' where add: "DenseFlatIndex_Add ?kn Ctx 4 [0x3f800000, 0] i calm = (err, i', env')" by (metis surj_pair)
  have i: "fiDimension i = 2" "fiMetric i = MetricCosine" "fiFP16 i" "fiKeys i = []" "fiPositions i 4 = None"
    by (simp_all add: i_def NewChunkedDenseFlatIndexFP16_def newDenseFlatIndex_def maxPlatformInt_def denseFP16ChunkRows_def
        Metric_Valid_def MetricCosine_def MetricL2_def MetricMIPSL2_def)
  have "ValidateDense [0x3f800000, 0] 2 = None" "denseVectorFP16 [0x3f800000, 0] = Inr [0x3c00, 0]" by code_simp+
  moreover have "fiKeys (appendFP16 v j) = fiKeys j" "fiMetric (appendFP16 v j) = fiMetric j" "fiFP16 (appendFP16 v j) = fiFP16 j" for v j
    by (simp_all add: appendFP16_def Let_def split: option.splits)
  ultimately have "err = None" "fiKeys i' = [4]" "fiMetric i' = MetricCosine" "fiFP16 i'"
    using add i by (auto simp: DenseFlatIndex_Add_def Let_def ctx_Err_def calm_def)
  moreover have "flat_ok i' \<and> distinct (fiKeys i') \<and> magnitudes_ok ?kn i'"
    by (rule flat_reachable_ok[OF flat_reach.add[OF flat_reach.chunked[OF new] add]])
  ultimately show ?thesis using new add by (intro exI) (auto simp: magnitudes_ok_def row_magnitude_def)
qed

end
