(* ===== verification/Group_By.thy ===== *)
theory Group_By
  imports Sparse_Index Flat_Properties "HOL-Library.List_Lexorder" "HOL-Library.Char_ord"
begin

text \<open>
  Group-by search of \<^verbatim>\<open>src/internal/core/algorithm/flat_algorithm.go\<close>: the accumulator with one bounded heap
  per group, the exact dense and sparse group searches, the merge of segment results and the segmented
  queries. Go iterates over a map in an order of its own: that order is a parameter.
\<close>

subsection \<open>Options and results\<close>

record GroupByOptions =
  goGroupCount :: int
  goTopKPerGroup :: int
  goRadius :: f32
  goFilter :: "(u64 \<Rightarrow> bool) option"
  goResolve :: "(u64 \<Rightarrow> string option) option"

definition GroupByOptions_Validate :: "GroupByOptions \<Rightarrow> error option" where
  "GroupByOptions_Validate o' =
     (if goGroupCount o' \<le> 0 then Some (Sentinel ErrInvalidGroupCount)
      else if goTopKPerGroup o' \<le> 0 then Some (Sentinel ErrInvalidGroupTopK)
      else if f32_lt (goRadius o') 0 \<or> f32_nan (goRadius o') \<or> float32IsInf (goRadius o') then Some (Sentinel ErrInvalidRadius)
      else if goResolve o' = None then Some (Sentinel ErrNilGroupResolver)
      else None)"

record GroupResult =
  grValue :: string
  grResults :: "Result list"

subsection \<open>The accumulator\<close>

record groupAccumulator =
  gaMetric :: Metric
  gaTopKPerGroup :: int
  gaGroups :: "string \<rightharpoonup> Result Heap"

definition newGroupAccumulator :: "Metric \<Rightarrow> int \<Rightarrow> groupAccumulator" where
  "newGroupAccumulator m topKPerGroup = \<lparr>gaMetric = m, gaTopKPerGroup = topKPerGroup, gaGroups = Map.empty\<rparr>"

definition groupAccumulator_add :: "string \<Rightarrow> Result \<Rightarrow> groupAccumulator \<Rightarrow> groupAccumulator" where
  "groupAccumulator_add value result a =
     (let heap = (case gaGroups a value of
                    None \<Rightarrow> projr (NewHeap (Some (\<lambda>left right. resultBetter (gaMetric a) right left)))
                  | Some heap \<Rightarrow> heap) in
      a\<lparr>gaGroups := (gaGroups a)(value \<mapsto> offer (gaMetric a) (nat (gaTopKPerGroup a)) result heap)\<rparr>)"

text \<open>The comparison of groups: by their best result, then by value.\<close>

definition group_cmp :: "Metric \<Rightarrow> GroupResult \<Rightarrow> GroupResult \<Rightarrow> int" where
  "group_cmp m left right =
     (if resultBetter m (grResults left ! 0) (grResults right ! 0) then -1
      else if resultBetter m (grResults right ! 0) (grResults left ! 0) then 1
      else if grValue left < grValue right then -1
      else if grValue right < grValue left then 1
      else 0)"

type_synonym map_order = "(string \<rightharpoonup> Result Heap) \<Rightarrow> string list"

definition map_order_ok :: "map_order \<Rightarrow> bool" where
  "map_order_ok order \<longleftrightarrow> (\<forall>m. finite (dom m) \<longrightarrow> distinct (order m) \<and> set (order m) = dom m)"

definition finish_groups :: "map_order \<Rightarrow> groupAccumulator \<Rightarrow> GroupResult list" where
  "finish_groups order a =
     filter (\<lambda>g. grResults g \<noteq> [])
       (map (\<lambda>value. \<lparr>grValue = value, grResults = sorted_results (gaMetric a) (the (gaGroups a value))\<rparr>) (order (gaGroups a)))"

definition groupAccumulator_finish :: "map_order \<Rightarrow> int \<Rightarrow> groupAccumulator \<Rightarrow> GroupResult list" where
  "groupAccumulator_finish order groupCount a =
     (let groups = slices_SortFunc (group_cmp (gaMetric a)) (finish_groups order a) in
      if groupCount < int (length groups) then take (nat groupCount) groups else groups)"

definition MergeGroupResults :: "map_order \<Rightarrow> Metric \<Rightarrow> int \<Rightarrow> int \<Rightarrow> GroupResult list list \<Rightarrow> GroupResult list" where
  "MergeGroupResults order m groupCount topKPerGroup batches =
     (if groupCount \<le> 0 \<or> topKPerGroup \<le> 0 then []
      else
        let a = newGroupAccumulator m topKPerGroup;
            a = fold (\<lambda>batch. fold (\<lambda>group. fold (groupAccumulator_add (grValue group)) (grResults group)) batch) batches a in
        groupAccumulator_finish order groupCount a)"

subsection \<open>Exact group search\<close>

text \<open>The loop both indexes share: filter, score, radius, resolve, add.\<close>

fun group_loop :: "ctx \<Rightarrow> Metric \<Rightarrow> GroupByOptions \<Rightarrow> ('v \<Rightarrow> error + f32) \<Rightarrow> (u64 \<Rightarrow> string option) \<Rightarrow> (u64 \<times> 'v) list
    \<Rightarrow> groupAccumulator \<Rightarrow> env \<Rightarrow> (error + groupAccumulator) \<times> env" where
  "group_loop ctx m opts score resolve [] a env = (Inr a, env)"
| "group_loop ctx m opts score resolve ((key, row) # rest) a env =
     (case ctx_Err ctx env of
        (Some err, env) \<Rightarrow> (Inl err, env)
      | (None, env) \<Rightarrow>
        if (case goFilter opts of None \<Rightarrow> False | Some f \<Rightarrow> \<not> f key)
        then group_loop ctx m opts score resolve rest a env
        else case score row of
          Inl err \<Rightarrow> (Inl (ErrWrap ''core: score sparse group candidate %d (key %d)'' [err]), env)
        | Inr s \<Rightarrow>
            if \<not> scoreWithinRadius m s (goRadius opts) then group_loop ctx m opts score resolve rest a env
            else case resolve key of
              None \<Rightarrow> group_loop ctx m opts score resolve rest a env
            | Some value \<Rightarrow>
                group_loop ctx m opts score resolve rest (groupAccumulator_add value \<lparr>rsKey = key, rsScore = s\<rparr> a) env)"

definition finish_search :: "map_order \<Rightarrow> GroupByOptions \<Rightarrow> (error + groupAccumulator) \<times> env \<Rightarrow> (error + GroupResult list) \<times> env" where
  "finish_search order opts r =
     (case r of
        (Inl err, env) \<Rightarrow> (Inl err, env)
      | (Inr a, env) \<Rightarrow> (Inr (groupAccumulator_finish order (goGroupCount opts) a), env))"

definition DenseFlatIndex_SearchGroups :: "flat_kernels \<Rightarrow> map_order \<Rightarrow> ctx \<Rightarrow> f32 list \<Rightarrow> GroupByOptions \<Rightarrow> DenseFlatIndex \<Rightarrow> env
    \<Rightarrow> (error + GroupResult list) \<times> env" where
  "DenseFlatIndex_SearchGroups kn order ctx query opts i env =
     (if ctx = NilCtx then (Inl (ErrMsg ''core: nil dense Flat group-by context''), env)
      else case ctx_Err ctx env of
        (Some err, env) \<Rightarrow> (Inl err, env)
      | (None, env) \<Rightarrow>
        if length query \<noteq> fiDimension i then (Inl (wrapf ErrInvalidDimension ''query has %d, want %d''), env)
        else case ValidateDense query (fiDimension i) of
          Some err \<Rightarrow> (Inl (ErrWrap ''core: invalid dense group-by query'' [err]), env)
        | None \<Rightarrow>
          (case GroupByOptions_Validate opts of
             Some err \<Rightarrow> (Inl err, env)
           | None \<Rightarrow>
             (case Metric_Distance (fkDense kn) (fiMetric i) of
                Inl err \<Rightarrow> (Inl err, env)
              | Inr distance \<Rightarrow>
                (case (if \<not> fiFP16 i then Inr (\<lambda>p. distance (flat_vector i p) query)
                       else case denseVectorFP16 query of
                         Inl err \<Rightarrow> Inl err
                       | Inr queryFP16 \<Rightarrow>
                         (case denseDistanceFP16 kn (fiMetric i) of
                            Inl err \<Rightarrow> Inl err
                          | Inr distanceFP16 \<Rightarrow> Inr (\<lambda>p. distanceFP16 (fp16Row i p) queryFP16))) of
                   Inl err \<Rightarrow> (Inl (ErrWrap ''core: encode dense Flat FP16 group-by query'' [err]), env)
                 | Inr score \<Rightarrow>
                     finish_search order opts
                       (group_loop ctx (fiMetric i) opts (\<lambda>p. Inr (score p)) (the (goResolve opts))
                          (zip (fiKeys i) [0..<length (fiKeys i)])
                          (newGroupAccumulator (fiMetric i) (goTopKPerGroup opts)) env)))))"

definition SearchSparseGroups :: "sparse_ops \<Rightarrow> map_order \<Rightarrow> ctx \<Rightarrow> SparseVector \<Rightarrow> GroupByOptions \<Rightarrow> SparseFlatIndex \<Rightarrow> env
    \<Rightarrow> (error + GroupResult list) \<times> env" where
  "SearchSparseGroups so order ctx query opts i env =
     (if ctx = NilCtx then (Inl (ErrMsg ''core: nil sparse Flat group-by context''), env)
      else case ctx_Err ctx env of
        (Some err, env) \<Rightarrow> (Inl err, env)
      | (None, env) \<Rightarrow>
        (case GroupByOptions_Validate opts of
           Some err \<Rightarrow> (Inl err, env)
         | None \<Rightarrow>
           (case SparseInnerProduct so query empty_sparse of
              Inl err \<Rightarrow> (Inl (ErrWrap ''core: validate sparse Flat group-by query'' [err]), env)
            | Inr _ \<Rightarrow>
                finish_search order opts
                  (group_loop ctx MetricIP opts (\<lambda>row. SparseInnerProduct so row query) (the (goResolve opts))
                     (sparse_rows i) (newGroupAccumulator MetricIP (goTopKPerGroup opts)) env))))"

subsection \<open>Segmented group queries\<close>

record 'q group_searcher =
  gsMetric :: Metric
  gsSearch :: "'q \<Rightarrow> GroupByOptions \<Rightarrow> error + GroupResult list \<Rightarrow> bool"

definition group_task :: "string \<Rightarrow> string \<Rightarrow> Metric \<Rightarrow> 'q group_searcher option list \<Rightarrow> 'q \<Rightarrow> GroupByOptions \<Rightarrow> nat
    \<Rightarrow> error + GroupResult list \<Rightarrow> bool" where
  "group_task missing mismatch m searchers query opts index out =
     (case searchers ! index of
        None \<Rightarrow> out = Inl (ErrMsg missing)
      | Some searcher \<Rightarrow>
          if gsMetric searcher \<noteq> m then out = Inl (ErrMsg mismatch) else gsSearch searcher query opts out)"

definition QueryDenseGroups :: "'g errgroup \<Rightarrow> nat \<Rightarrow> map_order \<Rightarrow> ctx \<Rightarrow> Metric \<Rightarrow> (f32 list) group_searcher option list \<Rightarrow> f32 list
    \<Rightarrow> GroupByOptions \<Rightarrow> int \<Rightarrow> env \<Rightarrow> error + GroupResult list \<Rightarrow> bool" where
  "QueryDenseGroups eg procs order ctx m searchers query opts workers env out =
     (if ctx = NilCtx then out = Inl (ErrMsg ''core: nil dense group-by context'')
      else case ctx_Err ctx env of
        (Some err, env) \<Rightarrow> out = Inl err
      | (None, env) \<Rightarrow>
        if \<not> Metric_Valid m then out = Inl (ErrMsg ''core: invalid group-by metric'')
        else case GroupByOptions_Validate opts of
          Some err \<Rightarrow> out = Inl err
        | None \<Rightarrow>
          \<exists>r batches.
            ParallelFor eg procs (int (length searchers)) workers
              (Some (store_result (group_task ''nil dense group searcher'' ''metric %d does not match group-by metric %d'' m searchers query opts)))
              (replicate (length searchers) []) (r, batches)
            \<and> out = (case r of Some err \<Rightarrow> Inl (ErrWrap ''core: dense segment group-by query'' [err])
                     | None \<Rightarrow> Inr (MergeGroupResults order m (goGroupCount opts) (goTopKPerGroup opts) batches)))"

definition QuerySparseGroups :: "'g errgroup \<Rightarrow> nat \<Rightarrow> map_order \<Rightarrow> ctx \<Rightarrow> SparseVector group_searcher option list \<Rightarrow> SparseVector
    \<Rightarrow> GroupByOptions \<Rightarrow> int \<Rightarrow> env \<Rightarrow> error + GroupResult list \<Rightarrow> bool" where
  "QuerySparseGroups eg procs order ctx searchers query opts workers env out =
     (if ctx = NilCtx then out = Inl (ErrMsg ''core: nil sparse group-by context'')
      else case ctx_Err ctx env of
        (Some err, env) \<Rightarrow> out = Inl err
      | (None, env) \<Rightarrow>
        (case GroupByOptions_Validate opts of
          Some err \<Rightarrow> out = Inl err
        | None \<Rightarrow>
          \<exists>r batches.
            ParallelFor eg procs (int (length searchers)) workers
              (Some (store_result (group_task ''nil sparse group searcher'' ''sparse group searcher uses unsupported metric %d'' MetricIP searchers query opts)))
              (replicate (length searchers) []) (r, batches)
            \<and> out = (case r of Some err \<Rightarrow> Inl (ErrWrap ''core: sparse segment group-by query'' [err])
                     | None \<Rightarrow> Inr (MergeGroupResults order MetricIP (goGroupCount opts) (goTopKPerGroup opts) batches))))"

end
