(* ===== verification/Group_Properties.thy ===== *)
theory Group_Properties
  imports Group_By
begin

text \<open>
  Group-by search is exact within one index and does not depend on the order in which Go iterates over
  maps; merging segment results is exact when the segments report all their groups, and loses documents
  when they report only the best groups.
\<close>

subsection \<open>What the accumulator holds\<close>

definition members :: "string \<Rightarrow> (string \<times> Result) list \<Rightarrow> Result list" where
  "members v ps = map snd (filter (\<lambda>p. fst p = v) ps)"

definition add_all :: "(string \<times> Result) list \<Rightarrow> groupAccumulator \<Rightarrow> groupAccumulator" where
  "add_all ps a = fold (\<lambda>(v, r). groupAccumulator_add v r) ps a"

lemma members_append [simp]: "members v (ps @ qs) = members v ps @ members v qs"
  by (simp add: members_def)

lemma members_single: "members v [(w, r)] = (if v = w then [r] else [])"
  by (simp add: members_def)

lemma members_Nil: "members v ps = [] \<longleftrightarrow> v \<notin> fst ` set ps"
  by (force simp: members_def filter_empty_conv)

lemma members_subset: "r \<in> set (members v ps) \<Longrightarrow> (v, r) \<in> set ps"
  by (auto simp: members_def)

lemma group_less: "(\<lambda>left right. resultBetter m right left) = worstFirst m"
  by (auto simp: fun_eq_iff resultBetter_def worstFirst_def f32_eq_def)

lemma add_all_state:
  "gaMetric (add_all ps (newGroupAccumulator m k)) = m \<and> gaTopKPerGroup (add_all ps (newGroupAccumulator m k)) = k
   \<and> gaGroups (add_all ps (newGroupAccumulator m k)) v =
       (if members v ps = [] then None else Some (fold (offer m (nat k)) (members v ps) (worst_heap m [])))"
proof (induction ps arbitrary: v rule: rev_induct)
  case Nil
  show ?case by (simp add: add_all_def newGroupAccumulator_def members_def)
next
  case (snoc p ps)
  obtain w r where p: "p = (w, r)" by (cases p)
  let ?a = "add_all ps (newGroupAccumulator m k)"
  have step: "add_all (ps @ [p]) (newGroupAccumulator m k) = groupAccumulator_add w r ?a" by (simp add: add_all_def p)
  show ?case
    unfolding step using snoc.IH[of w] snoc.IH[of v]
    by (auto simp: groupAccumulator_add_def p members_single Let_def NewHeap_def NewHeapWithCapacity_def group_less)
qed

definition group_of :: "Metric \<Rightarrow> nat \<Rightarrow> (string \<times> Result) list \<Rightarrow> string \<Rightarrow> GroupResult" where
  "group_of m k ps v = \<lparr>grValue = v, grResults = sorted_results m (fold (offer m k) (members v ps) (worst_heap m []))\<rparr>"

lemma group_of_best:
  assumes "0 < k" and "\<forall>p\<in>set ps. numeric (snd p)"
  shows "best_of (resultBetter m) k (members v ps) (grResults (group_of m k ps v))"
proof -
  have num: "\<forall>r\<in>set (members v ps). numeric r" using members_subset[of _ v ps] assms(2) by fastforce
  obtain ys where "fold (offer m k) (members v ps) (worst_heap m []) = worst_heap m ys" "rank_heap (result_rank m) k (members v ps) ys"
    using fold_offer[OF assms(1) rank_heap_empty, where rs = "members v ps"] num by auto
  then show ?thesis using sorted_results_best num by (simp add: group_of_def)
qed

lemma best_of_nonempty: "best_of better k xs rs \<Longrightarrow> 0 < k \<Longrightarrow> xs \<noteq> [] \<Longrightarrow> rs \<noteq> []"
  by (auto simp: best_of_def min_def split: if_splits)

lemma best_of_subset: "best_of better k xs rs \<Longrightarrow> set rs \<subseteq> set xs"
  unfolding best_of_def by (metis set_mset_mset set_mset_mono)

lemma finish_groups_all:
  assumes order: "map_order_ok order" and k: "0 < k" and num: "\<forall>p\<in>set ps. numeric (snd p)"
  shows "\<exists>vs. distinct vs \<and> set vs = fst ` set ps
    \<and> finish_groups order (add_all ps (newGroupAccumulator m k)) = map (group_of m (nat k) ps) vs"
proof -
  let ?a = "add_all ps (newGroupAccumulator m k)"
  note st = add_all_state[of ps m k]
  have dom: "dom (gaGroups ?a) = fst ` set ps" using st by (auto simp: dom_def members_Nil split: if_splits)
  have vs: "distinct (order (gaGroups ?a))" "set (order (gaGroups ?a)) = fst ` set ps"
    using order dom by (auto simp: map_order_ok_def)
  have "map (\<lambda>value. \<lparr>grValue = value, grResults = sorted_results (gaMetric ?a) (the (gaGroups ?a value))\<rparr>) (order (gaGroups ?a))
      = map (group_of m (nat k) ps) (order (gaGroups ?a))"
    using vs(2) st by (auto simp: group_of_def members_Nil)
  moreover have "grResults (group_of m (nat k) ps v) \<noteq> []" if "v \<in> set (order (gaGroups ?a))" for v
    using that vs(2) k group_of_best[of "nat k" ps m v] num best_of_nonempty members_Nil by (metis zero_less_nat_eq)
  ultimately have "finish_groups order ?a = map (group_of m (nat k) ps) (order (gaGroups ?a))"
    unfolding finish_groups_def by (simp only:) (auto simp: filter_id_conv)
  then show ?thesis using vs by blast
qed

subsection \<open>The order of the groups\<close>

definition group_rank :: "Metric \<Rightarrow> GroupResult \<Rightarrow> (int \<times> u64) \<times> string" where
  "group_rank m g = (result_rank m (grResults g ! 0), grValue g)"

abbreviation group_better :: "Metric \<Rightarrow> GroupResult \<Rightarrow> GroupResult \<Rightarrow> bool" where
  "group_better m a b \<equiv> group_cmp m a b < 0"

lemma group_cmp_rank:
  "numeric (grResults a ! 0) \<Longrightarrow> numeric (grResults b ! 0) \<Longrightarrow> group_better m a b \<longleftrightarrow> group_rank m a < group_rank m b"
  unfolding group_cmp_def group_rank_def less_prod_simp
  by (auto simp: resultBetter_rank not_less)

lemma sorted_rank_unique:
  fixes f :: "'a \<Rightarrow> 'b::linorder"
  assumes "sorted_wrt (\<lambda>a b. f a \<le> f b) xs" "sorted_wrt (\<lambda>a b. f a \<le> f b) ys" and "mset xs = mset ys" and "inj_on f (set xs)"
  shows "xs = ys"
proof -
  have "sorted (map f xs)" "sorted (map f ys)" using assms(1,2) by (simp_all add: sorted_wrt_map)
  moreover have "mset (map f xs) = mset (map f ys)" using assms(3) by simp
  ultimately have "map f xs = map f ys" by (metis properties_for_sort)
  moreover have "set ys = set xs" using assms(3) by (metis set_mset_mset)
  ultimately show ?thesis using assms(4) by (metis map_inj_on sup.idem)
qed


lemma best_of_take_sorted:
  fixes f :: "'a \<Rightarrow> 'b::linorder"
  assumes sorted: "sorted_wrt (\<lambda>a b. f a \<le> f b) ys" and "mset ys = mset xs"
    and better: "\<forall>a\<in>set xs. \<forall>b\<in>set xs. better a b \<longleftrightarrow> f a < f b"
  shows "best_of better k xs (take k ys)"
proof -
  have split: "mset xs = mset (take k ys) + mset (drop k ys)" using assms(2) by (metis append_take_drop_id mset_append)
  have set: "set ys = set xs" using assms(2) by (metis set_mset_mset)
  have "sorted_wrt (\<lambda>a b. f a \<le> f b) (take k ys @ drop k ys)" using sorted by simp
  then have le: "\<forall>a\<in>set (take k ys). \<forall>b\<in>set (drop k ys). f a \<le> f b" and st: "sorted_wrt (\<lambda>a b. f a \<le> f b) (take k ys)"
    unfolding sorted_wrt_append by auto
  have "sorted_wrt (\<lambda>a b. \<not> better b a) (take k ys)"
    by (rule sorted_wrt_mono_rel[OF _ st]) (use better set set_take_subset[of k ys] in \<open>auto simp: subset_iff\<close>)
  moreover have "\<forall>a\<in>#mset xs - mset (take k ys). \<forall>b\<in>#mset (take k ys). \<not> better a b"
  proof (intro ballI)
    fix a b assume ab: "a \<in># mset xs - mset (take k ys)" "b \<in># mset (take k ys)"
    then have "a \<in> set (drop k ys)" "b \<in> set (take k ys)" by (simp_all add: split)
    moreover from this have "a \<in> set xs" "b \<in> set xs" using set by (auto dest: in_set_dropD in_set_takeD)
    ultimately show "\<not> better a b" using le better by (metis leD)
  qed
  moreover have "length (take k ys) = min k (length xs)" using mset_eq_length[OF assms(2)] by simp
  ultimately show ?thesis unfolding best_of_def using split by simp
qed

text \<open>All groups, and the ones the accumulator reports.\<close>

definition exact_groups :: "Metric \<Rightarrow> nat \<Rightarrow> (string \<times> Result) list \<Rightarrow> GroupResult list \<Rightarrow> bool" where
  "exact_groups m k ps groups \<longleftrightarrow> distinct (map grValue groups) \<and> set (map grValue groups) = fst ` set ps
     \<and> (\<forall>g\<in>set groups. best_of (resultBetter m) k (members (grValue g) ps) (grResults g))"

lemma group_of_numeric:
  assumes "0 < k" "\<forall>p\<in>set ps. numeric (snd p)" "v \<in> fst ` set ps"
  shows "numeric (grResults (group_of m k ps v) ! 0)"
proof -
  have best: "best_of (resultBetter m) k (members v ps) (grResults (group_of m k ps v))" using group_of_best assms(1,2) .
  then have "grResults (group_of m k ps v) ! 0 \<in> set (members v ps)"
    using best_of_nonempty[OF best assms(1)] best_of_subset[OF best] assms(3) members_Nil by (metis length_greater_0_conv nth_mem subsetD)
  then show ?thesis using members_subset assms(2) by fastforce
qed

lemma finish_exact:
  assumes order: "map_order_ok order" and pos: "0 < gcount" "0 < k" and num: "\<forall>p\<in>set ps. numeric (snd p)"
  shows "\<exists>groups. exact_groups m (nat k) ps groups
    \<and> best_of (group_better m) (nat gcount) groups (groupAccumulator_finish order gcount (add_all ps (newGroupAccumulator m k)))"
    and "map_order_ok order' \<Longrightarrow> groupAccumulator_finish order' gcount (add_all ps (newGroupAccumulator m k))
      = groupAccumulator_finish order gcount (add_all ps (newGroupAccumulator m k))"
proof -
  let ?a = "add_all ps (newGroupAccumulator m k)"
  let ?sorted = "\<lambda>order. slices_SortFunc (group_cmp m) (finish_groups order ?a)"
  have k: "0 < nat k" using pos(2) by simp
  have metric: "gaMetric ?a = m" using add_all_state by blast
  have facts: "mset (?sorted ord) = mset (finish_groups ord ?a)" "sorted_wrt (\<lambda>a b. group_rank m a \<le> group_rank m b) (?sorted ord)"
      "\<forall>a\<in>set (finish_groups ord ?a). \<forall>b\<in>set (finish_groups ord ?a). group_better m a b \<longleftrightarrow> group_rank m a < group_rank m b"
    if "map_order_ok ord" for ord
  proof -
    note ord = that
    obtain vs where vs: "set vs = fst ` set ps" "finish_groups ord ?a = map (group_of m (nat k) ps) vs"
      using finish_groups_all[OF ord pos(2) num] by blast
    show cmp: "\<forall>a\<in>set (finish_groups ord ?a). \<forall>b\<in>set (finish_groups ord ?a). group_better m a b \<longleftrightarrow> group_rank m a < group_rank m b"
      unfolding vs(2) using group_of_numeric[OF k num, of _ m] vs(1) by (auto intro!: group_cmp_rank)
    show "mset (?sorted ord) = mset (finish_groups ord ?a)" by (rule mset_SortFunc)
    show "sorted_wrt (\<lambda>a b. group_rank m a \<le> group_rank m b) (?sorted ord)" by (rule SortFunc_sorted) (use cmp in blast)
  qed
  have finish: "groupAccumulator_finish ord gcount ?a = take (nat gcount) (?sorted ord)" for ord
    using pos(1) by (auto simp: groupAccumulator_finish_def metric Let_def)
  obtain vs where vs: "distinct vs" "set vs = fst ` set ps" "finish_groups order ?a = map (group_of m (nat k) ps) vs"
    using finish_groups_all[OF order pos(2) num] by blast
  have "exact_groups m (nat k) ps (finish_groups order ?a)"
    using vs group_of_best[OF k num] by (simp add: exact_groups_def group_of_def comp_def)
  moreover have "best_of (group_better m) (nat gcount) (finish_groups order ?a) (groupAccumulator_finish order gcount ?a)"
    unfolding finish by (rule best_of_take_sorted[OF facts(2)[OF order] facts(1)[OF order] facts(3)[OF order]])
  ultimately show "\<exists>groups. exact_groups m (nat k) ps groups \<and> best_of (group_better m) (nat gcount) groups (groupAccumulator_finish order gcount ?a)"
    by blast
  assume order': "map_order_ok order'"
  obtain vs' where vs': "distinct vs'" "set vs' = fst ` set ps" "finish_groups order' ?a = map (group_of m (nat k) ps) vs'"
    using finish_groups_all[OF order' pos(2) num] by blast
  have "mset vs' = mset vs" using vs(1,2) vs'(1,2) by (metis set_eq_iff_mset_eq_distinct)
  then have "mset (?sorted order') = mset (?sorted order)" using facts(1)[OF order] facts(1)[OF order'] vs(3) vs'(3) by simp
  moreover have "inj_on (group_rank m) (set (?sorted order'))"
    using facts(1)[OF order'] vs'(3) mset_eq_setD by (fastforce simp: inj_on_def group_rank_def group_of_def)
  ultimately have "?sorted order' = ?sorted order"
    by (intro sorted_rank_unique[OF facts(2)[OF order'] facts(2)[OF order]])
  then show "groupAccumulator_finish order' gcount ?a = groupAccumulator_finish order gcount ?a" by (simp add: finish)
qed


subsection \<open>Search within one index\<close>

text \<open>The results that pass filter, radius and resolver, with their groups.\<close>

definition group_pairs :: "Metric \<Rightarrow> GroupByOptions \<Rightarrow> ('v \<Rightarrow> f32) \<Rightarrow> (u64 \<times> 'v) list \<Rightarrow> (string \<times> Result) list" where
  "group_pairs m opts score rows = List.map_filter (\<lambda>(key, row).
     if (case goFilter opts of None \<Rightarrow> False | Some f \<Rightarrow> \<not> f key) \<or> \<not> scoreWithinRadius m (score row) (goRadius opts) then None
     else map_option (\<lambda>v. (v, \<lparr>rsKey = key, rsScore = score row\<rparr>)) (the (goResolve opts) key)) rows"

lemma group_loop_quiet:
  assumes "quiet env"
  shows "\<exists>env'. \<forall>a. group_loop ctx m opts (\<lambda>row. Inr (score row)) (the (goResolve opts)) rows a env
    = (Inr (add_all (group_pairs m opts score rows) a), env')"
  using assms
proof (induction rows arbitrary: env)
  case Nil
  show ?case by (simp add: group_pairs_def add_all_def map_filter_simps)
next
  case (Cons row rows)
  obtain key v where row: "row = (key, v)" by (cases row)
  obtain env1 where env1: "ctx_Err ctx env = (None, env1)" "quiet env1" using ctx_quietE[OF Cons.prems] by metis
  obtain env' where IH: "\<And>a. group_loop ctx m opts (\<lambda>row. Inr (score row)) (the (goResolve opts)) rows a env1
      = (Inr (add_all (group_pairs m opts score rows) a), env')" using Cons.IH[OF env1(2)] by blast
  show ?case
    by (rule exI[of _ env']) (auto simp: row env1(1) IH group_pairs_def add_all_def map_filter_simps split: option.splits)
qed

definition flat_group_score :: "flat_kernels \<Rightarrow> DenseFlatIndex \<Rightarrow> f32 list \<Rightarrow> nat \<Rightarrow> f32" where
  "flat_group_score kn i query p =
     (if fiFP16 i then projr (denseDistanceFP16 kn (fiMetric i)) (fp16Row i p) (projr (denseVectorFP16 query))
      else projr (Metric_Distance (fkDense kn) (fiMetric i)) (flat_vector i p) query)"

definition flat_group_pairs :: "flat_kernels \<Rightarrow> DenseFlatIndex \<Rightarrow> f32 list \<Rightarrow> GroupByOptions \<Rightarrow> (string \<times> Result) list" where
  "flat_group_pairs kn i query opts =
     group_pairs (fiMetric i) opts (flat_group_score kn i query) (zip (fiKeys i) [0..<length (fiKeys i)])"

lemma GroupByOptions_positive:
  "GroupByOptions_Validate opts = None \<Longrightarrow> 0 < goGroupCount opts \<and> 0 < goTopKPerGroup opts"
  by (simp add: GroupByOptions_Validate_def split: if_splits)

lemma SearchGroups_finish:
  assumes "ctx \<noteq> NilCtx" and "quiet env" and "flat_ok i" and "ValidateDense query (fiDimension i) = None"
    and "fiFP16 i \<longrightarrow> denseVectorFP16 query = Inr q" and opts: "GroupByOptions_Validate opts = None"
  shows "\<exists>env'. \<forall>order. DenseFlatIndex_SearchGroups kn order ctx query opts i env =
    (Inr (groupAccumulator_finish order (goGroupCount opts)
       (add_all (flat_group_pairs kn i query opts) (newGroupAccumulator (fiMetric i) (goTopKPerGroup opts)))), env')"
proof -
  obtain env1 where env1: "ctx_Err ctx env = (None, env1)" "quiet env1" using ctx_quietE[OF assms(2)] by metis
  have len: "length query = fiDimension i" using assms(4) by (auto simp: ValidateDense_def split: if_splits)
  have valid: "Metric_Valid (fiMetric i)" using assms(3) by (simp add: flat_ok_def)
  obtain d where d: "Metric_Distance (fkDense kn) (fiMetric i) = Inr d" using Metric_Valid_Distance[OF valid] by metis
  obtain d16 where d16: "denseDistanceFP16 kn (fiMetric i) = Inr d16"
    using Metric_Valid_Distance[OF valid, of undefined] by (auto simp: Metric_Distance_def denseDistanceFP16_def split: if_splits)
  have score: "flat_group_score kn i query = (if fiFP16 i then (\<lambda>p. d16 (fp16Row i p) q) else (\<lambda>p. d (flat_vector i p) query))"
    using assms(5) d d16 by (auto simp: fun_eq_iff flat_group_score_def)
  obtain env' where "\<And>a. group_loop ctx (fiMetric i) opts (\<lambda>p. Inr (flat_group_score kn i query p)) (the (goResolve opts))
      (zip (fiKeys i) [0..<length (fiKeys i)]) a env1 = (Inr (add_all (flat_group_pairs kn i query opts) a), env')"
    using group_loop_quiet[OF env1(2)] unfolding flat_group_pairs_def by blast
  then show ?thesis
    using assms(1,4,5) opts len d d16 env1(1)
    by (intro exI[of _ env']) (auto simp: DenseFlatIndex_SearchGroups_def finish_search_def score)
qed

text \<open>
  C38: Group-by search of a Flat index is exact and deterministic. For a valid query without cancellation
  or NaN scores there is one list of all groups of the eligible documents, each with its \<open>TopKPerGroup\<close>
  best documents, of which \<open>SearchGroups\<close> returns the \<open>GroupCount\<close> best by best document and then value; the
  answer is the same for every order in which Go iterates over its maps.
\<close>

theorem group_search_exact:
  assumes "ctx \<noteq> NilCtx" and "quiet env" and "flat_ok i" and "ValidateDense query (fiDimension i) = None"
    and "fiFP16 i \<longrightarrow> denseVectorFP16 query = Inr q" and "GroupByOptions_Validate opts = None"
    and "map_order_ok order" and "map_order_ok order'"
    and "\<forall>p\<in>set (flat_group_pairs kn i query opts). numeric (snd p)"
  shows "\<exists>groups out env'. DenseFlatIndex_SearchGroups kn order ctx query opts i env = (Inr out, env')
    \<and> DenseFlatIndex_SearchGroups kn order' ctx query opts i env = (Inr out, env')
    \<and> exact_groups (fiMetric i) (nat (goTopKPerGroup opts)) (flat_group_pairs kn i query opts) groups
    \<and> best_of (group_better (fiMetric i)) (nat (goGroupCount opts)) groups out"
proof -
  note pos = GroupByOptions_positive[OF assms(6)]
  obtain env' where run: "\<And>ord. DenseFlatIndex_SearchGroups kn ord ctx query opts i env =
    (Inr (groupAccumulator_finish ord (goGroupCount opts)
       (add_all (flat_group_pairs kn i query opts) (newGroupAccumulator (fiMetric i) (goTopKPerGroup opts)))), env')"
    using SearchGroups_finish[OF assms(1-6)] by blast
  show ?thesis
    using finish_exact[OF assms(7) _ _ assms(9), where gcount = "goGroupCount opts" and k = "goTopKPerGroup opts" and m = "fiMetric i"] pos assms(8)
    unfolding run by blast
qed

subsection \<open>Merging segments\<close>

definition batch_pairs :: "GroupResult list \<Rightarrow> (string \<times> Result) list" where
  "batch_pairs batch = concat (map (\<lambda>g. map (Pair (grValue g)) (grResults g)) batch)"

lemma add_all_Nil: "add_all [] a = a"
  by (simp add: add_all_def)

lemma add_all_append: "add_all (ps @ qs) a = add_all qs (add_all ps a)"
  by (simp add: add_all_def)

lemma fold_batches: "fold (\<lambda>batch. fold (\<lambda>group. fold (groupAccumulator_add (grValue group)) (grResults group)) batch) batches a
    = add_all (concat (map batch_pairs batches)) a"
proof -
  have group: "fold (groupAccumulator_add v) rs a = add_all (map (Pair v) rs) a" for v rs a
    by (induction rs arbitrary: a) (simp_all add: add_all_def)
  have batch: "fold (\<lambda>group. fold (groupAccumulator_add (grValue group)) (grResults group)) batch a = add_all (batch_pairs batch) a" for batch a
    by (induction batch arbitrary: a) (simp_all add: batch_pairs_def add_all_append add_all_Nil group)
  show ?thesis by (induction batches arbitrary: a) (simp_all add: add_all_append add_all_Nil batch)
qed


lemma members_concat: "members v (concat pss) = concat (map (members v) pss)"
  by (induction pss) (simp_all, simp add: members_def)

lemma members_batch: "members v (batch_pairs batch) = concat (map (\<lambda>g. if grValue g = v then grResults g else []) batch)"
  unfolding batch_pairs_def members_concat by (auto simp: members_def comp_def filter_map intro!: arg_cong[of _ _ concat])

text \<open>A segment that reports all its groups reports the best of every group.\<close>

lemma complete_members:
  assumes "exact_groups m k ps batch"
  shows "best_of (resultBetter m) k (members v ps) (members v (batch_pairs batch))"
proof (cases "v \<in> set (map grValue batch)")
  case True
  then obtain g xs ys where batch: "batch = xs @ g # ys" and g: "grValue g = v" by (auto dest: split_list)
  have "v \<notin> grValue ` set xs" "v \<notin> grValue ` set ys" using assms g by (auto simp: exact_groups_def batch)
  then have "concat (map (\<lambda>g. if grValue g = v then grResults g else []) xs) = []"
      "concat (map (\<lambda>g. if grValue g = v then grResults g else []) ys) = []" by auto
  then have "members v (batch_pairs batch) = grResults g" by (simp add: members_batch batch g del: concat_eq_Nil_conv)
  then show ?thesis using assms g by (simp add: exact_groups_def batch)
next
  case False
  then have "members v ps = []" "members v (batch_pairs batch) = []"
    using assms members_Nil[of v ps] by (auto simp: exact_groups_def members_batch)
  then show ?thesis by (simp add: best_of_def)
qed

lemma merged_members:
  assumes segments: "list_all2 (exact_groups m k) pss batches" and num: "\<forall>p\<in>set (concat pss). numeric (snd p)"
    and best: "best_of (resultBetter m) k (members v (concat (map batch_pairs batches))) rs"
  shows "best_of (resultBetter m) k (members v (concat pss)) rs"
proof -
  let ?bs = "map (\<lambda>b. members v (batch_pairs b)) batches"
  have num1: "\<forall>r\<in>set (members v (concat pss)). numeric r" using num members_subset by fastforce
  have parts: "list_all2 (best_of (resultBetter m) k) (map (members v) pss) ?bs"
    unfolding list_all2_map1 list_all2_map2 by (rule list_all2_mono[OF segments complete_members])
  have "list_all2 (best_of (\<lambda>a b. result_rank m a < result_rank m b) k) (map (members v) pss) ?bs"
    by (rule list.rel_mono_strong[OF parts]) (use num1 in \<open>auto simp: best_of_rank_iff members_concat\<close>)
  moreover have "\<forall>r\<in>set (concat ?bs). numeric r"
    using num1 mset_subset_eqD[OF best_parts_sub[OF parts]] by (metis members_concat set_mset_mset)
  ultimately show ?thesis
    using best_of_merge[of "result_rank m" k "map (members v) pss" ?bs rs] best num1
    by (simp add: best_of_rank_iff members_concat comp_def)
qed

lemma complete_pairs:
  assumes "list_all2 (exact_groups m k) pss batches" and "p \<in> set (concat (map batch_pairs batches))"
  shows "p \<in> set (concat pss)"
proof -
  obtain v r where p: "p = (v, r)" by (cases p)
  obtain b where "b \<in> set batches" "p \<in> set (batch_pairs b)" using assms(2) by auto
  then obtain j where j: "j < length batches" "p \<in> set (batch_pairs (batches ! j))" by (metis in_set_conv_nth)
  have "r \<in> set (members v (batch_pairs (batches ! j)))" using j(2) by (force simp: members_def p)
  moreover have "best_of (resultBetter m) k (members v (pss ! j)) (members v (batch_pairs (batches ! j)))"
    using assms(1) j(1) by (intro complete_members) (simp add: list_all2_conv_all_nth)
  ultimately have "p \<in> set (pss ! j)" using best_of_subset members_subset p by blast
  then show ?thesis using j(1) list_all2_lengthD[OF assms(1)] by (metis UN_I nth_mem set_concat)
qed

lemma merged_exact:
  assumes k: "0 < k" and segments: "list_all2 (exact_groups m k) pss batches" and num: "\<forall>p\<in>set (concat pss). numeric (snd p)"
    and exact: "exact_groups m k (concat (map batch_pairs batches)) groups"
  shows "exact_groups m k (concat pss) groups"
proof -
  have "members v (concat pss) = [] \<longleftrightarrow> members v (concat (map batch_pairs batches)) = []" for v
  proof -
    have "list_all2 (\<lambda>ps b. members v ps = [] \<longleftrightarrow> members v (batch_pairs b) = []) pss batches"
    proof (rule list_all2_mono[OF segments])
      fix ps b assume "exact_groups m k ps b"
      then have "length (members v (batch_pairs b)) = min k (length (members v ps))"
        using complete_members[of m k ps b v] by (simp add: best_of_def)
      then show "members v ps = [] \<longleftrightarrow> members v (batch_pairs b) = []" using k by (metis length_0_conv min_0L min_0R min_def neq0_conv)
    qed
    then show ?thesis by (induction rule: list_all2_induct) (auto simp: members_concat)
  qed
  then have "fst ` set (concat pss) = fst ` set (concat (map batch_pairs batches))" using members_Nil by blast
  then show ?thesis
    using exact merged_members[OF segments num] by (simp add: exact_groups_def)
qed

text \<open>
  C39: Merging complete segments is exact. When every segment reports all of its groups, each with its
  \<open>TopKPerGroup\<close> best documents, \<open>MergeGroupResults\<close> returns the \<open>GroupCount\<close> best groups of the whole
  collection, each with its best documents over all segments.
\<close>

theorem merge_complete_groups:
  assumes "map_order_ok order" and "0 < gcount" and "0 < k" and "\<forall>p\<in>set (concat pss). numeric (snd p)"
    and "list_all2 (exact_groups m (nat k)) pss batches"
  shows "\<exists>groups. exact_groups m (nat k) (concat pss) groups
    \<and> best_of (group_better m) (nat gcount) groups (MergeGroupResults order m gcount k batches)"
proof -
  have pos: "0 < nat k" using assms(3) by simp
  have num: "\<forall>p\<in>set (concat (map batch_pairs batches)). numeric (snd p)"
    using complete_pairs[OF assms(5)] assms(4) by blast
  obtain groups where "exact_groups m (nat k) (concat (map batch_pairs batches)) groups"
      "best_of (group_better m) (nat gcount) groups
        (groupAccumulator_finish order gcount (add_all (concat (map batch_pairs batches)) (newGroupAccumulator m k)))"
    using finish_exact(1)[OF assms(1-3) num] by blast
  then show ?thesis
    using merged_exact[OF pos assms(5,4)] assms(2,3) by (auto simp: MergeGroupResults_def fold_batches Let_def)
qed


subsection \<open>Truncated segments\<close>

text \<open>
  Two segments of one-dimensional documents under L2 with query 0: document 1 of group x in the first,
  documents 2 of group y and 3 of group x in the second, in this order of distance. The scores are those of
  the portable kernels over the ring of bit patterns.
\<close>

definition segment_index :: "(u64 \<times> f32) list \<Rightarrow> DenseFlatIndex" where
  "segment_index docs = \<lparr>fiDimension = 1, fiMetric = MetricL2, fiFP16 = False, fiKeys = map fst docs, fiVectors = map snd docs,
     fiVectorsFP16 = [], fiChunks = None, fiRows = None, fiMagnitudes = [], fiPositions = map_of (zip (map fst docs) [0..<length docs])\<rparr>"

definition sample_order :: map_order where
  "sample_order m = filter (\<lambda>v. m v \<noteq> None) [''y'', ''x'']"

definition sample_resolve :: "u64 \<Rightarrow> string option" where
  "sample_resolve key = Some (if key = 2 then ''y'' else ''x'')"

definition sample_group_options :: GroupByOptions where
  "sample_group_options = \<lparr>goGroupCount = 1, goTopKPerGroup = 2, goRadius = 0, goFilter = None, goResolve = Some sample_resolve\<rparr>"

abbreviation sample_groups :: "(u64 \<times> f32) list \<Rightarrow> error + GroupResult list" where
  "sample_groups docs \<equiv> fst (DenseFlatIndex_SearchGroups (scalar_flat_kernels ring_ops) sample_order Ctx [0] sample_group_options (segment_index docs) calm)"

definition segment_searcher :: "(u64 \<times> f32) list \<Rightarrow> (f32 list) group_searcher" where
  "segment_searcher docs = \<lparr>gsMetric = MetricL2, gsSearch = \<lambda>query opts out.
     out = fst (DenseFlatIndex_SearchGroups (scalar_flat_kernels ring_ops) sample_order Ctx query opts (segment_index docs) calm)\<rparr>"

text \<open>
  Every segment is asked for the best \<open>GroupCount\<close> groups only, and these are merged: with \<open>GroupCount\<close> 1 and
  \<open>TopKPerGroup\<close> 2, group x wins with documents 1 and 3 when one index holds the three documents, but every
  query over the two segments that answers lacks document 3, which its segment dropped because group y was
  better there.
\<close>

lemma segmented_groups_lose_documents:
  assumes "errgroup_ok eg" "0 < procs"
    and out: "QueryDenseGroups eg procs sample_order Ctx MetricL2
      [Some (segment_searcher [(1, 1)]), Some (segment_searcher [(2, 2), (3, 3)])] [0] sample_group_options workers calm (Inr rs)"
  shows "rs = [\<lparr>grValue = ''x'', grResults = [\<lparr>rsKey = 1, rsScore = 1\<rparr>]\<rparr>]
    \<and> sample_groups [(1, 1), (2, 2), (3, 3)]
       = Inr [\<lparr>grValue = ''x'', grResults = [\<lparr>rsKey = 1, rsScore = 1\<rparr>, \<lparr>rsKey = 3, rsScore = 9\<rparr>]\<rparr>]"
proof -
  let ?ss = "[Some (segment_searcher [(1, 1)]), Some (segment_searcher [(2, 2), (3, 3)])]"
  let ?x = "[\<lparr>grValue = ''x'', grResults = [\<lparr>rsKey = 1, rsScore = 1\<rparr>]\<rparr>]"
  let ?y = "[\<lparr>grValue = ''y'', grResults = [\<lparr>rsKey = 2, rsScore = 4\<rparr>]\<rparr>]"
  let ?task = "group_task ''nil dense group searcher'' ''metric %d does not match group-by metric %d'' MetricL2 ?ss [0] sample_group_options"
  obtain batches where run: "ParallelFor eg procs (int (length ?ss)) workers (Some (store_result ?task)) (replicate (length ?ss) []) (None, batches)"
    and rs: "rs = MergeGroupResults sample_order MetricL2 1 2 batches"
    using out by (auto simp: QueryDenseGroups_def sample_group_options_def split: if_splits prod.splits option.splits)
  have groups: "sample_groups [(1, 1)] = Inr ?x" "sample_groups [(2, 2), (3, 3)] = Inr ?y"
    "MergeGroupResults sample_order MetricL2 1 2 [?x, ?y] = ?x"
    "sample_groups [(1, 1), (2, 2), (3, 3)]
       = Inr [\<lparr>grValue = ''x'', grResults = [\<lparr>rsKey = 1, rsScore = 1\<rparr>, \<lparr>rsKey = 3, rsScore = 9\<rparr>]\<rparr>]"
    by code_simp+
  have len: "length batches = 2" and tasks: "?task 0 (Inr (batches ! 0))" "?task 1 (Inr (batches ! 1))"
    using parallel_collects[OF assms(1,2) run] by simp_all
  have "batches ! 0 = ?x" "batches ! 1 = ?y"
    using tasks groups(1,2) by (simp_all add: group_task_def segment_searcher_def)
  then have "batches = [?x, ?y]" using len by (intro nth_equalityI) (auto simp: less_2_cases_iff)
  then show ?thesis using rs groups(3,4) by simp
qed


subsection \<open>Witnesses\<close>

definition ascending :: map_order where "ascending m = sorted_list_of_set (dom m)"
definition descending :: map_order where "descending m = rev (sorted_list_of_set (dom m))"

lemma map_orders_ok: "map_order_ok ascending" "map_order_ok descending"
  by (simp_all add: map_order_ok_def ascending_def descending_def)

lemma sample_flat_pairs: "flat_group_pairs (scalar_flat_kernels ring_ops) sample_flat [11, 21] sample_group_options
    = [(''x'', \<lparr>rsKey = 7, rsScore = 2\<rparr>), (''x'', \<lparr>rsKey = 5, rsScore = 1\<rparr>), (''x'', \<lparr>rsKey = 9, rsScore = 722\<rparr>)]"
  by code_simp

theorem group_search_exact_witness:
  "\<exists>groups out env'. DenseFlatIndex_SearchGroups (scalar_flat_kernels ring_ops) ascending Ctx [11, 21] sample_group_options sample_flat calm = (Inr out, env')
    \<and> DenseFlatIndex_SearchGroups (scalar_flat_kernels ring_ops) descending Ctx [11, 21] sample_group_options sample_flat calm = (Inr out, env')
    \<and> exact_groups MetricL2 2 [(''x'', \<lparr>rsKey = 7, rsScore = 2\<rparr>), (''x'', \<lparr>rsKey = 5, rsScore = 1\<rparr>), (''x'', \<lparr>rsKey = 9, rsScore = 722\<rparr>)] groups
    \<and> best_of (group_better MetricL2) 1 groups out"
proof -
  have "ValidateDense [11, 21] 2 = None" "GroupByOptions_Validate sample_group_options = None"
      "list_all (\<lambda>p. numeric (snd p)) (flat_group_pairs (scalar_flat_kernels ring_ops) sample_flat [11, 21] sample_group_options)"
    by code_simp+
  moreover have "fiDimension sample_flat = 2" "fiMetric sample_flat = MetricL2" "\<not> fiFP16 sample_flat"
      "goTopKPerGroup sample_group_options = 2" "goGroupCount sample_group_options = 1"
    by (simp_all add: sample_flat_def sample_group_options_def)
  ultimately show ?thesis
    using group_search_exact[where ctx = Ctx and env = calm and kn = "scalar_flat_kernels ring_ops" and i = sample_flat
        and query = "[11, 21]" and opts = sample_group_options, OF _ _ sample_flat_ok _ _ _ map_orders_ok]
    unfolding sample_flat_pairs list_all_iff by simp
qed

definition sample_parts :: "(string \<times> Result) list list" where
  "sample_parts = [[(''x'', \<lparr>rsKey = 1, rsScore = 1\<rparr>)], [(''y'', \<lparr>rsKey = 2, rsScore = 4\<rparr>), (''x'', \<lparr>rsKey = 3, rsScore = 9\<rparr>)]]"

definition sample_batches :: "GroupResult list list" where
  "sample_batches = [[\<lparr>grValue = ''x'', grResults = [\<lparr>rsKey = 1, rsScore = 1\<rparr>]\<rparr>],
     [\<lparr>grValue = ''y'', grResults = [\<lparr>rsKey = 2, rsScore = 4\<rparr>]\<rparr>, \<lparr>grValue = ''x'', grResults = [\<lparr>rsKey = 3, rsScore = 9\<rparr>]\<rparr>]]"

theorem merge_complete_groups_witness:
  "\<exists>groups. exact_groups MetricL2 2 (concat sample_parts) groups
    \<and> best_of (group_better MetricL2) 1 groups (MergeGroupResults ascending MetricL2 1 2 sample_batches)"
proof -
  have "list_all (\<lambda>p. numeric (snd p)) (concat sample_parts)" by code_simp
  moreover have "list_all2 (exact_groups MetricL2 2) sample_parts sample_batches"
    by (auto simp: sample_parts_def sample_batches_def exact_groups_def best_of_def members_def)
  ultimately show ?thesis
    using merge_complete_groups[OF map_orders_ok(1), of 1 2 sample_parts MetricL2 sample_batches] by (simp add: list_all_iff)
qed

end
