(* ===== verification/Int_Kernels.thy ===== *)
theory Int_Kernels
  imports Batch_Kernels
begin

unbundle bit_operations_syntax

text \<open>
  The integer kernels of \<^verbatim>\<open>src/internal/ailego/math/distance.go\<close> and
  \<^verbatim>\<open>src/internal/ailego/math_batch/distance.go\<close> on signed INT8 codes and packed signed INT4 codes, with
  \<open>int64\<close> as 64-bit words: the accumulators wrap, and the theorems say when they do not.
\<close>

type_synonym i64 = "64 word"

subsection \<open>INT8\<close>

definition innerProductInt8Scalar :: "bytes \<Rightarrow> bytes \<Rightarrow> i64 option" where
  "innerProductInt8Scalar left right = pair_loop (\<lambda>s value other. s + scast value * scast other) left 0 right 0"

definition InnerProductInt8 :: "bytes \<Rightarrow> bytes \<Rightarrow> i64 option" where
  "InnerProductInt8 left right = innerProductInt8Scalar left right"

subsection \<open>Packed INT4\<close>

text \<open>\<open>int64((nibble ^ 8) - 8)\<close> with \<open>nibble := int8(value & 0x0f)\<close>.\<close>

definition decodeInt4 :: "u8 \<Rightarrow> i64" where
  "decodeInt4 value = (let nibble = value AND 0x0f in scast ((nibble XOR 8) - 8))"

definition innerProductInt4Scalar :: "bytes \<Rightarrow> bytes \<Rightarrow> i64 option" where
  "innerProductInt4Scalar left right =
     pair_loop (\<lambda>s packedLeft packedRight.
       let s = s + decodeInt4 packedLeft * decodeInt4 packedRight in
       s + decodeInt4 (drop_bit 4 packedLeft) * decodeInt4 (drop_bit 4 packedRight)) left 0 right 0"

definition squaredEuclideanInt4Scalar :: "bytes \<Rightarrow> bytes \<Rightarrow> i64 option" where
  "squaredEuclideanInt4Scalar left right =
     pair_loop (\<lambda>s packedLeft packedRight.
       let lowDifference = decodeInt4 packedLeft - decodeInt4 packedRight;
           highDifference = decodeInt4 (drop_bit 4 packedLeft) - decodeInt4 (drop_bit 4 packedRight) in
       s + (lowDifference * lowDifference + highDifference * highDifference)) left 0 right 0"

definition dot_norms_nibble :: "i64 \<times> i64 \<times> i64 \<Rightarrow> i64 \<Rightarrow> i64 \<Rightarrow> i64 \<times> i64 \<times> i64" where
  "dot_norms_nibble s leftValue rightValue =
     (case s of (dot, leftNorm, rightNorm) \<Rightarrow>
        (dot + leftValue * rightValue, leftNorm + leftValue * leftValue, rightNorm + rightValue * rightValue))"

definition dotNormsInt4Scalar :: "bytes \<Rightarrow> bytes \<Rightarrow> (i64 \<times> i64 \<times> i64) option" where
  "dotNormsInt4Scalar left right =
     pair_loop (\<lambda>s packedLeft packedRight.
       fold (\<lambda>shift s. dot_norms_nibble s (decodeInt4 (drop_bit shift packedLeft)) (decodeInt4 (drop_bit shift packedRight)))
         [0, 4] s) left 0 right (0, 0, 0)"

definition InnerProductInt4 :: "bytes \<Rightarrow> bytes \<Rightarrow> i64 option" where
  "InnerProductInt4 left right = innerProductInt4Scalar left right"

definition MinusInnerProductInt4 :: "bytes \<Rightarrow> bytes \<Rightarrow> i64 option" where
  "MinusInnerProductInt4 left right = map_option uminus (innerProductInt4Scalar left right)"

definition L2SquaredInt4 :: "bytes \<Rightarrow> bytes \<Rightarrow> i64 option" where
  "L2SquaredInt4 left right = squaredEuclideanInt4Scalar left right"

definition dotNormsInt4 :: "bytes \<Rightarrow> bytes \<Rightarrow> (i64 \<times> i64 \<times> i64) option" where
  "dotNormsInt4 left right = dotNormsInt4Scalar left right"

subsection \<open>One query against many candidates\<close>

definition decodeInt4Scalar :: "u8 \<Rightarrow> i64" where
  "decodeInt4Scalar value = (let nibble = value AND 0x0f in scast ((nibble XOR 8) - 8))"

definition int4ProductScalar :: "u8 \<Rightarrow> u8 \<Rightarrow> i64" where
  "int4ProductScalar left right =
     decodeInt4Scalar left * decodeInt4Scalar right
     + decodeInt4Scalar (drop_bit 4 left) * decodeInt4Scalar (drop_bit 4 right)"

definition innerProductsInt8Scalar4 :: "bytes \<Rightarrow> bytes \<Rightarrow> bytes \<Rightarrow> bytes \<Rightarrow> bytes \<Rightarrow> (i64 \<times> i64 \<times> i64 \<times> i64) option" where
  "innerProductsInt8Scalar4 query first second third fourth =
     pair_loop4 (\<lambda>s code other. let q = scast code in s + q * scast other) query 0 first second third fourth (0, 0, 0, 0)"

definition innerProductsInt4Scalar4 :: "bytes \<Rightarrow> bytes \<Rightarrow> bytes \<Rightarrow> bytes \<Rightarrow> bytes \<Rightarrow> (i64 \<times> i64 \<times> i64 \<times> i64) option" where
  "innerProductsInt4Scalar4 query first second third fourth =
     pair_loop4 (\<lambda>s packedQuery packed. s + int4ProductScalar packedQuery packed) query 0 first second third fourth (0, 0, 0, 0)"

text \<open>
  Groups of four, then one candidate at a time, each cut to the query's length; a shorter candidate is
  taken to have no spare capacity, so that the slice expression panics.
\<close>

fun int_scores :: "(bytes \<Rightarrow> bytes \<Rightarrow> bytes \<Rightarrow> bytes \<Rightarrow> bytes \<Rightarrow> (i64 \<times> i64 \<times> i64 \<times> i64) option)
    \<Rightarrow> (bytes \<Rightarrow> bytes \<Rightarrow> i64 option) \<Rightarrow> bytes \<Rightarrow> bytes list \<Rightarrow> i64 list option" where
  "int_scores kernel4 single query (a # b # c # d # rest) =
     (case kernel4 query a b c d of
        None \<Rightarrow> None
      | Some (sa, sb, sc, sd) \<Rightarrow> map_option (\<lambda>ss. sa # sb # sc # sd # ss) (int_scores kernel4 single query rest))"
| "int_scores kernel4 single query [] = Some []"
| "int_scores kernel4 single query (a # rest) =
     (if length a < length query then None
      else case single query (take (length query) a) of
        None \<Rightarrow> None
      | Some s \<Rightarrow> map_option ((#) s) (int_scores kernel4 single query rest))"

definition InnerProductsInt8 :: "bytes \<Rightarrow> bytes list \<Rightarrow> i64 list \<Rightarrow> i64 list option" where
  "InnerProductsInt8 query candidates output =
     write_output (int_scores innerProductsInt8Scalar4 InnerProductInt8 query candidates) output"

definition InnerProductsInt4 :: "bytes \<Rightarrow> bytes list \<Rightarrow> i64 list \<Rightarrow> i64 list option" where
  "InnerProductsInt4 query candidates output =
     write_output (int_scores innerProductsInt4Scalar4 InnerProductInt4 query candidates) output"

subsection \<open>Exact sums\<close>

text \<open>The signed value of an INT4 code.\<close>

definition nibble_value :: "u8 \<Rightarrow> int" where
  "nibble_value v = (let n = uint v mod 16 in if n < 8 then n else n - 16)"

lemma decode_table: "list_all (\<lambda>n. sint (scast (((n :: u8) XOR 8) - 8) :: i64) = (let k = uint n in if k < 8 then k else k - 16))
    (map word_of_nat [0..<16])"
  by code_simp

lemma sint_decodeInt4: "sint (decodeInt4 v) = nibble_value v"
proof -
  let ?n = "v AND 0x0f"
  have u: "uint ?n = uint v mod 16"
    using take_bit_eq_mask[of 4 "uint v"] by (simp add: uint_and take_bit_eq_mod mask_eq_exp_minus_1)
  have "unat ?n < 16" using u by (simp add: unat_eq_nat_uint nat_less_iff)
  then have "?n \<in> set (map word_of_nat [0..<16])" by (force intro: image_eqI[of _ _ "unat ?n"])
  from decode_table[unfolded list_all_iff, rule_format, OF this]
  show ?thesis by (simp add: decodeInt4_def nibble_value_def Let_def u)
qed

lemma nibble_bound: "\<bar>nibble_value v\<bar> \<le> 8"
  using pos_mod_bound[of 16 "uint v"] pos_mod_sign[of 16 "uint v"] by (simp add: nibble_value_def Let_def)


text \<open>Accumulating in 64 bits loses nothing while the number of terms times their bound stays below \<open>2^63\<close>.\<close>

lemma sint_range: "- (2 ^ 63) \<le> k \<Longrightarrow> k < 2 ^ 63 \<Longrightarrow> sint (word_of_int k :: i64) = k"
  by (simp add: signed_of_int signed_take_bit_int_eq_self)

lemma of_sint: "word_of_int (sint x) = (x :: 'a :: len word)"
  by (metis scast_eq scast_id)

lemma sum_list_bound: "\<forall>x\<in>set xs. \<bar>g x :: int\<bar> \<le> B \<Longrightarrow> \<bar>sum_list (map g xs)\<bar> \<le> int (length xs) * B"
  by (induction xs) (auto simp: algebra_simps)

lemma accumulate_exact:
  fixes f :: "'p \<Rightarrow> i64"
  assumes "\<And>p. p \<in> set ps \<Longrightarrow> sint (f p) = g p \<and> \<bar>g p\<bar> \<le> B" and "int (length ps) * B < 2 ^ 63"
  shows "sint (fold (\<lambda>p s. s + f p) ps 0) = sum_list (map g ps)"
proof -
  have "f p = word_of_int (g p)" if "p \<in> set ps" for p using assms(1)[OF that] by (metis of_sint)
  then have "fold (\<lambda>p s. s + f p) ps s = s + word_of_int (sum_list (map g ps))" for s
    by (induction ps arbitrary: s) (simp_all add: algebra_simps)
  then show ?thesis
    using sum_list_bound[of ps g B] assms by (simp add: sint_range)
qed

lemma sint_small_product:
  fixes x y :: i64
  assumes "\<bar>sint x\<bar> \<le> 128" "\<bar>sint y\<bar> \<le> 128"
  shows "sint (x * y) = sint x * sint y" "\<bar>sint x * sint y\<bar> \<le> 16384"
proof -
  have b: "\<bar>sint x * sint y\<bar> \<le> 128 * 128" unfolding abs_mult by (rule mult_mono) (use assms in auto)
  then show "\<bar>sint x * sint y\<bar> \<le> 16384" by simp
  have "x * y = word_of_int (sint x * sint y)" by (simp add: of_sint)
  then have "sint (x * y) = sint (word_of_int (sint x * sint y) :: i64)" by (rule arg_cong)
  also have "\<dots> = sint x * sint y" by (rule sint_range) (use b in auto)
  finally show "sint (x * y) = sint x * sint y" .
qed

lemma sint_small_sum:
  fixes x y :: i64
  assumes "\<bar>sint x\<bar> \<le> 2 ^ 32" "\<bar>sint y\<bar> \<le> 2 ^ 32"
  shows "sint (x + y) = sint x + sint y"
proof -
  have "x + y = word_of_int (sint x + sint y)" by (simp add: of_sint)
  then have "sint (x + y) = sint (word_of_int (sint x + sint y) :: i64)" by (rule arg_cong)
  also have "\<dots> = sint x + sint y" by (rule sint_range) (use assms in auto)
  finally show ?thesis .
qed

lemma sint_scast: "sint (scast (v :: u8) :: i64) = sint v" "\<bar>sint v\<bar> \<le> 128"
  using sint_ge[of v] sint_lt[of v] by (simp_all add: sint_up_scast is_up)

text \<open>The reference values.\<close>

definition dot_int8 :: "bytes \<Rightarrow> bytes \<Rightarrow> int" where
  "dot_int8 left right = (\<Sum>(x, y) \<leftarrow> zip left right. sint x * sint y)"

definition unpack :: "bytes \<Rightarrow> int list" where
  "unpack bs = concat (map (\<lambda>v. [nibble_value v, nibble_value (drop_bit 4 v)]) bs)"

definition dot_int4 :: "bytes \<Rightarrow> bytes \<Rightarrow> int" where
  "dot_int4 left right = (\<Sum>(x, y) \<leftarrow> zip (unpack left) (unpack right). x * y)"

definition l2_int4 :: "bytes \<Rightarrow> bytes \<Rightarrow> int" where
  "l2_int4 left right = (\<Sum>(x, y) \<leftarrow> zip (unpack left) (unpack right). (x - y)\<^sup>2)"


subsection \<open>Exactness\<close>

lemma pair_loop_exact:
  fixes f :: "'v \<Rightarrow> 'v \<Rightarrow> i64"
  assumes "length left \<le> length right" and "\<And>x y. sint (f x y) = g x y \<and> \<bar>g x y\<bar> \<le> B" and "int (length left) * B < 2 ^ 63"
  shows "\<exists>r. pair_loop (\<lambda>s x y. s + f x y) left 0 right 0 = Some r \<and> sint r = (\<Sum>(x, y) \<leftarrow> zip left right. g x y)"
proof -
  have "sint (fold (\<lambda>p s. s + f (fst p) (snd p)) (zip left right) 0) = sum_list (map (\<lambda>p. g (fst p) (snd p)) (zip left right))"
    using assms by (intro accumulate_exact[where B = B]) simp_all
  then show ?thesis using assms(1) by (simp add: pair_loop_fold case_prod_beta')
qed

lemma scast_product: "sint (scast (x :: u8) * scast (y :: u8) :: i64) = sint x * sint y \<and> \<bar>sint x * sint y\<bar> \<le> 16384"
  using sint_small_product[of "scast x" "scast y"] sint_scast by auto

lemma decode_product: "sint (decodeInt4 x * decodeInt4 y) = nibble_value x * nibble_value y"
    "\<bar>nibble_value x * nibble_value y\<bar> \<le> 64"
proof -
  show "sint (decodeInt4 x * decodeInt4 y) = nibble_value x * nibble_value y"
    using sint_small_product(1)[of "decodeInt4 x" "decodeInt4 y"] nibble_bound[of x] nibble_bound[of y]
    by (simp add: sint_decodeInt4)
  have "\<bar>nibble_value x * nibble_value y\<bar> \<le> 8 * 8" unfolding abs_mult by (rule mult_mono) (simp_all add: nibble_bound)
  then show "\<bar>nibble_value x * nibble_value y\<bar> \<le> 64" by simp
qed

lemma decode_square: "sint ((decodeInt4 x - decodeInt4 y) * (decodeInt4 x - decodeInt4 y)) = (nibble_value x - nibble_value y)\<^sup>2"
    "\<bar>(nibble_value x - nibble_value y)\<^sup>2\<bar> \<le> 256"
proof -
  have d: "\<bar>nibble_value x - nibble_value y\<bar> \<le> 16" using nibble_bound[of x] nibble_bound[of y] by arith
  have "decodeInt4 x - decodeInt4 y = word_of_int (nibble_value x - nibble_value y)" by (simp add: of_sint flip: sint_decodeInt4)
  then have "sint (decodeInt4 x - decodeInt4 y) = sint (word_of_int (nibble_value x - nibble_value y) :: i64)" by (rule arg_cong)
  also have "\<dots> = nibble_value x - nibble_value y" by (rule sint_range) (use d in auto)
  finally have s: "sint (decodeInt4 x - decodeInt4 y) = nibble_value x - nibble_value y" .
  show "sint ((decodeInt4 x - decodeInt4 y) * (decodeInt4 x - decodeInt4 y)) = (nibble_value x - nibble_value y)\<^sup>2"
    using sint_small_product(1)[of "decodeInt4 x - decodeInt4 y" "decodeInt4 x - decodeInt4 y"] d by (simp add: s power2_eq_square)
  have "\<bar>(nibble_value x - nibble_value y) * (nibble_value x - nibble_value y)\<bar> \<le> 16 * 16"
    unfolding abs_mult by (rule mult_mono) (use d in auto)
  then show "\<bar>(nibble_value x - nibble_value y)\<^sup>2\<bar> \<le> 256" by (simp add: power2_eq_square)
qed

lemma zip_unpack: "length left = length right \<Longrightarrow>
    (\<Sum>(x, y) \<leftarrow> zip (unpack left) (unpack right). h x y)
  = (\<Sum>(x, y) \<leftarrow> zip left right. h (nibble_value x) (nibble_value y) + h (nibble_value (drop_bit 4 x)) (nibble_value (drop_bit 4 y)))"
  by (induction left right rule: list_induct2) (simp_all add: unpack_def add.assoc)

lemma InnerProductInt8_exact:
  assumes "length left \<le> length right" "length left \<le> 2 ^ 48"
  shows "\<exists>r. InnerProductInt8 left right = Some r \<and> sint r = dot_int8 left right"
  unfolding InnerProductInt8_def innerProductInt8Scalar_def dot_int8_def
  using pair_loop_exact[OF assms(1), of "\<lambda>x y. scast x * scast y" _ 16384] scast_product assms(2) by simp

lemma InnerProductInt4_exact:
  assumes "length left = length right" "length left \<le> 2 ^ 48"
  shows "\<exists>r. InnerProductInt4 left right = Some r \<and> sint r = dot_int4 left right"
proof -
  let ?f = "\<lambda>x y. decodeInt4 x * decodeInt4 y + decodeInt4 (drop_bit 4 x) * decodeInt4 (drop_bit 4 y)"
  let ?g = "\<lambda>x y. nibble_value x * nibble_value y + nibble_value (drop_bit 4 x) * nibble_value (drop_bit 4 y)"
  have "sint (?f x y) = ?g x y \<and> \<bar>?g x y\<bar> \<le> 128" for x y
    using decode_product[of x y] decode_product[of "drop_bit 4 x" "drop_bit 4 y"]
      sint_small_sum[of "decodeInt4 x * decodeInt4 y" "decodeInt4 (drop_bit 4 x) * decodeInt4 (drop_bit 4 y)"] by simp
  then show ?thesis
    using pair_loop_exact[of left right ?f ?g 128] assms zip_unpack[OF assms(1), of "(*)"]
    by (simp add: InnerProductInt4_def innerProductInt4Scalar_def dot_int4_def Let_def add.assoc)
qed

lemma L2SquaredInt4_exact:
  assumes "length left = length right" "length left \<le> 2 ^ 48"
  shows "\<exists>r. L2SquaredInt4 left right = Some r \<and> sint r = l2_int4 left right"
proof -
  let ?d = "\<lambda>x y. (decodeInt4 x - decodeInt4 y) * (decodeInt4 x - decodeInt4 y)"
  let ?f = "\<lambda>x y. ?d x y + ?d (drop_bit 4 x) (drop_bit 4 y)"
  let ?g = "\<lambda>x y. (nibble_value x - nibble_value y)\<^sup>2 + (nibble_value (drop_bit 4 x) - nibble_value (drop_bit 4 y))\<^sup>2"
  have "sint (?f x y) = ?g x y \<and> \<bar>?g x y\<bar> \<le> 512" for x y
    using decode_square[of x y] decode_square[of "drop_bit 4 x" "drop_bit 4 y"]
      sint_small_sum[of "?d x y" "?d (drop_bit 4 x) (drop_bit 4 y)"] by simp
  then show ?thesis
    using pair_loop_exact[of left right ?f ?g 512] assms zip_unpack[OF assms(1), of "\<lambda>x y. (x - y)\<^sup>2"]
    by (simp add: L2SquaredInt4_def squaredEuclideanInt4Scalar_def l2_int4_def Let_def)
qed


subsection \<open>Batches\<close>

lemma int_scores_those:
  assumes "\<And>a b c d. kernel4 q a b c d = (case (single q a, single q b, single q c, single q d) of
          (Some x, Some y, Some z, Some w) \<Rightarrow> Some (x, y, z, w) | _ \<Rightarrow> None)"
    and "\<And>a. length q \<le> length a \<Longrightarrow> single q (take (length q) a) = single q a"
    and "\<forall>v\<in>set cs. length q \<le> length v"
  shows "int_scores kernel4 single q cs = those (map (single q) cs)"
  using assms
  by (induction kernel4 single q cs rule: int_scores.induct) (auto simp: option.map_comp comp_def split: option.splits)

lemma pair_loop_take:
  assumes "length left \<le> length right"
  shows "pair_loop step left 0 (take (length left) right) s = pair_loop step left 0 right s"
proof -
  have "zip left (take (length left) right) = zip left right"
    using assms by (intro nth_equalityI) simp_all
  then show ?thesis using assms by (simp add: pair_loop_fold)
qed

text \<open>Every batch of products whose single products are exact is exact.\<close>

lemma int_batch_exact:
  assumes scores: "int_scores kernel4 single q cs = those (map (single q) cs)"
    and exact: "\<And>v. v \<in> set cs \<Longrightarrow> \<exists>r. single q v = Some r \<and> sint r = ref q v"
    and room: "length cs \<le> length output"
  shows "\<exists>ss. write_output (int_scores kernel4 single q cs) output = Some (ss @ drop (length cs) output)
    \<and> map sint ss = map (ref q) cs"
proof -
  obtain ss where ss: "map (single q) cs = map Some ss" using map_returns[of cs "single q"] exact by blast
  have len: "length ss = length cs" using arg_cong[OF ss, of length] by simp
  have "sint (ss ! p) = ref q (cs ! p)" if "p < length cs" for p
    using arg_cong[OF ss, of "\<lambda>xs. xs ! p"] exact[of "cs ! p"] that len by auto
  then have "map sint ss = map (ref q) cs" using len by (intro nth_equalityI) simp_all
  moreover have "those (map (single q) cs) = Some ss" by (simp add: those_Some ss)
  ultimately show ?thesis using len room by (simp add: scores write_output_def)
qed

text \<open>
  C37: The integer kernels are exact. For codes of up to \<open>2^48\<close> bytes no 64-bit accumulator overflows:
  \<open>InnerProductsInt8\<close> and \<open>InnerProductsInt4\<close> write the mathematical dot product of the signed codes for
  every candidate, and \<open>L2SquaredInt4\<close> returns their squared distance.
\<close>

theorem int_kernels_exact:
  assumes "\<forall>v\<in>set cs. length v = length query" and "length query \<le> 2 ^ 48" and "length cs \<le> length output"
  shows "(\<exists>products. InnerProductsInt8 query cs output = Some (products @ drop (length cs) output)
           \<and> map sint products = map (dot_int8 query) cs)
       \<and> (\<exists>products. InnerProductsInt4 query cs output = Some (products @ drop (length cs) output)
           \<and> map sint products = map (dot_int4 query) cs)
       \<and> (\<forall>v\<in>set cs. \<exists>r. L2SquaredInt4 query v = Some r \<and> sint r = l2_int4 query v)"
proof -
  have int8: "int_scores innerProductsInt8Scalar4 InnerProductInt8 query cs = those (map (InnerProductInt8 query) cs)"
    by (rule int_scores_those)
      (use assms(1) in \<open>simp_all add: innerProductsInt8Scalar4_def InnerProductInt8_def innerProductInt8Scalar_def
        pair_loop4_single pair_loop_take Let_def\<close>)
  have int4: "int_scores innerProductsInt4Scalar4 InnerProductInt4 query cs = those (map (InnerProductInt4 query) cs)"
    by (rule int_scores_those)
      (use assms(1) in \<open>simp_all add: innerProductsInt4Scalar4_def InnerProductInt4_def innerProductInt4Scalar_def
        int4ProductScalar_def decodeInt4Scalar_def decodeInt4_def pair_loop4_single pair_loop_take Let_def add.assoc\<close>)
  show ?thesis
    unfolding InnerProductsInt8_def InnerProductsInt4_def
    using int_batch_exact[OF int8 _ assms(3), of dot_int8] int_batch_exact[OF int4 _ assms(3), of dot_int4]
      InnerProductInt8_exact[of query] InnerProductInt4_exact[of query] L2SquaredInt4_exact[of query] assms(1,2) by simp
qed

theorem int_kernels_exact_witness:
  "(\<exists>products. InnerProductsInt8 [0x80, 0x7f] [[0x80, 0x80]] [0] = Some products \<and> map sint products = [128])
     \<and> dot_int8 [0x80, 0x7f] [0x80, 0x80] = 128"
proof -
  have d: "dot_int8 [0x80, 0x7f] [0x80, 0x80] = 128" by code_simp
  then show ?thesis using int_kernels_exact[of "[[0x80, 0x80]]" "[0x80, 0x7f]" "[0]"] by simp
qed

end
