(* ===== verification/Bitmap.thy ===== *)
theory Bitmap
  imports Prelude
begin

unbundle bit_operations_syntax

text \<open>
  The compressed bitmap of \<^verbatim>\<open>src/internal/ailego/container/bitmap.go\<close>: up to two IDs inline and in order, more in
  a Roaring bitmap, which is a parameter. Panics of the runtime and of the code are values. The inline array
  of two with its size is the list of its used part.
\<close>

subsection \<open>Roaring bitmaps\<close>

record 'r roaring =
  rbNew :: 'r
  rbAddMany :: "u64 list \<Rightarrow> 'r \<Rightarrow> 'r"
  rbCheckedAdd :: "u64 \<Rightarrow> 'r \<Rightarrow> bool \<times> 'r"
  rbCheckedRemove :: "u64 \<Rightarrow> 'r \<Rightarrow> bool \<times> 'r"
  rbContains :: "'r \<Rightarrow> u64 \<Rightarrow> bool"
  rbGetCardinality :: "'r \<Rightarrow> u64"
  rbIsEmpty :: "'r \<Rightarrow> bool"
  rbMaximum :: "'r \<Rightarrow> u64"
  rbIterator :: "'r \<Rightarrow> u64 list"
  rbOr :: "'r \<Rightarrow> 'r \<Rightarrow> 'r"
  rbAnd :: "'r \<Rightarrow> 'r \<Rightarrow> 'r"
  rbAndNot :: "'r \<Rightarrow> 'r \<Rightarrow> 'r"

subsection \<open>Contents\<close>

record 'r bitmapContents =
  bcLarge :: "'r option"
  bcSmall :: "u64 list"

definition contents_empty :: "'r bitmapContents" where
  "contents_empty = \<lparr>bcLarge = None, bcSmall = []\<rparr>"

definition bc_contains :: "'r roaring \<Rightarrow> 'r bitmapContents \<Rightarrow> u64 \<Rightarrow> bool" where
  "bc_contains rb c bt =
     (case bcLarge c of Some large \<Rightarrow> rbContains rb large bt | None \<Rightarrow> list_ex (\<lambda>v. v = bt) (bcSmall c))"

definition bc_count :: "'r roaring \<Rightarrow> 'r bitmapContents \<Rightarrow> u64" where
  "bc_count rb c = (case bcLarge c of Some large \<Rightarrow> rbGetCardinality rb large | None \<Rightarrow> of_nat (length (bcSmall c)))"

definition bc_within :: "'r roaring \<Rightarrow> 'r bitmapContents \<Rightarrow> u64 \<Rightarrow> bool" where
  "bc_within rb c bitCount =
     (case bcLarge c of
        Some large \<Rightarrow> rbIsEmpty rb large \<or> (0 < bitCount \<and> rbMaximum rb large < bitCount)
      | None \<Rightarrow> length (bcSmall c) = 0 \<or> bcSmall c ! (length (bcSmall c) - 1) < bitCount)"

definition promote :: "'r roaring \<Rightarrow> 'r bitmapContents \<Rightarrow> 'r bitmapContents" where
  "promote rb c =
     (case bcLarge c of
        None \<Rightarrow> \<lparr>bcLarge = Some (rbAddMany rb (bcSmall c) (rbNew rb)), bcSmall = []\<rparr>
      | Some _ \<Rightarrow> c)"

text \<open>The loop moves the larger IDs one place to the right and stops at the place of the new one.\<close>

fun insert_place :: "u64 list \<Rightarrow> u64 \<Rightarrow> nat \<Rightarrow> nat" where
  "insert_place small bt 0 = 0"
| "insert_place small bt (Suc pos) = (if bt < small ! pos then insert_place small bt pos else Suc pos)"

definition checked_add :: "'r roaring \<Rightarrow> u64 \<Rightarrow> 'r \<Rightarrow> 'r bitmapContents \<Rightarrow> bool \<times> 'r bitmapContents" where
  "checked_add rb bt large c = (case rbCheckedAdd rb bt large of (added, large) \<Rightarrow> (added, c\<lparr>bcLarge := Some large\<rparr>))"

definition bc_add :: "'r roaring \<Rightarrow> u64 \<Rightarrow> 'r bitmapContents \<Rightarrow> bool \<times> 'r bitmapContents" where
  "bc_add rb bt c =
     (case bcLarge c of
        Some large \<Rightarrow> checked_add rb bt large c
      | None \<Rightarrow>
          if bc_contains rb c bt then (False, c)
          else if length (bcSmall c) = 2 then
            let c = promote rb c in checked_add rb bt (the (bcLarge c)) c
          else
            let pos = insert_place (bcSmall c) bt (length (bcSmall c)) in
            (True, c\<lparr>bcSmall := take pos (bcSmall c) @ bt # drop pos (bcSmall c)\<rparr>))"

definition bc_remove :: "'r roaring \<Rightarrow> u64 \<Rightarrow> 'r bitmapContents \<Rightarrow> bool \<times> 'r bitmapContents" where
  "bc_remove rb bt c =
     (case bcLarge c of
        Some large \<Rightarrow> (case rbCheckedRemove rb bt large of (removed, large) \<Rightarrow> (removed, c\<lparr>bcLarge := Some large\<rparr>))
      | None \<Rightarrow>
          if list_ex (\<lambda>v. v = bt) (bcSmall c) then (True, c\<lparr>bcSmall := remove1 bt (bcSmall c)\<rparr>) else (False, c))"

text \<open>
  The IDs \<open>rangeBits\<close> offers, in order, and the visit of them by a callback over a state of its own, which
  may stop it.
\<close>

definition rangeBits :: "'r roaring \<Rightarrow> 'r bitmapContents \<Rightarrow> u64 list" where
  "rangeBits rb c = (case bcLarge c of None \<Rightarrow> bcSmall c | Some large \<Rightarrow> rbIterator rb large)"

fun visit_bits :: "(u64 \<Rightarrow> 's \<Rightarrow> bool \<times> 's) \<Rightarrow> u64 list \<Rightarrow> 's \<Rightarrow> 's" where
  "visit_bits yield [] s = s"
| "visit_bits yield (v # vs) s = (case yield v s of (go_on, s) \<Rightarrow> if go_on then visit_bits yield vs s else s)"

definition add_bits :: "'r roaring \<Rightarrow> u64 list \<Rightarrow> 'r bitmapContents \<Rightarrow> 'r bitmapContents" where
  "add_bits rb bits c = fold (\<lambda>v c. snd (bc_add rb v c)) bits c"

definition bc_or :: "'r roaring \<Rightarrow> 'r bitmapContents \<Rightarrow> 'r bitmapContents \<Rightarrow> 'r bitmapContents" where
  "bc_or rb other c =
     (case bcLarge other of
        None \<Rightarrow> add_bits rb (bcSmall other) c
      | Some large \<Rightarrow>
          if rbIsEmpty rb large then c
          else let c = promote rb c in c\<lparr>bcLarge := Some (rbOr rb (the (bcLarge c)) large)\<rparr>)"

definition bc_and :: "'r roaring \<Rightarrow> 'r bitmapContents \<Rightarrow> 'r bitmapContents \<Rightarrow> 'r bitmapContents" where
  "bc_and rb other c =
     (case (bcLarge c, bcLarge other) of
        (Some l, Some l') \<Rightarrow> c\<lparr>bcLarge := Some (rbAnd rb l l')\<rparr>
      | (None, _) \<Rightarrow> add_bits rb (filter (bc_contains rb other) (bcSmall c)) contents_empty
      | (Some _, None) \<Rightarrow> add_bits rb (filter (bc_contains rb c) (bcSmall other)) contents_empty)"

definition bc_andNot :: "'r roaring \<Rightarrow> 'r bitmapContents \<Rightarrow> 'r bitmapContents \<Rightarrow> 'r bitmapContents" where
  "bc_andNot rb other c =
     (case (bcLarge c, bcLarge other) of
        (Some l, Some l') \<Rightarrow> c\<lparr>bcLarge := Some (rbAndNot rb l l')\<rparr>
      | (_, None) \<Rightarrow> fold (\<lambda>v c. snd (bc_remove rb v c)) (bcSmall other) c
      | (None, Some _) \<Rightarrow> add_bits rb (filter (\<lambda>v. \<not> bc_contains rb other v) (bcSmall c)) contents_empty)"

subsection \<open>Bitmaps\<close>

record 'r Bitmap =
  bmContents :: "'r bitmapContents"
  bmLogicalWords :: nat

definition bitmapMaxInt :: nat where "bitmapMaxInt = 2 ^ 63 - 1"

definition wordsForBits :: "u64 \<Rightarrow> string + nat" where
  "wordsForBits bitCount =
     (if bitCount = 0 then Inr 0
      else
        let wordCount = (bitCount - 1) div 64 + 1 in
        if of_nat bitmapMaxInt < wordCount then Inl ''ailego: bitmap exceeds addressable memory'' else Inr (unat wordCount))"

definition bitmapWordIndex :: "u64 \<Rightarrow> string + nat" where
  "bitmapWordIndex bt =
     (let word = drop_bit 6 bt in
      if of_nat bitmapMaxInt \<le> word then Inl ''ailego: bitmap index exceeds addressable memory'' else Inr (unat word))"

definition NewBitmap :: "u64 \<Rightarrow> string + 'r Bitmap" where
  "NewBitmap bitCount =
     (case wordsForBits bitCount of
        Inl panic \<Rightarrow> Inl panic
      | Inr words \<Rightarrow> Inr \<lparr>bmContents = contents_empty, bmLogicalWords = words\<rparr>)"

definition Bitmap_Set :: "'r roaring \<Rightarrow> u64 \<Rightarrow> 'r Bitmap \<Rightarrow> string + (bool \<times> 'r Bitmap)" where
  "Bitmap_Set rb bt b =
     (case bitmapWordIndex bt of
        Inl panic \<Rightarrow> Inl panic
      | Inr word \<Rightarrow>
          (case bc_add rb bt (bmContents b) of
             (added, contents) \<Rightarrow>
               Inr (added, b\<lparr>bmContents := contents, bmLogicalWords := max (bmLogicalWords b) (word + 1)\<rparr>)))"

definition Bitmap_Clear :: "'r roaring \<Rightarrow> u64 \<Rightarrow> 'r Bitmap \<Rightarrow> string + (bool \<times> 'r Bitmap)" where
  "Bitmap_Clear rb bt b =
     (case bitmapWordIndex bt of
        Inl panic \<Rightarrow> Inl panic
      | Inr _ \<Rightarrow> (case bc_remove rb bt (bmContents b) of (removed, contents) \<Rightarrow> Inr (removed, b\<lparr>bmContents := contents\<rparr>)))"

definition Bitmap_Contains :: "'r roaring \<Rightarrow> u64 \<Rightarrow> 'r Bitmap \<Rightarrow> string + bool" where
  "Bitmap_Contains rb bt b =
     (case bitmapWordIndex bt of Inl panic \<Rightarrow> Inl panic | Inr _ \<Rightarrow> Inr (bc_contains rb (bmContents b) bt))"

definition Bitmap_Count :: "'r roaring \<Rightarrow> 'r Bitmap \<Rightarrow> u64" where
  "Bitmap_Count rb b = bc_count rb (bmContents b)"

text \<open>
  Setting the bits of the IDs in an array of words; an ID beyond the array is an index panic.
\<close>

fun set_words :: "u64 list \<Rightarrow> u64 list \<Rightarrow> string + u64 list" where
  "set_words [] words = Inr words"
| "set_words (bt # bits) words =
     (case bitmapWordIndex bt of
        Inl panic \<Rightarrow> Inl panic
      | Inr word \<Rightarrow>
          if length words \<le> word then Inl ''index out of range''
          else set_words bits (words[word := words ! word OR push_bit (unat (bt AND 63)) 1]))"

definition snapshotWords :: "'r roaring \<Rightarrow> nat \<Rightarrow> 'r Bitmap \<Rightarrow> string + u64 list" where
  "snapshotWords rb wordCount b =
     (if wordCount = 0 then Inr [] else set_words (rangeBits rb (bmContents b)) (replicate wordCount 0))"

definition Bitmap_Snapshot :: "'r roaring \<Rightarrow> 'r Bitmap \<Rightarrow> string + u64 list" where
  "Bitmap_Snapshot rb b = snapshotWords rb (bmLogicalWords b) b"

definition Bitmap_SnapshotWithin :: "'r roaring \<Rightarrow> u64 \<Rightarrow> 'r Bitmap \<Rightarrow> string + (u64 list \<times> bool)" where
  "Bitmap_SnapshotWithin rb bitCount b =
     (if \<not> bc_within rb (bmContents b) bitCount then Inr ([], False)
      else case wordsForBits bitCount of
        Inl panic \<Rightarrow> Inl panic
      | Inr words \<Rightarrow>
          (case snapshotWords rb (min (bmLogicalWords b) words) b of Inl panic \<Rightarrow> Inl panic | Inr ws \<Rightarrow> Inr (ws, True)))"

text \<open>The loop over the set bits of one word, lowest first.\<close>

fun word_bits :: "nat \<Rightarrow> u64 \<Rightarrow> nat list" where
  "word_bits 0 w = []"
| "word_bits (Suc n) w = (if w = 0 then [] else
     (let low = hd (filter (bit w) [0..<64]) in low # word_bits n (w AND (w - 1))))"

definition Bitmap_AppendWords :: "'r roaring \<Rightarrow> u64 list \<Rightarrow> 'r Bitmap \<Rightarrow> string + 'r Bitmap" where
  "Bitmap_AppendWords rb words b =
     (if bitmapMaxInt - bmLogicalWords b < length words \<or> 2 ^ 58 < bmLogicalWords b + length words
      then Inl ''ailego: bitmap exceeds addressable memory''
      else
        let bits = concat (map (\<lambda>(offset, word). map (\<lambda>p. of_nat (bmLogicalWords b + offset) * 64 + of_nat p) (word_bits 64 word))
                     (enumerate 0 words)) in
        Inr (b\<lparr>bmContents := add_bits rb bits (bmContents b), bmLogicalWords := bmLogicalWords b + length words\<rparr>))"

text \<open>
  In the binary operations the other bitmap is another one than the receiver, or nil; on the receiver itself \<open>Or\<close>
  and \<open>And\<close> return at once and \<open>AndNot\<close> is \<open>Bitmap_AndNot_self\<close>.
\<close>

definition Bitmap_Or :: "'r roaring \<Rightarrow> 'r Bitmap option \<Rightarrow> 'r Bitmap \<Rightarrow> 'r Bitmap" where
  "Bitmap_Or rb other b =
     (case other of
        None \<Rightarrow> b
      | Some other \<Rightarrow>
          b\<lparr>bmContents := bc_or rb (bmContents other) (bmContents b), bmLogicalWords := max (bmLogicalWords b) (bmLogicalWords other)\<rparr>)"

definition Bitmap_And :: "'r roaring \<Rightarrow> 'r Bitmap option \<Rightarrow> 'r Bitmap \<Rightarrow> 'r Bitmap" where
  "Bitmap_And rb other b =
     (let contents = (case other of None \<Rightarrow> contents_empty | Some other \<Rightarrow> bmContents other) in
      b\<lparr>bmContents := bc_and rb contents (bmContents b)\<rparr>)"

definition Bitmap_AndNot :: "'r roaring \<Rightarrow> 'r Bitmap option \<Rightarrow> 'r Bitmap \<Rightarrow> 'r Bitmap" where
  "Bitmap_AndNot rb other b =
     (case other of None \<Rightarrow> b | Some other \<Rightarrow> b\<lparr>bmContents := bc_andNot rb (bmContents other) (bmContents b)\<rparr>)"

definition Bitmap_AndNot_self :: "'r Bitmap \<Rightarrow> 'r Bitmap" where
  "Bitmap_AndNot_self b = b\<lparr>bmContents := contents_empty\<rparr>"

definition Bitmap_Range :: "'r roaring \<Rightarrow> (u64 \<Rightarrow> 's \<Rightarrow> bool \<times> 's) option \<Rightarrow> 'r Bitmap \<Rightarrow> 's \<Rightarrow> 's" where
  "Bitmap_Range rb yield b s =
     (case yield of None \<Rightarrow> s | Some yield \<Rightarrow> visit_bits yield (rangeBits rb (bmContents b)) s)"

subsection \<open>Frozen bitmaps\<close>

record 'r FrozenBitmap =
  fbContents :: "'r bitmapContents"
  fbLogicalWords :: nat

definition Bitmap_Freeze :: "'r Bitmap \<Rightarrow> 'r FrozenBitmap" where
  "Bitmap_Freeze b = \<lparr>fbContents = bmContents b, fbLogicalWords = bmLogicalWords b\<rparr>"

definition FrozenBitmap_Contains :: "'r roaring \<Rightarrow> u64 \<Rightarrow> 'r FrozenBitmap \<Rightarrow> string + bool" where
  "FrozenBitmap_Contains rb bt b =
     (case bitmapWordIndex bt of Inl panic \<Rightarrow> Inl panic | Inr _ \<Rightarrow> Inr (bc_contains rb (fbContents b) bt))"

definition FrozenBitmap_Count :: "'r roaring \<Rightarrow> 'r FrozenBitmap \<Rightarrow> u64" where
  "FrozenBitmap_Count rb b = bc_count rb (fbContents b)"

definition FrozenBitmap_Within :: "'r roaring \<Rightarrow> u64 \<Rightarrow> 'r FrozenBitmap \<Rightarrow> bool" where
  "FrozenBitmap_Within rb bitCount b = bc_within rb (fbContents b) bitCount"

definition FrozenBitmap_Range :: "'r roaring \<Rightarrow> (u64 \<Rightarrow> 's \<Rightarrow> bool \<times> 's) option \<Rightarrow> 'r FrozenBitmap \<Rightarrow> 's \<Rightarrow> 's" where
  "FrozenBitmap_Range rb yield b s =
     (case yield of None \<Rightarrow> s | Some yield \<Rightarrow> visit_bits yield (rangeBits rb (fbContents b)) s)"

definition Bitmap_OrFrozen :: "'r roaring \<Rightarrow> 'r FrozenBitmap option \<Rightarrow> 'r Bitmap \<Rightarrow> 'r Bitmap" where
  "Bitmap_OrFrozen rb other b =
     (case other of
        None \<Rightarrow> b
      | Some other \<Rightarrow>
          b\<lparr>bmContents := bc_or rb (fbContents other) (bmContents b), bmLogicalWords := max (bmLogicalWords b) (fbLogicalWords other)\<rparr>)"

end
