(* ===== verification/Bitmap_Properties.thy ===== *)
theory Bitmap_Properties
  imports Bitmap
begin

unbundle bit_operations_syntax

text \<open>
  A bitmap is a finite set of IDs: every operation is the set operation of its name, whichever of the two
  representations holds the IDs, no operation panics on a bitmap that the operations produced, and the dense
  snapshot has exactly the bits of the set.
\<close>

definition bits_of :: "'r roaring \<Rightarrow> 'r bitmapContents \<Rightarrow> u64 set" where
  "bits_of rb c = set (rangeBits rb c)"

definition contents_ok :: "'r bitmapContents \<Rightarrow> bool" where
  "contents_ok c \<longleftrightarrow> (if bcLarge c = None then sorted_wrt (<) (bcSmall c) \<and> length (bcSmall c) \<le> 2 else bcSmall c = [])"

lemma contents_cases:
  assumes "contents_ok c"
  obtains r where "c = \<lparr>bcLarge = Some r, bcSmall = []\<rparr>" | "c = \<lparr>bcLarge = None, bcSmall = []\<rparr>"
    | a where "c = \<lparr>bcLarge = None, bcSmall = [a]\<rparr>" | a b where "c = \<lparr>bcLarge = None, bcSmall = [a, b]\<rparr>" "a < b"
proof (cases c)
  case (fields large small)
  show thesis
  proof (cases large)
    case (Some r)
    then show ?thesis using assms fields that(1) by (simp add: contents_ok_def)
  next
    case None
    then have "sorted_wrt (<) small" "length small \<le> 2" using assms fields by (simp_all add: contents_ok_def)
    moreover have "small = [] \<or> (\<exists>a. small = [a]) \<or> (\<exists>a b. small = [a, b])" if "length small \<le> 2"
      using that by (cases small; cases "tl small") auto
    ultimately show ?thesis using fields None that(2-4) by fastforce
  qed
qed

text \<open>Word indices of 64-bit IDs are far below the limit, so the guards never panic.\<close>

lemma unat_div64: "unat (x div 64 :: u64) = unat x div 64" "unat x div 64 < 2 ^ 58"
proof -
  show "unat (x div 64 :: u64) = unat x div 64" by (simp add: unat_div)
  have "unat x < 2 ^ 64" using unsigned_less [of x, where ?'a = nat] by simp
  then show "unat x div 64 < 2 ^ 58" by (simp add: less_mult_imp_div_less)
qed

lemma word_index: "bitmapWordIndex x = Inr (unat (drop_bit 6 x))"
proof -
  have "drop_bit 6 x = x div 64" by (simp add: drop_bit_eq_div)
  then have "unat (drop_bit 6 x) < 2 ^ 58" using unat_div64 by metis
  then have "\<not> (of_nat bitmapMaxInt \<le> drop_bit 6 x)" by (simp add: word_le_nat_alt bitmapMaxInt_def)
  then show ?thesis by (simp add: bitmapWordIndex_def Let_def)
qed

lemma words_for_bits: "\<exists>n. wordsForBits c = Inr n \<and> n \<le> 2 ^ 58"
proof (cases "c = 0")
  case False
  let ?d = "(c - 1) div 64"
  have d: "unat ?d < 2 ^ 58" using unat_div64[of "c - 1"] by simp
  then have "unat (?d + 1) = unat ?d + 1" by (simp add: unat_word_ariths)
  moreover from this have "\<not> (of_nat bitmapMaxInt < ?d + 1)" using d by (simp add: word_less_nat_alt bitmapMaxInt_def)
  ultimately show ?thesis using False d by (simp add: wordsForBits_def Let_def)
qed (simp add: wordsForBits_def)

lemma bit_set_one: "k < 64 \<Longrightarrow> bit (w OR push_bit j 1 :: u64) k \<longleftrightarrow> bit w k \<or> j = k"
  unfolding bit_or_iff bit_push_bit_iff by (auto simp: bit_1_iff)

lemma set_words_bits:
  "\<forall>x\<in>set bs. unat (drop_bit 6 x) < length ws \<Longrightarrow>
   \<exists>ws'. set_words bs ws = Inr ws' \<and> length ws' = length ws
     \<and> (\<forall>w<length ws. \<forall>k<64. bit (ws' ! w) k \<longleftrightarrow> bit (ws ! w) k \<or> (\<exists>x\<in>set bs. unat (drop_bit 6 x) = w \<and> unat (x AND 63) = k))"
proof (induction bs arbitrary: ws)
  case (Cons x bs)
  let ?w = "unat (drop_bit 6 x)"
  let ?ws = "ws[?w := ws ! ?w OR push_bit (unat (x AND 63)) 1]"
  obtain ws' where ws': "set_words bs ?ws = Inr ws'" "length ws' = length ws"
      "\<And>w k. w < length ws \<Longrightarrow> k < 64 \<Longrightarrow> bit (ws' ! w) k \<longleftrightarrow> bit (?ws ! w) k \<or> (\<exists>x\<in>set bs. unat (drop_bit 6 x) = w \<and> unat (x AND 63) = k)"
    using Cons.IH[of ?ws] Cons.prems by auto
  have "bit (?ws ! w) k \<longleftrightarrow> bit (ws ! w) k \<or> (?w = w \<and> unat (x AND 63) = k)" if "w < length ws" "k < 64" for w k
    using that bit_set_one[OF that(2)] by (cases "?w = w") auto
  then show ?case using ws' Cons.prems by (intro exI[of _ ws']) (auto simp: word_index)
qed simp

text \<open>
  What the documentation of the Roaring package promises of its bitmaps: they are finite sets of IDs, iterated
  in ascending order.
\<close>

definition roaring_ok :: "'r roaring \<Rightarrow> bool" where
  "roaring_ok rb \<longleftrightarrow>
     rbIterator rb (rbNew rb) = []
     \<and> (\<forall>r. sorted_wrt (<) (rbIterator rb r))
     \<and> (\<forall>bs r. set (rbIterator rb (rbAddMany rb bs r)) = set bs \<union> set (rbIterator rb r))
     \<and> (\<forall>x r added r'. rbCheckedAdd rb x r = (added, r') \<longrightarrow>
          added = (x \<notin> set (rbIterator rb r)) \<and> set (rbIterator rb r') = insert x (set (rbIterator rb r)))
     \<and> (\<forall>x r removed r'. rbCheckedRemove rb x r = (removed, r') \<longrightarrow>
          removed = (x \<in> set (rbIterator rb r)) \<and> set (rbIterator rb r') = set (rbIterator rb r) - {x})
     \<and> (\<forall>r x. rbContains rb r x \<longleftrightarrow> x \<in> set (rbIterator rb r))
     \<and> (\<forall>r. rbGetCardinality rb r = of_nat (length (rbIterator rb r)))
     \<and> (\<forall>r. rbIsEmpty rb r \<longleftrightarrow> rbIterator rb r = [])
     \<and> (\<forall>r. rbIterator rb r \<noteq> [] \<longrightarrow> rbMaximum rb r = last (rbIterator rb r))
     \<and> (\<forall>r r'. set (rbIterator rb (rbOr rb r r')) = set (rbIterator rb r) \<union> set (rbIterator rb r'))
     \<and> (\<forall>r r'. set (rbIterator rb (rbAnd rb r r')) = set (rbIterator rb r) \<inter> set (rbIterator rb r'))
     \<and> (\<forall>r r'. set (rbIterator rb (rbAndNot rb r r')) = set (rbIterator rb r) - set (rbIterator rb r'))"

lemma roaring_laws:
  assumes "roaring_ok rb"
  shows iterator_new: "rbIterator rb (rbNew rb) = []"
    and iterator_sorted: "sorted_wrt (<) (rbIterator rb r)"
    and add_many: "set (rbIterator rb (rbAddMany rb bs r)) = set bs \<union> set (rbIterator rb r)"
    and checked_add_set: "rbCheckedAdd rb x r = (added, r') \<Longrightarrow>
      added = (x \<notin> set (rbIterator rb r)) \<and> set (rbIterator rb r') = insert x (set (rbIterator rb r))"
    and checked_remove: "rbCheckedRemove rb x r = (removed, r') \<Longrightarrow>
      removed = (x \<in> set (rbIterator rb r)) \<and> set (rbIterator rb r') = set (rbIterator rb r) - {x}"
    and roaring_contains: "rbContains rb r x \<longleftrightarrow> x \<in> set (rbIterator rb r)"
    and cardinality: "rbGetCardinality rb r = of_nat (length (rbIterator rb r))"
    and roaring_empty: "rbIsEmpty rb r \<longleftrightarrow> rbIterator rb r = []"
    and maximum: "rbIterator rb r \<noteq> [] \<Longrightarrow> rbMaximum rb r = last (rbIterator rb r)"
    and roaring_union: "set (rbIterator rb (rbOr rb r r')) = set (rbIterator rb r) \<union> set (rbIterator rb r')"
    and roaring_inter: "set (rbIterator rb (rbAnd rb r r')) = set (rbIterator rb r) \<inter> set (rbIterator rb r')"
    and roaring_diff: "set (rbIterator rb (rbAndNot rb r r')) = set (rbIterator rb r) - set (rbIterator rb r')"
  using assms by (simp_all add: roaring_ok_def)

lemma bits_empty [simp]: "bits_of rb contents_empty = {}" "contents_ok contents_empty"
  by (simp_all add: bits_of_def rangeBits_def contents_empty_def contents_ok_def)

lemma bc_contains_iff:
  assumes rb: "roaring_ok rb"
  shows "bc_contains rb c x \<longleftrightarrow> x \<in> bits_of rb c"
  by (auto simp: bc_contains_def bits_of_def rangeBits_def roaring_contains[OF rb] list_ex_iff split: option.splits)

lemma bc_count_card:
  assumes ok: "contents_ok c" and rb: "roaring_ok rb"
  shows "bc_count rb c = of_nat (card (bits_of rb c))"
proof -
  have "sorted_wrt (<) (rangeBits rb c)" using ok iterator_sorted[OF rb] by (auto simp: rangeBits_def contents_ok_def split: option.splits)
  then have "distinct (rangeBits rb c)" by (simp add: strict_sorted_iff)
  then show ?thesis by (auto simp: bc_count_def bits_of_def rangeBits_def cardinality[OF rb] distinct_card split: option.splits)
qed

lemma bc_within_iff:
  assumes ok: "contents_ok c" and rb: "roaring_ok rb"
  shows "bc_within rb c n \<longleftrightarrow> (\<forall>x\<in>bits_of rb c. x < n)"
proof -
  have srt: "sorted_wrt (<) (rangeBits rb c)" using ok iterator_sorted[OF rb] by (auto simp: rangeBits_def contents_ok_def split: option.splits)
  have lst: "(\<forall>x\<in>set xs. x < n) \<longleftrightarrow> last xs < n" if "sorted_wrt (<) xs" "xs \<noteq> []" for xs :: "u64 list"
    using that by (induction xs) (auto dest: order.strict_trans)
  show ?thesis
  proof (cases "rangeBits rb c = []")
    case True
    then show ?thesis by (auto simp: bc_within_def bits_of_def rangeBits_def roaring_empty[OF rb] split: option.splits)
  next
    case False
    have "last (rangeBits rb c) < n \<Longrightarrow> 0 < n" by (metis word_gt_0 word_not_simps(1))
    then show ?thesis using lst[OF srt False] False
      by (auto simp: bc_within_def bits_of_def rangeBits_def roaring_empty[OF rb] maximum[OF rb] last_conv_nth split: option.splits)
  qed
qed

lemma promote_ok:
  assumes "contents_ok c" and rb: "roaring_ok rb"
  shows "contents_ok (promote rb c) \<and> bits_of rb (promote rb c) = bits_of rb c \<and> bcLarge (promote rb c) \<noteq> None"
  using assms(1) by (auto simp: promote_def contents_ok_def bits_of_def rangeBits_def add_many[OF rb] iterator_new[OF rb] split: option.splits)

lemma bc_add_set:
  assumes "contents_ok c" "bc_add rb x c = (added, c')" and rb: "roaring_ok rb"
  shows "contents_ok c' \<and> bits_of rb c' = insert x (bits_of rb c) \<and> added = (x \<notin> bits_of rb c)"
  using assms(1)
proof (cases rule: contents_cases)
  case (1 r)
  obtain ok r' where "rbCheckedAdd rb x r = (ok, r')" by fastforce
  then show ?thesis using assms(2) checked_add_set[OF rb] 1
    by (auto simp: bc_add_def checked_add_def bits_of_def rangeBits_def contents_ok_def)
next
  case 2
  then show ?thesis using assms(2) by (auto simp: bc_add_def bc_contains_def bits_of_def rangeBits_def contents_ok_def)
next
  case (3 a)
  then show ?thesis using assms(2)
    by (auto simp: bc_add_def bc_contains_def bits_of_def rangeBits_def contents_ok_def Let_def split: if_splits)
next
  case (4 a b)
  let ?r = "rbAddMany rb [a, b] (rbNew rb)"
  obtain ok r' where r': "rbCheckedAdd rb x ?r = (ok, r')" by fastforce
  then have "ok = (x \<notin> {a, b})" "set (rbIterator rb r') = insert x {a, b}"
    using checked_add_set[OF rb r'] by (auto simp: add_many[OF rb] iterator_new[OF rb])
  note r'_set = this
  have bits: "bits_of rb c = {a, b}" using 4 by (simp add: bits_of_def rangeBits_def)
  show ?thesis
  proof (cases "x \<in> {a, b}")
    case True
    then have "added = False" "c' = c" using assms(2) 4(1) by (auto simp: bc_add_def bc_contains_def)
    then show ?thesis using True bits assms(1) by auto
  next
    case False
    then have "bc_add rb x c = (ok, \<lparr>bcLarge = Some r', bcSmall = []\<rparr>)"
      using 4(1) r' by (auto simp: bc_add_def bc_contains_def promote_def checked_add_def)
    then have "added = ok" "c' = \<lparr>bcLarge = Some r', bcSmall = []\<rparr>" using assms(2) by simp_all
    then show ?thesis using False bits r'_set by (simp add: bits_of_def rangeBits_def contents_ok_def)
  qed
qed

lemma bc_remove_set:
  assumes "contents_ok c" "bc_remove rb x c = (removed, c')" and rb: "roaring_ok rb"
  shows "contents_ok c' \<and> bits_of rb c' = bits_of rb c - {x} \<and> removed = (x \<in> bits_of rb c)"
  using assms(1)
proof (cases rule: contents_cases)
  case (1 r)
  obtain ok r' where "rbCheckedRemove rb x r = (ok, r')" by fastforce
  then show ?thesis using assms(2) checked_remove[OF rb] 1
    by (auto simp: bc_remove_def bits_of_def rangeBits_def contents_ok_def)
qed (use assms(2) in \<open>auto simp: bc_remove_def bits_of_def rangeBits_def contents_ok_def split: if_splits\<close>)

lemma add_bits_set: "contents_ok c \<Longrightarrow> roaring_ok rb \<Longrightarrow> contents_ok (add_bits rb xs c) \<and> bits_of rb (add_bits rb xs c) = set xs \<union> bits_of rb c"
proof (induction xs arbitrary: c)
  case (Cons x xs)
  obtain ok c' where c': "bc_add rb x c = (ok, c')" by fastforce
  then show ?case using Cons.IH[of c'] Cons.prems(2) bc_add_set[OF Cons.prems(1) c' Cons.prems(2)] by (auto simp: add_bits_def)
qed (simp add: add_bits_def)

lemma remove_bits_set:
  "contents_ok c \<Longrightarrow> roaring_ok rb \<Longrightarrow> contents_ok (fold (\<lambda>v c. snd (bc_remove rb v c)) xs c)
     \<and> bits_of rb (fold (\<lambda>v c. snd (bc_remove rb v c)) xs c) = bits_of rb c - set xs"
proof (induction xs arbitrary: c)
  case (Cons x xs)
  obtain ok c' where c': "bc_remove rb x c = (ok, c')" by fastforce
  then show ?case using Cons.IH[of c'] Cons.prems(2) bc_remove_set[OF Cons.prems(1) c' Cons.prems(2)] by auto
qed simp

lemma small_bits: "bcLarge c = None \<Longrightarrow> bits_of rb c = set (bcSmall c)"
  by (simp add: bits_of_def rangeBits_def)

lemma bc_or_set:
  assumes "contents_ok c" "contents_ok d" and rb: "roaring_ok rb"
  shows "contents_ok (bc_or rb d c) \<and> bits_of rb (bc_or rb d c) = bits_of rb c \<union> bits_of rb d"
proof (cases "bcLarge d")
  case None
  then show ?thesis using add_bits_set[OF assms(1) rb, of "bcSmall d"] small_bits[OF None] by (auto simp: bc_or_def)
next
  case (Some r)
  obtain l where l: "bcLarge (promote rb c) = Some l" "bcSmall (promote rb c) = []"
    using promote_ok[OF assms(1) rb] by (auto simp: contents_ok_def)
  have "bits_of rb c = set (rbIterator rb l)" using promote_ok[OF assms(1) rb] l by (auto simp: bits_of_def rangeBits_def)
  note bits = this
  have d: "bits_of rb d = set (rbIterator rb r)" using Some by (simp add: bits_of_def rangeBits_def)
  show ?thesis
  proof (cases "rbIsEmpty rb r")
    case True
    then show ?thesis using Some assms(1) d by (simp add: bc_or_def roaring_empty[OF rb])
  next
    case False
    then have "bc_or rb d c = (promote rb c)\<lparr>bcLarge := Some (rbOr rb l r)\<rparr>" using Some l by (simp add: bc_or_def)
    then show ?thesis using l(2) unfolding bits d by (simp add: contents_ok_def roaring_union[OF rb] bits_of_def rangeBits_def)
  qed
qed

lemma bc_and_set:
  assumes "contents_ok c" "contents_ok d" and rb: "roaring_ok rb"
  shows "contents_ok (bc_and rb d c) \<and> bits_of rb (bc_and rb d c) = bits_of rb c \<inter> bits_of rb d"
proof (cases "bcLarge c")
  case None
  then show ?thesis using add_bits_set[OF bits_empty(2) rb] small_bits[OF None]
    by (auto simp: bc_and_def bc_contains_iff[OF rb])
next
  case (Some r)
  show ?thesis
  proof (cases "bcLarge d")
    case None
    then show ?thesis using Some add_bits_set[OF bits_empty(2) rb] small_bits[OF None] by (auto simp: bc_and_def bc_contains_iff[OF rb])
  next
    case (Some r')
    then show ?thesis using \<open>bcLarge c = Some r\<close> assms
      by (auto simp: bc_and_def bits_of_def rangeBits_def contents_ok_def roaring_inter[OF rb])
  qed
qed

lemma bc_andNot_set:
  assumes "contents_ok c" "contents_ok d" and rb: "roaring_ok rb"
  shows "contents_ok (bc_andNot rb d c) \<and> bits_of rb (bc_andNot rb d c) = bits_of rb c - bits_of rb d"
proof (cases "bcLarge d")
  case None
  then show ?thesis using remove_bits_set[OF assms(1) rb, of "bcSmall d"] small_bits[OF None]
    by (auto simp: bc_andNot_def split: option.splits)
next
  case (Some r)
  show ?thesis
  proof (cases "bcLarge c")
    case None
    then show ?thesis using Some add_bits_set[OF bits_empty(2) rb] small_bits[OF None] by (auto simp: bc_andNot_def bc_contains_iff[OF rb])
  next
    case (Some r')
    then show ?thesis using \<open>bcLarge d = Some r\<close> assms
      by (auto simp: bc_andNot_def bits_of_def rangeBits_def contents_ok_def roaring_diff[OF rb])
  qed
qed


subsection \<open>Bitmaps\<close>

lemma clear_set:
  assumes "contents_ok (bmContents b)" and rb: "roaring_ok rb"
  shows "\<exists>b'. Bitmap_Clear rb x b = Inr (x \<in> bits_of rb (bmContents b), b') \<and> contents_ok (bmContents b')
    \<and> bits_of rb (bmContents b') = bits_of rb (bmContents b) - {x} \<and> bmLogicalWords b' = bmLogicalWords b"
proof -
  obtain ok c' where c': "bc_remove rb x (bmContents b) = (ok, c')" by fastforce
  then show ?thesis using bc_remove_set[OF assms(1) c' rb] by (simp add: Bitmap_Clear_def word_index)
qed

lemma set_set:
  assumes "contents_ok (bmContents b)" and rb: "roaring_ok rb"
  shows "\<exists>b'. Bitmap_Set rb x b = Inr (x \<notin> bits_of rb (bmContents b), b') \<and> contents_ok (bmContents b')
    \<and> bits_of rb (bmContents b') = insert x (bits_of rb (bmContents b))
    \<and> bmLogicalWords b' = max (bmLogicalWords b) (unat (drop_bit 6 x) + 1)"
proof -
  obtain ok c' where c': "bc_add rb x (bmContents b) = (ok, c')" by fastforce
  then show ?thesis using bc_add_set[OF assms(1) c' rb] by (simp add: Bitmap_Set_def word_index)
qed

text \<open>
  The loop of \<open>AppendWords\<close> over a word: clearing the lowest bit leaves the others, so 64 rounds reach every
  set bit, lowest first.
\<close>

lemma clear_lowest:
  assumes "bit (w :: u64) n" "\<forall>k<n. \<not> bit w k"
  shows "bit (w AND (w - 1)) k \<longleftrightarrow> bit w k \<and> k \<noteq> n"
proof -
  let ?u = "unset_bit n w"
  have n: "n < 64" using assms(1) by (simp add: bit_imp_le_length[of w n, simplified])
  have "?u AND push_bit n 1 = 0" by (rule bit_word_eqI) (auto simp: bit_simps)
  then have "?u + push_bit n 1 = ?u OR push_bit n 1" by (simp add: disjunctive_add_eq_or)
  also have "\<dots> = w" using assms(1) n by (intro bit_word_eqI) (auto simp: bit_simps)
  finally have w: "w = ?u + push_bit n 1" by simp
  have "?u AND mask n = 0" using assms(2) by (intro bit_word_eqI) (auto simp: bit_simps)
  then have "?u + mask n = ?u OR mask n" by (simp add: disjunctive_add_eq_or)
  moreover have "w - 1 = ?u + mask n" by (subst w) (simp add: mask_eq_exp_minus_1 push_bit_eq_mult)
  ultimately have "w - 1 = ?u OR mask n" by simp
  then show ?thesis using assms by (auto simp: bit_simps)
qed

lemma word_bits_filter: "length (filter (bit w) [0..<64]) \<le> n \<Longrightarrow> word_bits n w = filter (bit w) [0..<64]"
proof (induction n arbitrary: w)
  case (Suc n)
  show ?case
  proof (cases "filter (bit w) [0..<64]")
    case Nil
    have "w = 0" using Nil by (intro bit_word_eqI) (simp add: filter_empty_conv)
    then show ?thesis by simp
  next
    case (Cons low ks)
    have "distinct (low # ks)" unfolding Cons[symmetric] by simp
    note distinct = this
    have "sorted (low # ks)" unfolding Cons[symmetric] by (simp add: sorted_wrt_filter)
    moreover have bits: "k \<in> set (low # ks) \<longleftrightarrow> k < 64 \<and> bit w k" for k unfolding Cons[symmetric] by auto
    ultimately have low: "bit w low" "\<forall>k<low. \<not> bit w k" by (force dest: bit_imp_le_length)+
    have "filter (bit (w AND (w - 1))) [0..<64] = filter (\<lambda>k. k \<noteq> low) (filter (bit w) [0..<64])"
      unfolding clear_lowest[OF low] by (simp add: conj_commute)
    also have "\<dots> = ks" unfolding Cons using distinct by (auto simp: filter_id_conv)
    finally have "word_bits n (w AND (w - 1)) = ks" using Suc Cons by simp
    moreover have "w \<noteq> 0" using low by auto
    ultimately show ?thesis using Cons by simp
  qed
qed (simp add: filter_empty_conv)

lemma word_bits_exact: "word_bits 64 w = filter (bit w) [0..<64]"
  by (rule word_bits_filter) (rule order_trans[OF length_filter_le], simp)

lemma append_words_bits:
  assumes ok: "contents_ok (bmContents b)" and rb: "roaring_ok rb"
    and room: "bmLogicalWords b + length ws \<le> 2 ^ 58"
  shows "\<exists>b'. Bitmap_AppendWords rb ws b = Inr b' \<and> contents_ok (bmContents b')
    \<and> bmLogicalWords b' = bmLogicalWords b + length ws
    \<and> bits_of rb (bmContents b') = bits_of rb (bmContents b)
        \<union> {of_nat ((bmLogicalWords b + i) * 64 + k) | i k. i < length ws \<and> k < 64 \<and> bit (ws ! i) k}"
proof -
  let ?at = "\<lambda>i p. of_nat (bmLogicalWords b + i) * 64 + of_nat p :: u64"
  let ?xs = "concat (map (\<lambda>(i, w). map (?at i) (word_bits 64 w)) (enumerate 0 ws))"
  have "set (enumerate 0 ws) = (\<lambda>i. (i, ws ! i)) ` {..<length ws}" by (auto simp: in_set_enumerate_eq)
  then have "set ?xs = (\<Union>i<length ws. ?at i ` {k. k < 64 \<and> bit (ws ! i) k})"
    by (simp add: word_bits_exact atLeast0LessThan)
  also have "\<dots> = {of_nat ((bmLogicalWords b + i) * 64 + k) | i k. i < length ws \<and> k < 64 \<and> bit (ws ! i) k}" by force
  finally have "bits_of rb (add_bits rb ?xs (bmContents b)) = bits_of rb (bmContents b)
        \<union> {of_nat ((bmLogicalWords b + i) * 64 + k) | i k. i < length ws \<and> k < 64 \<and> bit (ws ! i) k}"
    using add_bits_set[OF ok rb, of ?xs] by (simp add: Un_commute)
  moreover have "\<not> bitmapMaxInt - bmLogicalWords b < length ws" using room by (simp add: bitmapMaxInt_def)
  ultimately show ?thesis using add_bits_set[OF ok rb, of ?xs] room by (simp add: Bitmap_AppendWords_def)
qed

text \<open>The hypotheses hold of sets kept as lists.\<close>

definition list_roaring :: "u64 list roaring" where
  "list_roaring = \<lparr>rbNew = [], rbAddMany = (@), rbCheckedAdd = \<lambda>x r. (x \<notin> set r, x # r),
     rbCheckedRemove = \<lambda>x r. (x \<in> set r, filter (\<lambda>y. y \<noteq> x) r), rbContains = \<lambda>r x. x \<in> set r,
     rbGetCardinality = \<lambda>r. of_nat (length (sort (remdups r))), rbIsEmpty = \<lambda>r. r = [], rbMaximum = \<lambda>r. last (sort (remdups r)),
     rbIterator = \<lambda>r. sort (remdups r), rbOr = (@), rbAnd = \<lambda>r r'. filter (\<lambda>x. x \<in> set r') r,
     rbAndNot = \<lambda>r r'. filter (\<lambda>x. x \<notin> set r') r\<rparr>"

lemma list_roaring_ok: "roaring_ok list_roaring"
proof -
  have "remdups r = [] \<longleftrightarrow> r = []" for r :: "u64 list" by (cases r) auto
  then have "sort (remdups r) = [] \<longleftrightarrow> r = []" for r :: "u64 list" by (metis set_empty set_sort)
  then show ?thesis by (auto simp: roaring_ok_def list_roaring_def strict_sorted_iff)
qed

subsection \<open>Reachable bitmaps\<close>

text \<open>The bitmaps any sequence of operations produces, with the set each should hold.\<close>

inductive bitmap_reach :: "'r roaring \<Rightarrow> 'r Bitmap \<Rightarrow> u64 set \<Rightarrow> bool" for rb where
  reach_new: "NewBitmap n = Inr b \<Longrightarrow> bitmap_reach rb b {}"
| reach_set: "bitmap_reach rb b S \<Longrightarrow> Bitmap_Set rb x b = Inr (added, b') \<Longrightarrow> bitmap_reach rb b' (insert x S)"
| reach_clear: "bitmap_reach rb b S \<Longrightarrow> Bitmap_Clear rb x b = Inr (removed, b') \<Longrightarrow> bitmap_reach rb b' (S - {x})"
| reach_append: "bitmap_reach rb b S \<Longrightarrow> Bitmap_AppendWords rb ws b = Inr b' \<Longrightarrow> bitmap_reach rb b'
    (S \<union> {of_nat ((bmLogicalWords b + i) * 64 + k) | i k. i < length ws \<and> k < 64 \<and> bit (ws ! i) k})"
| reach_or: "bitmap_reach rb b S \<Longrightarrow> bitmap_reach rb c T \<Longrightarrow> bitmap_reach rb (Bitmap_Or rb (Some c) b) (S \<union> T)"
| reach_or_frozen: "bitmap_reach rb b S \<Longrightarrow> bitmap_reach rb c T \<Longrightarrow>
    bitmap_reach rb (Bitmap_OrFrozen rb (Some (Bitmap_Freeze c)) b) (S \<union> T)"
| reach_and: "bitmap_reach rb b S \<Longrightarrow> bitmap_reach rb c T \<Longrightarrow> bitmap_reach rb (Bitmap_And rb (Some c) b) (S \<inter> T)"
| reach_and_nil: "bitmap_reach rb b S \<Longrightarrow> bitmap_reach rb (Bitmap_And rb None b) {}"
| reach_and_not: "bitmap_reach rb b S \<Longrightarrow> bitmap_reach rb c T \<Longrightarrow> bitmap_reach rb (Bitmap_AndNot rb (Some c) b) (S - T)"
| reach_and_not_self: "bitmap_reach rb b S \<Longrightarrow> bitmap_reach rb (Bitmap_AndNot_self b) {}"

definition bitmap_holds :: "'r roaring \<Rightarrow> 'r Bitmap \<Rightarrow> u64 set \<Rightarrow> bool" where
  "bitmap_holds rb b S \<longleftrightarrow> contents_ok (bmContents b) \<and> bits_of rb (bmContents b) = S
     \<and> bmLogicalWords b \<le> 2 ^ 58 \<and> (\<forall>x\<in>S. unat (drop_bit 6 x) < bmLogicalWords b)"

lemma word_of_bit: "unat (drop_bit 6 x :: u64) = unat x div 64"
  using unat_div64(1)[of x] by (simp add: drop_bit_eq_div)

lemma appended_word:
  assumes "w < 2 ^ 58" "k < 64"
  shows "unat (drop_bit 6 (of_nat (w * 64 + k) :: u64)) = w"
proof -
  have "w * 64 + k < 2 ^ 64" using assms by simp
  then have "unat (of_nat (w * 64 + k) :: u64) = w * 64 + k" by (rule unat_of_nat_u64)
  then show ?thesis using assms(2) by (simp add: word_of_bit)
qed

lemma append_words_room:
  "Bitmap_AppendWords rb ws b = Inr b' \<Longrightarrow> bmLogicalWords b + length ws \<le> 2 ^ 58"
  by (auto simp: Bitmap_AppendWords_def split: if_splits)

lemma reach_holds:
  assumes rb: "roaring_ok rb"
  shows "bitmap_reach rb b S \<Longrightarrow> bitmap_holds rb b S"
proof (induction rule: bitmap_reach.induct)
  case (reach_new n b)
  then show ?case using words_for_bits[of n] by (auto simp: NewBitmap_def bitmap_holds_def)
next
  case (reach_set b S x added b')
  have "unat x div 64 < 2 ^ 58" by (rule unat_div64(2))
  then show ?case using reach_set set_set[of b rb x] rb by (auto simp: bitmap_holds_def word_of_bit)
next
  case (reach_clear b S x removed b')
  then show ?case using clear_set[of b rb x] rb by (auto simp: bitmap_holds_def)
next
  case (reach_append b S ws b')
  have room: "bmLogicalWords b + length ws \<le> 2 ^ 58" using append_words_room reach_append by blast
  have "unat (drop_bit 6 (of_nat ((bmLogicalWords b + i) * 64 + k) :: u64)) = bmLogicalWords b + i" if "i < length ws" "k < 64" for i k
    using appended_word[of "bmLogicalWords b + i" k] that room by linarith
  then show ?case
    using append_words_bits[OF _ rb room, of ] reach_append room by (auto simp: bitmap_holds_def)
next
  case (reach_or b S c T)
  then show ?case using bc_or_set[OF _ _ rb, of "bmContents b" "bmContents c"] by (auto simp: bitmap_holds_def Bitmap_Or_def)
next
  case (reach_or_frozen b S c T)
  then show ?case using bc_or_set[OF _ _ rb, of "bmContents b" "bmContents c"]
    by (auto simp: bitmap_holds_def Bitmap_OrFrozen_def Bitmap_Freeze_def)
next
  case (reach_and b S c T)
  then show ?case using bc_and_set[OF _ _ rb, of "bmContents b" "bmContents c"] by (auto simp: bitmap_holds_def Bitmap_And_def)
next
  case (reach_and_nil b S)
  then show ?case using bc_and_set[OF _ bits_empty(2) rb, of "bmContents b"] by (auto simp: bitmap_holds_def Bitmap_And_def)
next
  case (reach_and_not b S c T)
  then show ?case using bc_andNot_set[OF _ _ rb, of "bmContents b" "bmContents c"] by (auto simp: bitmap_holds_def Bitmap_AndNot_def)
next
  case (reach_and_not_self b S)
  then show ?case by (simp add: bitmap_holds_def Bitmap_AndNot_self_def)
qed

text \<open>Words whose set bits are exactly the IDs of a set.\<close>

definition dense_bits :: "u64 list \<Rightarrow> u64 set \<Rightarrow> bool" where
  "dense_bits ws S \<longleftrightarrow>
     (\<forall>x. x \<in> S \<longleftrightarrow> unat x div 64 < length ws \<and> bit (ws ! (unat x div 64)) (unat x mod 64))"

lemma snapshot_dense:
  assumes "\<forall>x\<in>bits_of rb (bmContents b). unat x div 64 < n"
  shows "\<exists>ws. snapshotWords rb n b = Inr ws \<and> length ws = n \<and> dense_bits ws (bits_of rb (bmContents b))"
proof (cases "n = 0")
  case True
  then show ?thesis using assms by (auto simp: snapshotWords_def dense_bits_def)
next
  case False
  have low: "unat (x AND 63 :: u64) = unat x mod 64" for x
  proof -
    have "x AND 63 = take_bit 6 x" by (simp add: take_bit_eq_mask mask_eq_exp_minus_1)
    then have "x AND 63 = x mod 64" by (simp add: take_bit_eq_mod)
    then show ?thesis by (simp add: unat_mod)
  qed
  have same: "x = y" if "unat x div 64 = unat y div 64" "unat x mod 64 = unat y mod 64" for x y :: u64
    using that by (metis div_mult_mod_eq word_unat_eq_iff)
  obtain ws where ws: "set_words (rangeBits rb (bmContents b)) (replicate n 0) = Inr ws" "length ws = n"
      "\<And>w k. w < n \<Longrightarrow> k < 64 \<Longrightarrow> bit (ws ! w) k \<longleftrightarrow> (\<exists>x\<in>bits_of rb (bmContents b). unat x div 64 = w \<and> unat x mod 64 = k)"
    using set_words_bits[of "rangeBits rb (bmContents b)" "replicate n 0"] assms
    by (auto simp: bits_of_def word_of_bit low)
  have "dense_bits ws (bits_of rb (bmContents b))"
    unfolding dense_bits_def using ws(2,3) assms same by (metis mod_less_divisor zero_less_numeral)
  then show ?thesis using ws False by (simp add: snapshotWords_def)
qed

lemma bits_within_words:
  assumes "wordsForBits n = Inr words" "x < n"
  shows "unat x div 64 < words"
proof -
  have n: "n \<noteq> 0" using assms(2) by auto
  then have "words = unat ((n - 1) div 64 + 1)" using assms(1) by (auto simp: wordsForBits_def Let_def split: if_splits)
  moreover have "unat ((n - 1) div 64) < 2 ^ 58" using unat_div64[of "n - 1"] by simp
  ultimately have "words = unat ((n - 1) div 64) + 1" by (simp add: unat_word_ariths(1))
  then have "words = unat (n - 1) div 64 + 1" by (simp add: unat_div64(1))
  moreover have "unat x \<le> unat (n - 1)" using assms(2) n by (simp add: unat_minus_one word_less_nat_alt)
  ultimately show ?thesis using div_le_mono[of "unat x" "unat (n - 1)" 64] by simp
qed

text \<open>
  C40: A bitmap is a set of 64-bit IDs. Take any bitmap built by \<open>NewBitmap\<close>, \<open>Set\<close>, \<open>Clear\<close>,
  \<open>AppendWords\<close>, \<open>Or\<close>, \<open>OrFrozen\<close>, \<open>And\<close> and \<open>AndNot\<close> in any order, over a Roaring package that implements
  sets, and let \<open>S\<close> be the set the same operations build. Membership, cardinality and the order of iteration are those of
  \<open>S\<close>; \<open>Set\<close> and \<open>Clear\<close> do not panic and report whether they changed \<open>S\<close>; the dense snapshot has one
  word per logical word and exactly the bits of \<open>S\<close>; a snapshot within a bound succeeds exactly when all of \<open>S\<close>
  lies below the bound.
\<close>

theorem bitmap_refines_set:
  assumes "roaring_ok rb" and "bitmap_reach rb b S"
  shows "Bitmap_Contains rb x b = Inr (x \<in> S) \<and> Bitmap_Count rb b = of_nat (card S)
    \<and> rangeBits rb (bmContents b) = sorted_list_of_set S
    \<and> (\<exists>b'. Bitmap_Set rb x b = Inr (x \<notin> S, b')) \<and> (\<exists>b'. Bitmap_Clear rb x b = Inr (x \<in> S, b'))
    \<and> (\<exists>ws. Bitmap_Snapshot rb b = Inr ws \<and> length ws = bmLogicalWords b \<and> dense_bits ws S)
    \<and> (if \<forall>y\<in>S. y < n then \<exists>ws. Bitmap_SnapshotWithin rb n b = Inr (ws, True) \<and> dense_bits ws S
       else Bitmap_SnapshotWithin rb n b = Inr ([], False))"
proof -
  note rb = assms(1)
  have ok: "contents_ok (bmContents b)" and S: "bits_of rb (bmContents b) = S"
    and below: "\<forall>y\<in>S. unat y div 64 < bmLogicalWords b"
    using reach_holds[OF assms] by (simp_all add: bitmap_holds_def word_of_bit)
  have "sorted_wrt (<) (rangeBits rb (bmContents b))"
    using ok iterator_sorted[OF rb] by (auto simp: rangeBits_def contents_ok_def split: option.splits)
  then have order: "rangeBits rb (bmContents b) = sorted_list_of_set S"
    using S by (metis bits_of_def sorted_list_of_set.idem_if_sorted_distinct strict_sorted_iff)
  obtain words where w: "wordsForBits n = Inr words" using words_for_bits by blast
  have "\<exists>ws. Bitmap_SnapshotWithin rb n b = Inr (ws, True) \<and> dense_bits ws S" if "\<forall>y\<in>S. y < n"
  proof -
    have "\<forall>y\<in>S. unat y div 64 < min (bmLogicalWords b) words" using bits_within_words[OF w] that below by simp
    then obtain ws where "snapshotWords rb (min (bmLogicalWords b) words) b = Inr ws" "dense_bits ws S"
      using snapshot_dense[of rb b "min (bmLogicalWords b) words"] S by auto
    then show ?thesis using that bc_within_iff[OF ok rb, of n] S w by (simp add: Bitmap_SnapshotWithin_def)
  qed
  moreover have "Bitmap_SnapshotWithin rb n b = Inr ([], False)" if "\<not> (\<forall>y\<in>S. y < n)"
    using that bc_within_iff[OF ok rb, of n] S by (simp add: Bitmap_SnapshotWithin_def)
  moreover have "Bitmap_Contains rb x b = Inr (x \<in> S)" "Bitmap_Count rb b = of_nat (card S)"
    using bc_contains_iff[OF rb] bc_count_card[OF ok rb] S by (simp_all add: Bitmap_Contains_def word_index Bitmap_Count_def)
  moreover have "\<exists>b'. Bitmap_Set rb x b = Inr (x \<notin> S, b')" "\<exists>b'. Bitmap_Clear rb x b = Inr (x \<in> S, b')"
    using set_set[OF ok rb, of x] clear_set[OF ok rb, of x] S by auto
  moreover have "\<exists>ws. Bitmap_Snapshot rb b = Inr ws \<and> length ws = bmLogicalWords b \<and> dense_bits ws S"
    using snapshot_dense[of rb b "bmLogicalWords b"] S below by (simp add: Bitmap_Snapshot_def)
  ultimately show ?thesis using order by simp
qed

text \<open>Witness: the union of a bitmap with three appended bits and one with a bit far away.\<close>

theorem bitmap_refines_set_witness:
  "\<exists>b0 b1 c1 b. NewBitmap 0 = Inr b0 \<and> Bitmap_AppendWords list_roaring [0xd] b0 = Inr b1
     \<and> Bitmap_Set list_roaring 1000 b0 = Inr (True, c1) \<and> b = Bitmap_Or list_roaring (Some c1) b1
     \<and> Bitmap_Contains list_roaring 3 b = Inr True \<and> Bitmap_Contains list_roaring 1 b = Inr False
     \<and> Bitmap_SnapshotWithin list_roaring 1000 b = Inr ([], False)"
proof -
  let ?b0 = "\<lparr>bmContents = contents_empty, bmLogicalWords = 0\<rparr> :: u64 list Bitmap"
  have b0: "NewBitmap 0 = Inr ?b0" by (simp add: NewBitmap_def wordsForBits_def)
  note r0 = reach_new[OF b0, of list_roaring]
  obtain b1 where b1: "Bitmap_AppendWords list_roaring [0xd] ?b0 = Inr b1"
    using append_words_bits[of ?b0 list_roaring "[0xd]"] list_roaring_ok by auto
  obtain c1 where c1: "Bitmap_Set list_roaring 1000 ?b0 = Inr (True, c1)"
    using bitmap_refines_set[OF list_roaring_ok r0, of 1000 0] by auto
  let ?b = "Bitmap_Or list_roaring (Some c1) b1"
  let ?A = "{of_nat ((0 + i) * 64 + k) | i k. i < length [0xd :: u64] \<and> k < 64 \<and> bit ([0xd] ! i :: u64) k} :: u64 set"
  have reach: "bitmap_reach list_roaring ?b (({} \<union> ?A) \<union> insert 1000 {})"
    using reach_or[OF reach_append[OF r0 b1] reach_set[OF r0 c1]] by simp
  have bits: "bit (0xd :: u64) 3" "\<not> bit (0xd :: u64) 1" by (simp_all add: bit_numeral_simps)
  have "3 \<in> ?A" using bits(1) by (force intro: exI[of _ 0] exI[of _ 3])
  moreover have "1 \<notin> ?A"
  proof
    assume "1 \<in> ?A"
    then obtain k :: nat where k: "(1 :: u64) = of_nat k" "k < 64" "bit (0xd :: u64) k" by auto
    have "unat (of_nat k :: u64) = k" using k(2) by (intro unat_of_nat_u64) simp
    then have "k = 1" unfolding k(1)[symmetric] by simp
    then show False using k(3) bits(2) by simp
  qed
  ultimately have "Bitmap_Contains list_roaring 3 ?b = Inr True" "Bitmap_Contains list_roaring 1 ?b = Inr False"
      "Bitmap_SnapshotWithin list_roaring 1000 ?b = Inr ([], False)"
    using bitmap_refines_set[OF list_roaring_ok reach, of 3 1000] bitmap_refines_set[OF list_roaring_ok reach, of 1 1000] by auto
  then show ?thesis using b0 b1 c1 by blast
qed

end
