(* ===== verification/Sparse_Properties.thy ===== *)
theory Sparse_Properties
  imports Sparse_Index Flat_Properties
begin

unbundle bit_operations_syntax

text \<open>
  The sparse Flat index: the merge of two sparse vectors accumulates the products of the common indices in
  ascending order, what is added is looked up in the compressed rows, and search returns the best results.
\<close>

subsection \<open>The inner product\<close>

text \<open>The reference: the products at the indices both vectors have, in the order of the left one.\<close>

definition common_products :: "sparse_ops \<Rightarrow> (u32 \<times> f32) list \<Rightarrow> (u32 \<times> f32) list \<Rightarrow> f64 \<Rightarrow> f64" where
  "common_products so left right s =
     fold (\<lambda>(i, x) s. case map_of right i of None \<Rightarrow> s | Some y \<Rightarrow> soMulAdd so s x y) left s"

definition ascending :: "(u32 \<times> f32) list \<Rightarrow> bool" where
  "ascending v \<longleftrightarrow> sorted_wrt (\<lambda>a b. fst a < fst b) v"

lemma below_absent: "ascending ((j, y) # right) \<Longrightarrow> i < j \<Longrightarrow> map_of ((j, y) # right) i = None"
  by (auto simp: ascending_def map_of_eq_None_iff dest: order.asym order.strict_trans)

lemma common_products_skip:
  "\<forall>(i, x)\<in>set left. i \<noteq> j \<Longrightarrow> common_products so left ((j, y) # right) s = common_products so left right s"
  by (induction left arbitrary: s) (auto simp: common_products_def)

lemma fold_skip: "fold (\<lambda>(i, x) s. s) xs s = s"
  by (induction xs) auto

lemma sparse_merge_common:
  "ascending left \<Longrightarrow> ascending right \<Longrightarrow> sparse_merge so left right s = common_products so left right s"
proof (induction so left right s rule: sparse_merge.induct)
  case (1 so i x left j y right s)
  have tails: "ascending left" "ascending right" using 1(4,5) by (auto simp: ascending_def)
  have above: "\<forall>(k, z)\<in>set left. i < k" using 1(4) by (auto simp: ascending_def)
  consider "i < j" | "j < i" | "i = j" by fastforce
  then show ?case
  proof cases
    case 1
    then show ?thesis using "1.IH"(1) tails "1.prems" below_absent[OF "1.prems"(2)] by (simp add: common_products_def)
  next
    case 2
    then have "\<not> i < j" "\<forall>(k, z)\<in>set ((i, x) # left). k \<noteq> j" using above by fastforce+
    then show ?thesis using 2 "1.IH"(2) tails "1.prems" common_products_skip[of "(i, x) # left" j so y right s] by simp
  next
    case 3
    then have "\<forall>(k, z)\<in>set left. k \<noteq> j" using above by fastforce
    then show ?thesis using 3 "1.IH"(3) tails common_products_skip[of left j so y right]
      by (simp add: common_products_def)
  qed
qed (simp_all add: common_products_def fold_skip)

lemma validate_pairs_ascending:
  "validate_pairs p v = None \<Longrightarrow> ascending v \<and> (\<forall>a\<in>set v. finite32 (snd a)) \<and> (\<forall>q. p = Some q \<longrightarrow> (\<forall>a\<in>set v. q < fst a))"
proof (induction p v rule: validate_pairs.induct)
  case (2 p i x v)
  then have "ascending v" "\<forall>a\<in>set v. finite32 (snd a)" "\<forall>a\<in>set v. i < fst a" by (auto split: if_splits)
  then show ?case using "2.prems" by (force simp: ascending_def split: if_splits option.splits)
qed (simp add: ascending_def)

lemma sparse_inner_product_common:
  assumes "SparseInnerProduct so left right = Inr score"
  shows "finite32 score \<and> score = soRound so (common_products so (zip (svIndices left) (svValues left)) (zip (svIndices right) (svValues right)) 0)"
proof -
  have valid: "validateSparse left = None" "validateSparse right = None"
    using assms by (auto simp: SparseInnerProduct_def split: option.splits)
  then have "ascending (zip (svIndices left) (svValues left))" "ascending (zip (svIndices right) (svValues right))"
    using validate_pairs_ascending by (auto simp: validateSparse_def split: if_splits)
  then show ?thesis
    using assms valid by (simp add: SparseInnerProduct_def sparse_merge_common finiteScore_def Let_def split: if_splits)
qed

subsection \<open>Adding and looking up\<close>

definition sparse_ok :: "SparseFlatIndex \<Rightarrow> bool" where
  "sparse_ok i \<longleftrightarrow> positions_ok (spKeys i) (spPositions i) \<and> length (spOffsets i) = length (spKeys i) + 1
     \<and> sorted (spOffsets i) \<and> last (spOffsets i) = length (spIndices i) \<and> length (spValues i) = length (spIndices i)"

lemma new_sparse_ok: "NewSparseFlatIndex m = Inr i \<Longrightarrow> sparse_ok i \<and> spKeys i = []"
  by (auto simp: NewSparseFlatIndex_def sparse_ok_def positions_ok_def split: if_splits)

lemma sparse_vector_at: "sparse_ok i \<Longrightarrow> p < length (spKeys i) \<Longrightarrow> SparseFlatIndex_SparseVector i (spKeys i ! p) = Some (sparse_row i p)"
proof -
  assume "sparse_ok i" "p < length (spKeys i)"
  then have "spPositions i (spKeys i ! p) = Some p" by (simp add: sparse_ok_def positions_ok_def)
  then show ?thesis by (simp add: SparseFlatIndex_SparseVector_def)
qed

lemma sparse_add_lookup:
  assumes ok: "sparse_ok i" and add: "AddSparse so ctx key v i env = (err, i', env')"
  shows "sparse_ok i' \<and>
    (case err of
       Some _ \<Rightarrow> i' = i
     | None \<Rightarrow> SparseFlatIndex_SparseVector i key = None \<and> spKeys i' = spKeys i @ [key]
         \<and> SparseFlatIndex_SparseVector i' key = Some v
         \<and> (\<forall>k. k \<noteq> key \<longrightarrow> SparseFlatIndex_SparseVector i' k = SparseFlatIndex_SparseVector i k))"
proof (cases err)
  case (Some e)
  then show ?thesis using ok add by (auto simp: AddSparse_def split: if_splits prod.splits option.splits sum.splits)
next
  case None
  let ?n = "length (spKeys i)" and ?o = "spOffsets i @ [length (spIndices i @ svIndices v)]"
  have key: "spPositions i key = None" and valid: "\<exists>score. SparseInnerProduct so v empty_sparse = Inr score"
    and i': "i' = i\<lparr>spPositions := (spPositions i)(key \<mapsto> ?n), spKeys := spKeys i @ [key],
        spIndices := spIndices i @ svIndices v, spValues := spValues i @ svValues v, spOffsets := ?o\<rparr>"
    using add None by (auto simp: AddSparse_def split: if_splits prod.splits option.splits sum.splits)
  have len: "length (svIndices v) = length (svValues v)"
    using valid by (auto simp: SparseInnerProduct_def validateSparse_def split: if_splits option.splits)
  have o: "length (spOffsets i) = ?n + 1" "sorted (spOffsets i)" "last (spOffsets i) = length (spIndices i)"
      "length (spValues i) = length (spIndices i)" "positions_ok (spKeys i) (spPositions i)"
    using ok by (auto simp: sparse_ok_def)
  have last: "spOffsets i ! ?n = length (spIndices i)" using o(1,3) last_conv_nth[of "spOffsets i"] by force
  have below: "\<forall>q\<in>set (spOffsets i). q \<le> length (spIndices i)"
  proof
    fix q assume "q \<in> set (spOffsets i)"
    then obtain a where "a < length (spOffsets i)" "q = spOffsets i ! a" by (auto simp: in_set_conv_nth)
    then show "q \<le> length (spIndices i)" using sorted_nth_mono[OF o(2), of a ?n] o(1) last by simp
  qed
  have "sparse_ok i'" using o below positions_add[OF o(5) key] len by (auto simp: sparse_ok_def i' sorted_append)
  moreover have "sparse_row i' ?n = v"
    using o(1,4) last len by (simp add: sparse_row_def i' nth_append slice_def)
  moreover have "sparse_row i' p = sparse_row i p" if "p < ?n" for p
  proof -
    have "spOffsets i ! p \<le> length (spIndices i)" "spOffsets i ! (p + 1) \<le> length (spIndices i)" using below o(1) that by simp_all
    then show ?thesis using o(1,4) that by (simp add: sparse_row_def i' nth_append slice_def)
  qed
  moreover have "p < ?n" if "spPositions i k = Some p" for k p using that o(5) by (simp add: positions_ok_def)
  ultimately show ?thesis using None key
    by (auto simp: SparseFlatIndex_SparseVector_def i' split: option.splits)
qed

subsection \<open>Search\<close>

definition sparse_eligible :: "sparse_ops \<Rightarrow> SparseVector \<Rightarrow> SearchOptions \<Rightarrow> (u64 \<times> SparseVector) list \<Rightarrow> Result list" where
  "sparse_eligible so query opts rows =
     filter (\<lambda>r. scoreWithinRadius MetricIP (rsScore r) (soRadius opts))
       (map (\<lambda>(key, row). \<lparr>rsKey = key, rsScore = projr (SparseInnerProduct so row query)\<rparr>)
         (filter (\<lambda>(key, row). \<not> rejects opts key) rows))"

lemma sparse_loop_quiet:
  assumes "quiet env" and "\<forall>(key, row)\<in>set rows. \<not> rejects opts key \<longrightarrow> \<not> isl (SparseInnerProduct so row query)"
  shows "\<exists>env'. sparse_loop so ctx query opts k rows heap env
    = (Inr (fold (offer MetricIP k) (sparse_eligible so query opts rows) heap), env')"
  using assms
proof (induction rows arbitrary: heap env)
  case (Cons r rows)
  obtain key row where r: "r = (key, row)" by fastforce
  obtain env1 where env1: "ctx_Err ctx env = (None, env1)" "quiet env1" using ctx_quietE[OF Cons.prems(1)] by metis
  then have "\<exists>env'. sparse_loop so ctx query opts k rows h env1
      = (Inr (fold (offer MetricIP k) (sparse_eligible so query opts rows) h), env')" for h
    using Cons by simp
  then show ?case using env1 Cons.prems(2) r
    by (cases "SparseInnerProduct so row query") (auto simp: sparse_eligible_def)
qed (simp add: sparse_eligible_def)

lemma length_sparse_eligible: "length (sparse_eligible so query opts rows) \<le> length rows"
  unfolding sparse_eligible_def by (rule order.trans[OF length_filter_le]) simp

lemma sparse_worst: "sparse_worstFirst = worstFirst MetricIP"
  by (auto simp: fun_eq_iff sparse_worstFirst_def worstFirst_def Metric_Better_def f32_lt_def)

lemma finite_numeric: "finite32 s \<Longrightarrow> \<not> f32_nan s"
  by (auto simp: finite32_def f32_nan_def)

lemma sparse_search_exact:
  assumes "ctx \<noteq> NilCtx" "quiet env" "0 < soTopK opts" "SearchOptions_Validate opts = None"
    and query: "SparseInnerProduct so query empty_sparse = Inr q"
    and scores: "\<forall>(key, row)\<in>set (sparse_rows i). \<not> rejects opts key \<longrightarrow> \<not> isl (SparseInnerProduct so row query)"
  shows "\<exists>out env'. searchSparse so ctx query opts positive i env = (Inr out, env')
    \<and> best_of (resultBetter MetricIP) (nat (soTopK opts)) (sparse_eligible so query opts (sparse_rows i)) out"
proof (cases "spKeys i = []")
  case True
  obtain env1 where env1: "ctx_Err ctx env = (None, env1)" using ctx_quietE[OF assms(2)] by metis
  then show ?thesis using True assms by (simp add: searchSparse_def sparse_rows_def sparse_eligible_def best_of_def)
next
  case False
  let ?rs = "sparse_eligible so query opts (sparse_rows i)" and ?n = "length (spKeys i)"
  obtain env1 where env1: "ctx_Err ctx env = (None, env1)" "quiet env1" using ctx_quietE[OF assms(2)] by metis
  have k: "(if int ?n < soTopK opts then int ?n else soTopK opts) = min (soTopK opts) (int ?n)" by auto
  obtain env2 where loop: "sparse_loop so ctx query opts (nat (min (soTopK opts) (int ?n))) (sparse_rows i) (worst_heap MetricIP []) env1
      = (Inr (fold (offer MetricIP (nat (min (soTopK opts) (int ?n)))) ?rs (worst_heap MetricIP [])), env2)"
    using sparse_loop_quiet[OF env1(2) scores] by metis
  have "numeric \<lparr>rsKey = key, rsScore = projr (SparseInnerProduct so row query)\<rparr>" if "\<not> isl (SparseInnerProduct so row query)" for key row
    using that sparse_inner_product_common[of so row query] finite_numeric by (cases "SparseInnerProduct so row query") auto
  then have num: "\<forall>r\<in>set ?rs. numeric r" using scores by (force simp: sparse_eligible_def)
  have "best_of (resultBetter MetricIP) (nat (soTopK opts)) ?rs
      (sorted_results MetricIP (fold (offer MetricIP (nat (min (soTopK opts) (int ?n)))) ?rs (worst_heap MetricIP [])))"
    using bounded_heap_best[OF assms(3) _ _ num, of ?n] False length_sparse_eligible[of so query opts "sparse_rows i"]
    by (simp add: sparse_rows_def)
  then show ?thesis
    using assms(1,3,4) query env1(1) loop False unfolding searchSparse_def k Let_def
    by (simp add: NewHeap_def NewHeapWithCapacity_def sparse_worst)
qed

end
