(* ===== verification/Spec2Isabelle.thy ===== *)
theory Spec2Isabelle
  imports Engine_Refinement State_Check Version_Properties Group_Properties Int_Kernels
    Bitmap_Properties Sparse_Properties
begin

text \<open>
  \<^bold>\<open>xvec: the storage core and exact search\<close>

  xvec is an embedded vector database. A collection is a directory; its durable state is a
  \<^emph>\<open>manifest\<close> named by the file CURRENT, a set of immutable \<^emph>\<open>segments\<close> of documents, a checkpoint of
  the \<^emph>\<open>IDMap\<close> (primary key to document ID), a snapshot of the deleted document IDs and a
  \<^emph>\<open>write-ahead log\<close> (WAL) of the operations since. In memory a \<^emph>\<open>segment manager\<close> holds the segments
  (one of them writable), the IDMap and the deleted set; the \<^emph>\<open>write engine\<close> logs each mutation and
  then applies it; opening a collection replays the log and checks the stores against each other.
  Queries run on indexes of the segments' vectors: a \<^emph>\<open>Flat index\<close> scores every eligible vector with a
  distance kernel and keeps the best in a bounded heap; the answers of the segments, searched in
  parallel, are merged into the answer of the collection.

  \<^bold>\<open>The theories, bottom up\<close>

  \<^item> \<open>Prelude\<close>: bytes, little-endian words, slices, errors as values (sentinels, wrapping and
    \<open>errors.Is\<close>, \<open>errors.Join\<close>), contexts, and the environment whose answers decide whether an
    operating-system call fails and whether a context is cancelled.
  \<^item> \<open>Crc32c\<close> (src/internal/ailego/hash/crc32c.go): the checksum; that it detects any change of one byte.
  \<^item> \<open>Wal\<close>, \<open>Wal_Recovery\<close> (src/internal/db/index/storage/wal/wal.go): the log file, scan, open with
    truncation of an incomplete tail, append, sync, read, replay. Recovery accepts exactly the logs with
    an incomplete tail and returns the appended payloads; synchronized records survive a crash; a
    damaged record is detected.
  \<^item> \<open>Id_Map\<close> (src/internal/db/index/common/id_map.go): the primary-key map over a key-value store,
    its overlay and its snapshot iterator, as a refinement of a finite map.
  \<^item> \<open>Files\<close>, \<open>Snapshot\<close>, \<open>Paths\<close>, \<open>Delete_Store\<close> (file_helper.go, atomic_unix.go, snapshot.go,
    delete_store.go in src/internal/db/index/common): publication of files by temporary name, sync
    and rename, the snapshot envelope, the check of relative paths, the set of deleted documents.
  \<^item> \<open>Decimal\<close>, \<open>Manifest\<close>, \<open>Manifest_Properties\<close> (manifest.go): the manifest, its validation and its
    file; what a validated manifest guarantees.
  \<^item> \<open>Version_Manager\<close>, \<open>Version_Properties\<close> (version_manager.go): the CURRENT pointer, publication
    under a lock, atomicity of publication whatever call fails, detection of stale publishers.
  \<^item> \<open>Segment\<close>, \<open>Segment_Codec\<close> (src/internal/db/index/segment/segment.go): write and immutable
    segments, their file format; decoding is exact, a sealed segment reopens.
  \<^item> \<open>Segment_Manager\<close>, \<open>Manager_Invariant\<close> (segment_manager.go): registration, rotation, binary
    search by document ID; lookups agree with the union of the segments.
  \<^item> \<open>Write_Engine\<close> (src/internal/db/write_engine.go), \<open>Recovery\<close> (the replay and the consistency check
    of src/internal/db/collection.go), \<open>Engine_Recovery\<close>, \<open>Engine_Durability\<close>, \<open>Coherence\<close>,
    \<open>Engine_Refinement\<close>, \<open>State_Check\<close>: the four mutations refine map operations on the contents of
    the collection, and so do the results a batch reports; a crash at any moment recovers a state the engine was in; the consistency check
    accepts exactly the coherent stores.

  \<^bold>\<open>Search\<close>

  \<^item> \<open>Heap\<close>, \<open>Bitmap\<close>, \<open>Bitmap_Properties\<close> (heap.go, bitmap.go in src/internal/ailego/container): the binary
    heap as a multiset whose root is least; the compressed bitmap, which along
    every sequence of operations is a finite set, whichever representation holds the IDs, with its dense
    snapshot and \<open>AppendWords\<close> (\<open>bitmap_refines_set\<close>).
  \<^item> \<open>Float32\<close>, \<open>Float16\<close> (src/internal/ailego/utility/float_helper.go): bit patterns of binary32 and the
    order of their values; both conversions with binary16, which round trip.
  \<^item> \<open>Kernels\<close>, \<open>Batch_Kernels\<close>, \<open>Int_Kernels\<close> (distance.go in src/internal/ailego/math and
    src/internal/ailego/math_batch): the portable kernels. A batch kernel computes for every row
    what the pairwise kernel computes; the INT8 and INT4 accumulators never overflow at the sizes admitted.
  \<^item> \<open>Top_K\<close>, \<open>Top_K_Properties\<close> (topk_result_builder.go, src/internal/core/metric/metric.go): metrics,
    the order of results, the bounded selection and the merge; both return the best k of what they see.
  \<^item> \<open>Parallel\<close> (src/internal/ailego/parallel/thread_pool.go): \<open>ParallelFor\<close> over every interleaving of its
    workers; each index is processed once, and a failure is reported.
  \<^item> \<open>Query_Flow\<close> (src/internal/core/algorithm/index_flow.go): dense, sparse and batch queries over
    segments; with exact segment searches the answer is the best k of the whole collection.
  \<^item> \<open>Flat_Index\<close>, \<open>Flat_Search\<close>, \<open>Flat_Invariant\<close>, \<open>Flat_Properties\<close>, \<open>Sparse_Index\<close>,
    \<open>Sparse_Properties\<close> (src/internal/core/algorithm/flat_algorithm.go): the dense index in its four layouts, its builder
    and its scans, which return the best of the eligible rows whatever the kernels compute, and with the
    portable kernels the same on every path; what is added is looked up, with the magnitude of its row;
    the sparse index likewise, over compressed rows and an inner product that merges two index lists.
  \<^item> \<open>Group_By\<close>, \<open>Group_Properties\<close> (the same file): search for the best documents of the best groups,
    and the merge over segments. The merge is right when the segments report all their groups; with
    truncated answers it loses documents, and \<open>segmented_groups_lose_documents\<close> is an example.

  \<^bold>\<open>Conventions\<close>

  A method is named after its type and its Go name (\<open>WAL_Append\<close>), an operation returns its result
  with the updated state and environment. Loops of the source are recursive functions over the
  remaining work, so no fuel is needed; each terminates by a measure. Machine integers are words of
  their width where the code depends on it. Errors keep the sentinel and the format string of the
  source but not the formatted arguments. Copies made by the code for isolation are identities.
  Locks are not represented: each operation runs atomically under the mutex the code takes. Nil
  receivers cannot be expressed; nil contexts are a case of the context type. Errors of a deferred
  \<open>Close\<close> that the code discards do not occur.

  \<^bold>\<open>Parameters\<close>

  The key-value store Pebble (\<open>pebble\<close>, with the hypotheses \<open>pebble_ok\<close>, \<open>pebble_reliable\<close>), the file
  lock (the outcome of \<open>TryLockContext\<close>), \<open>encoding/json\<close> (\<open>json_codec\<close>), directory listings and
  temporary names are arguments; witnesses instantiate them. So are the rounded operations on floating
  point numbers (\<open>float_ops\<close> with \<open>float_ops_ok\<close>, \<open>sparse_ops\<close>), \<open>errgroup\<close> (\<open>errgroup_ok\<close>), the order in which Go iterates over a map
  (\<open>map_order_ok\<close>) and the Roaring bitmaps (\<open>roaring_ok\<close>). The kernels a Flat index scores with are a variable of the
  package that \<^verbatim>\<open>init\<close> replaces by assembly on amd64: they are an argument (\<open>flat_kernels\<close>) of which the
  exactness of the scans assumes nothing; \<open>scalar_flat_kernels\<close> are the portable ones of the source.

  \<^bold>\<open>Deviations found\<close>

  \<open>portable_path_stays_inside\<close>: the check of relative paths accepts the name \<open>..\<close>.
  \<open>segmented_groups_lose_documents\<close>: a grouped query over segments can drop documents of the winning
  group, because each segment cuts its answer to the number of groups before the merge.

  \<^bold>\<open>Not modelled\<close>

  The graph and cluster indexes promise recall, not a functional result; quantizers, clustering and
  vector transforms are numerical training; the assembly kernels are not Go, and their batched forms round differently from the portable ones; the SQL parser is
  generated; full-text search scores with floating-point BM25, its tokenizers and stemmers are
  generated or data driven; the public API orchestrates goroutines over the modelled core; memory
  mapping is the file's contents; \<open>Checkpoint\<close> and \<open>CreateDetachedSnapshot\<close> of the IDMap copy database
  directories; the benchmark command is a driver.
\<close>

end
